(* ===== verification/Go_Prelude.thy ===== *)
theory Go_Prelude
  imports Main "HOL-Library.Multiset" "HOL-Library.Char_ord" "HOL-Library.List_Lexorder" "HOL-Library.Word"
begin

text \<open>
  The part of the Go language and of its standard library that the components use, and the generic
  lemmas about it: results that may be an error or a nil-pointer panic, 32-bit integers with their
  wrap-around, \<^verbatim>\<open>sort.Sort\<close>, \<^verbatim>\<open>strconv\<close>,
  \<^verbatim>\<open>strings\<close> and string maps that may be nil.

  Collections of this development: \<open>go_simps\<close> for the rewriting of results, \<open>i32_simps\<close> for the
  arithmetic of 32-bit integers.
\<close>

named_theorems go_simps
named_theorems i32_simps

section \<open>Results\<close>

text \<open>
  A call either returns a value, returns an error value (\<^verbatim>\<open>err != nil\<close>) or panics
  (a nil pointer is dereferenced). \<open>go_bind\<close> is the early return
  \<^verbatim>\<open>if err != nil { return err }\<close>; a panic unwinds in the same way.
\<close>

datatype ('e, 'a) go = Ret 'a | Err 'e | Panic

primrec go_bind :: "('e, 'a) go \<Rightarrow> ('a \<Rightarrow> ('e, 'b) go) \<Rightarrow> ('e, 'b) go" where
  "go_bind (Ret x) f = f x"
| "go_bind (Err e) f = Err e"
| "go_bind Panic f = Panic"

definition deref :: "'a option \<Rightarrow> ('e, 'a) go" where
  "deref p = (case p of None \<Rightarrow> Panic | Some x \<Rightarrow> Ret x)"

definition ptr_deref :: "'a option \<Rightarrow> 'a \<Rightarrow> 'a" where
  "ptr_deref p d = (case p of None \<Rightarrow> d | Some x \<Rightarrow> x)"

text \<open>\<^verbatim>\<open>v, _ := f()\<close>: the error is dropped and the zero value of the failed call is used.\<close>

primrec ignore_err :: "'a \<Rightarrow> ('e, 'a) go \<Rightarrow> ('e, 'a) go" where
  "ignore_err d (Ret x) = Ret x"
| "ignore_err d (Err e) = Ret d"
| "ignore_err d Panic = Panic"

section \<open>Stateful calls\<close>

text \<open>
  A function that changes state: the state is returned with every outcome, since an error or a panic
  does not undo what was done before it. \<open>keeps R m\<close> says that \<open>m\<close> changes the state only within the
  relation \<open>R\<close>, whatever its outcome.
\<close>

type_synonym ('s, 'e, 'a) gom = "'s \<Rightarrow> ('e, 'a) go \<times> 's"

definition mret :: "'a \<Rightarrow> ('s, 'e, 'a) gom" where
  "mret x = (\<lambda>s. (Ret x, s))"

definition mlift :: "('e, 'a) go \<Rightarrow> ('s, 'e, 'a) gom" where
  "mlift g = (\<lambda>s. (g, s))"

definition mbind :: "('s, 'e, 'a) gom \<Rightarrow> ('a \<Rightarrow> ('s, 'e, 'b) gom) \<Rightarrow> ('s, 'e, 'b) gom" where
  "mbind m f = (\<lambda>s. case m s of (Ret x, s') \<Rightarrow> f x s' | (Err e, s') \<Rightarrow> (Err e, s') | (Panic, s') \<Rightarrow> (Panic, s'))"

definition keeps :: "('s \<Rightarrow> 's \<Rightarrow> bool) \<Rightarrow> ('s, 'e, 'a) gom \<Rightarrow> bool" where
  "keeps R m \<longleftrightarrow> (\<forall>s. R s (snd (m s)))"

section \<open>32-bit integers\<close>

text \<open>
  \<open>i32 x\<close> is the value an \<^verbatim>\<open>int32\<close> variable holds after the mathematical result \<open>x\<close> of an
  addition, subtraction, multiplication or conversion is stored in it (two's complement).
\<close>

definition i32 :: "int \<Rightarrow> int" where
  "i32 x = (x + 2147483648) mod 4294967296 - 2147483648"

definition in_i32 :: "int \<Rightarrow> bool" where
  "in_i32 x \<longleftrightarrow> -2147483648 \<le> x \<and> x < 2147483648"

text \<open>The same for \<^verbatim>\<open>int64\<close>.\<close>

definition i64 :: "int \<Rightarrow> int" where
  "i64 x = (x + 2 ^ 63) mod 2 ^ 64 - 2 ^ 63"

section \<open>Sorting\<close>

text \<open>
  \<^verbatim>\<open>sort.Sort\<close> and \<^verbatim>\<open>sort.Slice\<close> on slices of at most twelve elements are the insertion sort
  \<^verbatim>\<open>insertionSort\<close> of package sort: each element moves left while it is less than its left
  neighbour. The sorted prefix is kept reversed. Longer slices use another algorithm; the facts that
  the components use are that the result is a sorted permutation, and, where the order is total on the
  slice, that there is only one such list (\<open>sorted_perm_unique\<close>), so that every algorithm returns it.
\<close>

fun go_insert :: "('a \<Rightarrow> 'a \<Rightarrow> bool) \<Rightarrow> 'a \<Rightarrow> 'a list \<Rightarrow> 'a list" where
  "go_insert lt x [] = [x]"
| "go_insert lt x (y # ys) = (if lt x y then y # go_insert lt x ys else x # y # ys)"

definition go_sort :: "('a \<Rightarrow> 'a \<Rightarrow> bool) \<Rightarrow> 'a list \<Rightarrow> 'a list" where
  "go_sort lt xs = rev (foldl (\<lambda>acc x. go_insert lt x acc) [] xs)"

definition sort_Reverse :: "('a \<Rightarrow> 'a \<Rightarrow> bool) \<Rightarrow> 'a \<Rightarrow> 'a \<Rightarrow> bool" where
  "sort_Reverse lt x y = lt y x"

section \<open>Strings\<close>

definition digit_char :: "nat \<Rightarrow> char" where
  "digit_char d = char_of (48 + d)"

definition is_digit :: "char \<Rightarrow> bool" where
  "is_digit c \<longleftrightarrow> 48 \<le> (of_char c :: nat) \<and> (of_char c :: nat) \<le> 57"

definition digit_val :: "char \<Rightarrow> nat" where
  "digit_val c = of_char c - 48"

fun format_nat :: "nat \<Rightarrow> string" where
  "format_nat n = (if n < 10 then [digit_char n] else format_nat (n div 10) @ [digit_char (n mod 10)])"

declare format_nat.simps [simp del]

text \<open>\<^verbatim>\<open>strconv.FormatInt(x, 10)\<close> and \<^verbatim>\<open>fmt.Sprintf("%d", x)\<close>.\<close>

definition FormatInt :: "int \<Rightarrow> string" where
  "FormatInt x = (if x < 0 then CHR ''-'' # format_nat (nat (- x)) else format_nat (nat x))"

fun parse_digits :: "nat \<Rightarrow> string \<Rightarrow> nat option" where
  "parse_digits acc [] = Some acc"
| "parse_digits acc (c # cs) =
     (if is_digit c then parse_digits (10 * acc + digit_val c) cs else None)"

text \<open>
  \<^verbatim>\<open>strconv.ParseInt(s, 10, bitSize)\<close>: an optional sign, at least one digit, digits only, and a
  value that fits into \<open>bitSize\<close> bits; \<open>None\<close> is \<^verbatim>\<open>err != nil\<close>.
\<close>

definition ParseUint10 :: "string \<Rightarrow> nat option" where
  "ParseUint10 s = (if s = [] then None else parse_digits 0 s)"

definition ParseInt :: "nat \<Rightarrow> string \<Rightarrow> int option" where
  "ParseInt bitSize s =
     (let neg = (s \<noteq> [] \<and> hd s = CHR ''-'');
          body = (if s \<noteq> [] \<and> (hd s = CHR ''-'' \<or> hd s = CHR ''+'') then tl s else s);
          cutoff = 2 ^ (bitSize - 1)
      in case ParseUint10 body of
           None \<Rightarrow> None
         | Some un \<Rightarrow>
             if \<not> neg \<and> cutoff \<le> un then None
             else if neg \<and> cutoff < un then None
             else Some (if neg then - int un else int un))"

text \<open>\<^verbatim>\<open>strings.Split\<close> with a one-character separator, and \<^verbatim>\<open>strings.Join\<close>.\<close>

fun go_split :: "char \<Rightarrow> string \<Rightarrow> string list" where
  "go_split sep [] = [[]]"
| "go_split sep (c # cs) =
     (if c = sep then [] # go_split sep cs
      else (case go_split sep cs of [] \<Rightarrow> [[c]] | w # ws \<Rightarrow> (c # w) # ws))"

fun go_join :: "string \<Rightarrow> string list \<Rightarrow> string" where
  "go_join sep [] = []"
| "go_join sep [w] = w"
| "go_join sep (w # v # ws) = w @ sep @ go_join sep (v # ws)"

text \<open>\<^verbatim>\<open>strings.TrimSpace\<close> on ASCII strings: tab, newline, vertical tab, form feed, return, space.\<close>

definition is_space :: "char \<Rightarrow> bool" where
  "is_space c \<longleftrightarrow> (of_char c :: nat) \<in> {9, 10, 11, 12, 13, 32}"

definition TrimSpace :: "string \<Rightarrow> string" where
  "TrimSpace s = rev (dropWhile is_space (rev (dropWhile is_space s)))"

fun HasPrefix :: "string \<Rightarrow> string \<Rightarrow> bool" where
  "HasPrefix s [] = True"
| "HasPrefix [] (p # ps) = False"
| "HasPrefix (c # cs) (p # ps) = (c = p \<and> HasPrefix cs ps)"

definition HasSuffix :: "string \<Rightarrow> string \<Rightarrow> bool" where
  "HasSuffix s suf = HasPrefix (rev s) (rev suf)"

definition TrimSuffix :: "string \<Rightarrow> string \<Rightarrow> string" where
  "TrimSuffix s suf = (if HasSuffix s suf then take (length s - length suf) s else s)"

text \<open>The 32-bit FNV-1a hash of \<^verbatim>\<open>hash/fnv\<close>.\<close>

unbundle bit_operations_syntax

definition fnv32a :: "string \<Rightarrow> 32 word" where
  "fnv32a cs = foldl (\<lambda>h c. (h XOR word_of_nat (of_char c)) * 16777619) 2166136261 cs"

section \<open>String maps\<close>

text \<open>
  A \<^verbatim>\<open>map[string]string\<close> is nil or a finite map. Reading a nil map finds no key, and reading a
  missing key in expression position gives the empty string.
\<close>

type_synonym string_map = "(string \<Rightarrow> string option) option"

definition map_lookup :: "('k \<Rightarrow> 'v option) option \<Rightarrow> 'k \<Rightarrow> 'v option" where
  "map_lookup m k = (case m of None \<Rightarrow> None | Some f \<Rightarrow> f k)"

definition map_str :: "string_map \<Rightarrow> string \<Rightarrow> string" where
  "map_str m k = (case map_lookup m k of None \<Rightarrow> [] | Some v \<Rightarrow> v)"

definition map_make :: "('k \<Rightarrow> 'v option) option \<Rightarrow> 'k \<Rightarrow> 'v option" where
  "map_make m = (case m of None \<Rightarrow> Map.empty | Some f \<Rightarrow> f)"

definition map_put :: "('k \<Rightarrow> 'v option) option \<Rightarrow> 'k \<Rightarrow> 'v \<Rightarrow> ('k \<Rightarrow> 'v option) option" where
  "map_put m k v = Some ((map_make m)(k \<mapsto> v))"

definition map_del :: "('k \<Rightarrow> 'v option) option \<Rightarrow> 'k \<Rightarrow> ('k \<Rightarrow> 'v option) option" where
  "map_del m k = (case m of None \<Rightarrow> None | Some f \<Rightarrow> Some (f(k := None)))"

section \<open>Lemmas on results\<close>

lemma go_bind_Ret_iff [go_simps]:
  "go_bind m f = Ret y \<longleftrightarrow> (\<exists>x. m = Ret x \<and> f x = Ret y)"
  by (cases m) auto

lemma go_bind_Err_iff [go_simps]:
  "go_bind m f = Err e \<longleftrightarrow> m = Err e \<or> (\<exists>x. m = Ret x \<and> f x = Err e)"
  by (cases m) auto

lemma go_bind_Panic_iff [go_simps]:
  "go_bind m f = Panic \<longleftrightarrow> m = Panic \<or> (\<exists>x. m = Ret x \<and> f x = Panic)"
  by (cases m) auto

lemma deref_simps [simp]: "deref None = Panic" "deref (Some x) = Ret x"
  by (simp_all add: deref_def)

lemma deref_Ret_iff [go_simps]: "deref p = Ret x \<longleftrightarrow> p = Some x"
  by (cases p) auto

lemma ptr_deref_simps [simp]: "ptr_deref None d = d" "ptr_deref (Some x) d = x"
  by (simp_all add: ptr_deref_def)

lemma mbind_Ret_iff [go_simps]:
  "mbind m f s = (Ret y, t) \<longleftrightarrow> (\<exists>x u. m s = (Ret x, u) \<and> f x u = (Ret y, t))"
  by (auto simp: mbind_def split: prod.splits go.splits)

lemma mbind_eval [simp]:
  "m s = (Ret x, u) \<Longrightarrow> mbind m f s = f x u"
  "m s = (Err e, u) \<Longrightarrow> mbind m f s = (Err e, u)"
  "m s = (Panic, u) \<Longrightarrow> mbind m f s = (Panic, u)"
  by (simp_all add: mbind_def)

lemma mret_apply [simp]: "mret x s = (Ret x, s)"
  by (simp add: mret_def)

lemma mlift_apply [simp]: "mlift g s = (g, s)"
  by (simp add: mlift_def)

lemma mbind_mlift_Ret [simp]: "mbind (mlift (Ret x)) f = f x"
  by (simp add: mbind_def mlift_def)

lemma keeps_mret [intro]: "(\<And>s. R s s) \<Longrightarrow> keeps R (mret x)"
  by (simp add: keeps_def)

lemma keeps_mlift [intro]: "(\<And>s. R s s) \<Longrightarrow> keeps R (mlift g)"
  by (simp add: keeps_def)

lemma keeps_mbind:
  assumes "\<And>s t u. R s t \<Longrightarrow> R t u \<Longrightarrow> R s u" and "keeps R m" and "\<And>x. keeps R (f x)"
  shows "keeps R (mbind m f)"
  unfolding keeps_def mbind_def
proof
  fix s
  obtain r t where ms: "m s = (r, t)" by fastforce
  have "R s t" using assms(2) ms by (metis keeps_def snd_conv)
  then show "R s (snd (case m s of (Ret x, s') \<Rightarrow> f x s' | (Err e, s') \<Rightarrow> (Err e, s') | (Panic, s') \<Rightarrow> (Panic, s')))"
    using ms assms(1,3) by (cases r) (auto simp: keeps_def)
qed

lemma keepsD: "keeps R m \<Longrightarrow> m s = (r, t) \<Longrightarrow> R s t"
  by (metis keeps_def snd_conv)

section \<open>Lemmas on 32-bit integers\<close>

lemma i32_id [i32_simps]: "in_i32 x \<Longrightarrow> i32 x = x"
  by (simp add: i32_def in_i32_def)

lemma i32_range: "in_i32 (i32 x)"
proof -
  have "0 \<le> (x + 2147483648) mod 4294967296" "(x + 2147483648) mod 4294967296 < 4294967296"
    by simp_all
  then show ?thesis by (simp add: i32_def in_i32_def)
qed

lemma i32_idem [simp]: "i32 (i32 x) = i32 x"
  by (rule i32_id [OF i32_range])

lemma i32_add_left [simp]: "i32 (i32 x + y) = i32 (x + y)"
proof -
  have "(x + 2147483648) mod 4294967296 - 2147483648 + y + 2147483648
      = (x + 2147483648) mod 4294967296 + y" by simp
  then have "i32 (i32 x + y) = ((x + 2147483648) mod 4294967296 + y) mod 4294967296 - 2147483648"
    by (simp add: i32_def)
  also have "\<dots> = (x + 2147483648 + y) mod 4294967296 - 2147483648"
    by (simp add: mod_add_left_eq)
  also have "\<dots> = i32 (x + y)" by (simp add: i32_def ac_simps)
  finally show ?thesis .
qed

lemma i32_add_right [simp]: "i32 (x + i32 y) = i32 (x + y)"
  using i32_add_left [of y x] by (simp add: add.commute)

lemma foldl_i32_add:
  "foldl (\<lambda>acc x. i32 (acc + f x)) (i32 a) xs = i32 (a + sum_list (map f xs))"
proof (induction xs arbitrary: a)
  case (Cons x xs)
  show ?case using Cons.IH [of "a + f x"] by (simp add: add.assoc)
qed simp

lemma i64_id [i32_simps]: "- (2 ^ 63) \<le> x \<Longrightarrow> x < 2 ^ 63 \<Longrightarrow> i64 x = x"
  by (simp add: i64_def)

lemma in_i32_I: "- 2147483648 \<le> x \<Longrightarrow> x < 2147483648 \<Longrightarrow> in_i32 x"
  by (simp add: in_i32_def)

section \<open>Lemmas on sorting\<close>

lemma mset_go_insert [simp]: "mset (go_insert lt x ys) = add_mset x (mset ys)"
  by (induction ys) auto

lemma mset_foldl_go_insert: "mset (foldl (\<lambda>acc x. go_insert lt x acc) acc xs) = mset acc + mset xs"
  by (induction xs arbitrary: acc) auto

lemma mset_go_sort [simp]: "mset (go_sort lt xs) = mset xs"
  by (simp add: go_sort_def mset_foldl_go_insert)

lemma set_go_sort [simp]: "set (go_sort lt xs) = set xs"
  by (metis mset_go_sort set_mset_mset)

lemma length_go_sort [simp]: "length (go_sort lt xs) = length xs"
  by (metis mset_go_sort size_mset)

lemma distinct_go_sort [simp]: "distinct (go_sort lt xs) = distinct xs"
  by (metis mset_go_sort mset_eq_imp_distinct_iff)

lemma sum_list_go_sort:
  fixes f :: "'a \<Rightarrow> int"
  shows "sum_list (map f (go_sort lt xs)) = sum_list (map f xs)"
  by (metis mset_go_sort mset_map sum_mset_sum_list)

lemma go_sort_Nil [simp]: "go_sort lt [] = []"
  by (simp add: go_sort_def)

lemma go_sort_Nil_iff [simp]: "go_sort lt xs = [] \<longleftrightarrow> xs = []"
  by (metis length_0_conv length_go_sort)

text \<open>
  The order of a \<^verbatim>\<open>Less\<close> method: a strict weak order. What \<^verbatim>\<open>sort.Sort\<close> promises of such an order
  is proved once here and used for every \<^verbatim>\<open>Less\<close> method of the program.
\<close>

locale weak_order =
  fixes lt :: "'a \<Rightarrow> 'a \<Rightarrow> bool"
  assumes lt_asym: "lt x y \<Longrightarrow> \<not> lt y x"
    and lt_negtrans: "\<not> lt y x \<Longrightarrow> \<not> lt z y \<Longrightarrow> \<not> lt z x"
begin

lemma irrefl_lt: "\<not> lt x x"
  using lt_asym by blast

lemma sorted_go_insert:
  assumes "sorted_wrt (\<lambda>a b. \<not> lt a b) ys"
  shows "sorted_wrt (\<lambda>a b. \<not> lt a b) (go_insert lt x ys)"
  using assms
proof (induction ys)
  case (Cons y ys)
  have eq: "set (go_insert lt x ys) = insert x (set ys)"
    by (metis mset_go_insert set_mset_add_mset_insert set_mset_mset)
  show ?case
  proof (cases "lt x y")
    case True
    then have "\<not> lt y x" by (rule lt_asym)
    with True Cons show ?thesis by (simp add: eq)
  next
    case False
    then have "\<not> lt x z" if "z \<in> set ys" for z
      using Cons.prems that lt_negtrans [of y z x] by simp
    with False Cons.prems show ?thesis by simp
  qed
qed simp

lemma sorted_foldl_go_insert:
  assumes "sorted_wrt (\<lambda>a b. \<not> lt a b) acc"
  shows "sorted_wrt (\<lambda>a b. \<not> lt a b) (foldl (\<lambda>acc x. go_insert lt x acc) acc xs)"
  using assms by (induction xs arbitrary: acc) (auto intro: sorted_go_insert)

lemma sorted_go_sort: "sorted_wrt (\<lambda>a b. \<not> lt b a) (go_sort lt xs)"
  using sorted_foldl_go_insert [of "[]" xs] by (simp add: go_sort_def sorted_wrt_rev)

lemma sorted_perm_unique:
  assumes "mset ys = mset xs" and "sorted_wrt (\<lambda>a b. \<not> lt b a) ys"
    and "\<And>x y. x \<in> set xs \<Longrightarrow> y \<in> set xs \<Longrightarrow> x \<noteq> y \<Longrightarrow> lt x y \<or> lt y x"
  shows "ys = go_sort lt xs"
proof -
  have uniq: "us = vs"
    if "mset us = mset vs" "sorted_wrt (\<lambda>a b. \<not> lt b a) us" "sorted_wrt (\<lambda>a b. \<not> lt b a) vs"
      "\<And>x y. x \<in> set us \<Longrightarrow> y \<in> set us \<Longrightarrow> x \<noteq> y \<Longrightarrow> lt x y \<or> lt y x"
    for us vs :: "'a list"
    using that
  proof (induction us arbitrary: vs)
    case (Cons u us)
    then obtain v vs' where vs: "vs = v # vs'" by (cases vs) auto
    have "set (u # us) = set vs" using Cons.prems(1) by (metis set_mset_mset)
    then have "u \<in> set vs" "v \<in> set (u # us)" by (auto simp: vs)
    have "u = v"
    proof (rule ccontr)
      assume "u \<noteq> v"
      then have "\<not> lt v u" "\<not> lt u v"
        using Cons.prems(2,3) \<open>u \<in> set vs\<close> \<open>v \<in> set (u # us)\<close> by (auto simp: vs)
      then show False using Cons.prems(4) [of u v] \<open>u \<noteq> v\<close> \<open>v \<in> set (u # us)\<close> by auto
    qed
    moreover have "us = vs'"
      using Cons.prems \<open>u = v\<close> by (intro Cons.IH) (auto simp: vs)
    ultimately show ?case by (simp add: vs)
  qed simp
  have "set ys = set xs" using assms(1) by (metis set_mset_mset)
  then show ?thesis
    using assms sorted_go_sort [of xs] by (intro uniq) auto
qed

lemma hd_go_sort_least:
  assumes "xs \<noteq> []" and "y \<in> set xs"
  shows "\<not> lt y (hd (go_sort lt xs))"
proof -
  obtain z zs where eq: "go_sort lt xs = z # zs"
    using assms(1) by (metis length_0_conv length_go_sort neq_Nil_conv)
  have "y \<in> set (z # zs)" using assms(2) eq by (metis set_go_sort)
  then show ?thesis using sorted_go_sort [of xs] eq irrefl_lt by auto
qed

end

section \<open>Lemmas on strings\<close>

lemma digit_val_digit_char [simp]: "d < 10 \<Longrightarrow> digit_val (digit_char d) = d"
  by (simp add: digit_val_def digit_char_def)

lemma is_digit_digit_char [simp]: "d < 10 \<Longrightarrow> is_digit (digit_char d)"
  by (simp add: is_digit_def digit_char_def)

lemma parse_digits_append:
  "parse_digits acc (xs @ ys) =
     (case parse_digits acc xs of None \<Rightarrow> None | Some a \<Rightarrow> parse_digits a ys)"
  by (induction xs arbitrary: acc) auto

lemma parse_digits_format_nat: "parse_digits 0 (format_nat n) = Some n"
proof (induction n rule: format_nat.induct)
  case (1 n)
  show ?case
  proof (cases "n < 10")
    case True
    then show ?thesis by (subst format_nat.simps) simp
  next
    case False
    then show ?thesis
      using 1 by (subst format_nat.simps) (simp add: parse_digits_append)
  qed
qed

lemma format_nat_digits: "c \<in> set (format_nat n) \<Longrightarrow> is_digit c"
proof (induction n rule: format_nat.induct)
  case (1 n)
  then show ?case
    by (cases "n < 10") (auto simp: format_nat.simps [of n])
qed

lemma format_nat_nonempty [simp]: "format_nat n \<noteq> []"
  by (subst format_nat.simps) simp

lemma not_is_digit_sign: "\<not> is_digit (CHR ''-'')" "\<not> is_digit (CHR ''+'')"
  by (simp_all add: is_digit_def)

text \<open>What is printed is parsed back, for every value of the width.\<close>

lemma ParseInt_FormatInt:
  assumes "- (2 ^ (bits - 1)) \<le> x" and "x < 2 ^ (bits - 1)"
  shows "ParseInt bits (FormatInt x) = Some x"
proof (cases "x < 0")
  case True
  have "\<not> 2 ^ (bits - 1) < nat (- x)"
    using assms(1) by (simp add: nat_le_iff not_less)
  then show ?thesis
    using True by (simp add: ParseInt_def FormatInt_def ParseUint10_def parse_digits_format_nat)
next
  case False
  have "is_digit (hd (format_nat (nat x)))" by (rule format_nat_digits [of _ "nat x"]) simp
  then have "hd (format_nat (nat x)) \<noteq> CHR ''-''" "hd (format_nat (nat x)) \<noteq> CHR ''+''"
    using not_is_digit_sign by metis+
  moreover
  have "\<not> 2 ^ (bits - 1) \<le> nat x" using assms(2) False
    by (simp add: not_le nat_less_iff)
  ultimately show ?thesis
    using False by (simp add: ParseInt_def FormatInt_def ParseUint10_def parse_digits_format_nat)
qed

lemma FormatInt_nonempty [simp]: "FormatInt x \<noteq> []"
  by (simp add: FormatInt_def)

lemma go_split_nonempty [simp]: "go_split sep s \<noteq> []"
  by (induction s) (auto split: list.splits)

lemma go_join_split: "go_join [sep] (go_split sep s) = s"
proof (induction s)
  case (Cons c cs)
  obtain w ws where eq: "go_split sep cs = w # ws" by (cases "go_split sep cs") auto
  show ?case using Cons eq by (cases ws) auto
qed simp

lemma go_join_snoc: "ws \<noteq> [] \<Longrightarrow> go_join sep (ws @ [v]) = go_join sep ws @ sep @ v"
proof (induction ws)
  case (Cons w ws)
  then show ?case by (cases ws) auto
qed simp

lemma go_split_append: "go_split c (xs @ [c] @ ys) = go_split c xs @ go_split c ys"
proof (induction xs)
  case (Cons x xs)
  show ?case
  proof (cases "x = c")
    case False
    obtain w ws where "go_split c xs = w # ws" using go_split_nonempty by (metis neq_Nil_conv)
    then show ?thesis using False Cons by simp
  qed (use Cons in simp)
qed simp

lemma go_split_no_sep: "c \<notin> set xs \<Longrightarrow> go_split c xs = [xs]"
  by (induction xs) auto

lemma HasPrefix_iff: "HasPrefix s p \<longleftrightarrow> (\<exists>r. s = p @ r)"
  by (induction s p rule: HasPrefix.induct) auto

section \<open>Lemmas on string maps\<close>

lemma map_lookup_put [simp]:
  "map_lookup (map_put m k v) k' = (if k' = k then Some v else map_lookup m k')"
  by (auto simp: map_lookup_def map_put_def map_make_def split: option.splits)

lemma map_lookup_del [simp]:
  "map_lookup (map_del m k) k' = (if k' = k then None else map_lookup m k')"
  by (auto simp: map_lookup_def map_del_def split: option.splits)

lemma map_lookup_simps [simp]: "map_lookup None k = None" "map_lookup (Some f) k = f k"
  by (simp_all add: map_lookup_def)

lemma map_str_put [simp]: "map_str (map_put m k v) k' = (if k' = k then v else map_str m k')"
  by (simp add: map_str_def)

end
