(* ===== verification/Conditions.thy ===== *)
theory Conditions
  imports Go_Prelude
begin

text \<open>
  Package util/conditions: the conditions of a Cluster API object. An object is seen through the
  interfaces \<^verbatim>\<open>Getter\<close> and \<^verbatim>\<open>Setter\<close>: its name, its kind and its list of conditions (a nil
  slice is the empty list). Reading (\<^verbatim>\<open>getter.go\<close>), writing (\<^verbatim>\<open>setter.go\<close>), merging into a
  summary (\<^verbatim>\<open>merge.go\<close>, \<^verbatim>\<open>merge_strategies.go\<close>) and the three-way patch
  (\<^verbatim>\<open>patch.go\<close>). The clock is the argument \<open>now\<close>, in nanoseconds.
\<close>

section \<open>Data\<close>

abbreviation ConditionTrue :: string where "ConditionTrue \<equiv> ''True''"
abbreviation ConditionFalse :: string where "ConditionFalse \<equiv> ''False''"
abbreviation ConditionUnknown :: string where "ConditionUnknown \<equiv> ''Unknown''"
abbreviation ConditionSeverityError :: string where "ConditionSeverityError \<equiv> ''Error''"
abbreviation ConditionSeverityWarning :: string where "ConditionSeverityWarning \<equiv> ''Warning''"
abbreviation ConditionSeverityInfo :: string where "ConditionSeverityInfo \<equiv> ''Info''"
abbreviation (input) ConditionSeverityNone :: string where "ConditionSeverityNone \<equiv> ''''"
abbreviation ReadyCondition :: string where "ReadyCondition \<equiv> ''Ready''"

record condition =
  c_Type :: string
  c_Status :: string
  c_Severity :: string
  c_LastTransitionTime :: int
  c_Reason :: string
  c_Message :: string

record getter =
  g_Name :: string
  g_Kind :: string
  g_Conditions :: "condition list"

section \<open>Formatting a message without arguments\<close>

text \<open>
  \<^verbatim>\<open>fmt.Sprintf(format)\<close> with no operands: flags, width and precision of a directive are read,
  \<^verbatim>\<open>%%\<close> prints a percent sign, any other verb is reported as missing its operand, and a directive
  cut off by the end as having no verb. Directives with \<^verbatim>\<open>*\<close> or an explicit index
  \<^verbatim>\<open>[n]\<close> are read as verbs here.
\<close>

definition is_flag :: "char \<Rightarrow> bool" where
  "is_flag c \<longleftrightarrow> c \<in> set ''#0+- ''"

definition skip_directive :: "string \<Rightarrow> string" where
  "skip_directive cs =
     (let r = dropWhile is_digit (dropWhile is_flag cs)
      in case r of [] \<Rightarrow> []
         | c # r' \<Rightarrow> if c = CHR ''.'' then dropWhile is_digit r' else r)"

lemma skip_directive_length: "length (skip_directive cs) \<le> length cs"
proof -
  have dw: "length (dropWhile P xs) \<le> length xs" for P and xs :: string
    by (rule length_dropWhile_le)
  have "length (dropWhile is_digit (dropWhile is_flag cs)) \<le> length cs"
    by (rule order_trans [OF dw dw])
  then show ?thesis
    using dw [of is_digit "tl (dropWhile is_digit (dropWhile is_flag cs))"]
    by (auto simp: skip_directive_def Let_def split: list.splits)
qed

function Sprintf0 :: "string \<Rightarrow> string" where
  "Sprintf0 [] = []"
| "Sprintf0 (c # cs) =
     (if c \<noteq> CHR ''%'' then c # Sprintf0 cs
      else (case skip_directive cs of
              [] \<Rightarrow> ''%!(NOVERB)''
            | v # rest \<Rightarrow>
                (if v = CHR ''%'' then CHR ''%'' # Sprintf0 rest
                 else ''%!'' @ [v] @ ''(MISSING)'' @ Sprintf0 rest)))"
  by pat_completeness auto
termination
proof (relation "measure length")
  fix c :: char and cs v rest
  assume "skip_directive cs = v # rest"
  then have "length rest < length cs" using skip_directive_length [of cs] by simp
  then show "(rest, c # cs) \<in> measure length" by simp
  then show "(rest, c # cs) \<in> measure length" .
qed auto

section \<open>getter.go\<close>

definition conditions_Get :: "condition list \<Rightarrow> string \<Rightarrow> condition option" where
  "conditions_Get cs t = find (\<lambda>c. c_Type c = t) cs"

definition conditions_Has :: "condition list \<Rightarrow> string \<Rightarrow> bool" where
  "conditions_Has cs t \<longleftrightarrow> conditions_Get cs t \<noteq> None"

definition conditions_IsTrue :: "condition list \<Rightarrow> string \<Rightarrow> bool" where
  "conditions_IsTrue cs t =
     (case conditions_Get cs t of Some c \<Rightarrow> c_Status c = ConditionTrue | None \<Rightarrow> False)"

definition conditions_IsFalse :: "condition list \<Rightarrow> string \<Rightarrow> bool" where
  "conditions_IsFalse cs t =
     (case conditions_Get cs t of Some c \<Rightarrow> c_Status c = ConditionFalse | None \<Rightarrow> False)"

definition conditions_IsUnknown :: "condition list \<Rightarrow> string \<Rightarrow> bool" where
  "conditions_IsUnknown cs t =
     (case conditions_Get cs t of Some c \<Rightarrow> c_Status c = ConditionUnknown | None \<Rightarrow> True)"

definition conditions_GetReason :: "condition list \<Rightarrow> string \<Rightarrow> string" where
  "conditions_GetReason cs t = (case conditions_Get cs t of Some c \<Rightarrow> c_Reason c | None \<Rightarrow> [])"

definition conditions_GetMessage :: "condition list \<Rightarrow> string \<Rightarrow> string" where
  "conditions_GetMessage cs t = (case conditions_Get cs t of Some c \<Rightarrow> c_Message c | None \<Rightarrow> [])"

definition conditions_GetSeverity :: "condition list \<Rightarrow> string \<Rightarrow> string option" where
  "conditions_GetSeverity cs t =
     (case conditions_Get cs t of Some c \<Rightarrow> Some (c_Severity c) | None \<Rightarrow> None)"

definition conditions_GetLastTransitionTime :: "condition list \<Rightarrow> string \<Rightarrow> int option" where
  "conditions_GetLastTransitionTime cs t =
     (case conditions_Get cs t of Some c \<Rightarrow> Some (c_LastTransitionTime c) | None \<Rightarrow> None)"

section \<open>setter.go\<close>

definition lexicographicLess :: "condition option \<Rightarrow> condition option \<Rightarrow> bool" where
  "lexicographicLess i j =
     (case i of None \<Rightarrow> True
      | Some ci \<Rightarrow>
        (case j of None \<Rightarrow> False
         | Some cj \<Rightarrow> (c_Type ci = ReadyCondition \<or> c_Type ci < c_Type cj) \<and> c_Type cj \<noteq> ReadyCondition))"

definition HasSameState :: "condition option \<Rightarrow> condition option \<Rightarrow> bool" where
  "HasSameState i j =
     (case (i, j) of
        (Some ci, Some cj) \<Rightarrow>
          c_Type ci = c_Type cj \<and> c_Status ci = c_Status cj \<and> c_Reason ci = c_Reason cj \<and>
          c_Severity ci = c_Severity cj \<and> c_Message ci = c_Message cj
      | (None, None) \<Rightarrow> True
      | _ \<Rightarrow> False)"

text \<open>\<^verbatim>\<open>time.Now().UTC().Truncate(time.Second)\<close>\<close>

definition truncate_second :: "int \<Rightarrow> int" where
  "truncate_second now = now - now mod 1000000000"

text \<open>The loop of \<open>Set\<close> over the existing conditions: \<open>None\<close> when the type is not there.\<close>

fun set_existing :: "int \<Rightarrow> condition list \<Rightarrow> condition \<Rightarrow> condition list option" where
  "set_existing now [] c = None"
| "set_existing now (e # es) c =
     (if c_Type e = c_Type c then
        Some (if \<not> HasSameState (Some e) (Some c)
              then c\<lparr>c_LastTransitionTime := truncate_second now\<rparr> # es
              else e # es)
      else (case set_existing now es c of None \<Rightarrow> None | Some es' \<Rightarrow> Some (e # es')))"

definition sort_conditions :: "condition list \<Rightarrow> condition list" where
  "sort_conditions cs = go_sort (\<lambda>i j. lexicographicLess (Some i) (Some j)) cs"

definition conditions_Set :: "int \<Rightarrow> condition list option \<Rightarrow> condition option \<Rightarrow> condition list option" where
  "conditions_Set now to c =
     (case to of None \<Rightarrow> None
      | Some cs \<Rightarrow>
        (case c of None \<Rightarrow> Some cs
         | Some c \<Rightarrow>
             Some (sort_conditions
               (case set_existing now cs c of
                  Some cs' \<Rightarrow> cs'
                | None \<Rightarrow>
                    cs @ [if c_LastTransitionTime c = 0
                          then c\<lparr>c_LastTransitionTime := truncate_second now\<rparr> else c]))))"

definition TrueCondition :: "string \<Rightarrow> condition" where
  "TrueCondition t =
     \<lparr>c_Type = t, c_Status = ConditionTrue, c_Severity = [], c_LastTransitionTime = 0,
      c_Reason = [], c_Message = []\<rparr>"

text \<open>
  The constructors that take a message take it formatted: \<open>message\<close> is the result of
  \<^verbatim>\<open>fmt.Sprintf(messageFormat, messageArgs...)\<close>.
\<close>

definition TrueConditionWithNegativePolarity ::
  "string \<Rightarrow> string \<Rightarrow> string \<Rightarrow> string \<Rightarrow> condition" where
  "TrueConditionWithNegativePolarity t reason severity message =
     \<lparr>c_Type = t, c_Status = ConditionTrue, c_Severity = severity, c_LastTransitionTime = 0,
      c_Reason = reason, c_Message = message\<rparr>"

definition FalseCondition :: "string \<Rightarrow> string \<Rightarrow> string \<Rightarrow> string \<Rightarrow> condition" where
  "FalseCondition t reason severity message =
     \<lparr>c_Type = t, c_Status = ConditionFalse, c_Severity = severity, c_LastTransitionTime = 0,
      c_Reason = reason, c_Message = message\<rparr>"

definition FalseConditionWithNegativePolarity :: "string \<Rightarrow> condition" where
  "FalseConditionWithNegativePolarity t =
     \<lparr>c_Type = t, c_Status = ConditionFalse, c_Severity = [], c_LastTransitionTime = 0,
      c_Reason = [], c_Message = []\<rparr>"

definition UnknownCondition :: "string \<Rightarrow> string \<Rightarrow> string \<Rightarrow> condition" where
  "UnknownCondition t reason message =
     \<lparr>c_Type = t, c_Status = ConditionUnknown, c_Severity = [], c_LastTransitionTime = 0,
      c_Reason = reason, c_Message = message\<rparr>"

definition conditions_MarkTrue :: "int \<Rightarrow> condition list option \<Rightarrow> string \<Rightarrow> condition list option" where
  "conditions_MarkTrue now to t = conditions_Set now to (Some (TrueCondition t))"

definition conditions_MarkTrueWithNegativePolarity ::
  "int \<Rightarrow> condition list option \<Rightarrow> string \<Rightarrow> string \<Rightarrow> string \<Rightarrow> string \<Rightarrow> condition list option" where
  "conditions_MarkTrueWithNegativePolarity now to t reason severity message =
     conditions_Set now to (Some (TrueConditionWithNegativePolarity t reason severity message))"

definition conditions_MarkUnknown ::
  "int \<Rightarrow> condition list option \<Rightarrow> string \<Rightarrow> string \<Rightarrow> string \<Rightarrow> condition list option" where
  "conditions_MarkUnknown now to t reason message =
     conditions_Set now to (Some (UnknownCondition t reason message))"

definition conditions_MarkFalse ::
  "int \<Rightarrow> condition list option \<Rightarrow> string \<Rightarrow> string \<Rightarrow> string \<Rightarrow> string \<Rightarrow> condition list option" where
  "conditions_MarkFalse now to t reason severity message =
     conditions_Set now to (Some (FalseCondition t reason severity message))"

definition conditions_MarkFalseWithNegativePolarity ::
  "int \<Rightarrow> condition list option \<Rightarrow> string \<Rightarrow> condition list option" where
  "conditions_MarkFalseWithNegativePolarity now to t =
     conditions_Set now to (Some (FalseConditionWithNegativePolarity t))"

definition conditions_Delete :: "condition list option \<Rightarrow> string \<Rightarrow> condition list option" where
  "conditions_Delete to t =
     (case to of None \<Rightarrow> None | Some cs \<Rightarrow> Some (filter (\<lambda>c. c_Type c \<noteq> t) cs))"

section \<open>merge.go\<close>

datatype polarity = PositivePolarity | NegativePolarity

record localizedCondition =
  lc_Condition :: "condition option"
  lc_Polarity :: polarity
  lc_Getter :: getter

record conditionGroup =
  cg_status :: string
  cg_severity :: string
  cg_conditions :: "(condition \<times> getter) list"

text \<open>A group holds non-nil conditions only: nil ones are skipped when the groups are built.\<close>

definition mergePriority :: "conditionGroup \<Rightarrow> int" where
  "mergePriority g =
     (if cg_status g = ConditionFalse then
        (if cg_severity g = ConditionSeverityError then 0
         else if cg_severity g = ConditionSeverityWarning then 1
         else if cg_severity g = ConditionSeverityInfo then 2
         else 99)
      else if cg_status g = ConditionTrue then 3
      else if cg_status g = ConditionUnknown then 4
      else 99)"

definition groupStatus :: "polarity \<Rightarrow> string \<Rightarrow> string" where
  "groupStatus p s =
     (if p = NegativePolarity then
        (if s = ConditionFalse then ConditionTrue
         else if s = ConditionTrue then ConditionFalse
         else if s = ConditionUnknown then ConditionUnknown
         else s)
      else s)"

fun add_to_group :: "conditionGroup list \<Rightarrow> string \<Rightarrow> condition \<Rightarrow> getter \<Rightarrow> conditionGroup list" where
  "add_to_group [] st c g = [\<lparr>cg_status = st, cg_severity = c_Severity c, cg_conditions = [(c, g)]\<rparr>]"
| "add_to_group (gr # grs) st c g =
     (if cg_status gr = st \<and> cg_severity gr = c_Severity c
      then gr\<lparr>cg_conditions := cg_conditions gr @ [(c, g)]\<rparr> # grs
      else gr # add_to_group grs st c g)"

definition top_less :: "condition \<times> getter \<Rightarrow> condition \<times> getter \<Rightarrow> bool" where
  "top_less a b =
     (if c_Type (fst a) \<noteq> c_Type (fst b) then lexicographicLess (Some (fst a)) (Some (fst b))
      else g_Name (snd a) < g_Name (snd b))"

definition collect_groups :: "localizedCondition list \<Rightarrow> conditionGroup list" where
  "collect_groups lcs =
     foldl (\<lambda>grs lc. case lc_Condition lc of None \<Rightarrow> grs
                     | Some c \<Rightarrow> add_to_group grs (groupStatus (lc_Polarity lc) (c_Status c)) c (lc_Getter lc))
           [] lcs"

definition group_less :: "conditionGroup \<Rightarrow> conditionGroup \<Rightarrow> bool" where
  "group_less a b \<longleftrightarrow> mergePriority a < mergePriority b"

definition getConditionGroups :: "localizedCondition list \<Rightarrow> conditionGroup list" where
  "getConditionGroups lcs =
     (case go_sort group_less (collect_groups lcs) of
        [] \<Rightarrow> []
      | g # gs \<Rightarrow> g\<lparr>cg_conditions := go_sort top_less (cg_conditions g)\<rparr> # gs)"

definition TopGroup :: "conditionGroup list \<Rightarrow> conditionGroup option" where
  "TopGroup g = (case g of [] \<Rightarrow> None | x # _ \<Rightarrow> Some x)"

definition getByStatusAndSeverity :: "conditionGroup list \<Rightarrow> string \<Rightarrow> string \<Rightarrow> conditionGroup option" where
  "getByStatusAndSeverity g status severity =
     find (\<lambda>gr. cg_status gr = status \<and> cg_severity gr = severity) g"

definition TrueGroup :: "conditionGroup list \<Rightarrow> conditionGroup option" where
  "TrueGroup g = getByStatusAndSeverity g ConditionTrue ConditionSeverityNone"

definition ErrorGroup :: "conditionGroup list \<Rightarrow> conditionGroup option" where
  "ErrorGroup g = getByStatusAndSeverity g ConditionFalse ConditionSeverityError"

definition WarningGroup :: "conditionGroup list \<Rightarrow> conditionGroup option" where
  "WarningGroup g = getByStatusAndSeverity g ConditionFalse ConditionSeverityWarning"

section \<open>merge\_strategies.go\<close>

record mergeOptions =
  conditionTypes :: "string list option"
  negativeConditionTypes :: "string list option"
  addSourceRef :: bool
  addStepCounter :: bool
  addStepCounterIfOnlyConditionTypes :: "string list option"
  stepCounter :: nat

definition no_mergeOptions :: mergeOptions where
  "no_mergeOptions = \<lparr>conditionTypes = None, negativeConditionTypes = None, addSourceRef = False,
     addStepCounter = False, addStepCounterIfOnlyConditionTypes = None, stepCounter = 0\<rparr>"

type_synonym MergeOption = "mergeOptions \<Rightarrow> mergeOptions"

definition WithConditions :: "string list option \<Rightarrow> MergeOption" where
  "WithConditions t = (\<lambda>c. c\<lparr>conditionTypes := t\<rparr>)"

definition WithNegativePolarityConditions :: "string list option \<Rightarrow> MergeOption" where
  "WithNegativePolarityConditions t = (\<lambda>c. c\<lparr>negativeConditionTypes := t\<rparr>)"

definition WithStepCounter :: MergeOption where
  "WithStepCounter = (\<lambda>c. c\<lparr>addStepCounter := True\<rparr>)"

definition WithStepCounterIf :: "bool \<Rightarrow> MergeOption" where
  "WithStepCounterIf v = (\<lambda>c. c\<lparr>addStepCounter := v\<rparr>)"

definition WithStepCounterIfOnly :: "string list option \<Rightarrow> MergeOption" where
  "WithStepCounterIfOnly t = (\<lambda>c. c\<lparr>addStepCounterIfOnlyConditionTypes := t\<rparr>)"

definition AddSourceRef :: MergeOption where
  "AddSourceRef = (\<lambda>c. c\<lparr>addSourceRef := True\<rparr>)"

definition apply_options :: "mergeOptions \<Rightarrow> MergeOption list \<Rightarrow> mergeOptions" where
  "apply_options m os = foldl (\<lambda>m f. f m) m os"

fun find_by_priority :: "string list \<Rightarrow> (condition \<times> getter) list \<Rightarrow> (condition \<times> getter) option" where
  "find_by_priority [] cs = None"
| "find_by_priority (p # ps) cs =
     (case find (\<lambda>c. c_Type (fst c) = p) cs of Some c \<Rightarrow> Some c | None \<Rightarrow> find_by_priority ps cs)"

definition getFirstCondition ::
  "conditionGroup list \<Rightarrow> string list option \<Rightarrow> (condition \<times> getter) option" where
  "getFirstCondition g priority =
     (case TopGroup g of None \<Rightarrow> None
      | Some tg \<Rightarrow>
        (case cg_conditions tg of
           [] \<Rightarrow> None
         | [c] \<Rightarrow> Some c
         | c # cs \<Rightarrow>
             (case find_by_priority (ptr_deref priority []) (c # cs) of
                Some x \<Rightarrow> Some x | None \<Rightarrow> Some c)))"

definition localizeReason :: "string \<Rightarrow> getter \<Rightarrow> string" where
  "localizeReason reason from =
     (if CHR ''@'' \<in> set reason then reason
      else reason @ '' @ '' @ g_Kind from @ ''/'' @ g_Name from)"

definition getFirstReason :: "conditionGroup list \<Rightarrow> string list option \<Rightarrow> bool \<Rightarrow> string" where
  "getFirstReason g order addRef =
     (case getFirstCondition g order of
        Some c \<Rightarrow> (if addRef then localizeReason (c_Reason (fst c)) (snd c) else c_Reason (fst c))
      | None \<Rightarrow> [])"

definition getReason :: "conditionGroup list \<Rightarrow> mergeOptions \<Rightarrow> string" where
  "getReason g opts = getFirstReason g (conditionTypes opts) (addSourceRef opts)"

definition getStepCounterMessage :: "conditionGroup list \<Rightarrow> nat \<Rightarrow> string" where
  "getStepCounterMessage g to =
     (let ct = (case TrueGroup g of Some tg \<Rightarrow> length (cg_conditions tg) | None \<Rightarrow> 0)
      in FormatInt (int ct) @ '' of '' @ FormatInt (int to) @ '' completed'')"

definition getFirstMessage :: "conditionGroup list \<Rightarrow> string list option \<Rightarrow> string" where
  "getFirstMessage g order =
     (case getFirstCondition g order of Some c \<Rightarrow> c_Message (fst c) | None \<Rightarrow> [])"

definition getMessage :: "conditionGroup list \<Rightarrow> mergeOptions \<Rightarrow> string" where
  "getMessage g opts =
     (if addStepCounter opts then getStepCounterMessage g (stepCounter opts)
      else getFirstMessage g (conditionTypes opts))"

text \<open>\<open>merge\<close> hands the merged message to the constructors as their format, without operands.\<close>

definition conditions_merge :: "localizedCondition list \<Rightarrow> string \<Rightarrow> mergeOptions \<Rightarrow> condition option" where
  "conditions_merge lcs target opts =
     (let g = getConditionGroups lcs
      in case TopGroup g of None \<Rightarrow> None
         | Some tg \<Rightarrow>
             if cg_status tg = ConditionTrue then Some (TrueCondition target)
             else (let targetReason = getReason g opts; targetMessage = getMessage g opts
                   in if cg_status tg = ConditionFalse
                      then Some (FalseCondition target targetReason (cg_severity tg) (Sprintf0 targetMessage))
                      else Some (UnknownCondition target targetReason (Sprintf0 targetMessage))))"

section \<open>summary, mirror, aggregate\<close>

definition summary_scope :: "getter \<Rightarrow> mergeOptions \<Rightarrow> localizedCondition list" where
  "summary_scope from m =
     map (\<lambda>c. \<lparr>lc_Condition = Some c,
               lc_Polarity = (if c_Type c \<in> set (ptr_deref (negativeConditionTypes m) [])
                              then NegativePolarity else PositivePolarity),
               lc_Getter = from\<rparr>)
       (filter (\<lambda>c. c_Type c \<noteq> ReadyCondition \<and>
                    (case conditionTypes m of None \<Rightarrow> True | Some ts \<Rightarrow> c_Type c \<in> set ts))
               (g_Conditions from))"

definition summary_step_counter :: "localizedCondition list \<Rightarrow> mergeOptions \<Rightarrow> mergeOptions" where
  "summary_step_counter scope m =
     (let m1 = (case addStepCounterIfOnlyConditionTypes m of
                  None \<Rightarrow> m
                | Some ts \<Rightarrow>
                    if list_all (\<lambda>lc. case lc_Condition lc of None \<Rightarrow> True | Some c \<Rightarrow> c_Type c \<in> set ts) scope
                    then m else m\<lparr>addStepCounter := False\<rparr>)
      in if addStepCounter m1 then
           (let n0 = length scope;
                n1 = (case conditionTypes m1 of None \<Rightarrow> n0 | Some ts \<Rightarrow> length ts);
                n2 = (case addStepCounterIfOnlyConditionTypes m1 of None \<Rightarrow> n1 | Some ts \<Rightarrow> length ts)
            in m1\<lparr>stepCounter := n2\<rparr>)
         else m1)"

definition conditions_summary :: "getter \<Rightarrow> MergeOption list \<Rightarrow> condition option" where
  "conditions_summary from os =
     (let m = apply_options no_mergeOptions os; scope = summary_scope from m
      in conditions_merge scope ReadyCondition (summary_step_counter scope m))"

text \<open>\<open>WithFallbackValue\<close> is the pair of the fallback value and the condition to use when it is false.\<close>

record fallback =
  fallbackTo :: bool
  fallbackReason :: string
  fallbackSeverity :: string
  fallbackMessage :: string

definition conditions_mirror :: "getter \<Rightarrow> string \<Rightarrow> fallback option \<Rightarrow> condition option" where
  "conditions_mirror from target fb =
     (let c = conditions_Get (g_Conditions from) ReadyCondition;
          c' = (case (fb, c) of
                  (Some f, None) \<Rightarrow>
                    Some (if fallbackTo f then TrueCondition target
                          else FalseCondition target (fallbackReason f) (fallbackSeverity f)
                                 (Sprintf0 (fallbackMessage f)))
                | _ \<Rightarrow> c)
      in case c' of None \<Rightarrow> None | Some x \<Rightarrow> Some (x\<lparr>c_Type := target\<rparr>))"

definition conditions_aggregate :: "getter list \<Rightarrow> string \<Rightarrow> MergeOption list \<Rightarrow> condition option" where
  "conditions_aggregate from target os =
     conditions_merge
       (map (\<lambda>g. \<lparr>lc_Condition = conditions_Get (g_Conditions g) ReadyCondition,
                  lc_Polarity = PositivePolarity, lc_Getter = g\<rparr>) from)
       target
       (apply_options (no_mergeOptions\<lparr>addStepCounter := True, stepCounter := length from\<rparr>) os)"

definition conditions_SetSummary :: "int \<Rightarrow> getter \<Rightarrow> MergeOption list \<Rightarrow> condition list option" where
  "conditions_SetSummary now to os = conditions_Set now (Some (g_Conditions to)) (conditions_summary to os)"

definition conditions_SetMirror ::
  "int \<Rightarrow> condition list option \<Rightarrow> string \<Rightarrow> getter \<Rightarrow> fallback option \<Rightarrow> condition list option" where
  "conditions_SetMirror now to target from fb = conditions_Set now to (conditions_mirror from target fb)"

definition conditions_SetAggregate ::
  "int \<Rightarrow> condition list option \<Rightarrow> string \<Rightarrow> getter list \<Rightarrow> MergeOption list \<Rightarrow> condition list option" where
  "conditions_SetAggregate now to target from os =
     conditions_Set now to (conditions_aggregate from target os)"

section \<open>patch.go\<close>

datatype patchOperation =
    AddConditionPatch (pAfter: condition)
  | ChangeConditionPatch (pBefore: condition) (pAfter: condition)
  | RemoveConditionPatch (pBefore: condition)

datatype patch_error =
    BeforeNil | AfterNil | LatestNil
  | AddConflict string | ChangeDeleted string | ChangeConflict string | RemoveConflict string

definition NewPatch ::
  "condition list option \<Rightarrow> condition list option \<Rightarrow> (patch_error, patchOperation list) go" where
  "NewPatch before after =
     (case before of None \<Rightarrow> Err BeforeNil
      | Some b \<Rightarrow>
        (case after of None \<Rightarrow> Err AfterNil
         | Some a \<Rightarrow>
             Ret (List.map_filter
                    (\<lambda>target. case conditions_Get b (c_Type target) of
                                None \<Rightarrow> Some (AddConditionPatch target)
                              | Some current \<Rightarrow>
                                  if target \<noteq> current then Some (ChangeConditionPatch current target) else None) a
                @ List.map_filter
                    (\<lambda>base. case conditions_Get a (c_Type base) of
                              None \<Rightarrow> Some (RemoveConditionPatch base) | Some _ \<Rightarrow> None) b)))"

record applyOptions =
  ownedConditions :: "string list"
  forceOverwrite :: bool

definition isOwnedCondition :: "applyOptions \<Rightarrow> string \<Rightarrow> bool" where
  "isOwnedCondition opt t \<longleftrightarrow> t \<in> set (ownedConditions opt)"

definition set_latest :: "int \<Rightarrow> condition list \<Rightarrow> condition \<Rightarrow> condition list" where
  "set_latest now latest c = ptr_deref (conditions_Set now (Some latest) (Some c)) []"

definition delete_latest :: "condition list \<Rightarrow> string \<Rightarrow> condition list" where
  "delete_latest latest t = ptr_deref (conditions_Delete (Some latest) t) []"

fun apply_operation ::
  "int \<Rightarrow> applyOptions \<Rightarrow> patchOperation \<Rightarrow> condition list \<Rightarrow> (patch_error, condition list) go" where
  "apply_operation now opt (AddConditionPatch after) latest =
     (if forceOverwrite opt \<or> isOwnedCondition opt (c_Type after) then Ret (set_latest now latest after)
      else (case conditions_Get latest (c_Type after) of
              Some l \<Rightarrow> if \<not> HasSameState (Some l) (Some after) then Err (AddConflict (c_Type after)) else Ret latest
            | None \<Rightarrow> Ret (set_latest now latest after)))"
| "apply_operation now opt (ChangeConditionPatch before after) latest =
     (if forceOverwrite opt \<or> isOwnedCondition opt (c_Type after) then Ret (set_latest now latest after)
      else (case conditions_Get latest (c_Type after) of
              None \<Rightarrow> Err (ChangeDeleted (c_Type after))
            | Some l \<Rightarrow>
                if l \<noteq> before then
                  (if \<not> HasSameState (Some l) (Some after) then Err (ChangeConflict (c_Type after)) else Ret latest)
                else Ret (set_latest now latest after)))"
| "apply_operation now opt (RemoveConditionPatch before) latest =
     (if forceOverwrite opt \<or> isOwnedCondition opt (c_Type before) then Ret (delete_latest latest (c_Type before))
      else (case conditions_Get latest (c_Type before) of
              Some l \<Rightarrow> if \<not> HasSameState (Some l) (Some before) then Err (RemoveConflict (c_Type before))
                        else Ret (delete_latest latest (c_Type before))
            | None \<Rightarrow> Ret (delete_latest latest (c_Type before))))"

fun apply_operations ::
  "int \<Rightarrow> applyOptions \<Rightarrow> patchOperation list \<Rightarrow> condition list \<Rightarrow> (patch_error, condition list) go" where
  "apply_operations now opt [] latest = Ret latest"
| "apply_operations now opt (p # ps) latest =
     go_bind (apply_operation now opt p latest) (apply_operations now opt ps)"

definition patch_IsZero :: "patchOperation list \<Rightarrow> bool" where
  "patch_IsZero p \<longleftrightarrow> length p = 0"

definition Patch_Apply ::
  "int \<Rightarrow> applyOptions \<Rightarrow> patchOperation list \<Rightarrow> condition list option \<Rightarrow>
   (patch_error, condition list option) go" where
  "Patch_Apply now opt p latest =
     (if patch_IsZero p then Ret latest
      else (case latest of None \<Rightarrow> Err LatestNil
            | Some l \<Rightarrow> go_bind (apply_operations now opt p l) (\<lambda>l'. Ret (Some l'))))"

section \<open>Lists of conditions as maps from types to conditions\<close>

text \<open>
  The abstract view of a list of conditions is the map \<open>conditions_Get cs\<close> from condition types to
  conditions; it is a faithful view when no type occurs twice (\<open>wf_conditions\<close>). Every write of the
  package refines an update of this map: the interface \<open>condition_store\<close> states the laws, and its
  interpretation \<open>cstore\<close> discharges them for the operations on lists.
\<close>

definition wf_conditions :: "condition list \<Rightarrow> bool" where
  "wf_conditions cs \<longleftrightarrow> distinct (map c_Type cs)"

definition ordered_conditions :: "condition list \<Rightarrow> bool" where
  "ordered_conditions cs \<longleftrightarrow> sorted_wrt (\<lambda>i j. lexicographicLess (Some i) (Some j)) cs"

text \<open>What a write of \<open>c\<close> leaves when the old value of its type is \<open>old\<close>.\<close>

definition stamped :: "int \<Rightarrow> condition option \<Rightarrow> condition \<Rightarrow> condition" where
  "stamped now old c =
     (case old of
        Some e \<Rightarrow> if HasSameState (Some e) (Some c) then e else c\<lparr>c_LastTransitionTime := truncate_second now\<rparr>
      | None \<Rightarrow> if c_LastTransitionTime c = 0 then c\<lparr>c_LastTransitionTime := truncate_second now\<rparr> else c)"

locale condition_store =
  fixes get :: "'s \<Rightarrow> string \<Rightarrow> condition option"
    and put :: "int \<Rightarrow> 's \<Rightarrow> condition \<Rightarrow> 's"
    and del :: "'s \<Rightarrow> string \<Rightarrow> 's"
    and wf :: "'s \<Rightarrow> bool"
  assumes wf_put: "wf s \<Longrightarrow> wf (put now s c)"
    and wf_del: "wf s \<Longrightarrow> wf (del s t)"
    and get_put: "wf s \<Longrightarrow> get (put now s c) = (get s)(c_Type c \<mapsto> stamped now (get s (c_Type c)) c)"
    and get_del: "wf s \<Longrightarrow> get (del s t) = (get s)(t := None)"
begin

lemma get_put_same_state:
  "wf s \<Longrightarrow> HasSameState (get (put now s c) (c_Type c)) (Some c)"
  by (auto simp: get_put stamped_def HasSameState_def split: option.splits)

lemma get_put_other: "wf s \<Longrightarrow> t \<noteq> c_Type c \<Longrightarrow> get (put now s c) t = get s t"
  by (simp add: get_put)

lemma put_put_get:
  "wf s \<Longrightarrow> get (put now' (put now s c) c) = get (put now s c)"
  by (auto simp: get_put wf_put stamped_def HasSameState_def fun_eq_iff split: option.splits)

end

lemma HasSameState_refl [simp]: "HasSameState x x"
  by (simp add: HasSameState_def split: option.splits)

lemma HasSameState_Some_Type: "HasSameState (Some a) (Some b) \<Longrightarrow> c_Type a = c_Type b"
  by (simp add: HasSameState_def)

lemma HasSameState_SomeD: "HasSameState x (Some b) \<Longrightarrow> \<exists>a. x = Some a"
  by (cases x) (simp_all add: HasSameState_def)

lemma Get_Some_iff:
  "wf_conditions cs \<Longrightarrow> conditions_Get cs t = Some c \<longleftrightarrow> c \<in> set cs \<and> c_Type c = t"
  unfolding wf_conditions_def conditions_Get_def
  by (induction cs) auto

lemma Get_None_iff: "conditions_Get cs t = None \<longleftrightarrow> t \<notin> c_Type ` set cs"
  by (auto simp: conditions_Get_def find_None_iff)

lemma Get_Type: "conditions_Get cs t = Some c \<Longrightarrow> c_Type c = t"
  by (auto simp: conditions_Get_def find_Some_iff)

lemma Get_cong_set:
  assumes "wf_conditions cs" "wf_conditions cs'" "set cs = set cs'"
  shows "conditions_Get cs = conditions_Get cs'"
proof
  fix t
  show "conditions_Get cs t = conditions_Get cs' t"
  proof (cases "conditions_Get cs t")
    case None
    then show ?thesis using assms(3) by (metis Get_None_iff)
  next
    case (Some c)
    then show ?thesis using assms by (metis Get_Some_iff)
  qed
qed

lemma wf_conditions_sort [simp]: "wf_conditions (sort_conditions cs) = wf_conditions cs"
  unfolding wf_conditions_def sort_conditions_def
  by (metis mset_eq_imp_distinct_iff mset_go_sort mset_map)

lemma set_sort_conditions [simp]: "set (sort_conditions cs) = set cs"
  by (simp add: sort_conditions_def)

lemma Get_sort [simp]: "wf_conditions cs \<Longrightarrow> conditions_Get (sort_conditions cs) = conditions_Get cs"
  by (rule Get_cong_set) simp_all

lemma set_existing_None: "set_existing now cs c = None \<longleftrightarrow> conditions_Get cs (c_Type c) = None"
  by (induction cs) (auto simp: conditions_Get_def split: option.splits)

lemma set_existing_types: "set_existing now cs c = Some cs' \<Longrightarrow> map c_Type cs' = map c_Type cs"
  by (induction cs arbitrary: cs') (auto split: option.splits if_splits)

lemma Get_set_existing:
  "set_existing now cs c = Some cs' \<Longrightarrow>
   conditions_Get cs' = (conditions_Get cs)(c_Type c \<mapsto> stamped now (conditions_Get cs (c_Type c)) c)"
proof (induction cs arbitrary: cs')
  case (Cons e es)
  show ?case
  proof (cases "c_Type e = c_Type c")
    case True
    then show ?thesis using Cons.prems
      by (auto simp: conditions_Get_def stamped_def fun_eq_iff split: if_splits)
  next
    case False
    then obtain es' where "set_existing now es c = Some es'" "cs' = e # es'"
      using Cons.prems by (auto split: option.splits)
    then show ?thesis using Cons.IH False by (auto simp: conditions_Get_def fun_eq_iff)
  qed
qed simp

lemma Get_append_new:
  "conditions_Get cs (c_Type c) = None \<Longrightarrow> conditions_Get (cs @ [c]) = (conditions_Get cs)(c_Type c \<mapsto> c)"
  by (induction cs) (auto simp: conditions_Get_def fun_eq_iff split: if_splits)

lemma wf_append_new:
  "wf_conditions cs \<Longrightarrow> conditions_Get cs (c_Type c) = None \<Longrightarrow> wf_conditions (cs @ [c])"
  by (auto simp: wf_conditions_def Get_None_iff)

lemma set_latest_unfold:
  "set_latest now cs c = sort_conditions
     (case set_existing now cs c of Some cs' \<Rightarrow> cs' | None \<Rightarrow> cs @ [stamped now None c])"
  by (simp add: set_latest_def conditions_Set_def stamped_def split: option.split)

lemma delete_latest_unfold: "delete_latest cs t = filter (\<lambda>c. c_Type c \<noteq> t) cs"
  by (simp add: delete_latest_def conditions_Delete_def)

lemma stamped_Type [simp]: "c_Type (stamped now old c) = c_Type c"
  by (auto simp: stamped_def HasSameState_def split: option.splits)

lemma wf_set_latest_body:
  assumes "wf_conditions cs"
  shows "wf_conditions (case set_existing now cs c of Some cs' \<Rightarrow> cs' | None \<Rightarrow> cs @ [stamped now None c])"
proof (cases "set_existing now cs c")
  case None
  then have "conditions_Get cs (c_Type (stamped now None c)) = None"
    by (simp add: set_existing_None)
  then show ?thesis using None assms wf_append_new by simp
next
  case (Some cs')
  then show ?thesis using assms set_existing_types [OF Some] by (simp add: wf_conditions_def)
qed

lemma wf_set_latest: "wf_conditions cs \<Longrightarrow> wf_conditions (set_latest now cs c)"
  by (simp add: set_latest_unfold wf_set_latest_body)

lemma Get_set_latest:
  assumes "wf_conditions cs"
  shows "conditions_Get (set_latest now cs c) =
     (conditions_Get cs)(c_Type c \<mapsto> stamped now (conditions_Get cs (c_Type c)) c)"
proof (cases "set_existing now cs c")
  case None
  then have none: "conditions_Get cs (c_Type c) = None" by (simp add: set_existing_None)
  then have "conditions_Get (cs @ [stamped now None c]) = (conditions_Get cs)(c_Type c \<mapsto> stamped now None c)"
    using Get_append_new [of cs "stamped now None c"] by simp
  then show ?thesis
    using None none wf_set_latest_body [OF assms, of now c] by (simp add: set_latest_unfold)
next
  case (Some cs')
  then show ?thesis
    using Get_set_existing [OF Some] wf_set_latest_body [OF assms, of now c]
    by (simp add: set_latest_unfold)
qed

lemma Get_delete_latest: "conditions_Get (delete_latest cs t) = (conditions_Get cs)(t := None)"
  by (induction cs) (auto simp: conditions_Get_def delete_latest_unfold fun_eq_iff)

lemma wf_delete_latest: "wf_conditions cs \<Longrightarrow> wf_conditions (delete_latest cs t)"
  by (simp add: wf_conditions_def delete_latest_unfold distinct_map_filter)

interpretation cstore: condition_store conditions_Get set_latest delete_latest wf_conditions
  by unfold_locales (simp_all add: wf_set_latest wf_delete_latest Get_set_latest Get_delete_latest)

section \<open>The order of the conditions\<close>

lemma lexicographicLess_Some:
  "lexicographicLess (Some i) (Some j) \<longleftrightarrow>
   (c_Type i = ReadyCondition \<or> c_Type i < c_Type j) \<and> c_Type j \<noteq> ReadyCondition"
  by (simp add: lexicographicLess_def)

interpretation cond_order: weak_order "\<lambda>i j. lexicographicLess (Some i) (Some j)"
  by unfold_locales (auto simp: lexicographicLess_Some)

lemma lexicographicLess_total:
  "c_Type i \<noteq> c_Type j \<Longrightarrow> lexicographicLess (Some i) (Some j) \<or> lexicographicLess (Some j) (Some i)"
  by (auto simp: lexicographicLess_Some)

lemma ordered_sort:
  assumes "wf_conditions cs"
  shows "ordered_conditions (sort_conditions cs)"
proof -
  have sorted: "sorted_wrt (\<lambda>i j. \<not> lexicographicLess (Some j) (Some i)) (sort_conditions cs)"
    unfolding sort_conditions_def by (rule cond_order.sorted_go_sort)
  have "distinct (map c_Type (sort_conditions cs))"
    using assms by (simp flip: wf_conditions_def)
  then have "sorted_wrt (\<lambda>i j. c_Type i \<noteq> c_Type j) (sort_conditions cs)"
    by (simp add: distinct_conv_nth sorted_wrt_iff_nth_less)
  with sorted show ?thesis
    unfolding ordered_conditions_def sorted_wrt_iff_nth_less
    using lexicographicLess_total by blast
qed

lemma ordered_filter: "ordered_conditions cs \<Longrightarrow> ordered_conditions (filter P cs)"
  by (simp add: ordered_conditions_def sorted_wrt_filter)

lemma Set_eq: "conditions_Set now (Some cs) (Some c) = Some (set_latest now cs c)"
  by (simp add: conditions_Set_def set_latest_def)

lemma ordered_set_latest: "wf_conditions cs \<Longrightarrow> ordered_conditions (set_latest now cs c)"
  by (simp add: set_latest_unfold ordered_sort wf_set_latest_body)

text \<open>
  C17: writing a condition keeps the list well formed: no type occurs twice, the Ready condition comes
  first and the others follow in the order of their types; and it refines the update of one key of the
  map from types to conditions, with the old transition time where the state did not change.
\<close>

theorem Set_refines_update:
  assumes "wf_conditions cs"
  shows "\<exists>cs'. conditions_Set now (Some cs) (Some c) = Some cs' \<and>
           wf_conditions cs' \<and> ordered_conditions cs' \<and>
           conditions_Get cs' = (conditions_Get cs)
             (c_Type c \<mapsto>
               (case conditions_Get cs (c_Type c) of
                  Some e \<Rightarrow> if HasSameState (Some e) (Some c) then e
                            else c\<lparr>c_LastTransitionTime := truncate_second now\<rparr>
                | None \<Rightarrow> if c_LastTransitionTime c = 0
                          then c\<lparr>c_LastTransitionTime := truncate_second now\<rparr> else c))"
  using assms
  by (auto simp: Set_eq wf_set_latest ordered_set_latest Get_set_latest stamped_def)

theorem Set_refines_update_witness:
  "\<exists>cs'. conditions_Set 5000000001 (Some [TrueCondition ''A'']) (Some (TrueCondition ''Ready'')) = Some cs' \<and>
     wf_conditions cs' \<and> ordered_conditions cs' \<and>
     conditions_Get cs' ''A'' = Some (TrueCondition ''A'')"
proof -
  have wf: "wf_conditions [TrueCondition ''A'']" by (simp add: wf_conditions_def)
  have get: "conditions_Get [TrueCondition ''A''] ''A'' = Some (TrueCondition ''A'')"
    and ty: "c_Type (TrueCondition ''Ready'') = ''Ready''"
    by (simp_all add: TrueCondition_def conditions_Get_def)
  show ?thesis
    using Set_refines_update [OF wf, of 5000000001 "TrueCondition ''Ready''"]
    by (auto simp: get ty)
qed

section \<open>The three-way patch\<close>

lemma apply_operations_append:
  "apply_operations now opt (ps @ qs) latest =
     go_bind (apply_operations now opt ps latest) (apply_operations now opt qs)"
proof (induction ps arbitrary: latest)
  case (Cons p ps)
  then show ?case by (cases "apply_operation now opt p latest") simp_all
qed simp

definition target_ops :: "condition list \<Rightarrow> condition list \<Rightarrow> patchOperation list" where
  "target_ops b a =
     List.map_filter
       (\<lambda>target. case conditions_Get b (c_Type target) of
                   None \<Rightarrow> Some (AddConditionPatch target)
                 | Some current \<Rightarrow>
                     if target \<noteq> current then Some (ChangeConditionPatch current target) else None) a"

definition remove_ops :: "condition list \<Rightarrow> condition list \<Rightarrow> patchOperation list" where
  "remove_ops a b =
     List.map_filter
       (\<lambda>base. case conditions_Get a (c_Type base) of
                 None \<Rightarrow> Some (RemoveConditionPatch base) | Some _ \<Rightarrow> None) b"

lemma NewPatch_eq: "NewPatch (Some b) (Some a) = Ret (target_ops b a @ remove_ops a b)"
  by (simp add: NewPatch_def target_ops_def remove_ops_def)

lemma target_ops_simps:
  "target_ops b [] = []"
  "target_ops b (x # xs) =
     (case conditions_Get b (c_Type x) of
        None \<Rightarrow> AddConditionPatch x # target_ops b xs
      | Some current \<Rightarrow>
          if x \<noteq> current then ChangeConditionPatch current x # target_ops b xs else target_ops b xs)"
  by (simp_all add: target_ops_def List.map_filter_def split: option.split)

lemma remove_ops_simps:
  "remove_ops a [] = []"
  "remove_ops a (x # xs) =
     (case conditions_Get a (c_Type x) of
        None \<Rightarrow> RemoveConditionPatch x # remove_ops a xs | Some _ \<Rightarrow> remove_ops a xs)"
  by (simp_all add: remove_ops_def List.map_filter_def split: option.split)

text \<open>Applying the patch to the object it was computed from: the additions and the changes.\<close>

lemma apply_target_ops:
  assumes "wf_conditions s" and "distinct (map c_Type as)"
    and "\<And>x. x \<in> set as \<Longrightarrow> conditions_Get s (c_Type x) = conditions_Get b (c_Type x)"
  shows "\<exists>s'. apply_operations now opt (target_ops b as) s = Ret s' \<and> wf_conditions s' \<and>
     (\<forall>x\<in>set as. HasSameState (conditions_Get s' (c_Type x)) (Some x)) \<and>
     (\<forall>t. t \<notin> c_Type ` set as \<longrightarrow> conditions_Get s' t = conditions_Get s t)"
  using assms
proof (induction as arbitrary: s)
  case (Cons x xs)
  define s1 where "s1 = (if conditions_Get b (c_Type x) = Some x then s else set_latest now s x)"
  have wf1: "wf_conditions s1" using Cons.prems(1) by (simp add: s1_def wf_set_latest)
  have same1: "HasSameState (conditions_Get s1 (c_Type x)) (Some x)"
    using Cons.prems(1,3) cstore.get_put_same_state by (auto simp: s1_def)
  have other1: "conditions_Get s1 t = conditions_Get s t" if "t \<noteq> c_Type x" for t
    using Cons.prems(1) that by (simp add: s1_def Get_set_latest)
  have step: "apply_operations now opt (target_ops b (x # xs)) s = apply_operations now opt (target_ops b xs) s1"
    using Cons.prems(3) [of x]
    by (auto simp: target_ops_simps s1_def split: option.splits)
  have ne: "c_Type y \<noteq> c_Type x" if "y \<in> set xs" for y using Cons.prems(2) that by (auto simp: image_iff)
  have "\<exists>s'. apply_operations now opt (target_ops b xs) s1 = Ret s' \<and> wf_conditions s' \<and>
     (\<forall>y\<in>set xs. HasSameState (conditions_Get s' (c_Type y)) (Some y)) \<and>
     (\<forall>t. t \<notin> c_Type ` set xs \<longrightarrow> conditions_Get s' t = conditions_Get s1 t)"
    using Cons.prems wf1 by (intro Cons.IH) (auto simp: other1 ne)
  moreover have "c_Type x \<notin> c_Type ` set xs" using Cons.prems(2) by auto
  ultimately show ?case using same1 other1 unfolding step by auto
qed (simp add: target_ops_simps)

text \<open>The removals.\<close>

lemma apply_remove_ops:
  assumes "wf_conditions s" and "distinct (map c_Type bs)"
    and "\<And>x. x \<in> set bs \<Longrightarrow> conditions_Get a (c_Type x) = None \<Longrightarrow>
           conditions_Get s (c_Type x) = Some x"
  shows "\<exists>s'. apply_operations now opt (remove_ops a bs) s = Ret s' \<and> wf_conditions s' \<and>
     (\<forall>t. conditions_Get s' t =
        (if t \<in> c_Type ` set bs \<and> conditions_Get a t = None then None else conditions_Get s t))"
  using assms
proof (induction bs arbitrary: s)
  case (Cons x xs)
  define s1 where "s1 = (if conditions_Get a (c_Type x) = None then delete_latest s (c_Type x) else s)"
  have wf1: "wf_conditions s1" using Cons.prems(1) by (simp add: s1_def wf_delete_latest)
  have get1: "conditions_Get s1 t =
      (if t = c_Type x \<and> conditions_Get a t = None then None else conditions_Get s t)" for t
    by (auto simp: s1_def Get_delete_latest)
  have step: "apply_operations now opt (remove_ops a (x # xs)) s = apply_operations now opt (remove_ops a xs) s1"
    using Cons.prems(3) [of x] by (auto simp: remove_ops_simps s1_def split: option.splits)
  have ne: "c_Type y \<noteq> c_Type x" if "y \<in> set xs" for y using Cons.prems(2) that by (auto simp: image_iff)
  have "\<exists>s'. apply_operations now opt (remove_ops a xs) s1 = Ret s' \<and> wf_conditions s' \<and>
     (\<forall>t. conditions_Get s' t =
        (if t \<in> c_Type ` set xs \<and> conditions_Get a t = None then None else conditions_Get s1 t))"
    using Cons.prems wf1 by (intro Cons.IH) (auto simp: get1 ne)
  then show ?case unfolding step by (auto simp: get1)
qed (simp add: remove_ops_simps)

text \<open>
  C16: the patch between two objects, applied to the first of them, never conflicts and gives an object
  with exactly the condition types of the second one, each in the same state (type, status, reason,
  severity and message), whatever conditions are owned or forced.
\<close>

theorem Patch_roundtrip:
  assumes "wf_conditions before" and "wf_conditions after"
  shows "\<exists>p r. NewPatch (Some before) (Some after) = Ret p \<and>
           Patch_Apply now opt p (Some before) = Ret (Some r) \<and> wf_conditions r \<and>
           (\<forall>t. HasSameState (conditions_Get r t) (conditions_Get after t))"
proof -
  have da: "distinct (map c_Type after)" "distinct (map c_Type before)"
    using assms by (simp_all add: wf_conditions_def)
  obtain s where s: "apply_operations now opt (target_ops before after) before = Ret s"
    "wf_conditions s"
    "\<And>x. x \<in> set after \<Longrightarrow> HasSameState (conditions_Get s (c_Type x)) (Some x)"
    "\<And>t. t \<notin> c_Type ` set after \<Longrightarrow> conditions_Get s t = conditions_Get before t"
    using apply_target_ops [OF assms(1) da(1), of before now opt] by auto
  have "conditions_Get s (c_Type x) = Some x"
    if "x \<in> set before" "conditions_Get after (c_Type x) = None" for x
    using that s(4) assms(1) by (metis Get_None_iff Get_Some_iff)
  then obtain r where r: "apply_operations now opt (remove_ops after before) s = Ret r" "wf_conditions r"
    "\<And>t. conditions_Get r t =
       (if t \<in> c_Type ` set before \<and> conditions_Get after t = None then None else conditions_Get s t)"
    using apply_remove_ops [OF s(2) da(2), of after now opt] by auto
  have state: "HasSameState (conditions_Get r t) (conditions_Get after t)" for t
  proof (cases "conditions_Get after t")
    case None
    then have "conditions_Get s t = conditions_Get before t" using s(4) by (metis Get_None_iff)
    then have "conditions_Get r t = None" using None r(3) by (metis Get_None_iff)
    then show ?thesis using None by simp
  next
    case (Some c)
    then have "c \<in> set after" "c_Type c = t" using assms(2) by (simp_all add: Get_Some_iff)
    then show ?thesis using s(3) r(3) Some by auto
  qed
  define p where "p = target_ops before after @ remove_ops after before"
  have "apply_operations now opt p before = Ret r" by (simp add: p_def apply_operations_append s(1) r(1))
  then have "Patch_Apply now opt p (Some before) = Ret (Some r)"
    by (cases "p = []") (simp_all add: Patch_Apply_def patch_IsZero_def)
  then show ?thesis using r(2) state unfolding NewPatch_eq p_def by blast
qed

theorem Patch_roundtrip_witness:
  "\<exists>p r. NewPatch (Some [TrueCondition ''A'', TrueCondition ''B''])
                  (Some [FalseCondition ''A'' ''R'' ''Error'' ''m'']) = Ret p \<and>
     Patch_Apply 7000000000 \<lparr>ownedConditions = [], forceOverwrite = False\<rparr> p
       (Some [TrueCondition ''A'', TrueCondition ''B'']) = Ret (Some r) \<and>
     wf_conditions r \<and> conditions_Get r ''B'' = None \<and> conditions_IsFalse r ''A''"
proof -
  let ?b = "[TrueCondition ''A'', TrueCondition ''B'']"
  let ?a = "[FalseCondition ''A'' ''R'' ''Error'' ''m'']"
  have b: "wf_conditions ?b" and a: "wf_conditions ?a"
    by (simp_all add: wf_conditions_def TrueCondition_def)
  obtain p r where pr: "NewPatch (Some ?b) (Some ?a) = Ret p"
    "Patch_Apply 7000000000 \<lparr>ownedConditions = [], forceOverwrite = False\<rparr> p (Some ?b) = Ret (Some r)"
    "wf_conditions r" "\<And>t. HasSameState (conditions_Get r t) (conditions_Get ?a t)"
    using Patch_roundtrip [OF b a] by blast
  have "conditions_Get ?a ''B'' = None"
    "conditions_Get ?a ''A'' = Some (FalseCondition ''A'' ''R'' ''Error'' ''m'')"
    by (simp_all add: conditions_Get_def FalseCondition_def)
  then have "conditions_Get r ''B'' = None" "conditions_IsFalse r ''A''"
    using pr(4) [of "''B''"] pr(4) [of "''A''"]
    by (auto simp: HasSameState_def conditions_IsFalse_def FalseCondition_def split: option.splits)
  then show ?thesis using pr by blast
qed

section \<open>Patching an object that changed in the meantime\<close>

lemma target_ops_type: "q \<in> set (target_ops b as) \<Longrightarrow>
   (\<exists>x\<in>set as. (q = AddConditionPatch x \<and> conditions_Get b (c_Type x) = None) \<or>
      (\<exists>y. q = ChangeConditionPatch y x \<and> conditions_Get b (c_Type x) = Some y \<and> x \<noteq> y))"
  by (induction as) (auto simp: target_ops_simps split: option.splits if_splits)

lemma remove_ops_type: "q \<in> set (remove_ops a bs) \<Longrightarrow>
   \<exists>x\<in>set bs. q = RemoveConditionPatch x \<and> conditions_Get a (c_Type x) = None"
  by (induction bs) (auto simp: remove_ops_simps split: option.splits)

fun op_type :: "patchOperation \<Rightarrow> string" where
  "op_type (AddConditionPatch a) = c_Type a"
| "op_type (ChangeConditionPatch b a) = c_Type a"
| "op_type (RemoveConditionPatch b) = c_Type b"

lemma apply_operation_frame:
  assumes "apply_operation now opt q s = Ret s'" and "wf_conditions s"
  shows "wf_conditions s' \<and> (\<forall>t. t \<noteq> op_type q \<longrightarrow> conditions_Get s' t = conditions_Get s t)"
proof (cases q)
  case (AddConditionPatch a)
  then show ?thesis using assms
    by (auto simp: wf_set_latest Get_set_latest split: if_splits option.splits)
next
  case (ChangeConditionPatch b a)
  then show ?thesis using assms
    by (auto simp: wf_set_latest Get_set_latest split: if_splits option.splits)
next
  case (RemoveConditionPatch b)
  then show ?thesis using assms
    by (auto simp: wf_delete_latest Get_delete_latest split: if_splits option.splits)
qed

lemma apply_operations_frame:
  assumes "apply_operations now opt qs s = Ret s'" and "wf_conditions s"
  shows "wf_conditions s' \<and>
     (\<forall>t. t \<notin> op_type ` set qs \<longrightarrow> conditions_Get s' t = conditions_Get s t)"
  using assms
proof (induction qs arbitrary: s)
  case (Cons q qs)
  then obtain s1 where s1: "apply_operation now opt q s = Ret s1" "apply_operations now opt qs s1 = Ret s'"
    by (auto simp: go_simps)
  have f: "wf_conditions s1" "\<And>t. t \<noteq> op_type q \<Longrightarrow> conditions_Get s1 t = conditions_Get s t"
    using apply_operation_frame [OF s1(1) Cons.prems(2)] by auto
  then show ?case using Cons.IH [OF s1(2)] by auto
qed simp

text \<open>
  The patch never overwrites what it does not change. When it is applied to an object that another
  process changed in the meantime, every condition type on which the patch's own before and after agree
  keeps the value of that object.
\<close>

lemma Patch_keeps_unchanged:
  assumes "wf_conditions latest" and "NewPatch (Some before) (Some after) = Ret p"
    and "Patch_Apply now opt p (Some latest) = Ret (Some r)"
    and "wf_conditions before" and "wf_conditions after"
    and "conditions_Get before t = conditions_Get after t"
  shows "conditions_Get r t = conditions_Get latest t"
proof -
  have p: "p = target_ops before after @ remove_ops after before"
    using assms(2) by (simp add: NewPatch_eq)
  have app: "apply_operations now opt p latest = Ret r"
    using assms(3) by (auto simp: Patch_Apply_def patch_IsZero_def go_simps split: if_splits)
  have in_after: "conditions_Get before (c_Type x) \<noteq> Some x \<Longrightarrow> t \<noteq> c_Type x" if "x \<in> set after" for x
    using assms(6) Get_Some_iff [OF assms(5), of "c_Type x" x] that by auto
  have "t \<noteq> op_type q" if "q \<in> set (target_ops before after)" for q
    using target_ops_type [OF that] by (elim bexE disjE exE conjE) (simp_all add: in_after)
  moreover have "t \<noteq> op_type q" if "q \<in> set (remove_ops after before)" for q
    using remove_ops_type [OF that] assms(6) Get_None_iff [of before t] by auto
  ultimately have "t \<notin> op_type ` set p" by (auto simp: p)
  then show ?thesis using apply_operations_frame [OF app assms(1)] by simp
qed

lemma apply_operations_force_Ret:
  assumes "\<forall>q\<in>set qs. forceOverwrite opt \<or> isOwnedCondition opt (op_type q)"
  shows "\<exists>s'. apply_operations now opt qs s = Ret s'"
  using assms
proof (induction qs arbitrary: s)
  case (Cons q qs)
  then have "\<exists>s1. apply_operation now opt q s = Ret s1" by (cases q) auto
  then show ?case using Cons by fastforce
qed simp

section \<open>Merging conditions\<close>

definition lc_key :: "localizedCondition \<Rightarrow> (string \<times> string) option" where
  "lc_key lc = map_option (\<lambda>c. (groupStatus (lc_Polarity lc) (c_Status c), c_Severity c)) (lc_Condition lc)"

definition group_key :: "conditionGroup \<Rightarrow> string \<times> string" where
  "group_key g = (cg_status g, cg_severity g)"

definition status_priority :: "string \<times> string \<Rightarrow> int" where
  "status_priority k = mergePriority \<lparr>cg_status = fst k, cg_severity = snd k, cg_conditions = []\<rparr>"

lemma mergePriority_key: "mergePriority g = status_priority (group_key g)"
  by (simp add: mergePriority_def status_priority_def group_key_def)

lemma keys_add_to_group:
  "group_key ` set (add_to_group grs st c g) = insert (st, c_Severity c) (group_key ` set grs)"
  by (induction grs) (auto simp: group_key_def)

lemma keys_collect_groups:
  "group_key ` set (collect_groups lcs) = {k. \<exists>lc\<in>set lcs. lc_key lc = Some k}"
proof -
  have "group_key ` set (foldl (\<lambda>grs lc. case lc_Condition lc of None \<Rightarrow> grs
            | Some c \<Rightarrow> add_to_group grs (groupStatus (lc_Polarity lc) (c_Status c)) c (lc_Getter lc)) grs lcs)
        = group_key ` set grs \<union> {k. \<exists>lc\<in>set lcs. lc_key lc = Some k}" for grs
  proof (induction lcs arbitrary: grs)
    case (Cons lc lcs)
    show ?case
    proof (cases "lc_Condition lc")
      case None
      then show ?thesis using Cons by (auto simp: lc_key_def)
    next
      case (Some c)
      then show ?thesis using Cons by (auto simp: lc_key_def keys_add_to_group)
    qed
  qed simp
  from this [of "[]"] show ?thesis by (simp add: collect_groups_def)
qed

interpretation group_order: weak_order group_less
  by unfold_locales (auto simp: group_less_def)

lemma getConditionGroups_Nil: "getConditionGroups lcs = [] \<longleftrightarrow> (\<forall>lc\<in>set lcs. lc_Condition lc = None)"
proof -
  have "getConditionGroups lcs = [] \<longleftrightarrow> collect_groups lcs = []"
    using go_sort_Nil_iff [of group_less "collect_groups lcs"]
    by (cases "go_sort group_less (collect_groups lcs)") (simp_all add: getConditionGroups_def)
  also have "\<dots> \<longleftrightarrow> group_key ` set (collect_groups lcs) = {}" by simp
  also have "\<dots> \<longleftrightarrow> (\<forall>lc\<in>set lcs. lc_Condition lc = None)"
    unfolding keys_collect_groups by (auto simp: lc_key_def) (metis not_Some_eq)
  finally show ?thesis .
qed

lemma TopGroup_key:
  assumes "TopGroup (getConditionGroups lcs) = Some tg"
  shows "(\<exists>lc\<in>set lcs. lc_key lc = Some (group_key tg)) \<and>
     (\<forall>lc\<in>set lcs. \<forall>k. lc_key lc = Some k \<longrightarrow> status_priority (group_key tg) \<le> status_priority k)"
proof -
  obtain g gs where gs: "go_sort group_less (collect_groups lcs) = g # gs"
    and key: "group_key tg = group_key g"
    using assms by (auto simp: TopGroup_def getConditionGroups_def group_key_def split: list.splits)
  have "g \<in> set (collect_groups lcs)" by (metis gs list.set_intros(1) set_go_sort)
  then have "group_key g \<in> {k. \<exists>lc\<in>set lcs. lc_key lc = Some k}"
    by (metis imageI keys_collect_groups)
  moreover have "status_priority (group_key g) \<le> status_priority k"
    if "lc \<in> set lcs" "lc_key lc = Some k" for lc k
  proof -
    have "k \<in> group_key ` set (collect_groups lcs)" using that by (auto simp: keys_collect_groups)
    then obtain h where h: "h \<in> set (collect_groups lcs)" "k = group_key h" by auto
    then have "\<not> group_less h (hd (go_sort group_less (collect_groups lcs)))"
      by (intro group_order.hd_go_sort_least) auto
    then show ?thesis by (simp add: gs group_less_def mergePriority_key h(2))
  qed
  ultimately show ?thesis by (auto simp: key)
qed


definition localized :: "condition \<Rightarrow> localizedCondition" where
  "localized c = \<lparr>lc_Condition = Some c, lc_Polarity = PositivePolarity,
     lc_Getter = \<lparr>g_Name = ''m'', g_Kind = ''Machine'', g_Conditions = [c]\<rparr>\<rparr>"


text \<open>
  The message of a merged condition is the message of the first condition of the top group only where
  that message has no percent sign: the merged message is used as a format string, so that a message
  with a percent sign is rewritten.
\<close>

lemma merge_reformats_percent:
  "c_Message (the (conditions_merge [localized (FalseCondition ''B'' ''R'' ''Error'' ''disk 95% full'')]
     ''Ready'' no_mergeOptions)) = ''disk 95%!f(MISSING)ull''"
  by code_simp

lemma Sprintf0_plain: "CHR ''%'' \<notin> set m \<Longrightarrow> Sprintf0 m = m"
  by (induction m) auto

end
