(* ===== verification/Api_Types.thy ===== *)
theory Api_Types
  imports Conditions
begin

text \<open>
  The API types of api/v1beta1 as the controllers use them: the metadata of every object, Machines,
  MachineSets and MachineDeployments. A Go pointer is an option, a time is a number of nanoseconds
  (the zero time is 0), an \<^verbatim>\<open>int32\<close> is an integer that the operations keep in range with
  \<^term>\<open>i32\<close>. The objects are told apart by their HOL types, so the inlined \<^verbatim>\<open>TypeMeta\<close> has no fields
  here; of the metadata of Kubernetes the fields that the controllers use are kept.
\<close>

section \<open>Well-known labels and annotations\<close>

abbreviation DisableMachineCreateAnnotation :: string where
  "DisableMachineCreateAnnotation \<equiv> ''cluster.x-k8s.io/disable-machine-create''"
abbreviation DeleteMachineAnnotation :: string where
  "DeleteMachineAnnotation \<equiv> ''cluster.x-k8s.io/delete-machine''"
abbreviation MachineSetSkipPreflightChecksAnnotation :: string where
  "MachineSetSkipPreflightChecksAnnotation \<equiv> ''machineset.cluster.x-k8s.io/skip-preflight-checks''"
abbreviation RevisionAnnotation :: string where
  "RevisionAnnotation \<equiv> ''machinedeployment.clusters.x-k8s.io/revision''"
abbreviation RevisionHistoryAnnotation :: string where
  "RevisionHistoryAnnotation \<equiv> ''machinedeployment.clusters.x-k8s.io/revision-history''"
abbreviation DesiredReplicasAnnotation :: string where
  "DesiredReplicasAnnotation \<equiv> ''machinedeployment.clusters.x-k8s.io/desired-replicas''"
abbreviation MaxReplicasAnnotation :: string where
  "MaxReplicasAnnotation \<equiv> ''machinedeployment.clusters.x-k8s.io/max-replicas''"
abbreviation MachineDeploymentUniqueLabel :: string where
  "MachineDeploymentUniqueLabel \<equiv> ''machine-template-hash''"
abbreviation MachineDeploymentNameLabel :: string where
  "MachineDeploymentNameLabel \<equiv> ''cluster.x-k8s.io/deployment-name''"
abbreviation MachineSetNameLabel :: string where
  "MachineSetNameLabel \<equiv> ''cluster.x-k8s.io/set-name''"

section \<open>Metadata\<close>

record owner_reference =
  or_APIVersion :: string
  or_Kind :: string
  or_Name :: string
  or_UID :: string
  or_Controller :: "bool option"

record object_meta =
  om_Name :: string
  om_Namespace :: string
  om_UID :: string
  om_Labels :: string_map
  om_Annotations :: string_map
  om_CreationTimestamp :: int
  om_DeletionTimestamp :: "int option"
  om_Generation :: int
  om_Finalizers :: "string list"
  om_OwnerReferences :: "owner_reference list"

text \<open>\<^verbatim>\<open>DeletionTimestamp.IsZero()\<close> is true for a nil pointer and for the zero time.\<close>

definition time_IsZero :: "int option \<Rightarrow> bool" where
  "time_IsZero t = (case t of None \<Rightarrow> True | Some x \<Rightarrow> x = 0)"

record object_reference =
  ref_Kind :: string
  ref_Namespace :: string
  ref_Name :: string
  ref_UID :: string
  ref_APIVersion :: string

definition empty_reference :: object_reference where
  "empty_reference = \<lparr>ref_Kind = [], ref_Namespace = [], ref_Name = [], ref_UID = [], ref_APIVersion = []\<rparr>"

record label_requirement =
  lr_Key :: string
  lr_Operator :: string
  lr_Values :: "string list option"

record label_selector =
  sel_MatchLabels :: string_map
  sel_MatchExpressions :: "label_requirement list option"

text \<open>\<^verbatim>\<open>metav1.Condition\<close>, the conditions of the v1beta2 status.\<close>

record meta_condition =
  mc_Type :: string
  mc_Status :: string
  mc_ObservedGeneration :: int
  mc_LastTransitionTime :: int
  mc_Reason :: string
  mc_Message :: string

section \<open>Machine\<close>

record bootstrap =
  bs_ConfigRef :: "object_reference option"
  bs_DataSecretName :: "string option"

record machine_spec =
  sp_ClusterName :: string
  sp_Bootstrap :: bootstrap
  sp_InfrastructureRef :: object_reference
  sp_Version :: "string option"
  sp_ProviderID :: "string option"
  sp_FailureDomain :: "string option"
  sp_ReadinessGates :: "string list option"
  sp_NodeDrainTimeout :: "int option"
  sp_NodeVolumeDetachTimeout :: "int option"
  sp_NodeDeletionTimeout :: "int option"

record node_system_info =
  ni_MachineID :: string
  ni_KernelVersion :: string
  ni_OSImage :: string
  ni_ContainerRuntimeVersion :: string
  ni_KubeletVersion :: string
  ni_OperatingSystem :: string
  ni_Architecture :: string

record machine_address =
  addr_Type :: string
  addr_Address :: string

record machine_deletion_status =
  dl_NodeDrainStartTime :: "int option"
  dl_WaitForNodeVolumeDetachStartTime :: "int option"

record machine_v1beta2 =
  m2_Conditions :: "meta_condition list"

record machine_status =
  st_NodeRef :: "object_reference option"
  st_NodeInfo :: "node_system_info option"
  st_LastUpdated :: "int option"
  st_FailureReason :: "string option"
  st_FailureMessage :: "string option"
  st_Addresses :: "machine_address list"
  st_Phase :: string
  st_CertificatesExpiryDate :: "int option"
  st_BootstrapReady :: bool
  st_InfrastructureReady :: bool
  st_ObservedGeneration :: int
  st_Conditions :: "condition list"
  st_Deletion :: "machine_deletion_status option"
  st_V1Beta2 :: "machine_v1beta2 option"

record machine =
  m_Meta :: object_meta
  m_Spec :: machine_spec
  m_Status :: machine_status

record machine_template =
  tp_Labels :: string_map
  tp_Annotations :: string_map
  tp_Spec :: machine_spec

section \<open>MachineSet\<close>

record machineset_spec =
  mss_ClusterName :: string
  mss_Replicas :: "int option"
  mss_MinReadySeconds :: int
  mss_DeletePolicy :: string
  mss_Selector :: label_selector
  mss_Template :: machine_template

record machineset_v1beta2 =
  ms2_Conditions :: "meta_condition list"
  ms2_ReadyReplicas :: "int option"
  ms2_AvailableReplicas :: "int option"
  ms2_UpToDateReplicas :: "int option"

record machineset_status =
  mst_Selector :: string
  mst_Replicas :: int
  mst_FullyLabeledReplicas :: int
  mst_ReadyReplicas :: int
  mst_AvailableReplicas :: int
  mst_ObservedGeneration :: int
  mst_FailureReason :: "string option"
  mst_FailureMessage :: "string option"
  mst_Conditions :: "condition list"
  mst_V1Beta2 :: "machineset_v1beta2 option"

record machineset =
  ms_Meta :: object_meta
  ms_Spec :: machineset_spec
  ms_Status :: machineset_status

section \<open>MachineDeployment\<close>

datatype int_or_string = IntVal int | StrVal string

record rolling_update =
  ru_MaxUnavailable :: "int_or_string option"
  ru_MaxSurge :: "int_or_string option"
  ru_DeletePolicy :: "string option"

abbreviation RollingUpdateMachineDeploymentStrategyType :: string where
  "RollingUpdateMachineDeploymentStrategyType \<equiv> ''RollingUpdate''"
abbreviation OnDeleteMachineDeploymentStrategyType :: string where
  "OnDeleteMachineDeploymentStrategyType \<equiv> ''OnDelete''"

record remediation_strategy =
  rs_MaxInFlight :: "int_or_string option"

record md_strategy =
  str_Type :: string
  str_RollingUpdate :: "rolling_update option"
  str_Remediation :: "remediation_strategy option"

record machinedeployment_spec =
  mds_ClusterName :: string
  mds_Replicas :: "int option"
  mds_RolloutAfter :: "int option"
  mds_Selector :: label_selector
  mds_Template :: machine_template
  mds_Strategy :: "md_strategy option"
  mds_MinReadySeconds :: "int option"
  mds_RevisionHistoryLimit :: "int option"
  mds_Paused :: bool
  mds_ProgressDeadlineSeconds :: "int option"

record machinedeployment_v1beta2 =
  md2_Conditions :: "meta_condition list"
  md2_ReadyReplicas :: "int option"
  md2_AvailableReplicas :: "int option"
  md2_UpToDateReplicas :: "int option"

record machinedeployment_status =
  mdst_ObservedGeneration :: int
  mdst_Selector :: string
  mdst_Replicas :: int
  mdst_UpdatedReplicas :: int
  mdst_ReadyReplicas :: int
  mdst_AvailableReplicas :: int
  mdst_UnavailableReplicas :: int
  mdst_Phase :: string
  mdst_Conditions :: "condition list"
  mdst_V1Beta2 :: "machinedeployment_v1beta2 option"

record machinedeployment =
  md_Meta :: object_meta
  md_Spec :: machinedeployment_spec
  md_Status :: machinedeployment_status

section \<open>Readers\<close>

abbreviation ms_Name :: "machineset \<Rightarrow> string" where "ms_Name ms \<equiv> om_Name (ms_Meta ms)"
abbreviation ms_Annotations :: "machineset \<Rightarrow> string_map" where "ms_Annotations ms \<equiv> om_Annotations (ms_Meta ms)"
abbreviation ms_CreationTimestamp :: "machineset \<Rightarrow> int" where
  "ms_CreationTimestamp ms \<equiv> om_CreationTimestamp (ms_Meta ms)"
abbreviation ms_Replicas :: "machineset \<Rightarrow> int option" where "ms_Replicas ms \<equiv> mss_Replicas (ms_Spec ms)"
abbreviation ms_StatusReplicas :: "machineset \<Rightarrow> int" where "ms_StatusReplicas ms \<equiv> mst_Replicas (ms_Status ms)"
abbreviation ms_AvailableReplicas :: "machineset \<Rightarrow> int" where
  "ms_AvailableReplicas ms \<equiv> mst_AvailableReplicas (ms_Status ms)"
abbreviation md_Replicas :: "machinedeployment \<Rightarrow> int option" where "md_Replicas md \<equiv> mds_Replicas (md_Spec md)"
abbreviation md_Strategy :: "machinedeployment \<Rightarrow> md_strategy option" where
  "md_Strategy md \<equiv> mds_Strategy (md_Spec md)"
abbreviation m_Name :: "machine \<Rightarrow> string" where "m_Name m \<equiv> om_Name (m_Meta m)"
abbreviation m_Annotations :: "machine \<Rightarrow> string_map" where "m_Annotations m \<equiv> om_Annotations (m_Meta m)"
abbreviation m_CreationTimestamp :: "machine \<Rightarrow> int" where
  "m_CreationTimestamp m \<equiv> om_CreationTimestamp (m_Meta m)"
abbreviation m_DeletionTimestamp :: "machine \<Rightarrow> int option" where
  "m_DeletionTimestamp m \<equiv> om_DeletionTimestamp (m_Meta m)"
abbreviation m_Conditions :: "machine \<Rightarrow> condition list" where "m_Conditions m \<equiv> st_Conditions (m_Status m)"

end
