(* ===== verification/Md_Util.thy ===== *)
theory Md_Util
  imports Complex_Main Api_Types
begin

text \<open>
  Package internal/controllers/machinedeployment/mdutil: the arithmetic and the searches of the
  MachineDeployment controller. Functions that return one of the MachineSets they are given work on
  pointers and take the function \<open>ld\<close> that reads the MachineSet behind a pointer; functions that only
  read take the MachineSets themselves, where \<open>None\<close> is a nil pointer. A slice that is msSorted in place is
  part of the result.

  The third-party functions the package calls are the fields of the record \<open>md_ext\<close>: the API group
  of an object reference (\<^verbatim>\<open>GroupVersionKind().Group\<close>), the value of an int-or-percent
  (\<^verbatim>\<open>intstr.GetScaledValueFromIntOrPercent\<close>) and rounding (\<^verbatim>\<open>integer.RoundToInt32\<close>).
\<close>

section \<open>Parameters and errors\<close>

text \<open>
  A \<^verbatim>\<open>float64\<close> quotient of two \<^verbatim>\<open>int32\<close> values: the exact quotient, or not a finite number for the
  divisor 0. (The rounding of the division is below the distance of two such quotients from a half
  integer, so that it does not change the result of rounding to an integer.)
\<close>

datatype go_float = Finite rat | NonFinite

definition float_div :: "int \<Rightarrow> int \<Rightarrow> go_float" where
  "float_div a b = (if b = 0 then NonFinite else Finite (of_int a / of_int b))"

record md_ext =
  ext_Group :: "object_reference \<Rightarrow> string"
  ext_Scaled :: "int_or_string option \<Rightarrow> int \<Rightarrow> bool \<Rightarrow> string + int"
  ext_RoundToInt32 :: "go_float \<Rightarrow> int"

datatype md_error =
    ExtErr string
  | NilMDReplicas string
  | NilMSReplicas string
  | UnsupportedStrategy string
  | RevisionParse string
  | InvalidScaleDown string int int
  | NegativeReplicaCount string int
  | TemplatesMissing
  | NoUniqueLabel
  | ApiErr string

definition scaled :: "md_ext \<Rightarrow> int_or_string option \<Rightarrow> int \<Rightarrow> bool \<Rightarrow> (md_error, int) go" where
  "scaled ext v tot roundUp = (case ext_Scaled ext v tot roundUp of Inl e \<Rightarrow> Err (ExtErr e) | Inr n \<Rightarrow> Ret n)"

section \<open>Orders of MachineSets\<close>

definition MachineSetsByDecreasingReplicas_Less :: "machineset \<Rightarrow> machineset \<Rightarrow> bool" where
  "MachineSetsByDecreasingReplicas_Less i j =
     (case ms_Replicas i of None \<Rightarrow> False
      | Some ri \<Rightarrow>
        (case ms_Replicas j of None \<Rightarrow> True
         | Some rj \<Rightarrow>
             if ri = rj then
               (if ms_CreationTimestamp i = ms_CreationTimestamp j then ms_Name i < ms_Name j
                else ms_CreationTimestamp i < ms_CreationTimestamp j)
             else ri > rj))"

definition MachineSetsByCreationTimestamp_Less :: "machineset \<Rightarrow> machineset \<Rightarrow> bool" where
  "MachineSetsByCreationTimestamp_Less i j =
     (if ms_CreationTimestamp i = ms_CreationTimestamp j then ms_Name i < ms_Name j
      else ms_CreationTimestamp i < ms_CreationTimestamp j)"

text \<open>The two orders by size read the replicas without a check; they sort active MachineSets only.\<close>

definition replicas_or_zero :: "machineset \<Rightarrow> int" where
  "replicas_or_zero ms = ptr_deref (ms_Replicas ms) 0"

definition MachineSetsBySizeOlder_Less :: "machineset \<Rightarrow> machineset \<Rightarrow> bool" where
  "MachineSetsBySizeOlder_Less i j =
     (if replicas_or_zero i = replicas_or_zero j then ms_CreationTimestamp i < ms_CreationTimestamp j
      else replicas_or_zero i > replicas_or_zero j)"

definition MachineSetsBySizeNewer_Less :: "machineset \<Rightarrow> machineset \<Rightarrow> bool" where
  "MachineSetsBySizeNewer_Less i j =
     (if replicas_or_zero i = replicas_or_zero j then ms_CreationTimestamp j < ms_CreationTimestamp i
      else replicas_or_zero i > replicas_or_zero j)"

definition sort_by :: "(machineset \<Rightarrow> machineset \<Rightarrow> bool) \<Rightarrow> ('p \<Rightarrow> machineset) \<Rightarrow> 'p list \<Rightarrow> 'p list" where
  "sort_by lt ld ps = go_sort (\<lambda>p q. lt (ld p) (ld q)) ps"

section \<open>Revisions and annotations\<close>

definition SetDeploymentRevision :: "machinedeployment \<Rightarrow> string \<Rightarrow> bool \<times> machinedeployment" where
  "SetDeploymentRevision md revision =
     (let a = Some (map_make (om_Annotations (md_Meta md)))
      in if map_str a RevisionAnnotation \<noteq> revision
         then (True, md\<lparr>md_Meta := (md_Meta md)\<lparr>om_Annotations := map_put a RevisionAnnotation revision\<rparr>\<rparr>)
         else (False, md\<lparr>md_Meta := (md_Meta md)\<lparr>om_Annotations := a\<rparr>\<rparr>))"

text \<open>\<open>None\<close> is a revision that does not parse.\<close>

definition Revision :: "machineset \<Rightarrow> int option" where
  "Revision ms =
     (case map_lookup (ms_Annotations ms) RevisionAnnotation of
        None \<Rightarrow> Some 0 | Some v \<Rightarrow> ParseInt 64 v)"

definition MaxRevision :: "machineset list \<Rightarrow> int" where
  "MaxRevision allMSs =
     foldl (\<lambda>maxVal ms. case Revision ms of None \<Rightarrow> maxVal | Some v \<Rightarrow> if v > maxVal then v else maxVal) 0 allMSs"

definition annotationsToSkip :: "string list" where
  "annotationsToSkip =
     [''kubectl.kubernetes.io/last-applied-configuration'', RevisionAnnotation, RevisionHistoryAnnotation,
      DesiredReplicasAnnotation, MaxReplicasAnnotation, ''cluster.x-k8s.io/conversion-data'']"

definition skipCopyAnnotation :: "string \<Rightarrow> bool" where
  "skipCopyAnnotation key \<longleftrightarrow> key \<in> set annotationsToSkip"

definition getIntFromAnnotation :: "machineset \<Rightarrow> string \<Rightarrow> int \<times> bool" where
  "getIntFromAnnotation ms annotationKey =
     (case map_lookup (ms_Annotations ms) annotationKey of
        None \<Rightarrow> (0, False)
      | Some v \<Rightarrow> (case ParseInt 32 v of None \<Rightarrow> (0, False) | Some n \<Rightarrow> (i32 n, True)))"

definition getMaxReplicasAnnotation :: "machineset \<Rightarrow> int \<times> bool" where
  "getMaxReplicasAnnotation ms = getIntFromAnnotation ms MaxReplicasAnnotation"

section \<open>Fence posts\<close>

definition ResolveFenceposts ::
  "md_ext \<Rightarrow> int_or_string option \<Rightarrow> int_or_string option \<Rightarrow> int \<Rightarrow> (md_error, int \<times> int) go" where
  "ResolveFenceposts ext maxSurge maxUnavailable desired =
     go_bind (scaled ext maxSurge desired True) (\<lambda>surge.
     go_bind (scaled ext maxUnavailable desired False) (\<lambda>unavailable.
       let unavailable' = (if surge = 0 \<and> unavailable = 0 then 1 else unavailable)
       in Ret (i32 surge, i32 unavailable')))"

definition IsRollingUpdate :: "machinedeployment \<Rightarrow> (md_error, bool) go" where
  "IsRollingUpdate md =
     go_bind (deref (md_Strategy md)) (\<lambda>s. Ret (str_Type s = RollingUpdateMachineDeploymentStrategyType))"

definition fenceposts_or_zero :: "md_ext \<Rightarrow> machinedeployment \<Rightarrow> (md_error, int \<times> int) go" where
  "fenceposts_or_zero ext md =
     go_bind (deref (md_Strategy md)) (\<lambda>s.
     go_bind (deref (str_RollingUpdate s)) (\<lambda>u.
     go_bind (deref (md_Replicas md)) (\<lambda>r.
       ignore_err (0, 0) (ResolveFenceposts ext (ru_MaxSurge u) (ru_MaxUnavailable u) r))))"

definition MaxUnavailable :: "md_ext \<Rightarrow> machinedeployment \<Rightarrow> (md_error, int) go" where
  "MaxUnavailable ext md =
     go_bind (IsRollingUpdate md) (\<lambda>rolling.
       if \<not> rolling then Ret 0
       else go_bind (deref (md_Replicas md)) (\<lambda>r.
         if r = 0 then Ret 0
         else go_bind (fenceposts_or_zero ext md) (\<lambda>(_, maxUnavailable).
           if maxUnavailable > r then Ret r else Ret maxUnavailable)))"

definition MaxSurge :: "md_ext \<Rightarrow> machinedeployment \<Rightarrow> (md_error, int) go" where
  "MaxSurge ext md =
     go_bind (IsRollingUpdate md) (\<lambda>rolling.
       if \<not> rolling then Ret 0
       else go_bind (fenceposts_or_zero ext md) (\<lambda>(maxSurge, _). Ret maxSurge))"

section \<open>Annotations of the new MachineSet\<close>

definition new_revision :: "machineset list \<Rightarrow> machineset option \<Rightarrow> (md_error, string) go" where
  "new_revision oldMSs newMS =
     (let newRevisionInt = i64 (MaxRevision oldMSs + 1)
      in case newMS of None \<Rightarrow> Ret (FormatInt newRevisionInt)
         | Some ms \<Rightarrow>
           (case map_lookup (ms_Annotations ms) RevisionAnnotation of
              None \<Rightarrow> Ret (FormatInt newRevisionInt)
            | Some currentRevision \<Rightarrow>
              (case ParseInt 64 currentRevision of
                 None \<Rightarrow> Err (RevisionParse currentRevision)
               | Some currentRevisionInt \<Rightarrow>
                   Ret (if newRevisionInt < currentRevisionInt then currentRevision
                        else FormatInt newRevisionInt))))"

definition revision_history :: "machineset option \<Rightarrow> string \<Rightarrow> string option" where
  "revision_history newMS newRevision =
     (case newMS of None \<Rightarrow> None
      | Some ms \<Rightarrow>
          let revisionHistory = map_str (ms_Annotations ms) RevisionHistoryAnnotation;
              kept = map_lookup (ms_Annotations ms) RevisionHistoryAnnotation
          in case map_lookup (ms_Annotations ms) RevisionAnnotation of
               None \<Rightarrow> kept
             | Some currentRevision \<Rightarrow>
                 if currentRevision \<noteq> newRevision then
                   (let oldRevisions = go_split (CHR '','') revisionHistory
                    in if hd oldRevisions = [] then Some currentRevision
                       else Some (go_join '','' (oldRevisions @ [currentRevision])))
                 else kept)"

definition ComputeMachineSetAnnotations ::
  "md_ext \<Rightarrow> machinedeployment \<Rightarrow> machineset list \<Rightarrow> machineset option \<Rightarrow> (md_error, string \<Rightarrow> string option) go" where
  "ComputeMachineSetAnnotations ext md oldMSs newMS =
     (let copied = (\<lambda>k. if skipCopyAnnotation k then None else map_lookup (om_Annotations (md_Meta md)) k)
      in go_bind (new_revision oldMSs newMS) (\<lambda>newRevision.
         let withHistory = (case revision_history newMS newRevision of
                              None \<Rightarrow> copied | Some h \<Rightarrow> copied(RevisionHistoryAnnotation \<mapsto> h))
         in go_bind (deref (md_Replicas md)) (\<lambda>r.
            go_bind (MaxSurge ext md) (\<lambda>surge.
              Ret (withHistory(RevisionAnnotation \<mapsto> newRevision,
                               DesiredReplicasAnnotation \<mapsto> FormatInt r,
                               MaxReplicasAnnotation \<mapsto> FormatInt (i32 (r + surge))))))))"

definition with_annotations :: "machineset \<Rightarrow> string_map \<Rightarrow> machineset" where
  "with_annotations ms a = ms\<lparr>ms_Meta := (ms_Meta ms)\<lparr>om_Annotations := a\<rparr>\<rparr>"

definition SetReplicasAnnotations :: "machineset \<Rightarrow> int \<Rightarrow> int \<Rightarrow> bool \<times> machineset" where
  "SetReplicasAnnotations ms desiredReplicas maxReplicas =
     (let a0 = Some (map_make (ms_Annotations ms));
          upd1 = (map_str a0 DesiredReplicasAnnotation \<noteq> FormatInt desiredReplicas);
          a1 = (if upd1 then map_put a0 DesiredReplicasAnnotation (FormatInt desiredReplicas) else a0);
          upd2 = (map_str a1 MaxReplicasAnnotation \<noteq> FormatInt maxReplicas);
          a2 = (if upd2 then map_put a1 MaxReplicasAnnotation (FormatInt maxReplicas) else a1)
      in (upd1 \<or> upd2, with_annotations ms a2))"

definition ReplicasAnnotationsNeedUpdate :: "machineset \<Rightarrow> int \<Rightarrow> int \<Rightarrow> bool" where
  "ReplicasAnnotationsNeedUpdate ms desiredReplicas maxReplicas =
     (case ms_Annotations ms of None \<Rightarrow> True
      | Some _ \<Rightarrow>
          if map_str (ms_Annotations ms) DesiredReplicasAnnotation \<noteq> FormatInt desiredReplicas then True
          else if map_str (ms_Annotations ms) MaxReplicasAnnotation \<noteq> FormatInt maxReplicas then True
          else False)"

section \<open>Proportional scaling\<close>

definition getMachineSetFraction :: "md_ext \<Rightarrow> machineset \<Rightarrow> machinedeployment \<Rightarrow> (md_error, int) go" where
  "getMachineSetFraction ext ms md =
     go_bind (deref (md_Replicas md)) (\<lambda>d.
     go_bind (deref (ms_Replicas ms)) (\<lambda>r.
       if d = 0 then Ret (i32 (- r))
       else go_bind (MaxSurge ext md) (\<lambda>surge.
         let deploymentReplicas = i32 (d + surge);
             annotatedReplicas = (case getMaxReplicasAnnotation ms of
                                    (n, ok) \<Rightarrow> if ok then n else mdst_Replicas (md_Status md));
             newMSsize = float_div (i32 (r * deploymentReplicas)) annotatedReplicas
         in Ret (i32 (ext_RoundToInt32 ext newMSsize - r)))))"

definition GetProportion ::
  "md_ext \<Rightarrow> machineset option \<Rightarrow> machinedeployment \<Rightarrow> int \<Rightarrow> int \<Rightarrow> (md_error, int) go" where
  "GetProportion ext ms md deploymentReplicasToAdd deploymentReplicasAdded =
     (case ms of None \<Rightarrow> Ret 0
      | Some ms \<Rightarrow>
        go_bind (deref (ms_Replicas ms)) (\<lambda>r.
          if r = 0 \<or> deploymentReplicasToAdd = 0 \<or> deploymentReplicasToAdd = deploymentReplicasAdded then Ret 0
          else go_bind (getMachineSetFraction ext ms md) (\<lambda>msFraction.
            let allowed = i32 (deploymentReplicasToAdd - deploymentReplicasAdded)
            in if deploymentReplicasToAdd > 0 then Ret (min msFraction allowed)
               else Ret (max msFraction allowed))))"

section \<open>Machine templates\<close>

definition drop_ref_version :: "md_ext \<Rightarrow> object_reference \<Rightarrow> object_reference" where
  "drop_ref_version ext r = r\<lparr>ref_APIVersion := ext_Group ext r\<rparr>"

definition MachineTemplateDeepCopyRolloutFields :: "md_ext \<Rightarrow> machine_template \<Rightarrow> machine_template" where
  "MachineTemplateDeepCopyRolloutFields ext t =
     t\<lparr>tp_Labels := None, tp_Annotations := None,
       tp_Spec := (tp_Spec t)
         \<lparr>sp_ClusterName := [],
          sp_ReadinessGates := None, sp_NodeDrainTimeout := None,
          sp_NodeDeletionTimeout := None, sp_NodeVolumeDetachTimeout := None,
          sp_InfrastructureRef := drop_ref_version ext (sp_InfrastructureRef (tp_Spec t)),
          sp_Bootstrap := (sp_Bootstrap (tp_Spec t))
            \<lparr>bs_ConfigRef := map_option (drop_ref_version ext) (bs_ConfigRef (sp_Bootstrap (tp_Spec t)))\<rparr>\<rparr>\<rparr>"

definition TemplateSuffix :: string where
  "TemplateSuffix = ''Template''"

definition version_messages :: "machine_spec \<Rightarrow> machine_spec \<Rightarrow> string list \<times> string list" where
  "version_messages cur des =
     (if sp_Version cur \<noteq> sp_Version des then
        (let c = ptr_deref (sp_Version cur) ''nil''; d = ptr_deref (sp_Version des) ''nil''
         in ([''spec.version '' @ c @ '', '' @ d @ '' required''],
             [''Version '' @ c @ '', '' @ d @ '' required'']))
      else ([], []))"

definition bootstrap_messages :: "machine_spec \<Rightarrow> machine_spec \<Rightarrow> string list \<times> string list" where
  "bootstrap_messages cur des =
     (if sp_Bootstrap cur \<noteq> sp_Bootstrap des then
        (case bs_ConfigRef (sp_Bootstrap cur) of
           Some c \<Rightarrow>
             (let d = ptr_deref (bs_ConfigRef (sp_Bootstrap des)) empty_reference
              in ([''spec.bootstrap.configRef '' @ ref_Kind c @ '' '' @ ref_Name c @ '', '' @ ref_Kind d @ '' '' @ ref_Name d @ '' required''],
                  [TrimSuffix (ref_Kind c) TemplateSuffix @ '' is not up-to-date'']))
         | None \<Rightarrow>
             (let c = ptr_deref (bs_DataSecretName (sp_Bootstrap cur)) ''nil'';
                  d = ptr_deref (bs_DataSecretName (sp_Bootstrap des)) ''nil'';
                  msg = ''spec.bootstrap.dataSecretName '' @ c @ '', '' @ d @ '' required''
              in ([msg], [msg])))
      else ([], []))"

definition infrastructure_messages :: "machine_spec \<Rightarrow> machine_spec \<Rightarrow> string list \<times> string list" where
  "infrastructure_messages cur des =
     (if sp_InfrastructureRef cur \<noteq> sp_InfrastructureRef des then
        (let c = sp_InfrastructureRef cur; d = sp_InfrastructureRef des
         in ([''spec.infrastructureRef '' @ ref_Kind c @ '' '' @ ref_Name c @ '', '' @ ref_Kind d @ '' '' @ ref_Name d @ '' required''],
             [TrimSuffix (ref_Kind c) TemplateSuffix @ '' is not up-to-date'']))
      else ([], []))"

definition failure_domain_messages :: "machine_spec \<Rightarrow> machine_spec \<Rightarrow> string list \<times> string list" where
  "failure_domain_messages cur des =
     (if sp_FailureDomain cur \<noteq> sp_FailureDomain des then
        (let c = ptr_deref (sp_FailureDomain cur) ''nil''; d = ptr_deref (sp_FailureDomain des) ''nil''
         in ([''spec.failureDomain '' @ c @ '', '' @ d @ '' required''],
             [''Failure domain '' @ c @ '', '' @ d @ '' required'']))
      else ([], []))"

definition MachineTemplateUpToDate ::
  "md_ext \<Rightarrow> machine_template \<Rightarrow> machine_template \<Rightarrow> bool \<times> string list \<times> string list" where
  "MachineTemplateUpToDate ext current desired =
     (let cur = tp_Spec (MachineTemplateDeepCopyRolloutFields ext current);
          des = tp_Spec (MachineTemplateDeepCopyRolloutFields ext desired);
          (l1, c1) = version_messages cur des;
          (l2, c2) = bootstrap_messages cur des;
          (l3, c3) = infrastructure_messages cur des;
          (l4, c4) = failure_domain_messages cur des;
          logMessages = l1 @ l2 @ l3 @ l4;
          conditionMessages = c1 @ c2 @ c3 @ c4
      in if length logMessages > 0 \<or> length conditionMessages > 0
         then (False, logMessages, conditionMessages) else (True, [], []))"

section \<open>Finding the new and the old MachineSets\<close>

datatype create_reason =
    NoMachineSets
  | NoTemplateMatch "(string \<times> string list) list"
  | NoneAfterRollout int
  | NoReason

definition template_diffs :: "md_ext \<Rightarrow> machinedeployment \<Rightarrow> ('p \<Rightarrow> machineset) \<Rightarrow> 'p list \<Rightarrow> (string \<times> string list) list" where
  "template_diffs ext md ld ps =
     map (\<lambda>p. (ms_Name (ld p),
               fst (snd (MachineTemplateUpToDate ext (mss_Template (ms_Spec (ld p))) (mds_Template (md_Spec md))))))
       (filter (\<lambda>p. \<not> fst (MachineTemplateUpToDate ext (mss_Template (ms_Spec (ld p))) (mds_Template (md_Spec md)))) ps)"

definition matchingMachineSets :: "md_ext \<Rightarrow> machinedeployment \<Rightarrow> ('p \<Rightarrow> machineset) \<Rightarrow> 'p list \<Rightarrow> 'p list" where
  "matchingMachineSets ext md ld ps =
     filter (\<lambda>p. fst (MachineTemplateUpToDate ext (mss_Template (ms_Spec (ld p))) (mds_Template (md_Spec md)))) ps"

definition FindNewMachineSet ::
  "md_ext \<Rightarrow> machinedeployment \<Rightarrow> ('p \<Rightarrow> machineset) \<Rightarrow> 'p list \<Rightarrow> int \<Rightarrow> 'p option \<times> create_reason \<times> 'p list" where
  "FindNewMachineSet ext md ld msList reconciliationTime =
     (if msList = [] then (None, NoMachineSets, msList)
      else
        let msSorted = sort_by MachineSetsByDecreasingReplicas_Less ld msList;
            matching = matchingMachineSets ext md ld msSorted
        in case matching of
             [] \<Rightarrow> (None, NoTemplateMatch (template_diffs ext md ld msSorted), msSorted)
           | m # _ \<Rightarrow>
               (case mds_RolloutAfter (md_Spec md) of
                  None \<Rightarrow> (Some m, NoReason, msSorted)
                | Some rolloutAfter \<Rightarrow>
                    if reconciliationTime < rolloutAfter then (Some m, NoReason, msSorted)
                    else (case find (\<lambda>p. ms_CreationTimestamp (ld p) > rolloutAfter) matching of
                            Some p \<Rightarrow> (Some p, NoReason, msSorted)
                          | None \<Rightarrow> (None, NoneAfterRollout rolloutAfter, msSorted))))"

definition FindOldMachineSets ::
  "md_ext \<Rightarrow> machinedeployment \<Rightarrow> ('p \<Rightarrow> machineset) \<Rightarrow> 'p list \<Rightarrow> int \<Rightarrow> 'p list \<times> 'p list" where
  "FindOldMachineSets ext md ld msList reconciliationTime =
     (case FindNewMachineSet ext md ld msList reconciliationTime of
        (newMS, _, msSorted) \<Rightarrow>
          (filter (\<lambda>p. \<not> (case newMS of None \<Rightarrow> False
                          | Some n \<Rightarrow> om_UID (ms_Meta (ld p)) = om_UID (ms_Meta (ld n)))) msSorted,
           msSorted))"

definition FilterMachineSets :: "('p \<Rightarrow> bool) \<Rightarrow> 'p list \<Rightarrow> 'p list" where
  "FilterMachineSets filterFn mSes = filter filterFn mSes"

definition activeFilter :: "('p \<Rightarrow> machineset) \<Rightarrow> 'p option \<Rightarrow> bool" where
  "activeFilter ld p =
     (case p of None \<Rightarrow> False
      | Some q \<Rightarrow> (case ms_Replicas (ld q) of None \<Rightarrow> False | Some r \<Rightarrow> r > 0))"

text \<open>The pointers that pass the filter are not nil, so that the result is a list of plain pointers.\<close>

definition FilterActiveMachineSets :: "('p \<Rightarrow> machineset) \<Rightarrow> 'p option list \<Rightarrow> 'p list" where
  "FilterActiveMachineSets ld ps = map the (FilterMachineSets (activeFilter ld) ps)"

definition FindOneActiveOrLatest ::
  "('p \<Rightarrow> machineset) \<Rightarrow> 'p option \<Rightarrow> 'p list \<Rightarrow> 'p option \<times> 'p list" where
  "FindOneActiveOrLatest ld newMS oldMSs =
     (if newMS = None \<and> oldMSs = [] then (None, oldMSs)
      else
        let sortedOld = sort_by (sort_Reverse MachineSetsByCreationTimestamp_Less) ld oldMSs;
            allMSs = FilterActiveMachineSets ld (map Some sortedOld @ [newMS])
        in case allMSs of
             [] \<Rightarrow> (case newMS of Some n \<Rightarrow> (Some n, sortedOld) | None \<Rightarrow> (Some (hd sortedOld), sortedOld))
           | [m] \<Rightarrow> (Some m, sortedOld)
           | _ \<Rightarrow> (None, sortedOld))"

section \<open>Counting replicas\<close>

definition GetReplicaCountForMachineSets :: "machineset option list \<Rightarrow> int" where
  "GetReplicaCountForMachineSets machineSets =
     foldl (\<lambda>tot ms. case ms of None \<Rightarrow> tot
                      | Some ms \<Rightarrow> (case ms_Replicas ms of None \<Rightarrow> tot | Some r \<Rightarrow> i32 (tot + r))) 0 machineSets"

definition GetActualReplicaCountForMachineSets :: "machineset option list \<Rightarrow> int" where
  "GetActualReplicaCountForMachineSets machineSets =
     foldl (\<lambda>tot ms. case ms of None \<Rightarrow> tot | Some ms \<Rightarrow> i32 (tot + mst_Replicas (ms_Status ms))) 0 machineSets"

fun total_replica_sum :: "int \<Rightarrow> machineset option list \<Rightarrow> (md_error, int) go" where
  "total_replica_sum tot [] = Ret tot"
| "total_replica_sum tot (None # mss) = total_replica_sum tot mss"
| "total_replica_sum tot (Some ms # mss) =
     go_bind (deref (ms_Replicas ms)) (\<lambda>r.
       total_replica_sum (i32 (tot + max r (mst_Replicas (ms_Status ms)))) mss)"

definition TotalMachineSetsReplicaSum :: "machineset option list \<Rightarrow> (md_error, int) go" where
  "TotalMachineSetsReplicaSum machineSets = total_replica_sum 0 machineSets"

definition GetReadyReplicaCountForMachineSets :: "machineset option list \<Rightarrow> int" where
  "GetReadyReplicaCountForMachineSets machineSets =
     foldl (\<lambda>tot ms. case ms of None \<Rightarrow> tot | Some ms \<Rightarrow> i32 (tot + mst_ReadyReplicas (ms_Status ms))) 0 machineSets"

definition GetAvailableReplicaCountForMachineSets :: "machineset option list \<Rightarrow> int" where
  "GetAvailableReplicaCountForMachineSets machineSets =
     foldl (\<lambda>tot ms. case ms of None \<Rightarrow> tot | Some ms \<Rightarrow> i32 (tot + mst_AvailableReplicas (ms_Status ms))) 0 machineSets"

definition v1beta2_count :: "(machineset_v1beta2 \<Rightarrow> int option) \<Rightarrow> machineset option list \<Rightarrow> int option" where
  "v1beta2_count field machineSets =
     foldl (\<lambda>tot ms.
       case ms of None \<Rightarrow> tot
       | Some ms \<Rightarrow>
         (case mst_V1Beta2 (ms_Status ms) of None \<Rightarrow> tot
          | Some v \<Rightarrow> (case field v of None \<Rightarrow> tot | Some n \<Rightarrow> Some (i32 (ptr_deref tot 0 + n))))) None machineSets"

definition GetV1Beta2ReadyReplicaCountForMachineSets :: "machineset option list \<Rightarrow> int option" where
  "GetV1Beta2ReadyReplicaCountForMachineSets = v1beta2_count ms2_ReadyReplicas"

definition GetV1Beta2AvailableReplicaCountForMachineSets :: "machineset option list \<Rightarrow> int option" where
  "GetV1Beta2AvailableReplicaCountForMachineSets = v1beta2_count ms2_AvailableReplicas"

definition GetV1Beta2UptoDateReplicaCountForMachineSets :: "machineset option list \<Rightarrow> int option" where
  "GetV1Beta2UptoDateReplicaCountForMachineSets = v1beta2_count ms2_UpToDateReplicas"

section \<open>Completion and the size of the new MachineSet\<close>

definition DeploymentComplete :: "machinedeployment \<Rightarrow> machinedeployment_status \<Rightarrow> (md_error, bool) go" where
  "DeploymentComplete md newStatus =
     go_bind (deref (md_Replicas md)) (\<lambda>r.
       Ret (mdst_UpdatedReplicas newStatus = r \<and> mdst_Replicas newStatus = r \<and>
            mdst_AvailableReplicas newStatus = r \<and>
            mdst_ObservedGeneration newStatus \<ge> om_Generation (md_Meta md)))"

definition NewMSNewReplicas ::
  "md_ext \<Rightarrow> machinedeployment \<Rightarrow> machineset option list \<Rightarrow> int \<Rightarrow> (md_error, int) go" where
  "NewMSNewReplicas ext md allMSs newMSReplicas =
     go_bind (deref (md_Strategy md)) (\<lambda>s.
       if str_Type s = RollingUpdateMachineDeploymentStrategyType then
         go_bind (deref (str_RollingUpdate s)) (\<lambda>u.
         go_bind (deref (md_Replicas md)) (\<lambda>r.
         go_bind (scaled ext (ru_MaxSurge u) r True) (\<lambda>maxSurge.
         go_bind (TotalMachineSetsReplicaSum allMSs) (\<lambda>currentMachineCount.
           let maxTotalMachines = i32 (r + i32 maxSurge)
           in if currentMachineCount \<ge> maxTotalMachines then Ret newMSReplicas
              else let scaleUpCount = i32 (maxTotalMachines - currentMachineCount);
                       scaleUpCount' = min scaleUpCount (i32 (r - newMSReplicas))
                   in Ret (i32 (newMSReplicas + scaleUpCount'))))))
       else if str_Type s = OnDeleteMachineDeploymentStrategyType then
         go_bind (TotalMachineSetsReplicaSum allMSs) (\<lambda>currentMachineCount.
         go_bind (deref (md_Replicas md)) (\<lambda>r.
           if currentMachineCount \<ge> r then Ret newMSReplicas
           else Ret (i32 (newMSReplicas + i32 (r - currentMachineCount)))))
       else Err (UnsupportedStrategy (str_Type s)))"

definition IsSaturated :: "machinedeployment \<Rightarrow> machineset option \<Rightarrow> (md_error, bool) go" where
  "IsSaturated md ms =
     (case ms of None \<Rightarrow> Ret False
      | Some ms \<Rightarrow>
        (case ParseInt 32 (map_str (ms_Annotations ms) DesiredReplicasAnnotation) of
           None \<Rightarrow> Ret False
         | Some desired \<Rightarrow>
             go_bind (deref (ms_Replicas ms)) (\<lambda>r.
             go_bind (deref (md_Replicas md)) (\<lambda>d.
               Ret (r = d \<and> i32 desired = d \<and> ms_AvailableReplicas ms = d)))))"

section \<open>Labels and machines\<close>

definition CloneAndAddLabel :: "string_map \<Rightarrow> string \<Rightarrow> string \<Rightarrow> string_map" where
  "CloneAndAddLabel labels labelKey labelValue =
     (if labelKey = [] then labels else Some ((map_make labels)(labelKey \<mapsto> labelValue)))"

definition CloneSelectorAndAddLabel :: "label_selector \<Rightarrow> string \<Rightarrow> string \<Rightarrow> label_selector" where
  "CloneSelectorAndAddLabel selector labelKey labelValue =
     (if labelKey = [] then selector
      else \<lparr>sel_MatchLabels = Some ((map_make (sel_MatchLabels selector))(labelKey \<mapsto> labelValue)),
            sel_MatchExpressions = sel_MatchExpressions selector\<rparr>)"

definition GetDeletingMachineCount :: "machine list \<Rightarrow> int" where
  "GetDeletingMachineCount machines =
     foldl (\<lambda>n m. if \<not> time_IsZero (m_DeletionTimestamp m) then i32 (n + 1) else n) 0 machines"

section \<open>The orders are weak orders\<close>

interpretation decreasing: weak_order MachineSetsByDecreasingReplicas_Less
  by unfold_locales
    (auto simp: MachineSetsByDecreasingReplicas_Less_def split: option.splits if_splits)

interpretation creation: weak_order MachineSetsByCreationTimestamp_Less
  by unfold_locales (auto simp: MachineSetsByCreationTimestamp_Less_def split: if_splits)

interpretation creation_rev: weak_order "sort_Reverse MachineSetsByCreationTimestamp_Less"
  by unfold_locales (auto simp: sort_Reverse_def MachineSetsByCreationTimestamp_Less_def split: if_splits)

interpretation size_older: weak_order MachineSetsBySizeOlder_Less
  by unfold_locales (auto simp: MachineSetsBySizeOlder_Less_def split: if_splits)

interpretation size_newer: weak_order MachineSetsBySizeNewer_Less
  by unfold_locales (auto simp: MachineSetsBySizeNewer_Less_def split: if_splits)

text \<open>A weak order on MachineSets is one on the pointers to them.\<close>

lemma weak_order_pullback: "weak_order lt \<Longrightarrow> weak_order (\<lambda>p q. lt (ld p) (ld q))"
  unfolding weak_order_def by blast

lemma sorted_sort_by:
  "weak_order lt \<Longrightarrow> sorted_wrt (\<lambda>p q. \<not> lt (ld q) (ld p)) (sort_by lt ld ps)"
  unfolding sort_by_def by (rule weak_order.sorted_go_sort [OF weak_order_pullback])

lemma mset_sort_by [simp]: "mset (sort_by lt ld ps) = mset ps"
  by (simp add: sort_by_def)

lemma set_sort_by [simp]: "set (sort_by lt ld ps) = set ps"
  by (simp add: sort_by_def)

lemma distinct_sort_by [simp]: "distinct (sort_by lt ld ps) = distinct ps"
  by (simp add: sort_by_def)

lemma sort_by_Nil_iff [simp]: "sort_by lt ld ps = [] \<longleftrightarrow> ps = []"
  by (simp add: sort_by_def)

lemma sum_list_sort_by [simp]:
  fixes f :: "'a \<Rightarrow> int"
  shows "sum_list (map f (sort_by lt ld ps)) = sum_list (map f ps)"
  by (simp add: sort_by_def sum_list_go_sort)

section \<open>Sums\<close>

definition spec_count :: "machineset option \<Rightarrow> int" where
  "spec_count m = (case m of None \<Rightarrow> 0 | Some ms \<Rightarrow> ptr_deref (ms_Replicas ms) 0)"

definition available_count :: "machineset option \<Rightarrow> int" where
  "available_count m = (case m of None \<Rightarrow> 0 | Some ms \<Rightarrow> ms_AvailableReplicas ms)"

definition status_count :: "machineset option \<Rightarrow> int" where
  "status_count m = (case m of None \<Rightarrow> 0 | Some ms \<Rightarrow> ms_StatusReplicas ms)"

definition total_count :: "machineset option \<Rightarrow> int" where
  "total_count m = (case m of None \<Rightarrow> 0 | Some ms \<Rightarrow> max (ptr_deref (ms_Replicas ms) 0) (ms_StatusReplicas ms))"

definition has_replicas :: "machineset option \<Rightarrow> bool" where
  "has_replicas m = (case m of None \<Rightarrow> True | Some ms \<Rightarrow> ms_Replicas ms \<noteq> None)"

lemma count_simps [simp]:
  "spec_count None = 0" "spec_count (Some ms) = ptr_deref (ms_Replicas ms) 0"
  "available_count None = 0" "available_count (Some ms) = ms_AvailableReplicas ms"
  "status_count None = 0" "status_count (Some ms) = ms_StatusReplicas ms"
  "total_count None = 0" "total_count (Some ms) = max (ptr_deref (ms_Replicas ms) 0) (ms_StatusReplicas ms)"
  "has_replicas None" "has_replicas (Some ms) \<longleftrightarrow> ms_Replicas ms \<noteq> None"
  by (simp_all add: spec_count_def available_count_def status_count_def total_count_def has_replicas_def)

lemma foldl_count:
  assumes "\<And>acc x. in_i32 acc \<Longrightarrow> g acc x = i32 (acc + f x)"
  shows "foldl g (i32 a) xs = i32 (a + sum_list (map f xs))"
proof (induction xs arbitrary: a)
  case (Cons x xs)
  show ?case using Cons.IH [of "a + f x"] by (simp add: assms i32_range add.assoc)
qed simp

lemma i32_zero [simp]: "i32 0 = 0"
  by (simp add: i32_def)

lemma GetReplicaCount_sum: "GetReplicaCountForMachineSets xs = i32 (sum_list (map spec_count xs))"
  using foldl_count [where f = spec_count and a = 0 and xs = xs,
    of "\<lambda>total ms. case ms of None \<Rightarrow> total
        | Some ms \<Rightarrow> (case ms_Replicas ms of None \<Rightarrow> total | Some r \<Rightarrow> i32 (total + r))"]
  by (simp add: GetReplicaCountForMachineSets_def i32_id split: option.split)

lemma GetAvailableReplicaCount_sum:
  "GetAvailableReplicaCountForMachineSets xs = i32 (sum_list (map available_count xs))"
  using foldl_count [where f = available_count and a = 0 and xs = xs,
    of "\<lambda>total ms. case ms of None \<Rightarrow> total | Some ms \<Rightarrow> i32 (total + ms_AvailableReplicas ms)"]
  by (simp add: GetAvailableReplicaCountForMachineSets_def i32_id split: option.split)

lemma GetActualReplicaCount_sum:
  "GetActualReplicaCountForMachineSets xs = i32 (sum_list (map status_count xs))"
  using foldl_count [where f = status_count and a = 0 and xs = xs,
    of "\<lambda>total ms. case ms of None \<Rightarrow> total | Some ms \<Rightarrow> i32 (total + ms_StatusReplicas ms)"]
  by (simp add: GetActualReplicaCountForMachineSets_def i32_id split: option.split)

lemma total_replica_sum_eq:
  "total_replica_sum (i32 a) xs =
     (if list_all has_replicas xs then Ret (i32 (a + sum_list (map total_count xs))) else Panic)"
proof (induction xs arbitrary: a)
  case (Cons x xs)
  show ?case
  proof (cases x)
    case None
    then show ?thesis using Cons.IH by simp
  next
    case (Some ms)
    show ?thesis
    proof (cases "ms_Replicas ms")
      case None
      then show ?thesis using Some by simp
    next
      case (Some r)
      then show ?thesis using \<open>x = Some ms\<close> Cons.IH [of "a + max r (ms_StatusReplicas ms)"]
        by (simp add: add.assoc)
    qed
  qed
qed simp

lemma TotalMachineSetsReplicaSum_eq:
  "TotalMachineSetsReplicaSum xs =
     (if list_all has_replicas xs then Ret (i32 (sum_list (map total_count xs))) else Panic)"
  using total_replica_sum_eq [of 0 xs] by (simp add: TotalMachineSetsReplicaSum_def)

section \<open>Fence posts and the size of the new MachineSet\<close>

text \<open>
  What the callers rely on of the values of a strategy: \<^verbatim>\<open>GetScaledValueFromIntOrPercent\<close> returns an error or a
  natural number that fits in 32 bits. The webhook of MachineDeployment only refuses values for which it returns an
  error, so that this is an assumption on the MachineDeployment.
\<close>

definition scaled_ok :: "md_ext \<Rightarrow> int_or_string option \<Rightarrow> int \<Rightarrow> bool \<Rightarrow> bool" where
  "scaled_ok ext v d up = (case ext_Scaled ext v d up of Inl _ \<Rightarrow> True | Inr n \<Rightarrow> 0 \<le> n \<and> n < 2147483648)"

definition strategy_ok :: "md_ext \<Rightarrow> machinedeployment \<Rightarrow> bool" where
  "strategy_ok ext md =
     (case (md_Strategy md, md_Replicas md) of
        (Some s, Some d) \<Rightarrow>
          (case str_RollingUpdate s of None \<Rightarrow> True
           | Some u \<Rightarrow> 0 \<le> d \<and> scaled_ok ext (ru_MaxSurge u) d True \<and> scaled_ok ext (ru_MaxUnavailable u) d False)
      | _ \<Rightarrow> True)"

lemma scaled_Ret_iff: "scaled ext v d up = Ret n \<longleftrightarrow> ext_Scaled ext v d up = Inr n"
  by (simp add: scaled_def split: sum.split)

lemma scaled_okD:
  assumes "scaled_ok ext v d up" and "scaled ext v d up = Ret n"
  shows "0 \<le> n" and "i32 n = n"
  using assms by (simp_all add: scaled_ok_def scaled_Ret_iff i32_id in_i32_def)

lemma ResolveFenceposts_Ret:
  assumes "ResolveFenceposts ext sv uv d = Ret (s, u)"
    and "scaled_ok ext sv d True" and "scaled_ok ext uv d False"
  obtains s0 u0 where "scaled ext sv d True = Ret s0" "scaled ext uv d False = Ret u0" "s = s0" "0 \<le> s0"
    "u = (if s0 = 0 \<and> u0 = 0 then 1 else u0)" "0 \<le> u0"
proof -
  obtain s0 u0 where s0: "scaled ext sv d True = Ret s0" and u0: "scaled ext uv d False = Ret u0"
    using assms(1) by (auto simp: ResolveFenceposts_def go_simps)
  note s0_ok = scaled_okD [OF assms(2) s0] and u0_ok = scaled_okD [OF assms(3) u0]
  have one: "i32 1 = 1" by (simp add: i32_def)
  have "s = s0" "u = (if s0 = 0 \<and> u0 = 0 then 1 else u0)"
    using assms(1) s0 u0 s0_ok u0_ok one by (auto simp: ResolveFenceposts_def Let_def)
  then show ?thesis using that s0 u0 s0_ok u0_ok by blast
qed

lemma fenceposts_not_both_zero:
  assumes "ResolveFenceposts ext sv uv d = Ret (s, u)"
    and "scaled_ok ext sv d True" and "scaled_ok ext uv d False"
  shows "0 \<le> s" and "0 \<le> u" and "0 < s + u"
  using assms by (auto elim!: ResolveFenceposts_Ret split: if_splits)

lemma strategy_okD:
  assumes "strategy_ok ext md" "md_Strategy md = Some st" "str_RollingUpdate st = Some ru" "md_Replicas md = Some d"
  shows "0 \<le> d" "scaled_ok ext (ru_MaxSurge ru) d True" "scaled_ok ext (ru_MaxUnavailable ru) d False"
  using assms by (simp_all add: strategy_ok_def)

text \<open>The values the controller works with, when the strategy is a rolling update.\<close>

lemma rolling_bounds:
  assumes "strategy_ok ext md" and "MaxSurge ext md = Ret surge" and "MaxUnavailable ext md = Ret unavailable"
    and "IsRollingUpdate md = Ret True" and "md_Replicas md = Some d"
  shows "0 \<le> surge" "0 \<le> unavailable" "unavailable \<le> d" "0 < d \<Longrightarrow> 
    (\<exists>st ru s u. md_Strategy md = Some st \<and> str_RollingUpdate st = Some ru \<and>
       ResolveFenceposts ext (ru_MaxSurge ru) (ru_MaxUnavailable ru) d = Ret (s, u)) \<Longrightarrow> 0 < surge + unavailable"
proof -
  obtain st where st: "md_Strategy md = Some st" "str_Type st = RollingUpdateMachineDeploymentStrategyType"
    using assms(4) by (auto simp: IsRollingUpdate_def go_simps)
  obtain ru where ru: "str_RollingUpdate st = Some ru"
    using assms(2,4) st by (cases "str_RollingUpdate st") (auto simp: MaxSurge_def fenceposts_or_zero_def)
  note ok = strategy_okD [OF assms(1) st(1) ru assms(5)]
  let ?f = "ResolveFenceposts ext (ru_MaxSurge ru) (ru_MaxUnavailable ru) d"
  obtain s u where fp: "ignore_err (0, 0) ?f = Ret (s, u)" "surge = s"
    using assms(2,4,5) st ru by (cases ?f) (auto simp: MaxSurge_def fenceposts_or_zero_def)
  have un: "unavailable = (if d = 0 then 0 else if u > d then d else u)"
    using assms(3,4,5) st ru fp(1) by (auto simp: MaxUnavailable_def fenceposts_or_zero_def split: if_splits)
  have nn: "0 \<le> s \<and> 0 \<le> u \<and> (?f = Ret (s, u) \<longrightarrow> 0 < s + u)"
    using fp(1) fenceposts_not_both_zero [OF _ ok(2,3)] by (cases ?f) auto
  show "0 \<le> surge" "0 \<le> unavailable" "unavailable \<le> d"
    using nn fp(2) un ok(1) by auto
  assume "0 < d" and "\<exists>st ru s u. md_Strategy md = Some st \<and> str_RollingUpdate st = Some ru \<and>
       ResolveFenceposts ext (ru_MaxSurge ru) (ru_MaxUnavailable ru) d = Ret (s, u)"
  then have "?f = Ret (s, u)" using st ru fp(1) by auto
  then show "0 < surge + unavailable" using nn fp(2) un \<open>0 < d\<close> by auto
qed


text \<open>The desired size plus the surge that \<open>NewMSNewReplicas\<close> allows for a rolling update.\<close>

definition surge_value :: "md_ext \<Rightarrow> machinedeployment \<Rightarrow> (md_error, int) go" where
  "surge_value ext md =
     go_bind (deref (md_Strategy md)) (\<lambda>s.
     go_bind (deref (str_RollingUpdate s)) (\<lambda>u.
     go_bind (deref (md_Replicas md)) (\<lambda>d. scaled ext (ru_MaxSurge u) d True)))"

lemma surge_value_bounds:
  assumes "surge_value ext md = Ret surge" and "strategy_ok ext md"
  shows "0 \<le> surge" and "i32 surge = surge"
proof -
  obtain st ru d where "md_Strategy md = Some st" "str_RollingUpdate st = Some ru" "md_Replicas md = Some d"
    "scaled ext (ru_MaxSurge ru) d True = Ret surge"
    using assms(1) by (auto simp: surge_value_def go_simps)
  then show "0 \<le> surge" "i32 surge = surge"
    using strategy_okD [OF assms(2)] scaled_okD by blast+
qed

lemma NewMSNewReplicas_rolling:
  assumes "IsRollingUpdate md = Ret True" and "md_Replicas md = Some d" and "surge_value ext md = Ret surge"
    and "strategy_ok ext md" and "list_all has_replicas all"
    and "T = sum_list (map total_count all)" and "in_i32 T" and "in_i32 (d + surge - T)" and "in_i32 (d + surge)"
    and "0 \<le> n" and "in_i32 d" and "in_i32 n" and "0 \<le> d"
  shows "NewMSNewReplicas ext md all n =
           Ret (if T \<ge> d + surge then n else min d (n + (d + surge - T)))"
proof -
  obtain st where st: "md_Strategy md = Some st" "str_Type st = RollingUpdateMachineDeploymentStrategyType"
    using assms(1) by (auto simp: IsRollingUpdate_def go_simps)
  obtain ru where ru: "str_RollingUpdate st = Some ru" "scaled ext (ru_MaxSurge ru) d True = Ret surge"
    using assms(2,3) st by (auto simp: surge_value_def go_simps)
  note s = surge_value_bounds [OF assms(3,4)]
  have dn: "i32 (d - n) = d - n" using assms(10-13) by (intro i32_id) (auto simp: in_i32_def)
  have T: "i32 T = T" "i32 (d + surge) = d + surge" "i32 (d + surge - T) = d + surge - T"
    using assms(7-9) by (simp_all add: i32_id)
  have eq: "NewMSNewReplicas ext md all n =
     (if T \<ge> d + surge then Ret n else Ret (i32 (n + min (d + surge - T) (d - n))))"
    using st ru assms(2) assms(5) s(2) T dn
    by (simp add: NewMSNewReplicas_def TotalMachineSetsReplicaSum_eq assms(6) [symmetric])
  have "in_i32 (min d (n + (d + surge - T)))" if "T < d + surge"
    using that assms(10-13) by (auto simp: in_i32_def)
  moreover have "n + min (d + surge - T) (d - n) = min d (n + (d + surge - T))" by (simp add: min_def)
  ultimately show ?thesis using eq by (simp add: i32_id)
qed

lemma NewMSNewReplicas_onDelete:
  assumes "md_Strategy md = Some st" and "str_Type st = OnDeleteMachineDeploymentStrategyType"
    and "md_Replicas md = Some d" and "list_all has_replicas all"
    and "T = sum_list (map total_count all)" and "in_i32 T" and "0 \<le> T" and "in_i32 (n + d - T)" and "0 \<le> d" "in_i32 d"
  shows "NewMSNewReplicas ext md all n = Ret (if T \<ge> d then n else n + d - T)"
proof -
  have "i32 T = T" using assms(6) by (rule i32_id)
  moreover have "i32 (n + (d - T)) = n + d - T" using assms(8) i32_id [of "n + d - T"] by (simp add: algebra_simps)
  ultimately show ?thesis using assms(1-4)
    by (simp add: NewMSNewReplicas_def TotalMachineSetsReplicaSum_eq assms(5) [symmetric])
qed

section \<open>Revisions\<close>

lemma MaxRevision_ge:
  assumes "ms \<in> set mss" and "Revision ms = Some v"
  shows "v \<le> MaxRevision mss"
proof -
  let ?step = "\<lambda>m ms. case Revision ms of None \<Rightarrow> m | Some v \<Rightarrow> if v > m then v else m"
  have mono: "m \<le> foldl ?step m xs" for m xs
  proof (induction xs arbitrary: m)
    case (Cons x xs)
    have "m \<le> ?step m x" by (simp split: option.split)
    then show ?case using Cons.IH [of "?step m x"] by simp
  qed simp
  have "v \<le> foldl ?step m mss" for m
    using assms(1)
  proof (induction mss arbitrary: m)
    case (Cons x xs)
    show ?case
    proof (cases "x = ms")
      case True
      have "v \<le> ?step m ms" using assms(2) by simp
      then show ?thesis using mono [of "?step m ms" xs] True by simp
    next
      case False
      then show ?thesis using Cons by simp
    qed
  qed simp
  then show ?thesis by (simp add: MaxRevision_def)
qed

lemma MaxRevision_nonneg: "0 \<le> MaxRevision mss"
proof -
  let ?step = "\<lambda>m ms. case Revision ms of None \<Rightarrow> m | Some v \<Rightarrow> if v > m then v else m"
  have "0 \<le> m \<Longrightarrow> 0 \<le> foldl ?step m xs" for m xs
  proof (induction xs arbitrary: m)
    case (Cons x xs)
    have "0 \<le> ?step m x" using Cons.prems by (simp split: option.split)
    then show ?case using Cons.IH [of "?step m x"] by simp
  qed simp
  then show ?thesis by (simp add: MaxRevision_def)
qed

definition revision_of :: "(string \<Rightarrow> string option) \<Rightarrow> int option" where
  "revision_of a = (case a RevisionAnnotation of None \<Rightarrow> Some 0 | Some v \<Rightarrow> ParseInt 64 v)"

lemma new_revision_parses:
  assumes "new_revision oldMSs newMS = Ret v" and "MaxRevision oldMSs < 2 ^ 63 - 1"
  obtains n where "ParseInt 64 v = Some n" "MaxRevision oldMSs < n"
    "\<forall>ms c. newMS = Some ms \<longrightarrow> Revision ms = Some c \<longrightarrow> c \<le> n"
proof -
  let ?m = "MaxRevision oldMSs + 1"
  have i: "i64 ?m = ?m" using assms(2) MaxRevision_nonneg [of oldMSs] by (intro i64_id) simp_all
  have p: "ParseInt 64 (FormatInt ?m) = Some ?m"
    using assms(2) MaxRevision_nonneg [of oldMSs] by (intro ParseInt_FormatInt) simp_all
  show ?thesis
  proof (cases "\<exists>ms cur. newMS = Some ms \<and> map_lookup (ms_Annotations ms) RevisionAnnotation = Some cur")
    case False
    then have "v = FormatInt ?m"
      using assms(1) i by (auto simp: new_revision_def Let_def split: option.splits)
    moreover have "c \<le> ?m" if "newMS = Some ms" "Revision ms = Some c" for ms c
      using that False MaxRevision_nonneg [of oldMSs] by (auto simp: Revision_def)
    ultimately show ?thesis using that [of ?m] p by simp
  next
    case True
    then obtain ms cur where new: "newMS = Some ms" "map_lookup (ms_Annotations ms) RevisionAnnotation = Some cur"
      by blast
    then obtain c where c: "ParseInt 64 cur = Some c"
      using assms(1) by (auto simp: new_revision_def Let_def split: option.splits)
    then have v: "v = (if ?m < c then cur else FormatInt ?m)"
      using assms(1) new i by (auto simp: new_revision_def Let_def)
    have "Revision ms = Some c" using new c by (simp add: Revision_def)
    then show ?thesis
      using that [of c] that [of ?m] v c p new by (cases "?m < c") auto
  qed
qed

lemma annotations_revision:
  assumes "ComputeMachineSetAnnotations ext md oldMSs newMS = Ret a"
  obtains v where "new_revision oldMSs newMS = Ret v" "a RevisionAnnotation = Some v"
  using assms by (auto simp: ComputeMachineSetAnnotations_def Let_def go_simps)

section \<open>Templates\<close>

text \<open>The part of a template whose change replaces machines.\<close>

definition rollout_key ::
  "md_ext \<Rightarrow> machine_template \<Rightarrow> string option \<times> bootstrap \<times> object_reference \<times> string option" where
  "rollout_key ext t =
     (sp_Version (tp_Spec t),
      (sp_Bootstrap (tp_Spec t))\<lparr>bs_ConfigRef := map_option (drop_ref_version ext) (bs_ConfigRef (sp_Bootstrap (tp_Spec t)))\<rparr>,
      drop_ref_version ext (sp_InfrastructureRef (tp_Spec t)), sp_FailureDomain (tp_Spec t))"

lemma no_messages_iff:
  "fst (version_messages c d) = [] \<longleftrightarrow> sp_Version c = sp_Version d"
  "snd (version_messages c d) = [] \<longleftrightarrow> sp_Version c = sp_Version d"
  "fst (bootstrap_messages c d) = [] \<longleftrightarrow> sp_Bootstrap c = sp_Bootstrap d"
  "snd (bootstrap_messages c d) = [] \<longleftrightarrow> sp_Bootstrap c = sp_Bootstrap d"
  "fst (infrastructure_messages c d) = [] \<longleftrightarrow> sp_InfrastructureRef c = sp_InfrastructureRef d"
  "snd (infrastructure_messages c d) = [] \<longleftrightarrow> sp_InfrastructureRef c = sp_InfrastructureRef d"
  "fst (failure_domain_messages c d) = [] \<longleftrightarrow> sp_FailureDomain c = sp_FailureDomain d"
  "snd (failure_domain_messages c d) = [] \<longleftrightarrow> sp_FailureDomain c = sp_FailureDomain d"
  by (simp_all add: version_messages_def bootstrap_messages_def infrastructure_messages_def
      failure_domain_messages_def Let_def split: option.split)

lemma UpToDate_iff:
  "fst (MachineTemplateUpToDate ext cur des) \<longleftrightarrow> rollout_key ext cur = rollout_key ext des"
proof -
  let ?c = "tp_Spec (MachineTemplateDeepCopyRolloutFields ext cur)"
  let ?d = "tp_Spec (MachineTemplateDeepCopyRolloutFields ext des)"
  have "fst (MachineTemplateUpToDate ext cur des) \<longleftrightarrow>
      sp_Version ?c = sp_Version ?d \<and> sp_Bootstrap ?c = sp_Bootstrap ?d \<and>
      sp_InfrastructureRef ?c = sp_InfrastructureRef ?d \<and> sp_FailureDomain ?c = sp_FailureDomain ?d"
    by (auto simp: MachineTemplateUpToDate_def Let_def case_prod_unfold no_messages_iff)
  then show ?thesis by (simp add: rollout_key_def MachineTemplateDeepCopyRolloutFields_def)
qed

section \<open>Searches\<close>

text \<open>A MachineSet that may serve as the new one at time \<open>t\<close>.\<close>

definition candidate :: "md_ext \<Rightarrow> machinedeployment \<Rightarrow> int \<Rightarrow> machineset \<Rightarrow> bool" where
  "candidate ext md t ms \<longleftrightarrow>
     rollout_key ext (mss_Template (ms_Spec ms)) = rollout_key ext (mds_Template (md_Spec md)) \<and>
     (case mds_RolloutAfter (md_Spec md) of None \<Rightarrow> True
      | Some r \<Rightarrow> t < r \<or> r < ms_CreationTimestamp ms)"

lemma find_hd_filter: "find P xs = (case filter P xs of [] \<Rightarrow> None | x # _ \<Rightarrow> Some x)"
  by (induction xs) auto

lemma FindNewMachineSet_candidates:
  "fst (FindNewMachineSet ext md ld ps t) =
     (case filter (\<lambda>p. candidate ext md t (ld p)) (sort_by MachineSetsByDecreasingReplicas_Less ld ps) of
        [] \<Rightarrow> None | p # _ \<Rightarrow> Some p)"
proof (cases "ps = []")
  case True
  then show ?thesis by (simp add: FindNewMachineSet_def sort_by_def)
next
  case False
  let ?m = "matchingMachineSets ext md ld (sort_by MachineSetsByDecreasingReplicas_Less ld ps)"
  let ?key = "\<lambda>p. rollout_key ext (mss_Template (ms_Spec (ld p))) = rollout_key ext (mds_Template (md_Spec md))"
  have m: "?m = filter ?key (sort_by MachineSetsByDecreasingReplicas_Less ld ps)"
    by (simp add: matchingMachineSets_def UpToDate_iff)
  show ?thesis
  proof (cases "mds_RolloutAfter (md_Spec md)")
    case None
    then show ?thesis using False
      by (simp add: FindNewMachineSet_def Let_def m candidate_def split: list.split)
  next
    case (Some r)
    show ?thesis
    proof (cases "t < r")
      case True
      then show ?thesis using False Some
        by (simp add: FindNewMachineSet_def Let_def m candidate_def split: list.split)
    next
      case not_before: False
      have flt: "filter (\<lambda>p. candidate ext md t (ld p)) (sort_by MachineSetsByDecreasingReplicas_Less ld ps)
          = filter (\<lambda>p. r < ms_CreationTimestamp (ld p)) ?m"
        using Some not_before by (simp add: m candidate_def conj_commute)
      show ?thesis
        using False Some not_before unfolding flt
        by (simp add: FindNewMachineSet_def Let_def find_hd_filter split: list.split)
    qed
  qed
qed

lemma FindNewMachineSet_sorted:
  "snd (snd (FindNewMachineSet ext md ld ps t)) = sort_by MachineSetsByDecreasingReplicas_Less ld ps"
  by (simp add: FindNewMachineSet_def Let_def sort_by_def split: list.split option.split)

lemma FindNewMachineSet_Some:
  assumes "fst (FindNewMachineSet ext md ld ps t) = Some p"
  shows "p \<in> set ps" and "candidate ext md t (ld p)"
    and "q \<in> set ps \<Longrightarrow> candidate ext md t (ld q) \<Longrightarrow> \<not> MachineSetsByDecreasingReplicas_Less (ld q) (ld p)"
proof -
  let ?s = "sort_by MachineSetsByDecreasingReplicas_Less ld ps"
  let ?f = "filter (\<lambda>p. candidate ext md t (ld p)) ?s"
  obtain rest where f: "?f = p # rest"
    using assms by (auto simp: FindNewMachineSet_candidates split: list.splits)
  then have "p \<in> set ?f" by simp
  then show "p \<in> set ps" "candidate ext md t (ld p)" by simp_all
  have srt: "sorted_wrt (\<lambda>p q. \<not> MachineSetsByDecreasingReplicas_Less (ld q) (ld p)) ?f"
    by (intro sorted_wrt_filter sorted_sort_by decreasing.weak_order_axioms)
  assume "q \<in> set ps" "candidate ext md t (ld q)"
  then have "q \<in> set ?f" by simp
  then show "\<not> MachineSetsByDecreasingReplicas_Less (ld q) (ld p)"
    using srt f decreasing.irrefl_lt by auto
qed

lemma FindNewMachineSet_None:
  assumes "fst (FindNewMachineSet ext md ld ps t) = None" and "q \<in> set ps"
  shows "\<not> candidate ext md t (ld q)"
proof -
  have "filter (\<lambda>p. candidate ext md t (ld p)) (sort_by MachineSetsByDecreasingReplicas_Less ld ps) = []"
    using assms(1) by (auto simp: FindNewMachineSet_candidates split: list.splits)
  then show ?thesis using assms(2) by (metis filter_empty_conv set_sort_by)
qed

lemma FindOldMachineSets_set:
  assumes "inj_on (\<lambda>p. om_UID (ms_Meta (ld p))) (set ps)"
  shows "set (fst (FindOldMachineSets ext md ld ps t)) = set ps - set_option (fst (FindNewMachineSet ext md ld ps t))"
proof -
  obtain new rsn srt where f: "FindNewMachineSet ext md ld ps t = (new, rsn, srt)" by (metis prod_cases3)
  have srt: "set srt = set ps" using FindNewMachineSet_sorted [of ext md ld ps t] f by (metis set_sort_by snd_conv)
  show ?thesis
  proof (cases new)
    case None
    then show ?thesis using f srt by (simp add: FindOldMachineSets_def)
  next
    case (Some n)
    have "n \<in> set ps" using FindNewMachineSet_Some(1) [of ext md ld ps t n] f Some by simp
    then have "\<And>p. p \<in> set ps \<Longrightarrow> om_UID (ms_Meta (ld p)) = om_UID (ms_Meta (ld n)) \<longleftrightarrow> p = n"
      using assms by (auto dest: inj_onD)
    then show ?thesis using f srt Some by (auto simp: FindOldMachineSets_def)
  qed
qed

lemma FilterActive_set:
  "set (FilterActiveMachineSets ld ps) = {p. Some p \<in> set ps \<and> (\<exists>r>0. ms_Replicas (ld p) = Some r)}"
  unfolding FilterActiveMachineSets_def FilterMachineSets_def activeFilter_def
  by (force split: option.splits)

section \<open>Replica annotations\<close>

lemma map_str_simps: "map_str (Some (map_make m)) k = map_str m k"
  by (simp add: map_str_def map_make_def map_lookup_def split: option.split)

lemma map_put_Some [simp]: "\<exists>y. map_put m k v = Some y"
  by (simp add: map_put_def)

lemma SetReplicasAnnotations_lookup:
  "map_str (ms_Annotations (snd (SetReplicasAnnotations ms d m))) DesiredReplicasAnnotation = FormatInt d"
  "map_str (ms_Annotations (snd (SetReplicasAnnotations ms d m))) MaxReplicasAnnotation = FormatInt m"
  "ms_Annotations (snd (SetReplicasAnnotations ms d m)) \<noteq> None"
  by (auto simp: SetReplicasAnnotations_def with_annotations_def Let_def map_str_simps)

lemma NeedUpdate_SetReplicasAnnotations:
  "\<not> ReplicasAnnotationsNeedUpdate (snd (SetReplicasAnnotations ms d m)) d m"
  using SetReplicasAnnotations_lookup [of ms d m]
  by (auto simp: ReplicasAnnotationsNeedUpdate_def split: option.split)

lemma SetReplicasAnnotations_fields [simp]:
  "ms_Spec (snd (SetReplicasAnnotations ms d m)) = ms_Spec ms"
  "ms_Status (snd (SetReplicasAnnotations ms d m)) = ms_Status ms"
  "ms_Name (snd (SetReplicasAnnotations ms d m)) = ms_Name ms"
  "om_UID (ms_Meta (snd (SetReplicasAnnotations ms d m))) = om_UID (ms_Meta ms)"
  "ms_CreationTimestamp (snd (SetReplicasAnnotations ms d m)) = ms_CreationTimestamp ms"
  "om_DeletionTimestamp (ms_Meta (snd (SetReplicasAnnotations ms d m))) = om_DeletionTimestamp (ms_Meta ms)"
  "om_Generation (ms_Meta (snd (SetReplicasAnnotations ms d m))) = om_Generation (ms_Meta ms)"
  by (simp_all add: SetReplicasAnnotations_def with_annotations_def Let_def)

section \<open>Properties\<close>

text \<open>
  C18: the revision that \<open>ComputeMachineSetAnnotations\<close> gives the new MachineSet is greater than the
  revision of every old MachineSet and never below the revision the new MachineSet had before.
\<close>

theorem revision_greatest:
  assumes "ComputeMachineSetAnnotations ext md oldMSs newMS = Ret a" and "MaxRevision oldMSs < 2 ^ 63 - 1"
  shows "\<exists>n. revision_of a = Some n \<and>
           (\<forall>ms\<in>set oldMSs. \<forall>v. Revision ms = Some v \<longrightarrow> v < n) \<and>
           (\<forall>ms c. newMS = Some ms \<longrightarrow> Revision ms = Some c \<longrightarrow> c \<le> n)"
proof -
  obtain v where v: "new_revision oldMSs newMS = Ret v" "a RevisionAnnotation = Some v"
    by (rule annotations_revision [OF assms(1)])
  obtain n where n: "ParseInt 64 v = Some n" "MaxRevision oldMSs < n"
    "\<forall>ms c. newMS = Some ms \<longrightarrow> Revision ms = Some c \<longrightarrow> c \<le> n"
    by (rule new_revision_parses [OF v(1) assms(2)])
  have "revision_of a = Some n" using v(2) n(1) by (simp add: revision_of_def)
  moreover have "v < n" if "ms \<in> set oldMSs" "Revision ms = Some v" for ms v
    using MaxRevision_ge [OF that] n(2) by simp
  ultimately show ?thesis using n(3) by (intro exI [of _ n]) simp
qed

definition sample_meta :: "string \<Rightarrow> int \<Rightarrow> string_map \<Rightarrow> object_meta" where
  "sample_meta n t a =
     \<lparr>om_Name = n, om_Namespace = ''default'', om_UID = n, om_Labels = Some [MachineDeploymentUniqueLabel \<mapsto> n],
      om_Annotations = a, om_CreationTimestamp = t, om_DeletionTimestamp = None, om_Generation = 1,
      om_Finalizers = [], om_OwnerReferences = []\<rparr>"

definition sample_template :: "string \<Rightarrow> machine_template" where
  "sample_template v =
     \<lparr>tp_Labels = None, tp_Annotations = None,
      tp_Spec = \<lparr>sp_ClusterName = ''c'', sp_Bootstrap = \<lparr>bs_ConfigRef = None, bs_DataSecretName = None\<rparr>,
                 sp_InfrastructureRef = empty_reference, sp_Version = Some v, sp_ProviderID = None,
                 sp_FailureDomain = None, sp_ReadinessGates = None, sp_NodeDrainTimeout = None,
                 sp_NodeVolumeDetachTimeout = None, sp_NodeDeletionTimeout = None\<rparr>\<rparr>"

definition sample_selector :: label_selector where
  "sample_selector = \<lparr>sel_MatchLabels = None, sel_MatchExpressions = None\<rparr>"

definition sample_ms :: "string \<Rightarrow> int \<Rightarrow> string_map \<Rightarrow> string \<Rightarrow> int \<Rightarrow> int \<Rightarrow> int \<Rightarrow> machineset" where
  "sample_ms n t a v replicas status available =
     \<lparr>ms_Meta = sample_meta n t a,
      ms_Spec = \<lparr>mss_ClusterName = ''c'', mss_Replicas = Some replicas, mss_MinReadySeconds = 0,
                 mss_DeletePolicy = [], mss_Selector = sample_selector, mss_Template = sample_template v\<rparr>,
      ms_Status = \<lparr>mst_Selector = [], mst_Replicas = status, mst_FullyLabeledReplicas = status, mst_ReadyReplicas = available,
                   mst_AvailableReplicas = available, mst_ObservedGeneration = 1, mst_FailureReason = None,
                   mst_FailureMessage = None, mst_Conditions = [], mst_V1Beta2 = None\<rparr>\<rparr>"

definition sample_md :: "int \<Rightarrow> int \<Rightarrow> int \<Rightarrow> machinedeployment" where
  "sample_md replicas surge unavailable =
     \<lparr>md_Meta = sample_meta ''md'' 1 None,
      md_Spec = \<lparr>mds_ClusterName = ''c'', mds_Replicas = Some replicas, mds_RolloutAfter = None,
                 mds_Selector = sample_selector, mds_Template = sample_template ''v2'',
                 mds_Strategy = Some \<lparr>str_Type = RollingUpdateMachineDeploymentStrategyType,
                   str_RollingUpdate = Some \<lparr>ru_MaxUnavailable = Some (IntVal unavailable),
                     ru_MaxSurge = Some (IntVal surge), ru_DeletePolicy = None\<rparr>,
                   str_Remediation = None\<rparr>,
                 mds_MinReadySeconds = None, mds_RevisionHistoryLimit = Some 1, mds_Paused = False,
                 mds_ProgressDeadlineSeconds = None\<rparr>,
      md_Status = \<lparr>mdst_ObservedGeneration = 1, mdst_Selector = [], mdst_Replicas = 0, mdst_UpdatedReplicas = 0,
                   mdst_ReadyReplicas = 0, mdst_AvailableReplicas = 0, mdst_UnavailableReplicas = 0,
                   mdst_Phase = [], mdst_Conditions = [], mdst_V1Beta2 = None\<rparr>\<rparr>"

text \<open>Third-party functions for concrete runs: plain integers, rounding half up, the API version as group.\<close>

definition sample_ext :: md_ext where
  "sample_ext =
     \<lparr>ext_Group = ref_APIVersion,
      ext_Scaled = (\<lambda>v _ _. case v of Some (IntVal n) \<Rightarrow> Inr n | _ \<Rightarrow> Inl ''nil value''),
      ext_RoundToInt32 = (\<lambda>f. case f of Finite q \<Rightarrow> \<lfloor>q + 1 / 2\<rfloor> | NonFinite \<Rightarrow> 0)\<rparr>"

lemmas sample_defs = sample_ms_def sample_meta_def sample_template_def sample_selector_def sample_md_def
  sample_ext_def empty_reference_def

lemma sample_fenceposts:
  "IsRollingUpdate (sample_md d s u) = Ret True"
  "MaxSurge sample_ext (sample_md d s u) = Ret (i32 s)"
  "md_Replicas (sample_md d s u) = Some d"
  by (simp_all add: IsRollingUpdate_def MaxSurge_def fenceposts_or_zero_def ResolveFenceposts_def scaled_def
      sample_defs Let_def)

lemma FormatInt_small:
  "FormatInt 0 = ''0''" "FormatInt 1 = ''1''" "FormatInt 2 = ''2''" "FormatInt 3 = ''3''"
  "FormatInt 4 = ''4''" "FormatInt 5 = ''5''" "FormatInt 6 = ''6''" "FormatInt 7 = ''7''"
  "FormatInt 8 = ''8''" "FormatInt 9 = ''9''"
  by (simp_all add: FormatInt_def format_nat.simps digit_char_def char_of_def bit_Suc_0_iff)

theorem revision_greatest_witness:
  "\<exists>a. ComputeMachineSetAnnotations sample_ext (sample_md 3 1 0)
         [sample_ms ''a'' 1 (Some [RevisionAnnotation \<mapsto> ''4'']) ''v1'' 3 3 3] None = Ret a \<and>
       (\<exists>n. revision_of a = Some n \<and> 4 < n)"
proof -
  let ?old = "[sample_ms ''a'' 1 (Some [RevisionAnnotation \<mapsto> ''4'']) ''v1'' 3 3 3]"
  have p: "ParseInt 64 ''4'' = Some 4" using ParseInt_FormatInt [of 64 4] by (simp add: FormatInt_small)
  have r: "Revision (hd ?old) = Some 4" by (simp add: Revision_def sample_defs p)
  have m: "MaxRevision ?old = 4" using r by (simp add: MaxRevision_def)
  obtain a where a: "ComputeMachineSetAnnotations sample_ext (sample_md 3 1 0) ?old None = Ret a"
    by (simp add: ComputeMachineSetAnnotations_def new_revision_def sample_fenceposts Let_def)
  have bound: "MaxRevision ?old < 2 ^ 63 - 1" by (simp add: m)
  obtain n where "revision_of a = Some n" "\<forall>ms\<in>set ?old. \<forall>v. Revision ms = Some v \<longrightarrow> v < n"
    using revision_greatest [OF a bound] by blast
  then have "revision_of a = Some n" "4 < n" using r by simp_all
  then show ?thesis using a by blast
qed

text \<open>
  \<open>MachineTemplateUpToDate\<close> compares exactly version, bootstrap, infrastructure reference and failure
  domain, the references by API group and not by API version; whenever it answers no, it gives the
  reasons, one condition message for each log message.
\<close>

lemma UpToDate_characterised:
  "case MachineTemplateUpToDate ext current desired of (upToDate, logs, conds) \<Rightarrow>
     (upToDate \<longleftrightarrow> rollout_key ext current = rollout_key ext desired) \<and>
     (upToDate \<longleftrightarrow> logs = []) \<and> length logs = length conds"
proof -
  have len: "length (fst (version_messages c d)) = length (snd (version_messages c d))"
    "length (fst (bootstrap_messages c d)) = length (snd (bootstrap_messages c d))"
    "length (fst (infrastructure_messages c d)) = length (snd (infrastructure_messages c d))"
    "length (fst (failure_domain_messages c d)) = length (snd (failure_domain_messages c d))" for c d
    by (simp_all add: version_messages_def bootstrap_messages_def infrastructure_messages_def
        failure_domain_messages_def Let_def split: option.split)
  show ?thesis
    using UpToDate_iff [of ext current desired]
    by (simp add: MachineTemplateUpToDate_def Let_def case_prod_unfold len no_messages_iff split: if_splits)
qed

text \<open>
  \<open>FindNewMachineSet\<close> returns nil exactly when no MachineSet fits the template (and the rollout-after
  time), and otherwise one that fits and that no other fitting MachineSet precedes in the order of
  decreasing replicas, creation time and name.
\<close>

lemma FindNewMachineSet_best:
  "case fst (FindNewMachineSet ext md ld ps t) of
     None \<Rightarrow> (\<forall>q\<in>set ps. \<not> candidate ext md t (ld q))
   | Some p \<Rightarrow> p \<in> set ps \<and> candidate ext md t (ld p) \<and>
       (\<forall>q\<in>set ps. candidate ext md t (ld q) \<longrightarrow> \<not> MachineSetsByDecreasingReplicas_Less (ld q) (ld p))"
  using FindNewMachineSet_None [of ext md ld ps t] FindNewMachineSet_Some [of ext md ld ps t]
  by (simp split: option.split)

text \<open>
  The old MachineSets are all MachineSets but the new one, when no two MachineSets share a UID.
\<close>

lemma FindOldMachineSets_partition:
  assumes "inj_on (\<lambda>p. om_UID (ms_Meta (ld p))) (set ps)"
  shows "set (fst (FindOldMachineSets ext md ld ps t)) = set ps - set_option (fst (FindNewMachineSet ext md ld ps t)) \<and>
         mset (snd (FindOldMachineSets ext md ld ps t)) = mset ps"
proof
  show "mset (snd (FindOldMachineSets ext md ld ps t)) = mset ps"
    using FindNewMachineSet_sorted [of ext md ld ps t]
    by (simp add: FindOldMachineSets_def case_prod_unfold)
qed (rule FindOldMachineSets_set [OF assms])

definition active_sets :: "('p \<Rightarrow> machineset) \<Rightarrow> 'p option \<Rightarrow> 'p list \<Rightarrow> 'p list" where
  "active_sets ld newMS oldMSs = FilterActiveMachineSets ld (map Some oldMSs @ [newMS])"

text \<open>
  \<open>FindOneActiveOrLatest\<close> returns the active MachineSet if there is exactly one, with none active the
  new MachineSet or else an old one that no other old one follows in creation time and name, and nil
  exactly when there is no MachineSet at all or more than one is active.
\<close>

lemma FindOneActiveOrLatest_choice:
  "case fst (FindOneActiveOrLatest ld newMS oldMSs) of
     None \<Rightarrow> newMS = None \<and> oldMSs = [] \<or> length (active_sets ld newMS oldMSs) \<ge> 2
   | Some p \<Rightarrow>
       active_sets ld newMS oldMSs = [p] \<or>
             active_sets ld newMS oldMSs = [] \<and>
               (newMS = Some p \<or>
                newMS = None \<and> p \<in> set oldMSs \<and>
                (\<forall>q\<in>set oldMSs. \<not> MachineSetsByCreationTimestamp_Less (ld p) (ld q)))"
proof -
  let ?rev = "sort_Reverse MachineSetsByCreationTimestamp_Less"
  let ?old = "sort_by ?rev ld oldMSs"
  let ?act = "FilterActiveMachineSets ld (map Some ?old @ [newMS])"
  have msets: "mset ?act = mset (active_sets ld newMS oldMSs)"
  proof -
    have "mset (map Some ?old @ [newMS]) = mset (map Some oldMSs @ [newMS])" by simp
    then show ?thesis
      unfolding active_sets_def FilterActiveMachineSets_def FilterMachineSets_def by (simp only: mset_map mset_filter)
  qed
  have len: "length ?act = length (active_sets ld newMS oldMSs)" using msets by (rule mset_eq_length)
  have one: "?act = [p] \<longleftrightarrow> active_sets ld newMS oldMSs = [p]" for p
  proof
    assume "?act = [p]"
    then have "mset (active_sets ld newMS oldMSs) = {#p#}" using msets by simp
    then show "active_sets ld newMS oldMSs = [p]" by simp
  next
    assume "active_sets ld newMS oldMSs = [p]"
    then have "mset ?act = {#p#}" using msets by simp
    then show "?act = [p]" by (simp only: mset_single_iff)
  qed
  have latest: "hd ?old \<in> set oldMSs \<and> (\<forall>q\<in>set oldMSs. \<not> MachineSetsByCreationTimestamp_Less (ld (hd ?old)) (ld q))"
    if "oldMSs \<noteq> []"
  proof -
    have "\<not> ?rev (ld q) (ld (hd ?old))" if "q \<in> set oldMSs" for q
      using weak_order.hd_go_sort_least [OF weak_order_pullback [OF creation_rev.weak_order_axioms, of ld] \<open>oldMSs \<noteq> []\<close> that]
      by (simp add: sort_by_def)
    moreover have "hd ?old \<in> set oldMSs" using that by (metis hd_in_set set_sort_by sort_by_Nil_iff)
    ultimately show ?thesis by (simp add: sort_Reverse_def)
  qed
  show ?thesis
  proof (cases "newMS = None \<and> oldMSs = []")
    case True
    then show ?thesis by (simp add: FindOneActiveOrLatest_def)
  next
    case False
    consider (none) "?act = []" | (one) p where "?act = [p]" | (many) p q r where "?act = p # q # r"
      by (metis neq_Nil_conv)
    then show ?thesis
    proof cases
      case none
      then have "active_sets ld newMS oldMSs = []" using len by simp
      then show ?thesis using False none latest
        by (auto simp: FindOneActiveOrLatest_def Let_def split: option.split)
    next
      case (one p)
      then show ?thesis using False \<open>?act = [p] \<longleftrightarrow> active_sets ld newMS oldMSs = [p]\<close>
        by (auto simp: FindOneActiveOrLatest_def Let_def)
    next
      case (many p q r)
      then have "length (active_sets ld newMS oldMSs) \<ge> 2" using len by simp
      then show ?thesis using False many by (auto simp: FindOneActiveOrLatest_def Let_def)
    qed
  qed
qed

text \<open>
  The size a MachineDeployment writes into the annotations of a MachineSet is the size that is read
  back; writing the same sizes again changes nothing and the update is then no longer needed.
\<close>

lemma replica_annotations_roundtrip:
  assumes "in_i32 d" and "in_i32 m"
  shows "getMaxReplicasAnnotation (snd (SetReplicasAnnotations ms d m)) = (m, True) \<and>
         getIntFromAnnotation (snd (SetReplicasAnnotations ms d m)) DesiredReplicasAnnotation = (d, True) \<and>
         \<not> ReplicasAnnotationsNeedUpdate (snd (SetReplicasAnnotations ms d m)) d m \<and>
         SetReplicasAnnotations (snd (SetReplicasAnnotations ms d m)) d m =
           (False, snd (SetReplicasAnnotations ms d m))"
proof (intro conjI)
  let ?ms = "snd (SetReplicasAnnotations ms d m)"
  obtain a where a: "ms_Annotations ?ms = Some a" using SetReplicasAnnotations_lookup(3) by blast
  have l: "a DesiredReplicasAnnotation = Some (FormatInt d)" "a MaxReplicasAnnotation = Some (FormatInt m)"
    using SetReplicasAnnotations_lookup(1,2) [of ms d m] unfolding a
    by (simp_all add: map_str_def FormatInt_nonempty [symmetric] split: option.splits)
  have p: "ParseInt 32 (FormatInt d) = Some d" "ParseInt 32 (FormatInt m) = Some m"
    using assms by (auto intro!: ParseInt_FormatInt simp: in_i32_def)
  show "getMaxReplicasAnnotation ?ms = (m, True)" "getIntFromAnnotation ?ms DesiredReplicasAnnotation = (d, True)"
    using assms by (simp_all add: getMaxReplicasAnnotation_def getIntFromAnnotation_def a l p i32_id)
  show "\<not> ReplicasAnnotationsNeedUpdate ?ms d m" by (rule NeedUpdate_SetReplicasAnnotations)
  have "map_str (Some (map_make (Some a))) DesiredReplicasAnnotation = FormatInt d"
    "map_str (Some (map_make (Some a))) MaxReplicasAnnotation = FormatInt m"
    by (simp_all add: map_str_def map_make_def l)
  moreover have "with_annotations ?ms (Some (map_make (Some a))) = ?ms"
    using a by (simp add: with_annotations_def map_make_def)
  ultimately show "SetReplicasAnnotations ?ms d m = (False, ?ms)"
    by (simp add: SetReplicasAnnotations_def [of ?ms] a)
qed

text \<open>
  When the revision of the new MachineSet changes, its previous revision is appended to the revision
  history: the history read back as a comma-separated list is the old history followed by it.
\<close>

lemma revision_history_append:
  assumes "map_lookup (ms_Annotations ms) RevisionAnnotation = Some currentRevision"
    and "currentRevision \<noteq> newRevision" and "CHR '','' \<notin> set currentRevision"
  shows "\<exists>h. revision_history (Some ms) newRevision = Some h \<and>
           go_split (CHR '','') h =
             (let old = go_split (CHR '','') (map_str (ms_Annotations ms) RevisionHistoryAnnotation)
              in if hd old = [] then [currentRevision] else old @ [currentRevision])"
proof -
  let ?h = "map_str (ms_Annotations ms) RevisionHistoryAnnotation"
  let ?old = "go_split (CHR '','') ?h"
  have j: "go_join '','' (?old @ [currentRevision]) = ?h @ '','' @ currentRevision"
    by (simp add: go_join_snoc go_join_split)
  have s: "go_split (CHR '','') (?h @ '','' @ currentRevision) = ?old @ [currentRevision]"
    using go_split_append [of "CHR '',''" ?h currentRevision] go_split_no_sep [OF assms(3)] by simp
  show ?thesis using assms(1,2) go_split_no_sep [OF assms(3)] j s
    by (simp add: revision_history_def Let_def)
qed

end
