(* ===== verification/Md_Rollout.thy ===== *)
theory Md_Rollout
  imports Md_Util "HOL-Library.Word"
begin

unbundle bit_operations_syntax

text \<open>
  The MachineDeployment controller: machinedeployment_sync.go, machinedeployment_rolling.go and
  machinedeployment_rollout_ondelete.go of internal/controllers/machinedeployment. The controller
  shares pointers to MachineSets between its lists and writes through them, so that the model has a
  store: a pointer is a natural number, \<open>hp\<close> reads it. The state also holds the MachineDeployment
  that is reconciled, the number of API calls made so far, the events recorded and the MachineSets
  deleted.

  The API server, the clock, the random suffix and the label selectors of apimachinery are the fields
  of the record \<open>md_client\<close>; the outcome of a call may depend on the number of calls made before it.
\<close>

section \<open>State\<close>

type_synonym addr = nat

datatype md_event =
    FailedScale string
  | SuccessfulScale string int int
  | FailedUpdate string
  | FailedCreate string
  | SuccessfulCreate string
  | FailedDelete string
  | SuccessfulDelete string

datatype delete_outcome = Deleted | NotFound | DeleteErr string

record md_client =
  cl_NewHelper :: "nat \<Rightarrow> machineset \<Rightarrow> string option"
  cl_Patch :: "nat \<Rightarrow> machineset \<Rightarrow> machineset \<Rightarrow> string option"
  cl_Apply :: "nat \<Rightarrow> machineset option \<Rightarrow> machineset \<Rightarrow> string + machineset"
  cl_Poll :: "nat \<Rightarrow> machineset \<Rightarrow> string option"
  cl_Delete :: "nat \<Rightarrow> machineset \<Rightarrow> delete_outcome"
  cl_List :: "nat \<Rightarrow> string \<Rightarrow> string_map \<Rightarrow> string + machine list"
  cl_SelectorAsMap :: "label_selector \<Rightarrow> string + string_map"
  cl_SelectorString :: "label_selector \<Rightarrow> string option"
  cl_Spew :: "machine_template \<Rightarrow> string option"
  cl_Random :: "nat \<Rightarrow> string"
  cl_Now :: "nat \<Rightarrow> int"

record md_state =
  hp :: "addr \<Rightarrow> machineset"
  nextp :: addr
  mdep :: machinedeployment
  calls :: nat
  events :: "md_event list"
  deleted :: "addr list"

type_synonym 'a mdm = "(md_state, md_error, 'a) gom"

definition put_ms :: "addr \<Rightarrow> machineset \<Rightarrow> md_state \<Rightarrow> md_state" where
  "put_ms p ms s = s\<lparr>hp := (hp s)(p := ms)\<rparr>"

definition count_call :: "md_state \<Rightarrow> md_state" where
  "count_call s = s\<lparr>calls := Suc (calls s)\<rparr>"

definition record_event :: "md_event \<Rightarrow> md_state \<Rightarrow> md_state" where
  "record_event e s = s\<lparr>events := events s @ [e]\<rparr>"

definition objs :: "md_state \<Rightarrow> addr option list \<Rightarrow> machineset option list" where
  "objs s ps = map (map_option (hp s)) ps"

section \<open>Scaling one MachineSet\<close>

definition with_replicas :: "machineset \<Rightarrow> int \<Rightarrow> machineset" where
  "with_replicas ms n = ms\<lparr>ms_Spec := (ms_Spec ms)\<lparr>mss_Replicas := Some n\<rparr>\<rparr>"

definition scaled_ms :: "machineset \<Rightarrow> int \<Rightarrow> int \<Rightarrow> int \<Rightarrow> machineset" where
  "scaled_ms ms newScale d maxReplicas = snd (SetReplicasAnnotations (with_replicas ms newScale) d maxReplicas)"

definition patch_scale :: "md_client \<Rightarrow> addr \<Rightarrow> int \<Rightarrow> int \<Rightarrow> int \<Rightarrow> int \<Rightarrow> unit mdm" where
  "patch_scale cl p originalReplicas newScale d maxReplicas s =
     (let ms = hp s p; ms' = scaled_ms ms newScale d maxReplicas; s' = count_call (put_ms p ms' s)
      in case cl_Patch cl (calls s) ms ms' of
           Some e \<Rightarrow> (Err (ApiErr e), record_event (FailedScale (ms_Name ms)) s')
         | None \<Rightarrow> (Ret (), record_event (SuccessfulScale (ms_Name ms) originalReplicas newScale) s'))"

definition scaleMachineSet :: "md_ext \<Rightarrow> md_client \<Rightarrow> addr \<Rightarrow> int \<Rightarrow> unit mdm" where
  "scaleMachineSet ext cl p newScale s =
     (case ms_Replicas (hp s p) of None \<Rightarrow> (Err (NilMSReplicas (ms_Name (hp s p))), s)
      | Some r \<Rightarrow>
        (case md_Replicas (mdep s) of None \<Rightarrow> (Err (NilMDReplicas (om_Name (md_Meta (mdep s)))), s)
         | Some d \<Rightarrow>
             mbind (mlift (MaxSurge ext (mdep s))) (\<lambda>surge s.
               let maxReplicas = i32 (d + surge);
                   annotationsNeedUpdate = ReplicasAnnotationsNeedUpdate (hp s p) d maxReplicas
               in if r = newScale \<and> \<not> annotationsNeedUpdate then (Ret (), s)
                  else case cl_NewHelper cl (calls s) (hp s p) of
                         Some e \<Rightarrow> (Err (ApiErr e), s)
                       | None \<Rightarrow> patch_scale cl p r newScale d maxReplicas s) s))"

section \<open>The desired MachineSet\<close>

text \<open>\<^verbatim>\<open>hash/fnv\<close> of the standard library, on the text that spew prints.\<close>

definition hash_Compute :: "md_client \<Rightarrow> machine_template \<Rightarrow> (md_error, 32 word) go" where
  "hash_Compute cl t =
     (case cl_Spew cl t of None \<Rightarrow> Err (ExtErr ''failed to calculate hash'') | Some text \<Rightarrow> Ret (fnv32a text))"

definition maxNameLength :: nat where "maxNameLength = 63"
definition randomLength :: nat where "randomLength = 5"
definition maxGeneratedNameLength :: nat where "maxGeneratedNameLength = maxNameLength - randomLength"

definition computeNewMachineSetName :: "string \<Rightarrow> string \<Rightarrow> string \<times> string" where
  "computeNewMachineSetName base r =
     (let base' = (if length base > maxGeneratedNameLength then take maxGeneratedNameLength base else base)
      in (base' @ r, r))"

definition cloneStringMap :: "string_map \<Rightarrow> string_map" where
  "cloneStringMap m = Some (map_make m)"

definition machineDeploymentOwner :: "machinedeployment \<Rightarrow> owner_reference" where
  "machineDeploymentOwner md =
     \<lparr>or_APIVersion = ''cluster.x-k8s.io/v1beta1'', or_Kind = ''MachineDeployment'',
      or_Name = om_Name (md_Meta md), or_UID = om_UID (md_Meta md), or_Controller = Some True\<rparr>"

record ms_identity =
  id_name :: string
  id_uid :: string
  id_finalizers :: "string list"
  id_unique :: string
  id_replicas :: int
  id_spec :: machine_spec

definition new_identity ::
  "md_ext \<Rightarrow> md_client \<Rightarrow> machinedeployment \<Rightarrow> string \<Rightarrow> machineset list \<Rightarrow> (md_error, ms_identity) go" where
  "new_identity ext cl md random oldMSs =
     go_bind (hash_Compute cl (MachineTemplateDeepCopyRolloutFields ext (mds_Template (md_Spec md)))) (\<lambda>templateHash.
       case computeNewMachineSetName (om_Name (md_Meta md) @ ''-'') random of
         (name, randomSuffix) \<Rightarrow>
           go_bind (NewMSNewReplicas ext md (map Some oldMSs) 0) (\<lambda>replicas.
             Ret \<lparr>id_name = name, id_uid = [], id_finalizers = [],
                  id_unique = FormatInt (uint templateHash) @ ''-'' @ randomSuffix,
                  id_replicas = replicas, id_spec = tp_Spec (mds_Template (md_Spec md))\<rparr>))"

definition existing_identity :: "machineset \<Rightarrow> (md_error, ms_identity) go" where
  "existing_identity ms =
     (case map_lookup (om_Labels (ms_Meta ms)) MachineDeploymentUniqueLabel of
        None \<Rightarrow> Err NoUniqueLabel
      | Some u \<Rightarrow>
          go_bind (deref (ms_Replicas ms)) (\<lambda>r.
            Ret \<lparr>id_name = ms_Name ms, id_uid = om_UID (ms_Meta ms), id_finalizers = om_Finalizers (ms_Meta ms),
                 id_unique = u, id_replicas = r, id_spec = tp_Spec (mss_Template (ms_Spec ms))\<rparr>))"

definition desired_delete_policy :: "machinedeployment \<Rightarrow> string" where
  "desired_delete_policy md =
     (case md_Strategy md of None \<Rightarrow> []
      | Some st \<Rightarrow> (case str_RollingUpdate st of None \<Rightarrow> [] | Some ru \<Rightarrow> ptr_deref (ru_DeletePolicy ru) []))"

definition empty_ms_status :: machineset_status where
  "empty_ms_status =
     \<lparr>mst_Selector = [], mst_Replicas = 0, mst_FullyLabeledReplicas = 0, mst_ReadyReplicas = 0, mst_AvailableReplicas = 0,
      mst_ObservedGeneration = 0, mst_FailureReason = None, mst_FailureMessage = None,
      mst_Conditions = [], mst_V1Beta2 = None\<rparr>"

definition build_machineset :: "machinedeployment \<Rightarrow> ms_identity \<Rightarrow> (string \<Rightarrow> string option) \<Rightarrow> machineset" where
  "build_machineset md i annotations =
     (let tmpl = mds_Template (md_Spec md);
          labels = CloneAndAddLabel (tp_Labels tmpl) MachineDeploymentUniqueLabel (id_unique i)
      in \<lparr>ms_Meta = \<lparr>om_Name = id_name i, om_Namespace = om_Namespace (md_Meta md), om_UID = id_uid i,
                     om_Labels = map_put labels MachineDeploymentNameLabel (om_Name (md_Meta md)),
                     om_Annotations = Some annotations, om_CreationTimestamp = 0, om_DeletionTimestamp = None,
                     om_Generation = 0, om_Finalizers = id_finalizers i,
                     om_OwnerReferences = [machineDeploymentOwner md]\<rparr>,
          ms_Spec = \<lparr>mss_ClusterName = mds_ClusterName (md_Spec md), mss_Replicas = Some (id_replicas i),
                     mss_MinReadySeconds = ptr_deref (mds_MinReadySeconds (md_Spec md)) 0,
                     mss_DeletePolicy = desired_delete_policy md,
                     mss_Selector = CloneSelectorAndAddLabel (mds_Selector (md_Spec md)) MachineDeploymentUniqueLabel (id_unique i),
                     mss_Template = \<lparr>tp_Labels = labels, tp_Annotations = cloneStringMap (tp_Annotations tmpl),
                                     tp_Spec = (id_spec i)
                                       \<lparr>sp_ReadinessGates := sp_ReadinessGates (tp_Spec tmpl),
                                        sp_NodeDrainTimeout := sp_NodeDrainTimeout (tp_Spec tmpl),
                                        sp_NodeDeletionTimeout := sp_NodeDeletionTimeout (tp_Spec tmpl),
                                        sp_NodeVolumeDetachTimeout := sp_NodeVolumeDetachTimeout (tp_Spec tmpl)\<rparr>\<rparr>\<rparr>,
          ms_Status = empty_ms_status\<rparr>)"

definition computeDesiredMachineSet ::
  "md_ext \<Rightarrow> md_client \<Rightarrow> machinedeployment \<Rightarrow> string \<Rightarrow> machineset option \<Rightarrow> machineset list \<Rightarrow> (md_error, machineset) go" where
  "computeDesiredMachineSet ext cl md random existingMS oldMSs =
     go_bind (case existingMS of None \<Rightarrow> new_identity ext cl md random oldMSs | Some ms \<Rightarrow> existing_identity ms) (\<lambda>i.
     go_bind (ComputeMachineSetAnnotations ext md oldMSs existingMS) (\<lambda>annotations.
       Ret (build_machineset md i annotations)))"

section \<open>Finding, updating and creating the new MachineSet\<close>

definition alloc_ms :: "machineset \<Rightarrow> md_state \<Rightarrow> addr \<times> md_state" where
  "alloc_ms ms s = (nextp s, (put_ms (nextp s) ms s)\<lparr>nextp := Suc (nextp s)\<rparr>)"

definition updateMachineSet :: "md_ext \<Rightarrow> md_client \<Rightarrow> addr \<Rightarrow> addr list \<Rightarrow> addr mdm" where
  "updateMachineSet ext cl p oldMSs s =
     (case computeDesiredMachineSet ext cl (mdep s) [] (Some (hp s p)) (map (hp s) oldMSs) of
        Panic \<Rightarrow> (Panic, s)
      | Err e \<Rightarrow> (Err e, s)
      | Ret updatedMS \<Rightarrow>
          (case cl_Apply cl (calls s) (Some (hp s p)) updatedMS of
             Inl e \<Rightarrow> (Err (ApiErr e), record_event (FailedUpdate (ms_Name updatedMS)) (count_call s))
           | Inr ms \<Rightarrow> (case alloc_ms ms (count_call s) of (q, s') \<Rightarrow> (Ret q, s'))))"

definition createMachineSetAndWait :: "md_ext \<Rightarrow> md_client \<Rightarrow> addr list \<Rightarrow> addr mdm" where
  "createMachineSetAndWait ext cl oldMSs s =
     (case computeDesiredMachineSet ext cl (mdep s) (cl_Random cl (calls s)) None (map (hp s) oldMSs) of
        Panic \<Rightarrow> (Panic, s)
      | Err e \<Rightarrow> (Err e, s)
      | Ret newMS \<Rightarrow>
          (case cl_Apply cl (calls s) None newMS of
             Inl e \<Rightarrow> (Err (ApiErr e), record_event (FailedCreate (ms_Name newMS)) (count_call s))
           | Inr ms \<Rightarrow>
               (let s1 = record_event (SuccessfulCreate (ms_Name ms)) (count_call s)
                in case cl_Poll cl (calls s1) ms of
                     Some e \<Rightarrow> (Err (ApiErr e), count_call s1)
                   | None \<Rightarrow> (case alloc_ms ms (count_call s1) of (q, s2) \<Rightarrow> (Ret q, s2)))))"

definition sync_revision :: "addr \<Rightarrow> addr option mdm" where
  "sync_revision q s =
     (Ret (Some q), s\<lparr>mdep := snd (SetDeploymentRevision (mdep s) (map_str (ms_Annotations (hp s q)) RevisionAnnotation))\<rparr>)"

definition getNewMachineSet ::
  "md_ext \<Rightarrow> md_client \<Rightarrow> addr list \<Rightarrow> addr list \<Rightarrow> bool \<Rightarrow> bool \<Rightarrow> int \<Rightarrow> addr option mdm" where
  "getNewMachineSet ext cl msList oldMSs createIfNotExists templateExists reconciliationTime s =
     (case FindNewMachineSet ext (mdep s) (hp s) msList reconciliationTime of
        (Some p, _, _) \<Rightarrow> mbind (updateMachineSet ext cl p oldMSs) sync_revision s
      | (None, _, _) \<Rightarrow>
          if \<not> createIfNotExists then (Ret None, s)
          else if \<not> templateExists then (Err TemplatesMissing, s)
          else mbind (createMachineSetAndWait ext cl oldMSs) sync_revision s)"

definition getAllMachineSetsAndSyncRevision ::
  "md_ext \<Rightarrow> md_client \<Rightarrow> addr list \<Rightarrow> bool \<Rightarrow> bool \<Rightarrow> (addr option \<times> addr list) mdm" where
  "getAllMachineSetsAndSyncRevision ext cl msList createIfNotExisted templateExists s =
     (let reconciliationTime = cl_Now cl (calls s)
      in case FindOldMachineSets ext (mdep s) (hp s) msList reconciliationTime of
           (allOldMSs, msSorted) \<Rightarrow>
             mbind (getNewMachineSet ext cl msSorted allOldMSs createIfNotExisted templateExists reconciliationTime)
               (\<lambda>newMS. mret (newMS, allOldMSs)) s)"

section \<open>Status\<close>

abbreviation MachineDeploymentAvailableCondition :: string where
  "MachineDeploymentAvailableCondition \<equiv> ''Available''"
abbreviation MachineSetReadyCondition :: string where
  "MachineSetReadyCondition \<equiv> ''MachineSetReady''"
abbreviation WaitingForMachineSetFallbackReason :: string where
  "WaitingForMachineSetFallbackReason \<equiv> ''WaitingForMachineSet''"
abbreviation WaitingForAvailableMachinesReason :: string where
  "WaitingForAvailableMachinesReason \<equiv> ''WaitingForAvailableMachines''"

definition has_failure :: "machineset option \<Rightarrow> bool" where
  "has_failure ms =
     (case ms of None \<Rightarrow> False
      | Some ms \<Rightarrow> mst_FailureReason (ms_Status ms) \<noteq> None \<or> mst_FailureMessage (ms_Status ms) \<noteq> None)"

definition calculateStatus ::
  "md_client \<Rightarrow> machineset option list \<Rightarrow> machineset option \<Rightarrow> machinedeployment \<Rightarrow> (md_error, machinedeployment_status) go" where
  "calculateStatus cl allMSs newMS md =
     (let availableReplicas = GetAvailableReplicaCountForMachineSets allMSs;
          totalReplicas = GetReplicaCountForMachineSets allMSs;
          unavailable = i32 (totalReplicas - availableReplicas);
          readyReplicas = GetReadyReplicaCountForMachineSets allMSs
      in go_bind (deref (cl_SelectorString cl (mds_Selector (md_Spec md)))) (\<lambda>sel.
         go_bind (deref (md_Replicas md)) (\<lambda>d.
           let phase0 = (if d = readyReplicas then ''Running'' else []);
               phase1 = (if d > readyReplicas then ''ScalingUp'' else phase0);
               phase2 = (if i32 (totalReplicas - availableReplicas) < 0 then ''ScalingDown'' else phase1);
               phase3 = (if list_ex has_failure allMSs then ''Failed'' else phase2)
           in Ret \<lparr>mdst_ObservedGeneration = om_Generation (md_Meta md), mdst_Selector = sel,
                  mdst_Replicas = GetActualReplicaCountForMachineSets allMSs,
                  mdst_UpdatedReplicas = GetActualReplicaCountForMachineSets [newMS],
                  mdst_ReadyReplicas = readyReplicas,
                  mdst_AvailableReplicas = availableReplicas,
                  mdst_UnavailableReplicas = (if unavailable < 0 then 0 else unavailable),
                  mdst_Phase = phase3,
                  mdst_Conditions = mdst_Conditions (md_Status md),
                  mdst_V1Beta2 = mdst_V1Beta2 (md_Status md)\<rparr>)))"

definition ms_getter :: "machineset \<Rightarrow> getter" where
  "ms_getter ms = \<lparr>g_Name = ms_Name ms, g_Kind = ''MachineSet'', g_Conditions = mst_Conditions (ms_Status ms)\<rparr>"

definition setReplicas :: "machinedeployment_status \<Rightarrow> machineset option list \<Rightarrow> machinedeployment_status" where
  "setReplicas st machineSets =
     (let v1beta2 = ptr_deref (mdst_V1Beta2 st)
            \<lparr>md2_Conditions = [], md2_ReadyReplicas = None, md2_AvailableReplicas = None, md2_UpToDateReplicas = None\<rparr>
      in st\<lparr>mdst_V1Beta2 := Some (v1beta2
              \<lparr>md2_ReadyReplicas := GetV1Beta2ReadyReplicaCountForMachineSets machineSets,
               md2_AvailableReplicas := GetV1Beta2AvailableReplicaCountForMachineSets machineSets,
               md2_UpToDateReplicas := GetV1Beta2UptoDateReplicaCountForMachineSets machineSets\<rparr>)\<rparr>)"

definition status_conditions ::
  "int \<Rightarrow> machinedeployment_status \<Rightarrow> int \<Rightarrow> machineset option \<Rightarrow> condition list option" where
  "status_conditions now st minReplicasNeeded newMS =
     (let c0 = Some (mdst_Conditions st);
          c1 = (if mdst_AvailableReplicas st \<ge> minReplicasNeeded
                then conditions_MarkTrue now c0 MachineDeploymentAvailableCondition
                else conditions_MarkFalse now c0 MachineDeploymentAvailableCondition WaitingForAvailableMachinesReason
                       ConditionSeverityWarning
                       (''Minimum availability requires '' @ FormatInt minReplicasNeeded @ '' replicas, current '' @
                        FormatInt (mdst_AvailableReplicas st) @ '' available''))
      in case newMS of
           Some ms \<Rightarrow> conditions_SetMirror now c1 MachineSetReadyCondition (ms_getter ms)
                        (Some \<lparr>fallbackTo = False, fallbackReason = WaitingForMachineSetFallbackReason,
                               fallbackSeverity = ConditionSeverityInfo, fallbackMessage = []\<rparr>)
         | None \<Rightarrow> conditions_MarkFalse now c1 MachineSetReadyCondition WaitingForMachineSetFallbackReason
                     ConditionSeverityInfo ''MachineSet not found'')"

definition syncDeploymentStatus :: "md_ext \<Rightarrow> md_client \<Rightarrow> addr option list \<Rightarrow> addr option \<Rightarrow> unit mdm" where
  "syncDeploymentStatus ext cl allMSs newMS s =
     (let md = mdep s; allObjs = objs s allMSs; newObj = map_option (hp s) newMS
      in case calculateStatus cl allObjs newObj md of
           Panic \<Rightarrow> (Panic, s)
         | Err e \<Rightarrow> (Err e, s)
         | Ret status \<Rightarrow>
             (case go_bind (deref (md_Replicas md)) (\<lambda>d.
                     go_bind (MaxUnavailable ext (md\<lparr>md_Status := status\<rparr>)) (\<lambda>mu. Ret (i32 (d - mu)))) of
                Panic \<Rightarrow> (Panic, s\<lparr>mdep := md\<lparr>md_Status := status\<rparr>\<rparr>)
              | Err e \<Rightarrow> (Err e, s\<lparr>mdep := md\<lparr>md_Status := status\<rparr>\<rparr>)
              | Ret minReplicasNeeded \<Rightarrow>
                  let cs = status_conditions (cl_Now cl (calls s)) status minReplicasNeeded newObj;
                      status' = setReplicas (status\<lparr>mdst_Conditions := ptr_deref cs []\<rparr>) allObjs
                  in (Ret (), s\<lparr>mdep := md\<lparr>md_Status := status'\<rparr>\<rparr>)))"

section \<open>Rolling update\<close>

definition reconcileNewMachineSet :: "md_ext \<Rightarrow> md_client \<Rightarrow> addr option list \<Rightarrow> addr \<Rightarrow> unit mdm" where
  "reconcileNewMachineSet ext cl allMSs newMS s =
     (case md_Replicas (mdep s) of None \<Rightarrow> (Err (NilMDReplicas (om_Name (md_Meta (mdep s)))), s)
      | Some d \<Rightarrow>
        (case ms_Replicas (hp s newMS) of None \<Rightarrow> (Err (NilMSReplicas (ms_Name (hp s newMS))), s)
         | Some r \<Rightarrow>
             if r = d then (Ret (), s)
             else if r > d then scaleMachineSet ext cl newMS d s
             else mbind (mlift (NewMSNewReplicas ext (mdep s) (objs s allMSs) r))
                    (\<lambda>newReplicasCount. scaleMachineSet ext cl newMS newReplicasCount) s))"

fun cleanup_loop :: "md_ext \<Rightarrow> md_client \<Rightarrow> int \<Rightarrow> int \<Rightarrow> addr list \<Rightarrow> int mdm" where
  "cleanup_loop ext cl maxCleanupCount totalScaledDown [] s = (Ret totalScaledDown, s)"
| "cleanup_loop ext cl maxCleanupCount totalScaledDown (targetMS # rest) s =
     (case ms_Replicas (hp s targetMS) of
        None \<Rightarrow> (Err (NilMSReplicas (ms_Name (hp s targetMS))), s)
      | Some oldMSReplicas \<Rightarrow>
          if totalScaledDown \<ge> maxCleanupCount then (Ret totalScaledDown, s)
          else if oldMSReplicas = 0 then cleanup_loop ext cl maxCleanupCount totalScaledDown rest s
          else
            let oldMSAvailableReplicas = ms_AvailableReplicas (hp s targetMS)
            in if oldMSReplicas = oldMSAvailableReplicas
               then cleanup_loop ext cl maxCleanupCount totalScaledDown rest s
               else
                 let remainingCleanupCount = i32 (maxCleanupCount - totalScaledDown);
                     unhealthyCount = i32 (oldMSReplicas - oldMSAvailableReplicas);
                     scaledDownCount = min remainingCleanupCount unhealthyCount;
                     newReplicasCount = i32 (oldMSReplicas - scaledDownCount)
                 in if newReplicasCount > oldMSReplicas
                    then (Err (InvalidScaleDown (ms_Name (hp s targetMS)) oldMSReplicas newReplicasCount), s)
                    else mbind (scaleMachineSet ext cl targetMS newReplicasCount)
                           (\<lambda>_. cleanup_loop ext cl maxCleanupCount (i32 (totalScaledDown + scaledDownCount)) rest) s)"

definition cleanupUnhealthyReplicas ::
  "md_ext \<Rightarrow> md_client \<Rightarrow> addr list \<Rightarrow> int \<Rightarrow> (addr list \<times> int) mdm" where
  "cleanupUnhealthyReplicas ext cl oldMSs maxCleanupCount s =
     (let oldSorted = sort_by MachineSetsByCreationTimestamp_Less (hp s) oldMSs
      in mbind (cleanup_loop ext cl maxCleanupCount 0 oldSorted) (\<lambda>totalScaledDown. mret (oldSorted, totalScaledDown)) s)"

fun scale_down_loop :: "md_ext \<Rightarrow> md_client \<Rightarrow> int \<Rightarrow> int \<Rightarrow> addr list \<Rightarrow> int mdm" where
  "scale_down_loop ext cl totalScaleDownCount totalScaledDown [] s = (Ret totalScaledDown, s)"
| "scale_down_loop ext cl totalScaleDownCount totalScaledDown (targetMS # rest) s =
     (case ms_Replicas (hp s targetMS) of
        None \<Rightarrow> (Err (NilMSReplicas (ms_Name (hp s targetMS))), s)
      | Some r \<Rightarrow>
          if totalScaledDown \<ge> totalScaleDownCount then (Ret totalScaledDown, s)
          else if r = 0 then scale_down_loop ext cl totalScaleDownCount totalScaledDown rest s
          else
            let scaleDownCount = min r (i32 (totalScaleDownCount - totalScaledDown));
                newReplicasCount = i32 (r - scaleDownCount)
            in if newReplicasCount > r
               then (Err (InvalidScaleDown (ms_Name (hp s targetMS)) r newReplicasCount), s)
               else mbind (scaleMachineSet ext cl targetMS newReplicasCount)
                      (\<lambda>_. scale_down_loop ext cl totalScaleDownCount (i32 (totalScaledDown + scaleDownCount)) rest) s)"

definition scaleDownOldMachineSetsForRollingUpdate ::
  "md_ext \<Rightarrow> md_client \<Rightarrow> addr option list \<Rightarrow> addr list \<Rightarrow> int mdm" where
  "scaleDownOldMachineSetsForRollingUpdate ext cl allMSs oldMSs s =
     (case md_Replicas (mdep s) of None \<Rightarrow> (Err (NilMDReplicas (om_Name (md_Meta (mdep s)))), s)
      | Some d \<Rightarrow>
          mbind (mlift (MaxUnavailable ext (mdep s))) (\<lambda>maxUnavailable s.
            let minAvailable = i32 (d - maxUnavailable);
                availableMachineCount = GetAvailableReplicaCountForMachineSets (objs s allMSs)
            in if availableMachineCount \<le> minAvailable then (Ret 0, s)
               else scale_down_loop ext cl (i32 (availableMachineCount - minAvailable)) 0
                      (sort_by MachineSetsByCreationTimestamp_Less (hp s) oldMSs) s) s)"

definition reconcileOldMachineSets ::
  "md_ext \<Rightarrow> md_client \<Rightarrow> addr option list \<Rightarrow> addr list \<Rightarrow> addr \<Rightarrow> unit mdm" where
  "reconcileOldMachineSets ext cl allMSs oldMSs newMS s =
     (case md_Replicas (mdep s) of None \<Rightarrow> (Err (NilMDReplicas (om_Name (md_Meta (mdep s)))), s)
      | Some d \<Rightarrow>
        (case ms_Replicas (hp s newMS) of None \<Rightarrow> (Err (NilMSReplicas (ms_Name (hp s newMS))), s)
         | Some n \<Rightarrow>
           (let oldMachinesCount = GetReplicaCountForMachineSets (objs s (map Some oldMSs))
            in if oldMachinesCount = 0 then (Ret (), s)
               else
                 let allMachinesCount = GetReplicaCountForMachineSets (objs s allMSs)
                 in mbind (mlift (MaxUnavailable ext (mdep s))) (\<lambda>maxUnavailable s.
                      let minAvailable = i32 (d - maxUnavailable);
                          newMSUnavailableMachineCount = i32 (n - ms_AvailableReplicas (hp s newMS));
                          maxScaledDown = i32 (i32 (allMachinesCount - minAvailable) - newMSUnavailableMachineCount)
                      in if maxScaledDown \<le> 0 then (Ret (), s)
                         else mbind (cleanupUnhealthyReplicas ext cl oldMSs maxScaledDown) (\<lambda>(oldMSs', _).
                              mbind (scaleDownOldMachineSetsForRollingUpdate ext cl (map Some oldMSs' @ [Some newMS]) oldMSs') (\<lambda>_.
                                mret ())) s) s)))"

section \<open>Cleaning up the revision history\<close>

fun cleanup_history :: "md_client \<Rightarrow> nat \<Rightarrow> addr list \<Rightarrow> unit mdm" where
  "cleanup_history cl 0 ps s = (Ret (), s)"
| "cleanup_history cl (Suc n) [] s = (Panic, s)"
| "cleanup_history cl (Suc n) (p # ps) s =
     (let ms = hp s p
      in case ms_Replicas ms of None \<Rightarrow> (Err (NilMSReplicas (ms_Name ms)), s)
         | Some r \<Rightarrow>
             if ms_StatusReplicas ms \<noteq> 0 \<or> r \<noteq> 0 \<or>
                om_Generation (ms_Meta ms) > mst_ObservedGeneration (ms_Status ms) \<or>
                \<not> time_IsZero (om_DeletionTimestamp (ms_Meta ms))
             then cleanup_history cl n ps s
             else case cl_Delete cl (calls s) ms of
                    DeleteErr e \<Rightarrow> (Err (ApiErr e), record_event (FailedDelete (ms_Name ms)) (count_call s))
                  | _ \<Rightarrow> cleanup_history cl n ps
                           (record_event (SuccessfulDelete (ms_Name ms)) ((count_call s)\<lparr>deleted := deleted s @ [p]\<rparr>)))"

definition cleanupDeployment :: "md_client \<Rightarrow> addr list \<Rightarrow> unit mdm" where
  "cleanupDeployment cl oldMSs s =
     (case mds_RevisionHistoryLimit (md_Spec (mdep s)) of None \<Rightarrow> (Ret (), s)
      | Some limit \<Rightarrow>
          let cleanable = FilterMachineSets (\<lambda>p. time_IsZero (om_DeletionTimestamp (ms_Meta (hp s p)))) oldMSs;
              diff = i32 (i32 (int (length cleanable)) - limit)
          in if diff \<le> 0 then (Ret (), s)
             else cleanup_history cl (nat diff) (sort_by MachineSetsByCreationTimestamp_Less (hp s) cleanable) s)"

section \<open>Rollout of a new template\<close>

definition finish_rollout :: "md_client \<Rightarrow> addr list \<Rightarrow> unit mdm" where
  "finish_rollout cl oldMSs s =
     mbind (mlift (DeploymentComplete (mdep s) (md_Status (mdep s)))) (\<lambda>complete.
       if complete then cleanupDeployment cl oldMSs else mret ()) s"

definition rolloutRolling :: "md_ext \<Rightarrow> md_client \<Rightarrow> addr list \<Rightarrow> bool \<Rightarrow> unit mdm" where
  "rolloutRolling ext cl msList templateExists =
     mbind (getAllMachineSetsAndSyncRevision ext cl msList True templateExists) (\<lambda>(newMS, oldMSs).
       case newMS of None \<Rightarrow> mret ()
       | Some n \<Rightarrow>
           let allMSs = map Some oldMSs @ [Some n]
           in mbind (reconcileNewMachineSet ext cl allMSs n) (\<lambda>_.
              mbind (syncDeploymentStatus ext cl allMSs (Some n)) (\<lambda>_.
              mbind (reconcileOldMachineSets ext cl allMSs oldMSs n) (\<lambda>_.
              mbind (syncDeploymentStatus ext cl allMSs (Some n)) (\<lambda>_.
                finish_rollout cl oldMSs)))))"

section \<open>Rollout on delete\<close>

definition patch_annotations :: "md_client \<Rightarrow> addr \<Rightarrow> string_map \<Rightarrow> unit mdm" where
  "patch_annotations cl p a s =
     (case cl_NewHelper cl (calls s) (hp s p) of
        Some e \<Rightarrow> (Err (ApiErr e), s)
      | None \<Rightarrow>
          (let ms' = with_annotations (hp s p) a; s' = count_call (put_ms p ms' s)
           in case cl_Patch cl (calls s) (hp s p) ms' of Some e \<Rightarrow> (Err (ApiErr e), s') | None \<Rightarrow> (Ret (), s')))"

definition disable_machine_create :: "md_client \<Rightarrow> addr \<Rightarrow> unit mdm" where
  "disable_machine_create cl p s =
     (let a = Some (map_make (ms_Annotations (hp s p))); s0 = put_ms p (with_annotations (hp s p) a) s
      in case map_lookup a DisableMachineCreateAnnotation of
           Some _ \<Rightarrow> (Ret (), s0)
         | None \<Rightarrow> patch_annotations cl p (map_put a DisableMachineCreateAnnotation ''true'') s0)"

fun on_delete_machines :: "md_ext \<Rightarrow> md_client \<Rightarrow> int \<Rightarrow> addr list \<Rightarrow> int mdm" where
  "on_delete_machines ext cl scaleDownAmount [] s = (Ret scaleDownAmount, s)"
| "on_delete_machines ext cl scaleDownAmount (oldMS # rest) s =
     (if (case ms_Replicas (hp s oldMS) of None \<Rightarrow> True | Some r \<Rightarrow> r \<le> 0)
      then on_delete_machines ext cl scaleDownAmount rest s
      else mbind (disable_machine_create cl oldMS) (\<lambda>_ s.
        case cl_SelectorAsMap cl (mss_Selector (ms_Spec (hp s oldMS))) of
          Inl _ \<Rightarrow> on_delete_machines ext cl scaleDownAmount rest s
        | Inr selectorMap \<Rightarrow>
            (case cl_List cl (calls s) (om_Namespace (ms_Meta (hp s oldMS))) selectorMap of
               Inl e \<Rightarrow> (Err (ApiErr e), count_call s)
             | Inr machines \<Rightarrow>
                 let s1 = count_call s;
                     totalMachineCount = i32 (int (length machines));
                     updatedReplicaCount = i32 (totalMachineCount - GetDeletingMachineCount machines)
                 in if updatedReplicaCount < 0
                    then (Err (NegativeReplicaCount (ms_Name (hp s1 oldMS)) updatedReplicaCount), s1)
                    else let amount = i32 (ptr_deref (ms_Replicas (hp s1 oldMS)) 0 - updatedReplicaCount)
                         in mbind (scaleMachineSet ext cl oldMS updatedReplicaCount)
                              (\<lambda>_. on_delete_machines ext cl (i32 (scaleDownAmount - amount)) rest) s1)) s)"

fun on_delete_scale_down :: "md_ext \<Rightarrow> md_client \<Rightarrow> int \<Rightarrow> addr list \<Rightarrow> unit mdm" where
  "on_delete_scale_down ext cl scaleDownAmount [] s = (Ret (), s)"
| "on_delete_scale_down ext cl scaleDownAmount (oldMS # rest) s =
     (if scaleDownAmount \<le> 0 then (Ret (), s)
      else case ms_Replicas (hp s oldMS) of
             None \<Rightarrow> on_delete_scale_down ext cl scaleDownAmount rest s
           | Some r \<Rightarrow>
               if r \<le> 0 then on_delete_scale_down ext cl scaleDownAmount rest s
               else if r \<ge> scaleDownAmount
               then mbind (scaleMachineSet ext cl oldMS (i32 (r - scaleDownAmount)))
                      (\<lambda>_. on_delete_scale_down ext cl 0 rest) s
               else mbind (scaleMachineSet ext cl oldMS 0)
                      (\<lambda>_. on_delete_scale_down ext cl (i32 (scaleDownAmount - r)) rest) s)"

definition reconcileOldMachineSetsOnDelete :: "md_ext \<Rightarrow> md_client \<Rightarrow> addr list \<Rightarrow> addr option list \<Rightarrow> unit mdm" where
  "reconcileOldMachineSetsOnDelete ext cl oldMSs allMSs s =
     (case md_Replicas (mdep s) of None \<Rightarrow> (Err (NilMDReplicas (om_Name (md_Meta (mdep s)))), s)
      | Some d \<Rightarrow>
          (let scaleDownAmount = i32 (GetReplicaCountForMachineSets (objs s allMSs) - d)
           in mbind (on_delete_machines ext cl scaleDownAmount oldMSs)
                (\<lambda>left. on_delete_scale_down ext cl left oldMSs) s))"

definition reconcileNewMachineSetOnDelete :: "md_ext \<Rightarrow> md_client \<Rightarrow> addr option list \<Rightarrow> addr \<Rightarrow> unit mdm" where
  "reconcileNewMachineSetOnDelete ext cl allMSs newMS s =
     mbind (\<lambda>s. if map_lookup (ms_Annotations (hp s newMS)) DisableMachineCreateAnnotation \<noteq> None
                then patch_annotations cl newMS (map_del (ms_Annotations (hp s newMS)) DisableMachineCreateAnnotation) s
                else (Ret (), s))
       (\<lambda>_. reconcileNewMachineSet ext cl allMSs newMS) s"

definition rolloutOnDelete :: "md_ext \<Rightarrow> md_client \<Rightarrow> addr list \<Rightarrow> bool \<Rightarrow> unit mdm" where
  "rolloutOnDelete ext cl msList templateExists =
     mbind (getAllMachineSetsAndSyncRevision ext cl msList True templateExists) (\<lambda>(newMS, oldMSs).
       case newMS of None \<Rightarrow> mret ()
       | Some n \<Rightarrow>
           let allMSs = map Some oldMSs @ [Some n]
           in mbind (reconcileNewMachineSetOnDelete ext cl allMSs n) (\<lambda>_.
              mbind (syncDeploymentStatus ext cl allMSs (Some n)) (\<lambda>_.
              mbind (reconcileOldMachineSetsOnDelete ext cl oldMSs allMSs) (\<lambda>_.
              mbind (syncDeploymentStatus ext cl allMSs (Some n)) (\<lambda>_.
                finish_rollout cl oldMSs)))))"

section \<open>Scaling events\<close>

fun scale_all :: "md_ext \<Rightarrow> md_client \<Rightarrow> (addr \<times> int) list \<Rightarrow> unit mdm" where
  "scale_all ext cl [] s = (Ret (), s)"
| "scale_all ext cl ((p, n) # rest) s = mbind (scaleMachineSet ext cl p n) (\<lambda>_. scale_all ext cl rest) s"

text \<open>The sizes per name and the replicas added so far, over the active MachineSets in their order.\<close>

fun proportions ::
  "md_ext \<Rightarrow> machinedeployment \<Rightarrow> int \<Rightarrow> machineset list \<Rightarrow> int \<Rightarrow> (string \<Rightarrow> int option) \<Rightarrow>
   (md_error, int \<times> (string \<Rightarrow> int option)) go" where
  "proportions ext md toAdd [] added nameToSize = Ret (added, nameToSize)"
| "proportions ext md toAdd (ms # mss) added nameToSize =
     (case ms_Replicas ms of None \<Rightarrow> proportions ext md toAdd mss added nameToSize
      | Some r \<Rightarrow>
          if toAdd \<noteq> 0 then
            go_bind (GetProportion ext (Some ms) md toAdd added) (\<lambda>proportion.
              proportions ext md toAdd mss (i32 (added + proportion))
                (nameToSize(ms_Name ms \<mapsto> i32 (r + proportion))))
          else proportions ext md toAdd mss added (nameToSize(ms_Name ms \<mapsto> r)))"

definition with_leftover ::
  "machineset list \<Rightarrow> int \<Rightarrow> int \<Rightarrow> (string \<Rightarrow> int option) \<Rightarrow> (string \<Rightarrow> int option)" where
  "with_leftover mss toAdd added nameToSize =
     (case mss of [] \<Rightarrow> nameToSize
      | ms # _ \<Rightarrow>
          if toAdd \<noteq> 0 then
            (let n = i32 (ptr_deref (nameToSize (ms_Name ms)) 0 + i32 (toAdd - added))
             in nameToSize(ms_Name ms \<mapsto> (if n < 0 then 0 else n)))
          else nameToSize)"

definition sort_for_scaling :: "int \<Rightarrow> ('p \<Rightarrow> machineset) \<Rightarrow> 'p list \<Rightarrow> 'p list" where
  "sort_for_scaling toAdd ld ps =
     (if toAdd > 0 then sort_by MachineSetsBySizeNewer_Less ld ps
      else if toAdd < 0 then sort_by MachineSetsBySizeOlder_Less ld ps
      else ps)"

definition scale_proportionally :: "md_ext \<Rightarrow> md_client \<Rightarrow> addr option \<Rightarrow> addr list \<Rightarrow> int \<Rightarrow> unit mdm" where
  "scale_proportionally ext cl newMS oldMSs d s =
     (let active = FilterActiveMachineSets (hp s) (map Some oldMSs @ [newMS]);
          totalMSReplicas = GetReplicaCountForMachineSets (objs s (map Some active))
      in mbind (mlift (if d > 0 then go_bind (MaxSurge ext (mdep s)) (\<lambda>surge. Ret (i32 (d + surge))) else Ret 0))
           (\<lambda>allowedSize s.
             let toAdd = i32 (allowedSize - totalMSReplicas);
                 allMSs = sort_for_scaling toAdd (hp s) active
             in mbind (mlift (proportions ext (mdep s) toAdd (map (hp s) allMSs) 0 (\<lambda>_. None))) (\<lambda>(added, nameToSize) s.
                  let sizes = with_leftover (map (hp s) allMSs) toAdd added nameToSize
                  in scale_all ext cl (map (\<lambda>p. (p, ptr_deref (sizes (ms_Name (hp s p))) 0)) allMSs) s) s) s)"

definition scale :: "md_ext \<Rightarrow> md_client \<Rightarrow> addr option \<Rightarrow> addr list \<Rightarrow> unit mdm" where
  "scale ext cl newMS oldMSs s =
     (case md_Replicas (mdep s) of None \<Rightarrow> (Err (NilMDReplicas (om_Name (md_Meta (mdep s)))), s)
      | Some d \<Rightarrow>
        (case FindOneActiveOrLatest (hp s) newMS oldMSs of
           (Some p, _) \<Rightarrow>
             (case ms_Replicas (hp s p) of None \<Rightarrow> (Err (NilMSReplicas (ms_Name (hp s p))), s)
              | Some r \<Rightarrow> if r = d then (Ret (), s) else scaleMachineSet ext cl p d s)
         | (None, oldMSs') \<Rightarrow>
             mbind (mlift (IsSaturated (mdep s) (map_option (hp s) newMS))) (\<lambda>saturated s.
               if saturated
               then scale_all ext cl (map (\<lambda>p. (p, 0)) (FilterActiveMachineSets (hp s) (map Some oldMSs'))) s
               else mbind (mlift (IsRollingUpdate (mdep s))) (\<lambda>rolling.
                 if rolling then scale_proportionally ext cl newMS oldMSs' d else mret ()) s) s))"

definition sync :: "md_ext \<Rightarrow> md_client \<Rightarrow> addr list \<Rightarrow> bool \<Rightarrow> unit mdm" where
  "sync ext cl msList templateExists =
     mbind (getAllMachineSetsAndSyncRevision ext cl msList False templateExists) (\<lambda>(newMS, oldMSs).
       mbind (scale ext cl newMS oldMSs) (\<lambda>_.
         syncDeploymentStatus ext cl (map Some oldMSs @ [newMS]) newMS))"

section \<open>What scaling changes\<close>

definition reps :: "md_state \<Rightarrow> addr \<Rightarrow> int" where
  "reps s p = ptr_deref (ms_Replicas (hp s p)) 0"

definition avail :: "md_state \<Rightarrow> addr \<Rightarrow> int" where
  "avail s p = ms_AvailableReplicas (hp s p)"

text \<open>Two MachineSets that differ at most in their annotations and in their desired replicas.\<close>

definition same_but_scale :: "machineset \<Rightarrow> machineset \<Rightarrow> bool" where
  "same_but_scale m m' \<longleftrightarrow>
     ms_Status m' = ms_Status m \<and>
     (\<exists>a. ms_Meta m' = (ms_Meta m)\<lparr>om_Annotations := a\<rparr>) \<and>
     (\<exists>r. ms_Spec m' = (ms_Spec m)\<lparr>mss_Replicas := r\<rparr>)"

text \<open>The state changes by scaling MachineSets of \<open>P\<close> only.\<close>

definition scales :: "addr set \<Rightarrow> md_state \<Rightarrow> md_state \<Rightarrow> bool" where
  "scales P s s' \<longleftrightarrow>
     mdep s' = mdep s \<and> nextp s' = nextp s \<and> deleted s' = deleted s \<and>
     (\<forall>p. p \<notin> P \<longrightarrow> hp s' p = hp s p) \<and> (\<forall>p. same_but_scale (hp s p) (hp s' p))"

lemma same_but_scale_refl [simp]: "same_but_scale m m"
  unfolding same_but_scale_def
  by (intro conjI exI [of _ "om_Annotations (ms_Meta m)"] exI [of _ "mss_Replicas (ms_Spec m)"]) simp_all

lemma same_but_scale_trans: "same_but_scale a b \<Longrightarrow> same_but_scale b c \<Longrightarrow> same_but_scale a c"
  unfolding same_but_scale_def by (elim conjE exE, intro conjI exI) simp_all

lemma same_but_scale_fields:
  assumes "same_but_scale m m'"
  shows "ms_Status m' = ms_Status m" "ms_Name m' = ms_Name m" "om_UID (ms_Meta m') = om_UID (ms_Meta m)"
    "ms_CreationTimestamp m' = ms_CreationTimestamp m" "om_Generation (ms_Meta m') = om_Generation (ms_Meta m)"
    "om_DeletionTimestamp (ms_Meta m') = om_DeletionTimestamp (ms_Meta m)"
    "mss_Template (ms_Spec m') = mss_Template (ms_Spec m)"
  using assms by (auto simp: same_but_scale_def)

lemma scales_refl [simp]: "scales P s s"
  by (simp add: scales_def)

lemma scales_trans: "scales P s t \<Longrightarrow> scales P t u \<Longrightarrow> scales P s u"
  unfolding scales_def using same_but_scale_trans by metis

lemma scales_mono: "scales P s t \<Longrightarrow> P \<subseteq> Q \<Longrightarrow> scales Q s t"
  by (auto simp: scales_def)

lemma scalesD:
  assumes "scales P s s'"
  shows "mdep s' = mdep s" "p \<notin> P \<Longrightarrow> hp s' p = hp s p" "ms_Status (hp s' p) = ms_Status (hp s p)"
    "ms_CreationTimestamp (hp s' p) = ms_CreationTimestamp (hp s p)" "ms_Name (hp s' p) = ms_Name (hp s p)"
    "avail s' p = avail s p"
  using assms same_but_scale_fields [of "hp s p" "hp s' p"] by (auto simp: scales_def avail_def)

lemma scaled_ms_fields [simp]:
  "ms_Replicas (scaled_ms ms n d m) = Some n"
  "same_but_scale ms (scaled_ms ms n d m)"
  by (auto simp: scaled_ms_def with_replicas_def same_but_scale_def SetReplicasAnnotations_def
      with_annotations_def Let_def)

lemma scaleMachineSet_outcome:
  assumes "scaleMachineSet ext cl p n s = (r, s')"
  shows "scales {p} s s'"
    and "ms_Replicas (hp s' p) = ms_Replicas (hp s p) \<or> (\<exists>x. ms_Replicas (hp s p) = Some x) \<and> ms_Replicas (hp s' p) = Some n"
    and "r = Ret u \<Longrightarrow> ms_Replicas (hp s' p) = Some n"
proof -
  have *: "scales {p} s s' \<and>
    (ms_Replicas (hp s' p) = ms_Replicas (hp s p) \<or> (\<exists>x. ms_Replicas (hp s p) = Some x) \<and> ms_Replicas (hp s' p) = Some n) \<and>
    (r = Ret u \<longrightarrow> ms_Replicas (hp s' p) = Some n)"
  proof (cases "\<exists>x d surge. ms_Replicas (hp s p) = Some x \<and> md_Replicas (mdep s) = Some d \<and> MaxSurge ext (mdep s) = Ret surge")
    case False
    then have "s' = s" "\<forall>u. r \<noteq> Ret u"
      using assms by (auto simp: scaleMachineSet_def mbind_def split: option.splits go.splits)
    then show ?thesis by simp
  next
    case True
    then obtain x d surge where x: "ms_Replicas (hp s p) = Some x" "md_Replicas (mdep s) = Some d"
      "MaxSurge ext (mdep s) = Ret surge" by blast
    show ?thesis
    proof (cases "x = n \<and> \<not> ReplicasAnnotationsNeedUpdate (hp s p) d (i32 (d + surge)) \<or> cl_NewHelper cl (calls s) (hp s p) \<noteq> None")
      case True
      then show ?thesis using assms x
        by (auto simp: scaleMachineSet_def Let_def split: if_splits)
    next
      case False
      then have "patch_scale cl p x n d (i32 (d + surge)) s = (r, s')"
        using assms x by (auto simp: scaleMachineSet_def Let_def split: if_splits)
      then show ?thesis using x
        by (auto simp: patch_scale_def Let_def scales_def put_ms_def count_call_def record_event_def
            split: option.splits)
    qed
  qed
  show "scales {p} s s'"
    and "ms_Replicas (hp s' p) = ms_Replicas (hp s p) \<or> (\<exists>x. ms_Replicas (hp s p) = Some x) \<and> ms_Replicas (hp s' p) = Some n"
    and "r = Ret u \<Longrightarrow> ms_Replicas (hp s' p) = Some n"
    using * by blast+
qed

text \<open>After a successful call the annotations are up to date, whether or not it made a request.\<close>

lemma scaled_annotations_current:
  assumes "scaleMachineSet ext cl p n s = (Ret (), s')" and "md_Replicas (mdep s) = Some d"
    and "MaxSurge ext (mdep s) = Ret surge"
  shows "\<not> ReplicasAnnotationsNeedUpdate (hp s' p) d (i32 (d + surge))"
proof -
  obtain x where x: "ms_Replicas (hp s p) = Some x"
    using assms(1) by (auto simp: scaleMachineSet_def split: option.splits)
  show ?thesis
  proof (cases "x = n \<and> \<not> ReplicasAnnotationsNeedUpdate (hp s p) d (i32 (d + surge))")
    case True
    then have "s' = s" using assms x by (simp add: scaleMachineSet_def)
    then show ?thesis using True by simp
  next
    case False
    have "cl_NewHelper cl (calls s) (hp s p) = None"
      using assms x False by (cases "cl_NewHelper cl (calls s) (hp s p)") (simp_all add: scaleMachineSet_def)
    then have "patch_scale cl p x n d (i32 (d + surge)) s = (Ret (), s')"
      using assms x False by (simp add: scaleMachineSet_def)
    then have "hp s' p = scaled_ms (hp s p) n d (i32 (d + surge))"
      by (auto simp: patch_scale_def Let_def count_call_def record_event_def put_ms_def split: option.splits)
    then show ?thesis by (simp add: scaled_ms_def NeedUpdate_SetReplicasAnnotations)
  qed
qed

section \<open>Scaling down old MachineSets\<close>

text \<open>A MachineSet with a valid size, and one whose availability is not above its desired size.\<close>

definition sized :: "md_state \<Rightarrow> addr \<Rightarrow> bool" where
  "sized s p \<longleftrightarrow> (\<exists>x. ms_Replicas (hp s p) = Some x \<and> 0 \<le> x \<and> x < 2147483648)"

definition settled :: "md_state \<Rightarrow> addr \<Rightarrow> bool" where
  "settled s p \<longleftrightarrow> 0 \<le> avail s p \<and> avail s p \<le> reps s p"

lemma sized_reps: "sized s p \<Longrightarrow> ms_Replicas (hp s p) = Some (reps s p) \<and> 0 \<le> reps s p \<and> reps s p < 2147483648"
  by (auto simp: sized_def reps_def)

lemma sizedI: "ms_Replicas (hp s p) = Some x \<Longrightarrow> 0 \<le> x \<Longrightarrow> x < 2147483648 \<Longrightarrow> sized s p"
  by (auto simp: sized_def)

lemma scales_outside:
  assumes "scales P s s'" and "p \<notin> P"
  shows "reps s' p = reps s p" "sized s' p = sized s p" "settled s' p = settled s p"
  using scalesD(2) [OF assms] by (simp_all add: reps_def sized_def settled_def avail_def)

lemma scale_within:
  assumes "scaleMachineSet ext cl p n s = (r, s')" and "sized s p" and "0 \<le> n" and "n \<le> reps s p"
  shows "scales {p} s s'" and "sized s' p" and "n \<le> reps s' p" and "reps s' p \<le> reps s p"
    and "r = Ret () \<Longrightarrow> reps s' p = n"
proof -
  note out = scaleMachineSet_outcome [OF assms(1)] and x = sized_reps [OF assms(2)]
  show "scales {p} s s'" by (rule out(1))
  have "ms_Replicas (hp s' p) = Some (reps s p) \<or> ms_Replicas (hp s' p) = Some n"
    using out(2) x by auto
  then have "(\<exists>y. ms_Replicas (hp s' p) = Some y \<and> reps s' p = y \<and> (y = reps s p \<or> y = n))"
    by (auto simp: reps_def [of s' p])
  then show "sized s' p" "n \<le> reps s' p" "reps s' p \<le> reps s p"
    using x assms(3,4) sizedI [of s' p] by auto
  show "reps s' p = n" if "r = Ret ()" using out(3) [OF that] by (simp add: reps_def)
qed

lemma cleanup_loop_step:
  assumes "sized s p" "settled s p" "0 \<le> t" "t < m" "m < 2147483648" "reps s p \<noteq> 0" "reps s p \<noteq> avail s p"
  defines "k \<equiv> min (m - t) (reps s p - avail s p)"
  shows "cleanup_loop ext cl m t (p # ps) s =
           mbind (scaleMachineSet ext cl p (reps s p - k)) (\<lambda>_. cleanup_loop ext cl m (t + k) ps) s"
    and "0 < k" and "avail s p \<le> reps s p - k" and "t + k \<le> m"
proof -
  note x = sized_reps [OF assms(1)] and f = assms(2) [unfolded settled_def]
  show k: "0 < k" and ka: "avail s p \<le> reps s p - k" and tk: "t + k \<le> m"
    using assms(3,4,7) f by (simp_all add: k_def)
  have "i32 (m - t) = m - t" "i32 (reps s p - avail s p) = reps s p - avail s p"
    using assms(3-5) x f by (simp_all add: i32_id in_i32_def)
  moreover have "i32 (reps s p - k) = reps s p - k" "i32 (t + k) = t + k"
    using k ka tk x f assms(3,5) by (simp_all add: i32_id in_i32_def)
  ultimately show "cleanup_loop ext cl m t (p # ps) s =
      mbind (scaleMachineSet ext cl p (reps s p - k)) (\<lambda>_. cleanup_loop ext cl m (t + k) ps) s"
    using x k assms(4,6,7) by (simp add: Let_def k_def [symmetric] avail_def [symmetric])
qed

lemma cleanup_loop_skip:
  assumes "sized s p" and "reps s p = 0 \<or> reps s p = avail s p" and "t < m"
  shows "cleanup_loop ext cl m t (p # ps) s = cleanup_loop ext cl m t ps s"
  using assms sized_reps [OF assms(1)] by (cases "reps s p = 0") (simp_all add: avail_def)

text \<open>A step that scales \<open>p\<close> and either stops there or goes on with the other MachineSets.\<close>

lemma scale_then:
  assumes "mbind (scaleMachineSet ext cl p n) f s = (r, s')" and "scaleMachineSet ext cl p n s = (r1, s1)"
  obtains (stop) "s' = s1" "\<nexists>u. r = Ret u" | (go) "r1 = Ret ()" "f () s1 = (r, s')"
  using assms by (cases r1) auto

lemma scales_seq:
  assumes "scales {p} s s1" and "scales (set ps) s1 s'"
  shows "scales (set (p # ps)) s s'"
  using scales_trans [OF scales_mono [OF assms(1)] scales_mono [OF assms(2)], of "set (p # ps)"] by auto

lemma cleanup_loop_outcome:
  assumes "cleanup_loop ext cl m t ps s = (r, s')" and "distinct ps"
    and "\<And>p. p \<in> set ps \<Longrightarrow> sized s p \<and> settled s p" and "0 \<le> t" and "m < 2147483648"
  shows "scales (set ps) s s' \<and> (\<forall>p\<in>set ps. sized s' p \<and> settled s' p \<and> reps s' p \<le> reps s p)"
  using assms(1-4)
proof (induction ps arbitrary: t s)
  case Nil
  then show ?case by simp
next
  case (Cons p ps)
  have p: "sized s p" "settled s p" "p \<notin> set ps" using Cons.prems by simp_all
  have rest: "\<And>q. q \<in> set ps \<Longrightarrow> sized s q \<and> settled s q" using Cons.prems(3) by simp
  note x = sized_reps [OF p(1)]
  show ?case
  proof (cases "t \<ge> m")
    case True
    then have "s' = s" using Cons.prems(1) x by simp
    then show ?thesis using Cons.prems(3) by simp
  next
    case active: False
    show ?thesis
    proof (cases "reps s p = 0 \<or> reps s p = avail s p")
      case True
      then have "cleanup_loop ext cl m t ps s = (r, s')"
        using Cons.prems(1) cleanup_loop_skip [OF p(1) True, of t m ext cl ps] active by simp
      from Cons.IH [OF this _ rest] Cons.prems(2,4)
      have ih: "scales (set ps) s s'" "\<forall>q\<in>set ps. sized s' q \<and> settled s' q \<and> reps s' q \<le> reps s q"
        by simp_all
      then show ?thesis using p scales_outside [OF ih(1) p(3)] scales_mono [OF ih(1), of "set (p # ps)"] by auto
    next
      case False
      let ?k = "min (m - t) (reps s p - avail s p)"
      note step = cleanup_loop_step [OF p(1,2) Cons.prems(4) _ assms(5)]
      have eq: "mbind (scaleMachineSet ext cl p (reps s p - ?k)) (\<lambda>_. cleanup_loop ext cl m (t + ?k) ps) s = (r, s')"
        and k: "0 < ?k" "avail s p \<le> reps s p - ?k"
        using step active False Cons.prems(1) by simp_all
      obtain r1 s1 where s1: "scaleMachineSet ext cl p (reps s p - ?k) s = (r1, s1)" by fastforce
      have "0 \<le> reps s p - ?k" using k p(2) by (simp add: settled_def)
      note w = scale_within [OF s1 p(1) this]
      have le: "reps s p - ?k \<le> reps s p" using k by simp
      note w = w [OF le]
      have p1: "sized s1 p \<and> settled s1 p \<and> reps s1 p \<le> reps s p"
        using w k p(2) scalesD(6) [OF w(1)] by (auto simp: settled_def)
      have rest1: "sized s1 q \<and> settled s1 q \<and> reps s1 q = reps s q" if "q \<in> set ps" for q
        using rest [OF that] scales_outside [OF w(1), of q] that p(3) by auto
      from eq s1 show ?thesis
      proof (cases rule: scale_then)
        case stop
        then show ?thesis using p1 rest1 scales_mono [OF w(1), of "set (p # ps)"] by auto
      next
        case go
        have ih: "scales (set ps) s1 s' \<and> (\<forall>q\<in>set ps. sized s' q \<and> settled s' q \<and> reps s' q \<le> reps s1 q)"
          by (rule Cons.IH [OF go(2)]) (use Cons.prems(2,4) rest1 k in simp_all)
        then have "scales (set (p # ps)) s s'" using scales_seq [OF w(1)] by blast
        then show ?thesis using ih p1 rest1 scales_outside [OF conjunct1 [OF ih] p(3)] by simp
      qed
    qed
  qed
qed

definition reps_sum :: "md_state \<Rightarrow> addr list \<Rightarrow> int" where
  "reps_sum s ps = sum_list (map (reps s) ps)"

lemma reps_sum_simps [simp]: "reps_sum s [] = 0" "reps_sum s (p # ps) = reps s p + reps_sum s ps"
  "reps_sum s (ps @ qs) = reps_sum s ps + reps_sum s qs"
  by (simp_all add: reps_sum_def)

lemma reps_sum_cong: "(\<And>p. p \<in> set ps \<Longrightarrow> reps s' p = reps s p) \<Longrightarrow> reps_sum s' ps = reps_sum s ps"
  unfolding reps_sum_def by (metis map_eq_conv)

lemma reps_sum_nonneg: "(\<And>p. p \<in> set ps \<Longrightarrow> sized s p) \<Longrightarrow> 0 \<le> reps_sum s ps"
proof (induction ps)
  case (Cons p ps)
  then show ?case using sized_reps [of s p] by auto
qed simp

lemma scale_down_loop_step:
  assumes "sized s p" "0 \<le> t" "t < c" "c < 2147483648" "reps s p \<noteq> 0"
  defines "k \<equiv> min (reps s p) (c - t)"
  shows "scale_down_loop ext cl c t (p # ps) s =
           mbind (scaleMachineSet ext cl p (reps s p - k)) (\<lambda>_. scale_down_loop ext cl c (t + k) ps) s"
    and "0 < k" and "k \<le> reps s p" and "t + k \<le> c" and "k = reps s p \<or> t + k = c"
proof -
  note x = sized_reps [OF assms(1)]
  show k: "0 < k" and kx: "k \<le> reps s p" and tk: "t + k \<le> c" and "k = reps s p \<or> t + k = c"
    using assms(2,3,5) x by (auto simp: k_def)
  have "i32 (c - t) = c - t" using assms(2-4) by (simp add: i32_id in_i32_def)
  moreover have "i32 (reps s p - k) = reps s p - k" "i32 (t + k) = t + k"
    using k kx tk x assms(2,4) by (simp_all add: i32_id in_i32_def)
  ultimately show "scale_down_loop ext cl c t (p # ps) s =
      mbind (scaleMachineSet ext cl p (reps s p - k)) (\<lambda>_. scale_down_loop ext cl c (t + k) ps) s"
    using x k assms(3,5) by (simp add: Let_def k_def [symmetric])
qed

lemma scale_down_loop_outcome:
  assumes "scale_down_loop ext cl c t ps s = (r, s')" and "distinct ps"
    and "\<And>p. p \<in> set ps \<Longrightarrow> sized s p" and "0 \<le> t" and "t \<le> c" and "c < 2147483648"
  shows "scales (set ps) s s' \<and> (\<forall>p\<in>set ps. sized s' p \<and> reps s' p \<le> reps s p) \<and>
         reps_sum s ps - reps_sum s' ps \<le> c - t \<and>
         (\<forall>k. r = Ret k \<longrightarrow> k = t + (reps_sum s ps - reps_sum s' ps) \<and> (k = c \<or> (\<forall>p\<in>set ps. reps s' p = 0)))"
  using assms(1-5)
proof (induction ps arbitrary: t s)
  case Nil
  then show ?case by auto
next
  case (Cons p ps)
  have p: "sized s p" "p \<notin> set ps" using Cons.prems by simp_all
  have rest: "\<And>q. q \<in> set ps \<Longrightarrow> sized s q" using Cons.prems(3) by simp
  note x = sized_reps [OF p(1)]
  consider "t = c" | "t < c" "reps s p = 0" | "t < c" "reps s p \<noteq> 0" using Cons.prems(5) by linarith
  then show ?case
  proof cases
    case 1
    then have "s' = s" "r = Ret t" using Cons.prems(1) x by simp_all
    then show ?thesis using Cons.prems(3) 1 by simp
  next
    case 2
    then have eq: "scale_down_loop ext cl c t ps s = (r, s')" using Cons.prems(1) x by simp
    note ih = Cons.IH [OF eq _ rest Cons.prems(4,5)]
    have sc: "scales (set ps) s s'" using ih Cons.prems(2) by simp
    have "scales (set (p # ps)) s s'" using scales_mono [OF sc] by auto
    then show ?thesis using ih Cons.prems(2) p 2 scales_outside [OF sc p(2)] by simp
  next
    case 3
    let ?k = "min (reps s p) (c - t)"
    note step = scale_down_loop_step [OF p(1) Cons.prems(4) 3(1) assms(6) 3(2)]
    have eq: "mbind (scaleMachineSet ext cl p (reps s p - ?k)) (\<lambda>_. scale_down_loop ext cl c (t + ?k) ps) s = (r, s')"
      using step(1) Cons.prems(1) by simp
    obtain r1 s1 where s1: "scaleMachineSet ext cl p (reps s p - ?k) s = (r1, s1)" by fastforce
    have b: "0 \<le> reps s p - ?k" "reps s p - ?k \<le> reps s p" using step(2,3) by simp_all
    note w = scale_within [OF s1 p(1) b]
    have rest1: "sized s1 q \<and> reps s1 q = reps s q" if "q \<in> set ps" for q
      using rest [OF that] scales_outside [OF w(1), of q] that p(2) by auto
    have sum1: "reps_sum s1 ps = reps_sum s ps" using rest1 by (intro reps_sum_cong) simp
    from eq s1 show ?thesis
    proof (cases rule: scale_then)
      case stop
      then show ?thesis using w rest1 sum1 step(4) scales_mono [OF w(1), of "set (p # ps)"] by auto
    next
      case go
      have ih: "scales (set ps) s1 s' \<and> (\<forall>p\<in>set ps. sized s' p \<and> reps s' p \<le> reps s1 p) \<and>
          reps_sum s1 ps - reps_sum s' ps \<le> c - (t + ?k) \<and>
          (\<forall>k. r = Ret k \<longrightarrow> k = t + ?k + (reps_sum s1 ps - reps_sum s' ps) \<and> (k = c \<or> (\<forall>p\<in>set ps. reps s' p = 0)))"
        by (rule Cons.IH [OF go(2)]) (use Cons.prems(2,4) rest1 step(2,4) in simp_all)
      have sc: "scales (set (p # ps)) s s'" using scales_seq [OF w(1)] ih by blast
      have p': "reps s' p = reps s p - ?k" "sized s' p"
        using scales_outside [OF conjunct1 [OF ih] p(2)] w(2) w(5) [OF go(1)] by simp_all
      have "k = c \<or> (\<forall>q\<in>set (p # ps). reps s' q = 0)" if "r = Ret k" for k
      proof (cases "?k = reps s p")
        case True
        then show ?thesis using ih that p' by auto
      next
        case False
        then have "t + ?k = c" using step(5) by simp
        moreover have "0 \<le> reps_sum s1 ps - reps_sum s' ps"
          using ih sum_list_mono [of ps "reps s'" "reps s1"] by (simp add: reps_sum_def)
        ultimately have "k = c" using ih that by simp
        then show ?thesis by simp
      qed
      then show ?thesis using sc ih p' sum1 rest1 step(2) by auto
    qed
  qed
qed

section \<open>Availability during a rolling update\<close>

definition avail_sum :: "md_state \<Rightarrow> addr list \<Rightarrow> int" where
  "avail_sum s ps = sum_list (map (avail s) ps)"

text \<open>
  The machines of \<open>ps\<close> that are available and that no desired size asks to delete: of a MachineSet whose
  deletions prefer machines that are not available, the smaller of its size and its availability.
\<close>

definition kept_available :: "md_state \<Rightarrow> addr list \<Rightarrow> int" where
  "kept_available s ps = sum_list (map (\<lambda>p. min (reps s p) (avail s p)) ps)"

lemma objs_counts:
  "map spec_count (objs s (map Some ps)) = map (reps s) ps"
  "map available_count (objs s (map Some ps)) = map (avail s) ps"
  by (simp_all add: objs_def reps_def avail_def)

lemma avail_sum_scales:
  assumes "scales P s s'"
  shows "avail_sum s' ps = avail_sum s ps"
proof -
  have "avail s' = avail s" using scalesD(6) [OF assms] by (rule ext)
  then show ?thesis by (simp add: avail_sum_def)
qed

lemma MaxUnavailable_bounds:
  assumes "strategy_ok ext md" and "MaxUnavailable ext md = Ret mu" and "md_Replicas md = Some d" and "0 \<le> d"
  shows "0 \<le> mu" and "mu \<le> d"
proof -
  obtain st where st: "md_Strategy md = Some st"
    using assms(2) by (auto simp: MaxUnavailable_def IsRollingUpdate_def go_simps)
  have "0 \<le> mu \<and> mu \<le> d"
  proof (cases "str_Type st = RollingUpdateMachineDeploymentStrategyType \<and> d \<noteq> 0")
    case False
    then have "mu = 0" using assms(2,3) st by (auto simp: MaxUnavailable_def IsRollingUpdate_def split: if_splits)
    then show ?thesis using assms(4) by simp
  next
    case True
    obtain ru where ru: "str_RollingUpdate st = Some ru"
      using assms(2,3) st True
      by (cases "str_RollingUpdate st") (auto simp: MaxUnavailable_def IsRollingUpdate_def fenceposts_or_zero_def)
    note ok = strategy_okD [OF assms(1) st ru assms(3)]
    let ?f = "ResolveFenceposts ext (ru_MaxSurge ru) (ru_MaxUnavailable ru) d"
    obtain a u where fp: "ignore_err (0, 0) ?f = Ret (a, u)"
      using assms(2,3) st ru True
      by (cases ?f) (auto simp: MaxUnavailable_def IsRollingUpdate_def fenceposts_or_zero_def)
    have "0 \<le> u" using fp fenceposts_not_both_zero [OF _ ok(2,3)] by (cases ?f) auto
    moreover have "mu = (if u > d then d else u)"
      using assms(2,3) st ru True fp
      by (auto simp: MaxUnavailable_def IsRollingUpdate_def fenceposts_or_zero_def split: if_splits)
    ultimately show ?thesis using assms(4) by simp
  qed
  then show "0 \<le> mu" "mu \<le> d" by simp_all
qed

lemma kept_available_scale_down:
  assumes "\<And>p. p \<in> set ps \<Longrightarrow> avail s1 p \<le> reps s1 p" and "\<And>p. p \<in> set ps \<Longrightarrow> reps s' p \<le> reps s1 p"
    and "\<And>p. avail s' p = avail s1 p"
  shows "avail_sum s1 ps - (reps_sum s1 ps - reps_sum s' ps) \<le> kept_available s' ps"
  using assms
proof (induction ps)
  case (Cons p ps)
  have p: "avail s1 p - (reps s1 p - reps s' p) \<le> min (reps s' p) (avail s' p)"
    using Cons.prems(1,2) [of p] Cons.prems(3) [of p] by simp
  have "avail_sum s1 ps - (reps_sum s1 ps - reps_sum s' ps) \<le> kept_available s' ps"
    using Cons.IH Cons.prems by simp
  then show ?case using p unfolding avail_sum_def kept_available_def list.map sum_list.Cons reps_sum_simps by linarith
qed (simp add: avail_sum_def kept_available_def)

lemma scaleDownOld_outcome:
  assumes "scaleDownOldMachineSetsForRollingUpdate ext cl (map Some all) old s = (r, s')"
    and "md_Replicas (mdep s) = Some d" and "MaxUnavailable ext (mdep s) = Ret mu"
    and "0 \<le> mu" "mu \<le> d" "d < 2147483648"
    and "0 \<le> avail_sum s all" "avail_sum s all < 2147483648"
    and "distinct old" "\<And>p. p \<in> set old \<Longrightarrow> sized s p"
  shows "scales (set old) s s' \<and> (\<forall>p\<in>set old. sized s' p \<and> reps s' p \<le> reps s p) \<and>
         reps_sum s old - reps_sum s' old \<le> max 0 (avail_sum s all - (d - mu)) \<and>
         (\<forall>k. r = Ret k \<longrightarrow> d - mu < avail_sum s all \<longrightarrow>
            k = reps_sum s old - reps_sum s' old \<and>
            (k = avail_sum s all - (d - mu) \<or> (\<forall>p\<in>set old. reps s' p = 0)))"
proof -
  let ?A = "avail_sum s all"
  have cnt: "GetAvailableReplicaCountForMachineSets (objs s (map Some all)) = ?A"
    using assms(7,8) by (simp add: GetAvailableReplicaCount_sum objs_counts avail_sum_def [symmetric] i32_id in_i32_def)
  have m: "i32 (d - mu) = d - mu" using assms(4-6) by (simp add: i32_id in_i32_def)
  show ?thesis
  proof (cases "?A \<le> d - mu")
    case True
    then have "s' = s" using assms(1-3) cnt m by (simp add: scaleDownOldMachineSetsForRollingUpdate_def)
    then show ?thesis using True assms(10) by simp
  next
    case False
    have c: "i32 (?A - (d - mu)) = ?A - (d - mu)" using False assms(4-8) by (simp add: i32_id in_i32_def)
    let ?ps = "sort_by MachineSetsByCreationTimestamp_Less (hp s) old"
    have "scale_down_loop ext cl (?A - (d - mu)) 0 ?ps s = (r, s')"
      using assms(1-3) cnt m c False by (simp add: scaleDownOldMachineSetsForRollingUpdate_def)
    note out = scale_down_loop_outcome [OF this]
    have sums: "reps_sum t ?ps = reps_sum t old" for t by (simp add: reps_sum_def)
    show ?thesis using out assms(4-10) False by (simp add: sums)
  qed
qed

text \<open>
  A rollout at rest: the MachineSets are distinct, each with a valid size and no more available machines
  than desired, and the counts fit in 32 bits.
\<close>

definition at_rest :: "md_ext \<Rightarrow> md_state \<Rightarrow> addr list \<Rightarrow> addr \<Rightarrow> bool" where
  "at_rest ext s old new \<longleftrightarrow>
     distinct (old @ [new]) \<and> (\<forall>p\<in>set (old @ [new]). sized s p \<and> settled s p) \<and>
     reps_sum s (old @ [new]) < 2147483648 \<and>
     (\<exists>d mu. md_Replicas (mdep s) = Some d \<and> 0 \<le> d \<and> d < 2147483648 \<and> MaxUnavailable ext (mdep s) = Ret mu) \<and>
     strategy_ok ext (mdep s)"

lemma settled_sums:
  assumes "\<And>p. p \<in> set ps \<Longrightarrow> settled s p"
  shows "0 \<le> avail_sum s ps" and "avail_sum s ps \<le> reps_sum s ps" and "kept_available s ps = avail_sum s ps"
proof -
  have "0 \<le> avail_sum s ps \<and> avail_sum s ps \<le> reps_sum s ps \<and> kept_available s ps = avail_sum s ps"
    using assms
  proof (induction ps)
    case (Cons p ps)
    have "0 \<le> avail s p" "avail s p \<le> reps s p" using Cons.prems [of p] by (simp_all add: settled_def)
    then show ?case using Cons by (simp add: avail_sum_def kept_available_def)
  qed (simp add: avail_sum_def kept_available_def)
  then show "0 \<le> avail_sum s ps" "avail_sum s ps \<le> reps_sum s ps" "kept_available s ps = avail_sum s ps"
    by simp_all
qed

lemma cleanupUnhealthy_outcome:
  assumes "cleanupUnhealthyReplicas ext cl old m s = (r, s')" and "distinct old"
    and "\<And>p. p \<in> set old \<Longrightarrow> sized s p \<and> settled s p" and "m < 2147483648"
  shows "scales (set old) s s' \<and> (\<forall>p\<in>set old. sized s' p \<and> settled s' p \<and> reps s' p \<le> reps s p) \<and>
         (\<forall>ps k. r = Ret (ps, k) \<longrightarrow> ps = sort_by MachineSetsByCreationTimestamp_Less (hp s) old)"
proof -
  let ?ps = "sort_by MachineSetsByCreationTimestamp_Less (hp s) old"
  obtain r1 where l: "cleanup_loop ext cl m 0 ?ps s = (r1, s')"
    "\<forall>ps k. r = Ret (ps, k) \<longrightarrow> ps = ?ps"
    using assms(1) by (auto simp: cleanupUnhealthyReplicas_def mbind_def Let_def split: prod.splits go.splits)
  then show ?thesis using cleanup_loop_outcome [OF l(1)] assms(2-4) by simp
qed

lemma reconcileOld_outcome:
  assumes "reconcileOldMachineSets ext cl (map Some (old @ [new])) old new s = (r, s')"
    and "at_rest ext s old new" and "md_Replicas (mdep s) = Some d" and "MaxUnavailable ext (mdep s) = Ret mu"
  shows "scales (set old) s s'" and "\<And>p. p \<in> set old \<Longrightarrow> sized s' p \<and> reps s' p \<le> reps s p"
    and "min (avail_sum s (old @ [new])) (d - mu) \<le> kept_available s' (old @ [new])"
proof -
  let ?all = "old @ [new]"
  have rest: "distinct old" "new \<notin> set old" "\<And>p. p \<in> set ?all \<Longrightarrow> sized s p \<and> settled s p"
    "reps_sum s ?all < 2147483648" "0 \<le> d" "d < 2147483648" "strategy_ok ext (mdep s)"
    using assms(2,3) unfolding at_rest_def by auto
  note mu = MaxUnavailable_bounds [OF rest(7) assms(4,3) rest(5)]
  note st = settled_sums [of ?all s]
  have A: "0 \<le> avail_sum s ?all" "avail_sum s ?all < 2147483648" "kept_available s ?all = avail_sum s ?all"
    using st rest(3,4) by fastforce+
  have "scales (set old) s s' \<and> (\<forall>p\<in>set old. sized s' p \<and> reps s' p \<le> reps s p) \<and>
      min (avail_sum s ?all) (d - mu) \<le> kept_available s' ?all"
  proof (cases "s' = s")
    case True
    then show ?thesis using rest(3) A by simp
  next
    case False
    then obtain m where m: "m < 2147483648"
      "mbind (cleanupUnhealthyReplicas ext cl old m) (\<lambda>(old', _).
          mbind (scaleDownOldMachineSetsForRollingUpdate ext cl (map Some old' @ [Some new]) old') (\<lambda>_. mret ())) s = (r, s')"
      using assms(1,3,4) i32_range
      by (auto simp: reconcileOldMachineSets_def Let_def in_i32_def split: option.splits if_splits)
    obtain r1 s1 where c: "cleanupUnhealthyReplicas ext cl old m s = (r1, s1)" by fastforce
    have co: "scales (set old) s s1" "\<forall>p\<in>set old. sized s1 p \<and> settled s1 p \<and> reps s1 p \<le> reps s p"
      "\<forall>ps k. r1 = Ret (ps, k) \<longrightarrow> ps = sort_by MachineSetsByCreationTimestamp_Less (hp s) old"
      using cleanupUnhealthy_outcome [OF c rest(1) _ m(1)] rest(3) by auto
    have new1: "reps s1 new = reps s new" "settled s1 new" "sized s1 new"
      using scales_outside [OF co(1) rest(2)] rest(3) by auto
    have set1: "\<And>p. p \<in> set ?all \<Longrightarrow> settled s1 p" using co(2) new1 by auto
    have A1: "avail_sum s1 ?all = avail_sum s ?all" using avail_sum_scales [OF co(1)] .
    show ?thesis
    proof (cases "\<exists>ps k. r1 = Ret (ps, k)")
      case False
      then have "s' = s1" using m(2) c by (cases r1) auto
      then show ?thesis using co settled_sums(3) [of ?all s1] set1 A1 by simp
    next
      case True
      then obtain k where r1: "r1 = Ret (sort_by MachineSetsByCreationTimestamp_Less (hp s) old, k)" using co(3) by auto
      let ?ps = "sort_by MachineSetsByCreationTimestamp_Less (hp s) old"
      obtain r2 where sd: "scaleDownOldMachineSetsForRollingUpdate ext cl (map Some (?ps @ [new])) ?ps s1 = (r2, s')"
        using m(2) c r1 by (auto simp: mbind_def split: prod.splits go.splits)
      have sums: "avail_sum t (?ps @ [new]) = avail_sum t ?all" "reps_sum t ?ps = reps_sum t old" for t
        by (simp_all add: avail_sum_def reps_sum_def)
      have md: "mdep s1 = mdep s" using scalesD(1) [OF co(1)] .
      have "scales (set ?ps) s1 s' \<and> (\<forall>p\<in>set ?ps. sized s' p \<and> reps s' p \<le> reps s1 p) \<and>
          reps_sum s1 ?ps - reps_sum s' ?ps \<le> max 0 (avail_sum s1 (?ps @ [new]) - (d - mu))"
        using scaleDownOld_outcome [OF sd, of d mu] assms(3,4) md mu rest(1,6) A A1 co(2) by (simp add: sums)
      then have o: "scales (set old) s1 s'" "\<And>p. p \<in> set old \<Longrightarrow> sized s' p \<and> reps s' p \<le> reps s1 p"
        "reps_sum s1 old - reps_sum s' old \<le> max 0 (avail_sum s ?all - (d - mu))"
        using A1 by (simp_all add: sums)
      have new': "reps s' new = reps s1 new" using scales_outside [OF o(1) rest(2)] by simp
      have "avail_sum s1 ?all - (reps_sum s1 ?all - reps_sum s' ?all) \<le> kept_available s' ?all"
        by (rule kept_available_scale_down) (use set1 o new' scalesD(6) [OF o(1)] in \<open>auto simp: settled_def\<close>)
      then have "min (avail_sum s ?all) (d - mu) \<le> kept_available s' ?all"
        using o(3) A1 new' by simp
      moreover have "scales (set old) s s'" using scales_trans [OF co(1) o(1)] .
      moreover have "\<forall>p\<in>set old. sized s' p \<and> reps s' p \<le> reps s p" using o(2) co(2) by force
      ultimately show ?thesis by blast
    qed
  qed
  then show "scales (set old) s s'" "\<And>p. p \<in> set old \<Longrightarrow> sized s' p \<and> reps s' p \<le> reps s p"
    "min (avail_sum s ?all) (d - mu) \<le> kept_available s' ?all" by auto
qed

section \<open>The surge of a rolling update\<close>

text \<open>The machines a MachineSet has or is about to have, as \<open>TotalMachineSetsReplicaSum\<close> counts them.\<close>

definition peak :: "md_state \<Rightarrow> addr \<Rightarrow> int" where
  "peak s p = max (reps s p) (ms_StatusReplicas (hp s p))"

definition peak_sum :: "md_state \<Rightarrow> addr list \<Rightarrow> int" where
  "peak_sum s ps = sum_list (map (peak s) ps)"

lemma peak_sum_simps [simp]: "peak_sum s [] = 0" "peak_sum s (p # ps) = peak s p + peak_sum s ps"
  "peak_sum s (ps @ qs) = peak_sum s ps + peak_sum s qs"
  by (simp_all add: peak_sum_def)

lemma peak_outside: "scales P s s' \<Longrightarrow> p \<notin> P \<Longrightarrow> peak s' p = peak s p"
  by (simp add: peak_def reps_def scalesD(2))

lemma peak_scaled: "scales P s s' \<Longrightarrow> peak s' p = max (reps s' p) (ms_StatusReplicas (hp s p))"
  using scalesD(3) by (metis peak_def)

lemma peak_sum_outside:
  assumes "scales P s s'" and "set ps \<inter> P = {}"
  shows "peak_sum s' ps = peak_sum s ps"
  unfolding peak_sum_def using peak_outside [OF assms(1)] assms(2) by (metis disjoint_iff map_eq_conv)

lemma peak_sum_mono: "(\<And>p. p \<in> set ps \<Longrightarrow> peak s' p \<le> peak s p) \<Longrightarrow> peak_sum s' ps \<le> peak_sum s ps"
  unfolding peak_sum_def by (rule sum_list_mono)

lemma objs_total: "map total_count (objs s (map Some ps)) = map (peak s) ps"
  by (simp add: objs_def peak_def reps_def)

lemma objs_has_replicas: "(\<And>p. p \<in> set ps \<Longrightarrow> sized s p) \<Longrightarrow> list_all has_replicas (objs s (map Some ps))"
  by (auto simp: list_all_iff objs_def sized_def)

text \<open>
  A rollout within bounds: the MachineSets are distinct with valid sizes, the deployment rolls, and the
  counts fit in 32 bits.
\<close>

definition rolling_ok :: "md_ext \<Rightarrow> md_state \<Rightarrow> addr list \<Rightarrow> addr \<Rightarrow> int \<Rightarrow> int \<Rightarrow> bool" where
  "rolling_ok ext s old new d surge \<longleftrightarrow>
     distinct (old @ [new]) \<and> (\<forall>p\<in>set (old @ [new]). sized s p) \<and>
     0 \<le> peak_sum s (old @ [new]) \<and> peak_sum s (old @ [new]) < 2147483648 \<and>
     md_Replicas (mdep s) = Some d \<and> 0 \<le> d \<and> d + surge < 2147483648 \<and>
     IsRollingUpdate (mdep s) = Ret True \<and> surge_value ext (mdep s) = Ret surge \<and> strategy_ok ext (mdep s)"

definition new_target :: "md_state \<Rightarrow> addr list \<Rightarrow> addr \<Rightarrow> int \<Rightarrow> int \<Rightarrow> int" where
  "new_target s old new d surge =
     (let T = peak_sum s (old @ [new])
      in if reps s new \<ge> d then d
         else if T \<ge> d + surge then reps s new
         else min d (reps s new + (d + surge - T)))"

lemma reconcileNew_outcome:
  assumes "reconcileNewMachineSet ext cl (map Some (old @ [new])) new s = (r, s')"
    and "rolling_ok ext s old new d surge"
  shows "scales {new} s s'"
    and "sized s' new"
    and "reps s' new = reps s new \<or> reps s' new = new_target s old new d surge"
    and "r = Ret () \<Longrightarrow> reps s' new = new_target s old new d surge"
    and "peak_sum s' (old @ [new]) \<le> max (peak_sum s (old @ [new])) (d + surge)"
proof -
  let ?all = "old @ [new]" and ?T = "peak_sum s (old @ [new])" and ?n = "new_target s old new d surge"
  have ok: "distinct ?all" "\<And>p. p \<in> set ?all \<Longrightarrow> sized s p" "0 \<le> ?T" "?T < 2147483648"
    "md_Replicas (mdep s) = Some d" "0 \<le> d" "d + surge < 2147483648" "IsRollingUpdate (mdep s) = Ret True"
    "surge_value ext (mdep s) = Ret surge" "strategy_ok ext (mdep s)"
    using assms(2) unfolding rolling_ok_def by blast+
  note surge = surge_value_bounds [OF ok(9,10)]
  have "sized s new" by (rule ok(2)) simp
  note x = sized_reps [OF this]
  have calc: "NewMSNewReplicas ext (mdep s) (objs s (map Some ?all)) (reps s new) =
      Ret (if ?T \<ge> d + surge then reps s new else min d (reps s new + (d + surge - ?T)))"
  proof (rule NewMSNewReplicas_rolling [OF ok(8,5,9,10)])
    show "list_all has_replicas (objs s (map Some ?all))" by (rule objs_has_replicas [OF ok(2)])
    show "?T = sum_list (map total_count (objs s (map Some ?all)))" by (simp only: objs_total peak_sum_def)
  qed (use ok(3,4,6,7) surge(1) x in \<open>simp_all add: in_i32_def\<close>)
  have run: "r = Ret () \<and> s' = s \<and> reps s new = ?n \<or> scaleMachineSet ext cl new ?n s = (r, s')"
    using assms(1) ok(5) x calc by (auto simp: reconcileNewMachineSet_def new_target_def Let_def split: if_splits)
  have n: "0 \<le> ?n" "?n < 2147483648" "?n \<le> max (reps s new) d"
    using x ok(3,4,6,7) surge(1) by (auto simp: new_target_def Let_def)
  have res: "scales {new} s s' \<and> sized s' new \<and> (reps s' new = reps s new \<or> reps s' new = ?n) \<and> (r = Ret () \<longrightarrow> reps s' new = ?n)"
    using run
  proof
    assume "scaleMachineSet ext cl new ?n s = (r, s')"
    note out = scaleMachineSet_outcome [OF this]
    have "(\<exists>y. ms_Replicas (hp s' new) = Some y \<and> reps s' new = y \<and> (y = reps s new \<or> y = ?n))"
      using out(2) x by (auto simp: reps_def [of s' new])
    moreover have "r = Ret () \<Longrightarrow> reps s' new = ?n" using out(3) by (simp add: reps_def)
    ultimately show ?thesis using out(1) x n sizedI [of s' new] by auto
  qed (use \<open>sized s new\<close> in simp)
  then show sc: "scales {new} s s'" and "sized s' new" and cases: "reps s' new = reps s new \<or> reps s' new = ?n"
    and "r = Ret () \<Longrightarrow> reps s' new = ?n" by blast+
  have old: "peak_sum s' old = peak_sum s old" using peak_sum_outside [OF sc] ok(1) by auto
  have "?n \<le> reps s new \<or> ?n + (?T - reps s new) \<le> d + surge"
    by (auto simp: new_target_def Let_def)
  then have "peak s' new \<le> peak s new \<or> peak s' new + peak_sum s old \<le> d + surge \<or> peak s' new \<le> peak s new"
    using cases peak_scaled [OF sc, of new] by (auto simp: peak_def)
  then show "peak_sum s' ?all \<le> max ?T (d + surge)" using old by auto
qed

section \<open>Rollout on delete\<close>

lemma i32_diff_left [simp]: "i32 (i32 x - y) = i32 (x - y)"
  using i32_add_left [of x "- y"] by simp

lemma i32_diff_right [simp]: "i32 (x - i32 y) = i32 (x - y)"
proof -
  have "i32 (x - i32 y) = i32 ((x - y) + (y - i32 y))" by simp
  moreover have "i32 (y - i32 y) = 0"
  proof -
    have "i32 (i32 y - i32 y) = i32 (y - i32 y)" by (rule i32_diff_left)
    then show ?thesis by simp
  qed
  ultimately show ?thesis using i32_add_right [of "x - y" "y - i32 y"] by simp
qed

lemma put_ms_scales: "same_but_scale (hp s p) ms \<Longrightarrow> scales {p} s (put_ms p ms s)"
  by (simp add: scales_def put_ms_def)

lemma with_annotations_same [simp]:
  "same_but_scale ms (with_annotations ms a)" "ms_Replicas (with_annotations ms a) = ms_Replicas ms"
  by (auto simp: same_but_scale_def with_annotations_def intro: exI [of _ "mss_Replicas (ms_Spec ms)"])

lemma with_annotations_twice [simp]: "with_annotations (with_annotations ms a) b = with_annotations ms b"
  by (simp add: with_annotations_def)

lemma disable_machine_create_outcome:
  assumes "disable_machine_create cl p s = (r, s')"
  shows "scales {p} s s'" and "ms_Replicas (hp s' p) = ms_Replicas (hp s p)"
  using assms
  by (auto simp: disable_machine_create_def patch_annotations_def Let_def scales_def put_ms_def count_call_def
      split: option.splits)

lemma GetDeletingMachineCount_bounds:
  assumes "int (length ms) < 2147483648"
  shows "0 \<le> GetDeletingMachineCount ms" and "GetDeletingMachineCount ms \<le> int (length ms)"
proof -
  let ?step = "\<lambda>n m. if \<not> time_IsZero (m_DeletionTimestamp m) then i32 (n + 1) else n"
  have "0 \<le> n \<Longrightarrow> n + int (length xs) < 2147483648 \<Longrightarrow>
      0 \<le> foldl ?step n xs \<and> foldl ?step n xs \<le> n + int (length xs)" for n xs
  proof (induction xs arbitrary: n)
    case (Cons x xs)
    have "i32 (n + 1) = n + 1" using Cons.prems by (simp add: i32_id in_i32_def)
    then show ?case using Cons.IH [of n] Cons.IH [of "n + 1"] Cons.prems by auto
  qed simp
  from this [of 0 ms] assms show "0 \<le> GetDeletingMachineCount ms" "GetDeletingMachineCount ms \<le> int (length ms)"
    by (simp_all add: GetDeletingMachineCount_def)
qed

text \<open>The API server never lists more than \<open>M\<close> machines of a MachineSet.\<close>

definition lists_at_most :: "md_client \<Rightarrow> int \<Rightarrow> bool" where
  "lists_at_most cl M \<longleftrightarrow> (\<forall>n ns sel ms. cl_List cl n ns sel = Inr ms \<longrightarrow> int (length ms) \<le> M)"

lemma scales_count_call [simp]: "scales P s (count_call t) \<longleftrightarrow> scales P s t" "hp (count_call s) = hp s"
  "scales P (count_call s) t \<longleftrightarrow> scales P s t" "reps (count_call s) p = reps s p" "sized (count_call s) p = sized s p"
  by (auto simp: scales_def count_call_def reps_def sized_def)

text \<open>One old MachineSet: it is scaled to the number of its machines that are not being deleted.\<close>

definition on_delete_one :: "md_ext \<Rightarrow> md_client \<Rightarrow> int \<Rightarrow> addr \<Rightarrow> int mdm" where
  "on_delete_one ext cl a p s = on_delete_machines ext cl a [p] s"

lemma on_delete_machines_Nil: "on_delete_machines ext cl a [] = mret a"
  by (rule ext) simp

lemma on_delete_machines_Cons:
  "on_delete_machines ext cl a (p # ps) s = mbind (on_delete_one ext cl a p) (\<lambda>a'. on_delete_machines ext cl a' ps) s"
  unfolding on_delete_one_def
  by (simp add: mbind_def Let_def split: option.split prod.split go.split sum.split)

lemma on_delete_one_outcome:
  assumes "on_delete_one ext cl (i32 a) p s = (r, s')" and "sized s p"
    and "lists_at_most cl M" and "M < 2147483648"
  shows "scales {p} s s'" and "r = Ret a' \<Longrightarrow> sized s' p \<and> a' = i32 (a - (reps s p - reps s' p)) \<and> reps s' p \<le> max (reps s p) M"
proof -
  note x = sized_reps [OF assms(2)]
  have "scales {p} s s' \<and> (r = Ret a' \<longrightarrow> sized s' p \<and> a' = i32 (a - (reps s p - reps s' p)) \<and> reps s' p \<le> max (reps s p) M)"
  proof (cases "reps s p \<le> 0")
    case True
    then have "r = Ret (i32 a)" "s' = s" using assms(1) x by (auto simp: on_delete_one_def)
    then show ?thesis using assms(2) by simp
  next
    case False
    obtain r1 s1 where d: "disable_machine_create cl p s = (r1, s1)" by fastforce
    note o1 = disable_machine_create_outcome [OF d]
    have x1: "reps s1 p = reps s p" "sized s1 p" using o1(2) assms(2) by (simp_all add: reps_def sized_def)
    show ?thesis
    proof (cases "\<exists>u sel ms. r1 = Ret u \<and> cl_SelectorAsMap cl (mss_Selector (ms_Spec (hp s1 p))) = Inr sel \<and>
        cl_List cl (calls s1) (om_Namespace (ms_Meta (hp s1 p))) sel = Inr ms")
      case bad: False
      then have "s' = s1 \<or> s' = count_call s1" "r = Ret a' \<Longrightarrow> a' = i32 a \<and> s' = s1"
        using assms(1) False x d
        by (auto simp: on_delete_one_def mbind_def split: go.splits sum.splits)
      then show ?thesis using o1(1) x1 by auto
    next
      case True
      then obtain u sel ms where ms: "r1 = Ret u" "cl_SelectorAsMap cl (mss_Selector (ms_Spec (hp s1 p))) = Inr sel"
        "cl_List cl (calls s1) (om_Namespace (ms_Meta (hp s1 p))) sel = Inr ms" by blast
      have len: "int (length ms) \<le> M" using assms(3) ms(3) by (simp add: lists_at_most_def)
      let ?n = "int (length ms) - GetDeletingMachineCount ms"
      have n: "0 \<le> ?n" "?n \<le> M" using GetDeletingMachineCount_bounds [of ms] len assms(4) by simp_all
      have i: "i32 (i32 (int (length ms)) - GetDeletingMachineCount ms) = ?n"
        using n assms(4) by (simp add: i32_id in_i32_def)
      have run: "mbind (scaleMachineSet ext cl p ?n) (\<lambda>_. mret (i32 (i32 a - i32 (reps s p - ?n)))) (count_call s1) = (r, s')"
        using assms(1) False x d ms i n x1 by (simp add: on_delete_one_def Let_def on_delete_machines_Nil reps_def [symmetric])
      obtain r2 s2 where sc: "scaleMachineSet ext cl p ?n (count_call s1) = (r2, s2)" by fastforce
      note out = scaleMachineSet_outcome [OF sc]
      have "scales {p} s s2" using scales_trans [OF o1(1)] out(1) by simp
      moreover have "s' = s2" "r = Ret a' \<Longrightarrow> r2 = Ret () \<and> a' = i32 (a - (reps s p - ?n))"
        using run sc by (cases r2; auto)+
      moreover have "r2 = Ret () \<Longrightarrow> reps s2 p = ?n \<and> sized s2 p"
        using out(3) n assms(4) by (auto simp: reps_def sized_def)
      ultimately show ?thesis using n by auto
    qed
  qed
  then show "scales {p} s s'" "r = Ret a' \<Longrightarrow> sized s' p \<and> a' = i32 (a - (reps s p - reps s' p)) \<and> reps s' p \<le> max (reps s p) M"
    by blast+
qed

lemma on_delete_machines_outcome:
  assumes "on_delete_machines ext cl (i32 a) ps s = (Ret a', s')" and "distinct ps"
    and "\<And>p. p \<in> set ps \<Longrightarrow> sized s p" and "lists_at_most cl M" and "M < 2147483648"
  shows "scales (set ps) s s' \<and> (\<forall>p\<in>set ps. sized s' p \<and> reps s' p \<le> max (reps s p) M) \<and>
         a' = i32 (a - (reps_sum s ps - reps_sum s' ps))"
  using assms(1-3)
proof (induction ps arbitrary: a s)
  case Nil
  then show ?case by auto
next
  case (Cons p ps)
  have p: "sized s p" "p \<notin> set ps" using Cons.prems by simp_all
  obtain a1 s1 where one: "on_delete_one ext cl (i32 a) p s = (Ret a1, s1)"
    "on_delete_machines ext cl a1 ps s1 = (Ret a', s')"
    using Cons.prems(1) unfolding on_delete_machines_Cons by (auto simp: mbind_Ret_iff)
  note o1 = on_delete_one_outcome [OF one(1) p(1) assms(4,5)]
  have a1: "a1 = i32 (a - (reps s p - reps s1 p))" "sized s1 p" "reps s1 p \<le> max (reps s p) M" using o1(2) by simp_all
  have rest: "sized s1 q \<and> reps s1 q = reps s q" if "q \<in> set ps" for q
    using Cons.prems(3) [of q] scales_outside [OF o1(1), of q] that p(2) by auto
  have ih: "scales (set ps) s1 s' \<and> (\<forall>p\<in>set ps. sized s' p \<and> reps s' p \<le> max (reps s1 p) M) \<and>
      a' = i32 (a - (reps s p - reps s1 p) - (reps_sum s1 ps - reps_sum s' ps))"
    by (rule Cons.IH) (use one(2) a1 Cons.prems(2) rest in simp_all)
  have "scales (set (p # ps)) s s'" using scales_seq [OF o1(1)] ih by blast
  moreover have "reps_sum s1 ps = reps_sum s ps" using rest by (intro reps_sum_cong) simp
  moreover have "reps s' p = reps s1 p" "sized s' p"
    using scales_outside [OF conjunct1 [OF ih] p(2)] a1(2) by simp_all
  ultimately show ?case using ih a1 rest by (auto simp: algebra_simps)
qed

lemma on_delete_scale_down_outcome:
  assumes "on_delete_scale_down ext cl a ps s = (Ret (), s')" and "distinct ps"
    and "\<And>p. p \<in> set ps \<Longrightarrow> sized s p" and "0 \<le> a" and "a < 2147483648"
  shows "scales (set ps) s s' \<and> (\<forall>p\<in>set ps. sized s' p) \<and> reps_sum s' ps = max 0 (reps_sum s ps - a)"
  using assms
proof (induction ps arbitrary: a s)
  case Nil
  then show ?case by auto
next
  case (Cons p ps)
  have p: "sized s p" "p \<notin> set ps" using Cons.prems by simp_all
  note x = sized_reps [OF p(1)]
  have nn: "0 \<le> reps_sum s ps" using Cons.prems(3) by (intro reps_sum_nonneg) simp
  let ?n = "max 0 (reps s p - a)" and ?a = "max 0 (a - reps s p)"
  show ?case
  proof (cases "a = 0")
    case True
    then have "s' = s" using Cons.prems(1) by simp
    then show ?thesis using Cons.prems(3) nn x True by simp
  next
    case False
    show ?thesis
    proof (cases "reps s p = 0")
      case True
      then have eq: "on_delete_scale_down ext cl a ps s = (Ret (), s')"
        using Cons.prems(1,4) False x by (simp split: if_splits)
      have ih: "scales (set ps) s s' \<and> (\<forall>p\<in>set ps. sized s' p) \<and> reps_sum s' ps = max 0 (reps_sum s ps - a)"
        by (rule Cons.IH [OF eq]) (use Cons.prems in simp_all)
      have "scales (set (p # ps)) s s'" using scales_mono [OF conjunct1 [OF ih], of "set (p # ps)"] by auto
      then show ?thesis using ih True p scales_outside [OF conjunct1 [OF ih] p(2)] by simp
    next
      case pos: False
      have "i32 (reps s p - a) = reps s p - a" if "a \<le> reps s p"
        using that x Cons.prems(4) by (simp add: i32_id in_i32_def)
      moreover have "i32 (a - reps s p) = a - reps s p" if "reps s p < a"
        using that x Cons.prems(5) by (simp add: i32_id in_i32_def)
      ultimately have run: "mbind (scaleMachineSet ext cl p ?n) (\<lambda>_. on_delete_scale_down ext cl ?a ps) s = (Ret (), s')"
        using Cons.prems(1,4) False pos x by (auto split: if_splits)
      then obtain s1 where s1: "scaleMachineSet ext cl p ?n s = (Ret (), s1)"
        "on_delete_scale_down ext cl ?a ps s1 = (Ret (), s')" by (auto simp: mbind_Ret_iff)
      have b: "0 \<le> ?n" "?n \<le> reps s p" using x Cons.prems(4) by simp_all
      note w = scale_within [OF s1(1) p(1) b]
      have rest: "sized s1 q \<and> reps s1 q = reps s q" if "q \<in> set ps" for q
        using Cons.prems(3) [of q] scales_outside [OF w(1), of q] that p(2) by auto
      have ih: "scales (set ps) s1 s' \<and> (\<forall>p\<in>set ps. sized s' p) \<and> reps_sum s' ps = max 0 (reps_sum s1 ps - ?a)"
        by (rule Cons.IH [OF s1(2)]) (use Cons.prems x rest in simp_all)
      have "reps_sum s1 ps = reps_sum s ps" using rest by (intro reps_sum_cong) simp
      moreover have "reps s' p = ?n" "sized s' p"
        using scales_outside [OF conjunct1 [OF ih] p(2)] w(2,5) by simp_all
      moreover have "scales (set (p # ps)) s s'" using scales_seq [OF w(1)] ih by blast
      ultimately show ?thesis using ih nn by auto
    qed
  qed
qed

section \<open>Revision history\<close>

text \<open>A MachineSet that the clean-up may delete.\<close>

definition deletable :: "machineset \<Rightarrow> bool" where
  "deletable ms \<longleftrightarrow>
     ms_StatusReplicas ms = 0 \<and> ms_Replicas ms = Some 0 \<and>
     om_Generation (ms_Meta ms) \<le> mst_ObservedGeneration (ms_Status ms) \<and>
     time_IsZero (om_DeletionTimestamp (ms_Meta ms))"

lemma cleanup_history_outcome:
  assumes "cleanup_history cl n ps s = (r, s')"
  shows "hp s' = hp s \<and> mdep s' = mdep s \<and>
         (\<exists>ds. deleted s' = deleted s @ ds \<and> set ds \<subseteq> set (take n ps) \<and> length ds \<le> n \<and> (\<forall>p\<in>set ds. deletable (hp s p)))"
  using assms
proof (induction cl n ps s rule: cleanup_history.induct)
  case (3 cl n p ps s)
  note IH = 3(1,2,3)
  show ?case
  proof (cases "ms_Replicas (hp s p)")
    case None
    then show ?thesis using 3(4) by auto
  next
    case (Some x)
    let ?keep = "ms_StatusReplicas (hp s p) \<noteq> 0 \<or> x \<noteq> 0 \<or>
        om_Generation (ms_Meta (hp s p)) > mst_ObservedGeneration (ms_Status (hp s p)) \<or>
        \<not> time_IsZero (om_DeletionTimestamp (ms_Meta (hp s p)))"
    show ?thesis
    proof (cases ?keep)
      case True
      then have "cleanup_history cl n ps s = (r, s')" using 3(4) Some by (auto simp: Let_def)
      from 3(1) [OF refl Some True this] show ?thesis by force
    next
      case False
      let ?s = "record_event (SuccessfulDelete (ms_Name (hp s p))) ((count_call s)\<lparr>deleted := deleted s @ [p]\<rparr>)"
      have del: "deletable (hp s p)" using False Some by (auto simp: deletable_def)
      show ?thesis
      proof (cases "cl_Delete cl (calls s) (hp s p)")
        case (DeleteErr e)
        then show ?thesis using 3(4) Some False by (auto simp: Let_def record_event_def count_call_def)
      next
        case Deleted
        then have "cleanup_history cl n ps ?s = (r, s')" using 3(4) Some False by (auto simp: Let_def)
        from 3(2) [OF refl Some False Deleted this] obtain ds where
          "hp s' = hp s" "mdep s' = mdep s" "deleted s' = (deleted s @ [p]) @ ds" "set ds \<subseteq> set (take n ps)" "length ds \<le> n"
          "\<forall>p\<in>set ds. deletable (hp s p)"
          by (auto simp: record_event_def count_call_def)
        then show ?thesis using del by (intro conjI exI [of _ "p # ds"]) auto
      next
        case NotFound
        then have "cleanup_history cl n ps ?s = (r, s')" using 3(4) Some False by (auto simp: Let_def)
        from 3(3) [OF refl Some False NotFound this] obtain ds where
          "hp s' = hp s" "mdep s' = mdep s" "deleted s' = (deleted s @ [p]) @ ds" "set ds \<subseteq> set (take n ps)" "length ds \<le> n"
          "\<forall>p\<in>set ds. deletable (hp s p)"
          by (auto simp: record_event_def count_call_def)
        then show ?thesis using del by (intro conjI exI [of _ "p # ds"]) auto
      qed
    qed
  qed
qed auto

section \<open>Proportional scaling\<close>

text \<open>
  The share of a MachineSet has the direction of the scaling: growing when replicas are added, and when
  replicas are removed shrinking by at most its size.
\<close>

definition directed :: "md_ext \<Rightarrow> machinedeployment \<Rightarrow> int \<Rightarrow> machineset \<Rightarrow> bool" where
  "directed ext md toAdd ms =
     (case (ms_Replicas ms, getMachineSetFraction ext ms md) of
        (Some r, Ret f) \<Rightarrow> 0 < r \<and> in_i32 r \<and> (0 < toAdd \<longrightarrow> 0 \<le> f) \<and> (toAdd < 0 \<longrightarrow> - r \<le> f \<and> f \<le> 0)
      | _ \<Rightarrow> False)"

definition between :: "int \<Rightarrow> int \<Rightarrow> bool" where
  "between toAdd a \<longleftrightarrow> 0 < toAdd \<and> 0 \<le> a \<and> a \<le> toAdd \<or> toAdd < 0 \<and> toAdd \<le> a \<and> a \<le> 0"

lemma GetProportion_directed:
  assumes "directed ext md toAdd ms" and "ms_Replicas ms = Some r" and "between toAdd added" and "in_i32 toAdd"
  obtains p where "GetProportion ext (Some ms) md toAdd added = Ret p" "between toAdd (added + p)" "0 \<le> r + p"
    "0 < toAdd \<Longrightarrow> 0 \<le> p" "toAdd < 0 \<Longrightarrow> p \<le> 0"
proof -
  obtain f where f: "getMachineSetFraction ext ms md = Ret f" "0 < r" "0 < toAdd \<longrightarrow> 0 \<le> f" "toAdd < 0 \<longrightarrow> - r \<le> f \<and> f \<le> 0"
    using assms(1,2) by (auto simp: directed_def split: go.splits)
  have i: "i32 (toAdd - added) = toAdd - added"
    using assms(3,4) by (intro i32_id) (auto simp: between_def in_i32_def)
  let ?p = "if toAdd = added then 0 else if toAdd > 0 then min f (toAdd - added) else max f (toAdd - added)"
  have "GetProportion ext (Some ms) md toAdd added = Ret ?p"
    using assms(2,3) f i by (auto simp: GetProportion_def between_def Let_def)
  moreover have "between toAdd (added + ?p)" "0 \<le> r + ?p" "0 < toAdd \<Longrightarrow> 0 \<le> ?p" "toAdd < 0 \<Longrightarrow> ?p \<le> 0"
    using assms(3) f by (auto simp: between_def)
  ultimately show ?thesis using that by blast
qed

definition size_of :: "(string \<Rightarrow> int option) \<Rightarrow> machineset \<Rightarrow> int" where
  "size_of m ms = ptr_deref (m (ms_Name ms)) 0"

lemma proportions_directed:
  assumes "\<And>ms. ms \<in> set mss \<Longrightarrow> directed ext md toAdd ms" and "distinct (map (\<lambda>ms. ms_Name ms) mss)"
    and "between toAdd added" and "in_i32 toAdd"
    and "sum_list (map replicas_or_zero mss) + max 0 (toAdd - added) < 2147483648"
  shows "\<exists>added' m'. proportions ext md toAdd mss added m = Ret (added', m') \<and> between toAdd added' \<and>
           (0 < toAdd \<longrightarrow> added \<le> added') \<and> (toAdd < 0 \<longrightarrow> added' \<le> added) \<and>
           (\<forall>n. n \<notin> ms_Name ` set mss \<longrightarrow> m' n = m n) \<and> (\<forall>ms\<in>set mss. 0 \<le> size_of m' ms) \<and>
           sum_list (map (size_of m') mss) = sum_list (map replicas_or_zero mss) + (added' - added)"
  using assms
proof (induction mss arbitrary: added m)
  case Nil
  then show ?case by simp
next
  case (Cons x mss)
  have dx: "directed ext md toAdd x" using Cons.prems(1) by simp
  then obtain r where r: "ms_Replicas x = Some r" "0 < r" "in_i32 r"
    by (auto simp: directed_def split: option.splits go.splits)
  obtain p where p: "GetProportion ext (Some x) md toAdd added = Ret p" "between toAdd (added + p)" "0 \<le> r + p"
    "0 < toAdd \<Longrightarrow> 0 \<le> p" "toAdd < 0 \<Longrightarrow> p \<le> 0"
    using GetProportion_directed [OF dx r(1) Cons.prems(3,4)] by blast
  have t: "toAdd \<noteq> 0" using Cons.prems(3) by (auto simp: between_def)
  have pos: "0 \<le> sum_list (map replicas_or_zero mss)"
  proof (rule sum_list_nonneg)
    fix y assume "y \<in> set (map replicas_or_zero mss)"
    then obtain ms where "ms \<in> set mss" "y = replicas_or_zero ms" by auto
    then show "0 \<le> y" using Cons.prems(1) [of ms]
      by (auto simp: directed_def replicas_or_zero_def split: option.splits go.splits)
  qed
  have rx: "replicas_or_zero x = r" using r by (simp add: replicas_or_zero_def)
  have ia: "i32 (added + p) = added + p"
    using p(2) Cons.prems(4) by (intro i32_id) (auto simp: between_def in_i32_def)
  have "r + p < 2147483648"
    using Cons.prems(3,5) p(2,5) r(3) rx pos by (auto simp: between_def in_i32_def)
  then have ir: "i32 (r + p) = r + p" using p(3) by (intro i32_id) (simp add: in_i32_def)
  let ?m = "m(ms_Name x \<mapsto> r + p)"
  have b: "sum_list (map replicas_or_zero mss) + max 0 (toAdd - (added + p)) < 2147483648"
    using Cons.prems(3,5) p(2,4,5) rx r(2) by (auto simp: between_def)
  have "\<exists>added' m'. proportions ext md toAdd mss (added + p) ?m = Ret (added', m') \<and> between toAdd added' \<and>
      (0 < toAdd \<longrightarrow> added + p \<le> added') \<and> (toAdd < 0 \<longrightarrow> added' \<le> added + p) \<and>
      (\<forall>n. n \<notin> ms_Name ` set mss \<longrightarrow> m' n = ?m n) \<and> (\<forall>ms\<in>set mss. 0 \<le> size_of m' ms) \<and>
      sum_list (map (size_of m') mss) = sum_list (map replicas_or_zero mss) + (added' - (added + p))"
    by (rule Cons.IH) (use b Cons.prems(1,2,4) p(2) in simp_all)
  then obtain added' m' where ih: "proportions ext md toAdd mss (added + p) ?m = Ret (added', m')" "between toAdd added'"
    "0 < toAdd \<longrightarrow> added + p \<le> added'" "toAdd < 0 \<longrightarrow> added' \<le> added + p"
    "\<forall>n. n \<notin> ms_Name ` set mss \<longrightarrow> m' n = ?m n" "\<forall>ms\<in>set mss. 0 \<le> size_of m' ms"
    "sum_list (map (size_of m') mss) = sum_list (map replicas_or_zero mss) + (added' - (added + p))"
    by blast
  have "ms_Name x \<notin> ms_Name ` set mss" using Cons.prems(2) by auto
  then have sx: "size_of m' x = r + p" using ih(5) by (simp add: size_of_def)
  have run: "proportions ext md toAdd (x # mss) added m = Ret (added', m')"
    using r(1) t p(1) ia ir ih(1) by simp
  show ?case
    using run ih sx p(3,4,5) rx by (intro exI [of _ added'] exI [of _ m']) auto
qed

lemma scale_all_outcome:
  assumes "scale_all ext cl xs s = (Ret (), s')" and "distinct (map fst xs)"
  shows "scales (fst ` set xs) s s' \<and> (\<forall>(p, n)\<in>set xs. reps s' p = n)"
  using assms
proof (induction xs arbitrary: s)
  case Nil
  then show ?case by simp
next
  case (Cons x xs)
  obtain p n where x: "x = (p, n)" by fastforce
  obtain s1 where s1: "scaleMachineSet ext cl p n s = (Ret (), s1)" "scale_all ext cl xs s1 = (Ret (), s')"
    using Cons.prems(1) x by (auto simp: mbind_Ret_iff)
  note out = scaleMachineSet_outcome [OF s1(1)]
  have ih: "scales (fst ` set xs) s1 s'" "\<forall>(p, n)\<in>set xs. reps s' p = n"
    using Cons.IH [OF s1(2)] Cons.prems(2) by simp_all
  have "p \<notin> fst ` set xs" using Cons.prems(2) x by simp
  then have "reps s' p = n" using scales_outside(1) [OF ih(1)] out(3) by (simp add: reps_def)
  moreover have "scales (fst ` set (x # xs)) s s'"
    using scales_trans [OF scales_mono [OF out(1)] scales_mono [OF ih(1)], of "fst ` set (x # xs)"] x by auto
  ultimately show ?case using ih(2) x by auto
qed

end
