(* ===== verification/Md_Properties.thy ===== *)
theory Md_Properties
  imports Md_Rollout
begin

text \<open>
  The properties of the MachineDeployment controller: the surge and the availability of a rolling update,
  the total size after an on-delete rollout and after proportional scaling, the revision history, and the
  MachineSet that a reconciliation creates or updates.
\<close>

section \<open>An API server that accepts every request\<close>

definition accepts :: "md_client \<Rightarrow> bool" where
  "accepts cl \<longleftrightarrow> (\<forall>n a. cl_NewHelper cl n a = None) \<and> (\<forall>n a b. cl_Patch cl n a b = None)"

lemma scaleMachineSet_succeeds:
  assumes "accepts cl" and "ms_Replicas (hp s p) = Some x" and "md_Replicas (mdep s) = Some d"
    and "MaxSurge ext (mdep s) = Ret surge"
  obtains s' where "scaleMachineSet ext cl p n s = (Ret (), s')"
  using assms by (fastforce simp: accepts_def scaleMachineSet_def patch_scale_def Let_def)

definition sample_client :: md_client where
  "sample_client =
     \<lparr>cl_NewHelper = \<lambda>_ _. None, cl_Patch = \<lambda>_ _ _. None, cl_Apply = \<lambda>_ _ ms. Inr ms, cl_Poll = \<lambda>_ _. None,
      cl_Delete = \<lambda>_ _. Deleted, cl_List = \<lambda>_ _ _. Inr [], cl_SelectorAsMap = \<lambda>sel. Inr (sel_MatchLabels sel),
      cl_SelectorString = \<lambda>_. Some [], cl_Spew = \<lambda>_. Some [], cl_Random = \<lambda>_. ''abcde'', cl_Now = \<lambda>n. int n\<rparr>"

definition sample_state :: "(addr \<Rightarrow> machineset) \<Rightarrow> machinedeployment \<Rightarrow> md_state" where
  "sample_state h md = \<lparr>hp = h, nextp = 10, mdep = md, calls = 0, events = [], deleted = []\<rparr>"

lemma sample_state_simps [simp]: "hp (sample_state h md) = h" "mdep (sample_state h md) = md"
  by (simp_all add: sample_state_def)

lemma accepts_sample [simp]: "accepts sample_client"
  by (simp add: accepts_def sample_client_def)

lemma sample_ms_simps [simp]:
  "ms_Replicas (sample_ms n t a v x y z) = Some x" "ms_StatusReplicas (sample_ms n t a v x y z) = y"
  "ms_AvailableReplicas (sample_ms n t a v x y z) = z" "ms_Name (sample_ms n t a v x y z) = n"
  "ms_CreationTimestamp (sample_ms n t a v x y z) = t" "ms_Annotations (sample_ms n t a v x y z) = a"
  "om_UID (ms_Meta (sample_ms n t a v x y z)) = n" "mss_Template (ms_Spec (sample_ms n t a v x y z)) = sample_template v"
  "om_DeletionTimestamp (ms_Meta (sample_ms n t a v x y z)) = None"
  by (simp_all add: sample_ms_def sample_meta_def)

lemma sample_md_simps [simp]:
  "md_Replicas (sample_md d s u) = Some d" "IsRollingUpdate (sample_md d s u) = Ret True"
  "MaxSurge sample_ext (sample_md d s u) = Ret (i32 s)" "surge_value sample_ext (sample_md d s u) = Ret s"
  by (simp_all add: sample_fenceposts surge_value_def scaled_def) (simp_all add: sample_md_def sample_ext_def scaled_def)

lemma sample_md_strategy_ok:
  "0 \<le> d \<Longrightarrow> 0 \<le> s \<Longrightarrow> s < 2147483648 \<Longrightarrow> 0 \<le> u \<Longrightarrow> u < 2147483648 \<Longrightarrow> strategy_ok sample_ext (sample_md d s u)"
  by (simp add: strategy_ok_def scaled_ok_def sample_md_def sample_ext_def)

lemma sample_md_unavailable:
  "0 < d \<Longrightarrow> 0 < s \<Longrightarrow> 0 \<le> u \<Longrightarrow> u \<le> d \<Longrightarrow> u < 2147483648 \<Longrightarrow> MaxUnavailable sample_ext (sample_md d s u) = Ret u"
  using i32_id [of u]
  by (simp add: MaxUnavailable_def fenceposts_or_zero_def ResolveFenceposts_def in_i32_def)
     (simp add: sample_md_def sample_ext_def scaled_def Let_def)

section \<open>Properties of the controller\<close>

lemma new_target_largest:
  assumes "ms_StatusReplicas (hp s new) \<le> reps s new" "new_target s old new d surge < n" "n \<le> d"
  shows "max (peak_sum s (old @ [new])) (d + surge) < peak_sum s old + n"
  using assms by (auto simp: new_target_def Let_def peak_def split: if_splits)

text \<open>
  C14: scaling the new MachineSet of a rolling update never brings the number of machines (desired or
  still existing, whichever is larger) above the deployment's replicas plus maxSurge, nor above what it
  was; it changes no other MachineSet. When it succeeds, a new MachineSet that is larger than the deployment's replicas
  is scaled down to these; otherwise it keeps its size if there is no room below replicas plus maxSurge, and grows by the room there is,
  up to the replicas, if there is some. If it has no more machines than it should have, this is
  the largest size up to the replicas that keeps to these bounds.
\<close>

theorem surge_respected:
  assumes "rolling_ok ext s old new d surge"
    and "reconcileNewMachineSet ext cl (map Some (old @ [new])) new s = (r, s')"
  shows "peak_sum s' (old @ [new]) \<le> max (peak_sum s (old @ [new])) (d + surge) \<and>
         (\<forall>p. p \<noteq> new \<longrightarrow> hp s' p = hp s p) \<and>
         (r = Ret () \<longrightarrow>
            reps s' new = (if reps s new \<ge> d then d
                           else if peak_sum s (old @ [new]) \<ge> d + surge then reps s new
                           else min d (reps s new + (d + surge - peak_sum s (old @ [new])))) \<and>
            (ms_StatusReplicas (hp s new) \<le> reps s new \<longrightarrow>
               (\<forall>n. reps s' new < n \<and> n \<le> d \<longrightarrow> max (peak_sum s (old @ [new])) (d + surge) < peak_sum s old + n)))"
proof -
  note out = reconcileNew_outcome [OF assms(2,1)]
  have "r = Ret () \<Longrightarrow> reps s' new = (if reps s new \<ge> d then d else if peak_sum s (old @ [new]) \<ge> d + surge then reps s new
      else min d (reps s new + (d + surge - peak_sum s (old @ [new]))))"
    using out(4) unfolding new_target_def Let_def .
  moreover have "max (peak_sum s (old @ [new])) (d + surge) < peak_sum s old + n"
    if "r = Ret ()" "ms_StatusReplicas (hp s new) \<le> reps s new" "reps s' new < n" "n \<le> d" for n
    using new_target_largest that out(4) by metis
  ultimately show ?thesis using out(5) scalesD(2) [OF out(1)] by blast
qed

definition sample_old_new :: "int \<Rightarrow> int \<Rightarrow> addr \<Rightarrow> machineset" where
  "sample_old_new a b p = (if p = 0 then sample_ms ''a'' 1 None ''v1'' a a a else sample_ms ''b'' 2 None ''v2'' b b b)"

lemma sample_rolling_ok: "rolling_ok sample_ext (sample_state (sample_old_new 3 0) (sample_md 3 1 0)) [0] 1 3 1"
  by (simp add: rolling_ok_def sized_def peak_def reps_def sample_old_new_def sample_md_strategy_ok)

theorem surge_respected_witness:
  "\<exists>s'. reconcileNewMachineSet sample_ext sample_client [Some 0, Some 1] 1
          (sample_state (sample_old_new 3 0) (sample_md 3 1 0)) = (Ret (), s') \<and>
        peak_sum s' [0, 1] \<le> 4 \<and> reps s' 1 = 1"
proof -
  let ?s = "sample_state (sample_old_new 3 0) (sample_md 3 1 0)"
  have "NewMSNewReplicas sample_ext (sample_md 3 1 0) (objs ?s [Some 0, Some 1]) 0 = Ret 1"
    by (simp add: NewMSNewReplicas_def TotalMachineSetsReplicaSum_eq objs_def sample_old_new_def i32_def)
       (simp add: sample_md_def sample_ext_def scaled_def TotalMachineSetsReplicaSum_eq i32_def)
  then have r: "reconcileNewMachineSet sample_ext sample_client [Some 0, Some 1] 1 ?s =
      scaleMachineSet sample_ext sample_client 1 1 ?s"
    by (simp add: reconcileNewMachineSet_def sample_old_new_def)
  obtain s' where s': "scaleMachineSet sample_ext sample_client 1 1 ?s = (Ret (), s')"
    by (rule scaleMachineSet_succeeds [where ext = sample_ext and cl = sample_client and p = 1 and s = ?s and n = 1])
       (simp_all add: sample_old_new_def)
  then have "reconcileNewMachineSet sample_ext sample_client (map Some ([0] @ [1])) 1 ?s = (Ret (), s')"
    using r by simp
  from surge_respected [OF sample_rolling_ok this] show ?thesis
    using r s' by (auto simp: peak_def reps_def sample_old_new_def)
qed

text \<open>
  C15: with no MachineSet reporting more available machines than it should have, cleaning up and scaling
  down the old MachineSets never lets the available machines that are not asked to be deleted fall below
  the deployment's replicas minus maxUnavailable, unless they were below already; this holds even when a
  request to the API server fails on the way. Only old MachineSets are scaled, and only down.
\<close>

theorem availability_kept:
  assumes "at_rest ext s old new"
    and "md_Replicas (mdep s) = Some d" and "MaxUnavailable ext (mdep s) = Ret mu"
    and "reconcileOldMachineSets ext cl (map Some (old @ [new])) old new s = (r, s')"
  shows "min (kept_available s (old @ [new])) (d - mu) \<le> kept_available s' (old @ [new]) \<and>
         (\<forall>p\<in>set old. 0 \<le> reps s' p \<and> reps s' p \<le> reps s p) \<and>
         (\<forall>p. p \<notin> set old \<longrightarrow> hp s' p = hp s p)"
proof -
  note out = reconcileOld_outcome [OF assms(4,1,2,3)]
  have "kept_available s (old @ [new]) = avail_sum s (old @ [new])"
    using assms(1) by (intro settled_sums(3)) (auto simp: at_rest_def)
  then show ?thesis using out sized_reps [of s'] scalesD(2) [OF out(1)] by auto
qed

lemma sample_at_rest: "at_rest sample_ext (sample_state (sample_old_new 3 1) (sample_md 3 1 0)) [0] 1"
  by (simp add: at_rest_def sized_def settled_def avail_def reps_def sample_old_new_def sample_md_strategy_ok
      sample_md_unavailable)

theorem availability_kept_witness:
  "\<exists>r s'. reconcileOldMachineSets sample_ext sample_client [Some 0, Some 1] [0] 1
            (sample_state (sample_old_new 3 1) (sample_md 3 1 0)) = (r, s') \<and>
          3 \<le> kept_available s' [0, 1]"
proof -
  let ?s = "sample_state (sample_old_new 3 1) (sample_md 3 1 0)"
  obtain r s' where run: "reconcileOldMachineSets sample_ext sample_client [Some 0, Some 1] [0] 1 ?s = (r, s')"
    by fastforce
  then have "reconcileOldMachineSets sample_ext sample_client (map Some ([0] @ [1])) [0] 1 ?s = (r, s')" by simp
  note kept = availability_kept [OF sample_at_rest _ _ this, of 3 0]
  have "kept_available ?s [0, 1] = 4"
    by (simp add: kept_available_def avail_def reps_def sample_old_new_def)
  then have "3 \<le> kept_available s' [0, 1]" using kept by (simp add: sample_md_unavailable)
  then show ?thesis using run by blast
qed

definition stale_store :: "addr \<Rightarrow> machineset" where
  "stale_store p =
     (if p = 2 then sample_ms ''a'' 1 None ''v0'' 0 3 3
      else if p = 3 then sample_ms ''b'' 2 None ''v1'' 3 3 3
      else sample_ms ''c'' 3 None ''v2'' 3 3 1)"

text \<open>
  C24: the available machines of an old MachineSet that was scaled to zero but whose status is not yet
  updated are counted as available, so that scaling down the other old MachineSets can leave fewer
  available machines than replicas minus maxUnavailable: here 3 replicas, no unavailability allowed, and
  one machine left of the four that were available and not asked to be deleted.
\<close>

theorem stale_availability_counted:
  "\<exists>s'. reconcileOldMachineSets sample_ext sample_client [Some 2, Some 3, Some 4] [2, 3] 4
          (sample_state stale_store (sample_md 3 6 0)) = (Ret (), s') \<and>
        kept_available (sample_state stale_store (sample_md 3 6 0)) [2, 3, 4] = 4 \<and>
        kept_available s' [2, 3, 4] = 1 \<and> MaxUnavailable sample_ext (sample_md 3 6 0) = Ret 0"
proof -
  let ?s = "sample_state stale_store (sample_md 3 6 0)"
  have mu: "MaxUnavailable sample_ext (sample_md 3 6 0) = Ret 0" by (rule sample_md_unavailable) simp_all
  have srt: "sort_by MachineSetsByCreationTimestamp_Less stale_store [2, 3] = [2, 3]"
    by (simp add: sort_by_def go_sort_def MachineSetsByCreationTimestamp_Less_def stale_store_def)
  have sz: "sized ?s p" for p by (simp add: sized_def stale_store_def)
  have rv: "reps ?s 2 = 0" "reps ?s 3 = 3" "avail ?s 3 = 3" by (simp_all add: reps_def avail_def stale_store_def)
  have clean: "cleanup_loop sample_ext sample_client 1 0 [2, 3] ?s = (Ret 0, ?s)"
    using cleanup_loop_skip [OF sz, of 2 0 1] cleanup_loop_skip [OF sz, of 3 0 1] rv
    by (simp del: cleanup_loop.simps(2))
  have cnt: "GetAvailableReplicaCountForMachineSets (objs ?s [Some 2, Some 3, Some 4]) = 7"
    by (simp add: GetAvailableReplicaCount_sum objs_def stale_store_def i32_def)
  obtain s' where s': "scaleMachineSet sample_ext sample_client 3 0 ?s = (Ret (), s')"
    by (rule scaleMachineSet_succeeds [where ext = sample_ext and cl = sample_client and p = 3 and s = ?s and n = 0])
       (simp_all add: stale_store_def)
  have "scale_down_loop sample_ext sample_client 4 0 [2, 3] ?s = scale_down_loop sample_ext sample_client 4 0 [3] ?s"
    by (simp add: stale_store_def)
  also have "\<dots> = (Ret 3, s')"
    using scale_down_loop_step(1) [OF sz, of 0 4 3 sample_ext sample_client "[]"] rv s'
    by (simp del: scale_down_loop.simps(2))
  finally have down: "scale_down_loop sample_ext sample_client 4 0 [2, 3] ?s = (Ret 3, s')" .
  have gate: "GetReplicaCountForMachineSets (objs ?s [Some 2, Some 3]) = 3"
    "GetReplicaCountForMachineSets (objs ?s [Some 2, Some 3, Some 4]) = 6"
    by (simp_all add: GetReplicaCount_sum objs_def stale_store_def i32_def)
  have n2: "ms_Replicas (stale_store 4) = Some 3" "ms_AvailableReplicas (stale_store 4) = 1"
    by (simp_all add: stale_store_def)
  have i: "i32 1 = 1" "i32 2 = 2" "i32 3 = 3" "i32 4 = 4" by (simp_all add: i32_def)
  have cu: "cleanupUnhealthyReplicas sample_ext sample_client [2, 3] 1 ?s = (Ret ([2, 3], 0), ?s)"
    by (simp add: cleanupUnhealthyReplicas_def srt clean del: cleanup_loop.simps)
  have sd: "scaleDownOldMachineSetsForRollingUpdate sample_ext sample_client [Some 2, Some 3, Some 4] [2, 3] ?s = (Ret 3, s')"
    by (simp add: scaleDownOldMachineSetsForRollingUpdate_def srt down cnt i mu Let_def del: scale_down_loop.simps)
  have run: "reconcileOldMachineSets sample_ext sample_client [Some 2, Some 3, Some 4] [2, 3] 4 ?s = (Ret (), s')"
    by (simp add: reconcileOldMachineSets_def cu sd gate n2 mu i Let_def)
  have sc: "scales {3} ?s s'" using scaleMachineSet_outcome(1) [OF s'] .
  have one: "reps s' 3 = 0" using scaleMachineSet_outcome(3) [OF s'] by (simp add: reps_def)
  have "hp s' 2 = stale_store 2" "hp s' 4 = stale_store 4" using scalesD(2) [OF sc] by simp_all
  then have "kept_available s' [2, 3, 4] = 1"
    using one scalesD(6) [OF sc, of 3] by (simp add: kept_available_def reps_def avail_def stale_store_def)
  moreover have "kept_available ?s [2, 3, 4] = 4"
    by (simp add: kept_available_def reps_def avail_def stale_store_def)
  ultimately show ?thesis using run mu by blast
qed

text \<open>
  C22: after an on-delete reconciliation that succeeds, the desired sizes of all MachineSets together are
  at most the deployment's replicas, or the old MachineSets are empty and the new one alone is larger; the
  new MachineSet is not touched.
\<close>

theorem on_delete_total:
  assumes "reconcileOldMachineSetsOnDelete ext cl old (map Some (old @ [new])) s = (Ret (), s')"
    and "distinct (old @ [new])" and "\<forall>p\<in>set (old @ [new]). sized s p"
    and "md_Replicas (mdep s) = Some d" and "0 \<le> d" and "d < 2147483648"
    and "lists_at_most cl M" and "0 \<le> M" and "reps_sum s (old @ [new]) + M * int (length old) < 2147483648"
    and "M < 2147483648"
  shows "reps_sum s' (old @ [new]) \<le> max d (reps s new) \<and> hp s' new = hp s new \<and>
         (\<forall>p\<in>set old. 0 \<le> reps s' p)"
proof -
  let ?all = "old @ [new]"
  have sz: "\<And>p. p \<in> set ?all \<Longrightarrow> sized s p" and dist: "distinct old" "new \<notin> set old" using assms(2,3) by auto
  have nn: "0 \<le> reps_sum s old" by (rule reps_sum_nonneg) (simp add: sz)
  have pos: "0 \<le> reps_sum s ?all" by (rule reps_sum_nonneg [OF sz])
  have cnt: "GetReplicaCountForMachineSets (objs s (map Some ?all)) = reps_sum s ?all"
    using assms(8,9) pos
    by (subst GetReplicaCount_sum, subst objs_counts, subst reps_sum_def [symmetric], intro i32_id)
       (simp add: in_i32_def mult_nonneg_nonneg add_nonneg_nonneg le_less_trans [rotated])
  obtain a1 s1 where m1: "on_delete_machines ext cl (i32 (reps_sum s ?all - d)) old s = (Ret a1, s1)"
    and m2: "on_delete_scale_down ext cl a1 old s1 = (Ret (), s')"
    using assms(1,4) cnt by (auto simp: reconcileOldMachineSetsOnDelete_def mbind_Ret_iff)
  have o1: "scales (set old) s s1" "\<forall>p\<in>set old. sized s1 p \<and> reps s1 p \<le> max (reps s p) M"
    "a1 = i32 (reps_sum s ?all - d - (reps_sum s old - reps_sum s1 old))"
    using on_delete_machines_outcome [OF m1 dist(1) _ assms(7,10)] sz by auto
  have "reps_sum s1 old \<le> reps_sum s old + M * int (length old)"
    using o1(2) sz assms(8)
  proof (induction old)
    case (Cons p ps)
    have "0 \<le> reps s p" using sized_reps [of s p] Cons.prems(2) by simp
    then have "reps s1 p \<le> reps s p + M" using Cons.prems(1,3) by fastforce
    then show ?case using Cons by (simp add: algebra_simps)
  qed simp
  moreover have nn1: "0 \<le> reps_sum s1 old" using o1(2) by (intro reps_sum_nonneg) simp
  moreover have new_pos: "0 \<le> reps s new" using sized_reps [of s new] sz by simp
  ultimately have a1: "a1 = reps_sum s1 old + reps s new - d"
    using o1(3) assms(5,6,9) by (simp add: i32_id in_i32_def)
  have new1: "hp s1 new = hp s new" using scalesD(2) [OF o1(1) dist(2)] .
  show ?thesis
  proof (cases "a1 \<le> 0")
    case True
    then have "s' = s1" using m2 by (cases old) auto
    then show ?thesis using True a1 new1 o1(2) sized_reps [of s1] by (auto simp: reps_def)
  next
    case False
    have o2: "scales (set old) s1 s'" "\<forall>p\<in>set old. sized s' p" "reps_sum s' old = max 0 (reps_sum s1 old - a1)"
      using on_delete_scale_down_outcome [OF m2 dist(1)] o1(2,3) False i32_range [of "reps_sum s ?all - d - (reps_sum s old - reps_sum s1 old)"]
      by (auto simp: in_i32_def)
    have "hp s' new = hp s new" using scalesD(2) [OF o2(1) dist(2)] new1 by simp
    then show ?thesis using o2 a1 sized_reps [of s'] by (auto simp: reps_def [of _ new])
  qed
qed

lemma disable_machine_create_succeeds: "accepts cl \<Longrightarrow> \<exists>s'. disable_machine_create cl p s = (Ret (), s')"
  by (simp add: accepts_def disable_machine_create_def patch_annotations_def Let_def split: option.split)

lemma sample_lists: "lists_at_most sample_client 0"
  by (simp add: lists_at_most_def sample_client_def)

theorem on_delete_total_witness:
  "\<exists>s'. reconcileOldMachineSetsOnDelete sample_ext sample_client [2] [Some 2, Some 3]
          (sample_state (\<lambda>p. if p = 2 then sample_ms ''a'' 1 None ''v1'' 2 2 2 else sample_ms ''b'' 2 None ''v2'' 1 1 1)
            (sample_md 3 1 0)) = (Ret (), s') \<and> reps_sum s' [2, 3] \<le> 3"
proof -
  let ?h = "\<lambda>p::nat. if p = 2 then sample_ms ''a'' 1 None ''v1'' 2 2 2 else sample_ms ''b'' 2 None ''v2'' 1 1 1"
  let ?s = "sample_state ?h (sample_md 3 1 0)"
  have c: "GetReplicaCountForMachineSets (objs ?s [Some 2, Some 3]) = 3"
    by (simp add: GetReplicaCount_sum objs_def i32_def)
  have "\<exists>s'. reconcileOldMachineSetsOnDelete sample_ext sample_client [2] [Some 2, Some 3] ?s = (Ret (), s')"
  proof -
    obtain s1 where d: "disable_machine_create sample_client 2 ?s = (Ret (), s1)"
      using disable_machine_create_succeeds accepts_sample by blast
    note o1 = disable_machine_create_outcome [OF d]
    have md: "mdep (count_call s1) = sample_md 3 1 0" using scalesD(1) [OF o1(1)] by (simp add: count_call_def)
    obtain s2 where s2: "scaleMachineSet sample_ext sample_client 2 0 (count_call s1) = (Ret (), s2)"
      by (rule scaleMachineSet_succeeds [where ext = sample_ext and cl = sample_client and p = 2 and s = "count_call s1" and n = 0])
         (use o1(2) md in simp_all)
    have "cl_SelectorAsMap sample_client sel = Inr (sel_MatchLabels sel)" "cl_List sample_client n ns m = Inr []" for sel n ns m
      by (simp_all add: sample_client_def)
    then have "on_delete_machines sample_ext sample_client 0 [2] ?s = (Ret (i32 (0 - i32 2)), s2)"
      using d s2 o1(2) by (simp add: GetDeletingMachineCount_def)
    then show ?thesis using c by (simp add: reconcileOldMachineSetsOnDelete_def i32_def)
  qed
  then obtain s' where run: "reconcileOldMachineSetsOnDelete sample_ext sample_client [2] [Some 2, Some 3] ?s = (Ret (), s')"
    by blast
  have "reps_sum s' ([2] @ [3]) \<le> max 3 (reps ?s 3) \<and> hp s' 3 = hp ?s 3 \<and> (\<forall>p\<in>set [2]. 0 \<le> reps s' p)"
    by (rule on_delete_total [where old = "[2]" and new = 3 and M = 0 and ext = sample_ext and cl = sample_client and d = 3])
       (use run sample_lists in \<open>simp_all add: sized_def reps_def\<close>)
  then show ?thesis using run by (simp add: reps_def [of ?s])
qed

text \<open>
  C23: the clean-up of the revision history deletes only old MachineSets that have no machines, desired or
  existing, whose controller has seen their last generation and that are not being deleted, and among them
  only the ones created first: never one of the RevisionHistoryLimit newest. No MachineSet is changed.
\<close>

theorem cleanup_deletes_only_empty:
  assumes "cleanupDeployment cl old s = (r, s')" and "mds_RevisionHistoryLimit (md_Spec (mdep s)) = Some limit"
    and "0 \<le> limit" and "limit < 2147483648" and "int (length old) < 2147483648"
  shows "hp s' = hp s \<and>
         (\<exists>ds alive. deleted s' = deleted s @ ds \<and> (\<forall>p\<in>set ds. deletable (hp s p)) \<and>
            mset alive = mset (filter (\<lambda>p. time_IsZero (om_DeletionTimestamp (ms_Meta (hp s p)))) old) \<and>
            sorted_wrt (\<lambda>p q. \<not> MachineSetsByCreationTimestamp_Less (hp s q) (hp s p)) alive \<and>
            set ds \<subseteq> set (take (length alive - nat limit) alive) \<and> length ds \<le> length alive - nat limit)"
proof -
  let ?c = "filter (\<lambda>p. time_IsZero (om_DeletionTimestamp (ms_Meta (hp s p)))) old"
  let ?a = "sort_by MachineSetsByCreationTimestamp_Less (hp s) ?c"
  have len: "length ?a = length ?c" by (metis mset_sort_by size_mset)
  have "length ?c \<le> length old" by simp
  then have c: "int (length ?c) < 2147483648" using assms(5) by linarith
  have srt: "sorted_wrt (\<lambda>p q. \<not> MachineSetsByCreationTimestamp_Less (hp s q) (hp s p)) ?a"
    by (rule sorted_sort_by [OF creation.weak_order_axioms])
  have i: "i32 (i32 (int (length ?c)) - limit) = int (length ?c) - limit"
    using c assms(3,4) by (simp add: i32_id in_i32_def)
  show ?thesis
  proof (cases "int (length ?c) \<le> limit")
    case True
    then have "s' = s" using assms(1,2) i by (simp add: cleanupDeployment_def FilterMachineSets_def Let_def)
    then show ?thesis using srt by (intro conjI exI [of _ "[]"] exI [of _ ?a]) simp_all
  next
    case False
    have "cleanup_history cl (nat (int (length ?c) - limit)) ?a s = (r, s')"
      using assms(1,2) i False by (simp add: cleanupDeployment_def FilterMachineSets_def Let_def)
    moreover have "nat (int (length ?c) - limit) = length ?a - nat limit" using assms(3) len by linarith
    ultimately have run: "cleanup_history cl (length ?a - nat limit) ?a s = (r, s')" by simp
    show ?thesis using cleanup_history_outcome [OF run] srt by (metis mset_sort_by)
  qed
qed

theorem cleanup_deletes_only_empty_witness:
  "\<exists>r s'. cleanupDeployment sample_client [2, 3]
            (sample_state (\<lambda>p. sample_ms ''a'' (int p) None ''v1'' 0 0 0) (sample_md 3 1 0)) = (r, s') \<and>
          length (deleted s') \<le> 1"
proof -
  let ?s = "sample_state (\<lambda>p. sample_ms ''a'' (int p) None ''v1'' 0 0 0) (sample_md 3 1 0)"
  have lim: "mds_RevisionHistoryLimit (md_Spec (mdep ?s)) = Some 1" by (simp add: sample_md_def)
  obtain r s' where run: "cleanupDeployment sample_client [2, 3] ?s = (r, s')" by fastforce
  have d0: "deleted ?s = []" by (simp add: sample_state_def)
  obtain ds alive where ds: "deleted s' = deleted ?s @ ds" "length ds \<le> length alive - nat 1"
    "mset alive = mset (filter (\<lambda>p. time_IsZero (om_DeletionTimestamp (ms_Meta (hp ?s p)))) [2, 3])"
    using cleanup_deletes_only_empty [OF run lim] by auto
  have "length alive \<le> 2" using mset_eq_length [OF ds(3)] by simp
  then show ?thesis using run ds(1,2) d0 by auto
qed

text \<open>
  Scaling a MachineSet is idempotent: a second call with the same size right after a successful one
  changes nothing and makes no request.
\<close>

lemma scaling_idempotent:
  assumes "scaleMachineSet ext cl p n s = (Ret (), s')"
  shows "ms_Replicas (hp s' p) = Some n \<and> scaleMachineSet ext cl' p n s' = (Ret (), s')"
proof -
  obtain x d surge where x: "ms_Replicas (hp s p) = Some x" "md_Replicas (mdep s) = Some d" "MaxSurge ext (mdep s) = Ret surge"
    using assms by (auto simp: scaleMachineSet_def mbind_def split: option.splits go.splits)
  have md: "mdep s' = mdep s" using scaleMachineSet_outcome(1) [OF assms] by (rule scalesD)
  have n: "ms_Replicas (hp s' p) = Some n" using scaleMachineSet_outcome(3) [OF assms] by simp
  have "\<not> ReplicasAnnotationsNeedUpdate (hp s' p) d (i32 (d + surge))"
    by (rule scaled_annotations_current [OF assms x(2,3)])
  then show ?thesis using n x md by (simp add: scaleMachineSet_def)
qed

lemma proportions_none:
  assumes "\<And>ms. ms \<in> set mss \<Longrightarrow> \<exists>r. ms_Replicas ms = Some r" and "distinct (map (\<lambda>ms. ms_Name ms) mss)"
  shows "\<exists>m'. proportions ext md 0 mss added m = Ret (added, m') \<and> (\<forall>n. n \<notin> ms_Name ` set mss \<longrightarrow> m' n = m n) \<and>
           (\<forall>ms\<in>set mss. size_of m' ms = replicas_or_zero ms)"
  using assms
proof (induction mss arbitrary: m)
  case (Cons x mss)
  obtain r where r: "ms_Replicas x = Some r" using Cons.prems(1) by fastforce
  have "\<exists>m'. proportions ext md 0 mss added (m(ms_Name x \<mapsto> r)) = Ret (added, m') \<and>
      (\<forall>n. n \<notin> ms_Name ` set mss \<longrightarrow> m' n = (m(ms_Name x \<mapsto> r)) n) \<and>
      (\<forall>ms\<in>set mss. size_of m' ms = replicas_or_zero ms)"
    by (rule Cons.IH) (use Cons.prems in simp_all)
  then obtain m' where m': "proportions ext md 0 mss added (m(ms_Name x \<mapsto> r)) = Ret (added, m')"
    "\<forall>n. n \<notin> ms_Name ` set mss \<longrightarrow> m' n = (m(ms_Name x \<mapsto> r)) n" "\<forall>ms\<in>set mss. size_of m' ms = replicas_or_zero ms"
    by blast
  have "ms_Name x \<notin> ms_Name ` set mss" using Cons.prems(2) by auto
  then have "size_of m' x = r" using m'(2) by (simp add: size_of_def)
  then show ?case using m' r by (intro exI [of _ m']) (auto simp: replicas_or_zero_def)
qed simp

lemma mset_sort_for_scaling [simp]: "mset (sort_for_scaling a ld ps) = mset ps"
  by (simp add: sort_for_scaling_def)

lemma hd_sort_for_scaling:
  assumes "a \<noteq> 0" and "sort_for_scaling a ld ps = p # qs" and "q \<in> set ps"
  shows "replicas_or_zero (ld q) \<le> replicas_or_zero (ld p)"
proof -
  have ne: "ps \<noteq> []" using assms(3) by auto
  show ?thesis
  proof (cases "a > 0")
    case True
    then have "hd (go_sort (\<lambda>p q. MachineSetsBySizeNewer_Less (ld p) (ld q)) ps) = p"
      using assms(2) by (simp add: sort_for_scaling_def sort_by_def)
    then have "\<not> MachineSetsBySizeNewer_Less (ld q) (ld p)"
      using weak_order.hd_go_sort_least [OF weak_order_pullback [OF size_newer.weak_order_axioms] ne assms(3)] by fastforce
    then show ?thesis by (auto simp: MachineSetsBySizeNewer_Less_def split: if_splits)
  next
    case False
    then have "hd (go_sort (\<lambda>p q. MachineSetsBySizeOlder_Less (ld p) (ld q)) ps) = p"
      using assms(1,2) by (simp add: sort_for_scaling_def sort_by_def)
    then have "\<not> MachineSetsBySizeOlder_Less (ld q) (ld p)"
      using weak_order.hd_go_sort_least [OF weak_order_pullback [OF size_older.weak_order_axioms] ne assms(3)] by fastforce
    then show ?thesis by (auto simp: MachineSetsBySizeOlder_Less_def split: if_splits)
  qed
qed

text \<open>The sizes that are handed out, leftovers included.\<close>

lemma final_sizes:
  assumes "proportions ext md toAdd mss 0 (\<lambda>_. None) = Ret (added, m)"
    and "\<And>ms. ms \<in> set mss \<Longrightarrow> directed ext md toAdd ms" and "distinct (map (\<lambda>ms. ms_Name ms) mss)" and "mss \<noteq> []"
    and "in_i32 toAdd" and "toAdd \<noteq> 0"
    and "T = sum_list (map replicas_or_zero mss)" and "T + max 0 toAdd < 2147483648"
  defines "sizes \<equiv> with_leftover mss toAdd added m"
  shows "sum_list (map (size_of sizes) mss) = T + toAdd \<or>
         toAdd < 0 \<and> size_of sizes (hd mss) = 0 \<and> T + toAdd \<le> sum_list (map (size_of sizes) mss)"
proof -
  obtain x xs where mss: "mss = x # xs" using assms(4) by (cases mss) auto
  have b0: "between toAdd 0" using assms(6) unfolding between_def by linarith
  have bd: "sum_list (map replicas_or_zero mss) + max 0 (toAdd - 0) < 2147483648" using assms(7,8) by simp
  have d: "between toAdd added" "\<forall>ms\<in>set mss. 0 \<le> size_of m ms" "sum_list (map (size_of m) mss) = T + added"
    using proportions_directed [OF assms(2,3) b0 assms(5) bd, of "\<lambda>_. None"] assms(1,7) by simp_all
  have xs_nn: "0 \<le> sum_list (map (size_of m) xs)" using d(2) mss by (intro sum_list_nonneg) auto
  let ?n = "size_of m x + (toAdd - added)"
  have l: "i32 (toAdd - added) = toAdd - added"
    using d(1) assms(5) by (intro i32_id) (auto simp: between_def in_i32_def)
  have bound: "size_of m x \<le> T + added" "0 \<le> size_of m x" using d(2,3) xs_nn mss by simp_all
  have "in_i32 ?n"
  proof (cases "0 < toAdd")
    case True
    then show ?thesis using bound d(1) assms(8) by (simp add: between_def in_i32_def)
  next
    case False
    then show ?thesis using bound d(1) assms(5,8) by (simp add: between_def in_i32_def)
  qed
  then have n: "i32 (size_of m x + i32 (toAdd - added)) = ?n" unfolding l by (rule i32_id)
  have x: "size_of sizes x = max 0 ?n"
    using assms(6) n mss by (simp add: sizes_def with_leftover_def size_of_def [symmetric] Let_def)
       (simp add: size_of_def)
  have "size_of sizes y = size_of m y" if "y \<in> set xs" for y
  proof -
    have "ms_Name y \<noteq> ms_Name x" using assms(3) that mss by (auto simp: image_iff)
    then show ?thesis using mss assms(6) by (simp add: sizes_def with_leftover_def size_of_def Let_def)
  qed
  then have eq: "map (size_of sizes) xs = map (size_of m) xs" by simp
  have "sum_list (map (size_of sizes) mss) = max 0 ?n + sum_list (map (size_of m) xs)"
    by (simp only: mss list.map sum_list.Cons x eq)
  moreover have "?n + sum_list (map (size_of m) xs) = T + toAdd" using d(3) mss by simp
  ultimately show ?thesis using x mss bound d(1) by (auto simp: between_def)
qed

text \<open>The active MachineSets in the order in which they are scaled: a permutation with the same total.\<close>

lemma active_sorted:
  fixes toAdd :: int and s :: md_state
  assumes "active = FilterActiveMachineSets (hp s) (map Some old @ [newMS])" and "distinct (map (\<lambda>p. ms_Name (hp s p)) active)"
  defines "ps \<equiv> sort_for_scaling toAdd (hp s) active"
  shows "\<And>p. p \<in> set active \<Longrightarrow> \<exists>r>0. ms_Replicas (hp s p) = Some r" and "set ps = set active"
    and "sum_list (map f ps) = sum_list (map (f :: addr \<Rightarrow> int) active)"
    and "distinct (map (\<lambda>p. ms_Name (hp s p)) ps)" and "0 \<le> reps_sum s active"
    and "sum_list (map replicas_or_zero (map (hp s) ps)) = reps_sum s active"
proof -
  show act: "\<exists>r>0. ms_Replicas (hp s p) = Some r" if "p \<in> set active" for p
    using that FilterActive_set [of "hp s" "map Some old @ [newMS]"] assms(1) by auto
  have ps: "mset ps = mset active" by (simp add: ps_def)
  then show "set ps = set active" by (rule mset_eq_setD)
  show sums: "sum_list (map f ps) = sum_list (map f active)" for f :: "addr \<Rightarrow> int"
    using ps by (metis mset_map sum_mset_sum_list)
  have "mset (map (\<lambda>p. ms_Name (hp s p)) ps) = mset (map (\<lambda>p. ms_Name (hp s p)) active)" using ps by simp
  then show "distinct (map (\<lambda>p. ms_Name (hp s p)) ps)" using assms(2) mset_eq_imp_distinct_iff by blast
  have "0 \<le> y" if y: "y \<in> set (map (reps s) active)" for y
  proof -
    obtain p where p: "p \<in> set active" "y = reps s p" using y by auto
    then show ?thesis using act [OF p(1)] by (auto simp: reps_def)
  qed
  then show "0 \<le> reps_sum s active" unfolding reps_sum_def by (rule sum_list_nonneg)
  have "replicas_or_zero (hp s p) = reps s p" for p by (simp add: replicas_or_zero_def reps_def)
  then have "sum_list (map replicas_or_zero (map (hp s) ps)) = sum_list (map (reps s) ps)" by (simp add: comp_def)
  then show "sum_list (map replicas_or_zero (map (hp s) ps)) = reps_sum s active"
    by (simp only: sums reps_sum_def)
qed

lemma scale_proportionally_sizes:
  assumes "scale_proportionally ext cl newMS old d s = (Ret (), s')"
    and "active = FilterActiveMachineSets (hp s) (map Some old @ [newMS])"
    and "distinct (map (\<lambda>p. ms_Name (hp s p)) active)"
    and "0 < d" and "MaxSurge ext (mdep s) = Ret surge" and "0 \<le> surge" and "d + surge < 2147483648"
    and "reps_sum s active < 2147483648"
  defines "toAdd \<equiv> d + surge - reps_sum s active"
  defines "mss \<equiv> map (hp s) (sort_for_scaling toAdd (hp s) active)"
  shows "\<exists>added m. in_i32 toAdd \<and> proportions ext (mdep s) toAdd mss 0 (\<lambda>_. None) = Ret (added, m) \<and>
    (\<forall>p \<in> set active. reps s' p = size_of (with_leftover mss toAdd added m) (hp s p)) \<and>
    reps_sum s' active = sum_list (map (size_of (with_leftover mss toAdd added m)) mss)"
proof -
  let ?T = "reps_sum s active" and ?toAdd = "d + surge - reps_sum s active"
  let ?ps = "sort_for_scaling ?toAdd (hp s) active" and ?mss = "map (hp s) (sort_for_scaling ?toAdd (hp s) active)"
  note srt = active_sorted [OF assms(2,3)]
  note set = srt(2) [of ?toAdd] and sums = srt(3) [where toAdd = ?toAdd] and names = srt(4) [of ?toAdd] and nn = srt(5)
  have cnt: "GetReplicaCountForMachineSets (objs s (map Some active)) = ?T"
    using nn assms(8) by (simp add: GetReplicaCount_sum objs_counts reps_sum_def [symmetric] i32_id in_i32_def)
  have i: "i32 (d + surge) = d + surge" "i32 ?toAdd = ?toAdd"
    using assms(4,6,7,8) nn by (simp_all add: i32_id in_i32_def)
  obtain added m where pr: "proportions ext (mdep s) ?toAdd ?mss 0 (\<lambda>_. None) = Ret (added, m)"
    and al: "scale_all ext cl (map (\<lambda>p. (p, size_of (with_leftover ?mss ?toAdd added m) (hp s p))) ?ps) s = (Ret (), s')"
  proof -
    have run: "mbind (mlift (proportions ext (mdep s) ?toAdd ?mss 0 (\<lambda>_. None))) (\<lambda>(added, nameToSize) s.
        let sizes = with_leftover (map (hp s) ?ps) ?toAdd added nameToSize
        in scale_all ext cl (map (\<lambda>p. (p, ptr_deref (sizes (ms_Name (hp s p))) 0)) ?ps) s) s = (Ret (), s')"
      using assms(1,4,5) cnt i unfolding scale_proportionally_def assms(2) [symmetric] Let_def by simp
    then obtain added m where pr: "proportions ext (mdep s) ?toAdd ?mss 0 (\<lambda>_. None) = Ret (added, m)"
      by (cases "proportions ext (mdep s) ?toAdd ?mss 0 (\<lambda>_. None)") auto
    show ?thesis using run that [OF pr] unfolding pr by (simp add: size_of_def)
  qed
  let ?sz = "with_leftover ?mss ?toAdd added m"
  let ?xs = "map (\<lambda>p. (p, size_of ?sz (hp s p))) ?ps"
  have "distinct ?ps" using names by (simp add: distinct_map)
  then have "distinct (map fst ?xs)" by (simp add: comp_def)
  note out = conjunct2 [OF scale_all_outcome [OF al this]]
  have r': "reps s' p = size_of ?sz (hp s p)" if "p \<in> set active" for p
  proof -
    have "(p, size_of ?sz (hp s p)) \<in> set ?xs" using that set by simp
    from bspec [OF out this] show ?thesis by (simp only: prod.case)
  qed
  have "map (reps s') active = map (\<lambda>p. size_of ?sz (hp s p)) active" using r' by simp
  then have "reps_sum s' active = sum_list (map (\<lambda>p. size_of ?sz (hp s p)) active)" by (simp only: reps_sum_def [of s'])
  also have "\<dots> = sum_list (map (\<lambda>p. size_of ?sz (hp s p)) ?ps)" by (rule sums [symmetric])
  also have "\<dots> = sum_list (map (size_of ?sz) ?mss)" by (simp only: map_map comp_def)
  finally have sum': "reps_sum s' active = sum_list (map (size_of ?sz) ?mss)" .
  have "in_i32 ?toAdd" using i32_range [of ?toAdd] unfolding i(2) .
  then show ?thesis using pr r' sum' unfolding toAdd_def mss_def by blast
qed

text \<open>
  C19: scaling a rollout proportionally, with a positive number of replicas, brings the active MachineSets together to
  the deployment's replicas plus maxSurge, whatever the shares of the single MachineSets are, as long as no share goes
  against the direction of the scaling (no MachineSet shrinks when replicas are added, and none grows or shrinks by more
  than its size when they are removed); when scaling down the only exception is that the largest MachineSet has been
  emptied and the others are still above.
\<close>

theorem proportional_total:
  assumes "scale_proportionally ext cl newMS old d s = (Ret (), s')"
    and "active = FilterActiveMachineSets (hp s) (map Some old @ [newMS])" and "active \<noteq> []"
    and "distinct (map (\<lambda>p. ms_Name (hp s p)) active)"
    and "0 < d" and "MaxSurge ext (mdep s) = Ret surge" and "0 \<le> surge" and "d + surge < 2147483648"
    and "reps_sum s active < 2147483648"
    and "d + surge \<noteq> reps_sum s active \<longrightarrow> (\<forall>p\<in>set active. directed ext (mdep s) (d + surge - reps_sum s active) (hp s p))"
  shows "reps_sum s' active = d + surge \<or>
         d + surge < reps_sum s active \<and> d + surge \<le> reps_sum s' active \<and>
         (\<exists>p\<in>set active. reps s' p = 0 \<and> (\<forall>q\<in>set active. reps s q \<le> reps s p))"
proof -
  let ?T = "reps_sum s active" and ?toAdd = "d + surge - reps_sum s active"
  let ?ps = "sort_for_scaling ?toAdd (hp s) active" and ?mss = "map (hp s) (sort_for_scaling ?toAdd (hp s) active)"
  note srt = active_sorted [OF assms(2,4)]
  note act = srt(1) and set = srt(2) [of ?toAdd] and T = srt(6) [of ?toAdd]
  have names': "distinct (map (\<lambda>ms. ms_Name ms) ?mss)" using srt(4) [of ?toAdd] by (simp add: comp_def)
  obtain added m where sz: "in_i32 ?toAdd" "proportions ext (mdep s) ?toAdd ?mss 0 (\<lambda>_. None) = Ret (added, m)"
      "\<And>p. p \<in> set active \<Longrightarrow> reps s' p = size_of (with_leftover ?mss ?toAdd added m) (hp s p)"
      "reps_sum s' active = sum_list (map (size_of (with_leftover ?mss ?toAdd added m)) ?mss)"
    using scale_proportionally_sizes [OF assms(1,2,4-9)] by blast
  note in32 = sz(1) and pr = sz(2) and r' = sz(3) and sum' = sz(4)
  let ?sz = "with_leftover ?mss ?toAdd added m"
  show ?thesis
  proof (cases "?toAdd = 0")
    case True
    obtain m' where m': "proportions ext (mdep s) 0 ?mss 0 (\<lambda>_. None) = Ret (0, m')" "\<forall>ms\<in>set ?mss. size_of m' ms = replicas_or_zero ms"
    proof -
      have "\<exists>r. ms_Replicas ms = Some r" if "ms \<in> set ?mss" for ms using that act set by auto
      from proportions_none [OF this names', of ext "mdep s" 0 "\<lambda>_. None"] show ?thesis using that by blast
    qed
    have "?sz = m" using True by (simp add: with_leftover_def split: list.split)
    moreover have "m = m'" using pr m'(1) True by simp
    ultimately have eq: "map (size_of ?sz) ?mss = map replicas_or_zero ?mss" using m'(2) by simp
    have "reps_sum s' active = ?T" using sum' T by (simp only: eq)
    then show ?thesis using True by simp
  next
    case False
    have dir: "\<And>ms. ms \<in> set ?mss \<Longrightarrow> directed ext (mdep s) ?toAdd ms" using assms(10) False set by auto
    have ne: "?mss \<noteq> []" using set assms(3) by auto
    have fs: "sum_list (map (size_of ?sz) ?mss) = ?T + ?toAdd \<or>
        ?toAdd < 0 \<and> size_of ?sz (hd ?mss) = 0 \<and> ?T + ?toAdd \<le> sum_list (map (size_of ?sz) ?mss)"
      by (rule final_sizes [OF pr dir names' ne in32 False T [symmetric]]) (use assms(8,9) in simp_all)
    obtain p qs where p: "?ps = p # qs" using ne by (cases ?ps) auto
    then have pa: "p \<in> set active" using set by auto
    have big: "\<forall>q\<in>set active. reps s q \<le> reps s p" using hd_sort_for_scaling [OF False p] by (simp add: replicas_or_zero_def reps_def)
    have h: "hd ?mss = hp s p" using p by simp
    from fs show ?thesis
    proof
      assume "sum_list (map (size_of ?sz) ?mss) = ?T + ?toAdd"
      then show ?thesis using sum' by simp
    next
      assume a: "?toAdd < 0 \<and> size_of ?sz (hd ?mss) = 0 \<and> ?T + ?toAdd \<le> sum_list (map (size_of ?sz) ?mss)"
      then have "reps s' p = 0" using r' [OF pa] h by simp
      then show ?thesis using a sum' pa big by auto
    qed
  qed
qed

lemma scale_all_succeeds:
  assumes "accepts cl" and "md_Replicas (mdep s) = Some d" and "MaxSurge ext (mdep s) = Ret surge"
    and "\<And>p n. (p, n) \<in> set xs \<Longrightarrow> \<exists>x. ms_Replicas (hp s p) = Some x"
  shows "\<exists>s'. scale_all ext cl xs s = (Ret (), s')"
  using assms(2-4)
proof (induction xs arbitrary: s)
  case (Cons x xs)
  obtain p n where x: "x = (p, n)" by fastforce
  obtain y where "ms_Replicas (hp s p) = Some y" using Cons.prems(3) x by auto
  then obtain s1 where s1: "scaleMachineSet ext cl p n s = (Ret (), s1)"
    using scaleMachineSet_succeeds [OF assms(1) _ Cons.prems(1,2)] by blast
  note out = scaleMachineSet_outcome [OF s1]
  have md: "mdep s1 = mdep s" using scalesD(1) [OF out(1)] .
  have "\<exists>x. ms_Replicas (hp s1 q) = Some x" if "(q, m) \<in> set xs" for q m
    using Cons.prems(3) [of q m] that out(3) scalesD(2) [OF out(1), of q] by (cases "q = p") auto
  then show ?case using Cons.IH [of s1] Cons.prems(1,2) md s1 x by simp
qed simp

theorem proportional_total_witness:
  "\<exists>s'. scale_proportionally sample_ext sample_client (Some 3) [2] 6
          (sample_state (\<lambda>p. sample_ms (if p = 2 then ''a'' else ''b'') (int p) (Some [MaxReplicasAnnotation \<mapsto> ''4'']) ''v1'' 2 2 2)
            (sample_md 6 2 0)) = (Ret (), s') \<and> reps_sum s' [2, 3] = 8"
proof -
  let ?ms = "\<lambda>p::nat. sample_ms (if p = 2 then ''a'' else ''b'') (int p) (Some [MaxReplicasAnnotation \<mapsto> ''4'']) ''v1'' 2 2 2"
  let ?s = "sample_state ?ms (sample_md 6 2 0)"
  have act: "FilterActiveMachineSets (hp ?s) (map Some [2] @ [Some 3]) = [2, 3]"
    by (simp add: FilterActiveMachineSets_def FilterMachineSets_def activeFilter_def)
  have p4: "ParseInt 32 ''4'' = Some 4" using ParseInt_FormatInt [of 32 4] by (simp add: FormatInt_small)
  have i: "i32 2 = 2" "i32 4 = 4" "i32 8 = 8" "i32 16 = 16" by (simp_all add: i32_def)
  have fl: "\<lfloor>9 / 2 :: rat\<rfloor> = 4" by (simp add: floor_eq_iff)
  have fr: "getMachineSetFraction sample_ext (?ms p) (sample_md 6 2 0) = Ret 2" for p
    by (simp add: getMachineSetFraction_def getMaxReplicasAnnotation_def getIntFromAnnotation_def p4 i float_div_def)
       (simp add: sample_ext_def i fl)
  have dir: "directed sample_ext (sample_md 6 2 0) 4 (?ms p)" for p
    by (simp add: directed_def fr in_i32_def)
  have T: "reps_sum ?s [2, 3] = 4" by (simp add: reps_def)
  have cnt: "GetReplicaCountForMachineSets (objs ?s [Some 2, Some 3]) = 4"
    by (simp add: GetReplicaCount_sum objs_def i)
  have srt: "sort_for_scaling 4 ?ms [2, 3] = [3, 2]"
    by (simp add: sort_for_scaling_def sort_by_def go_sort_def MachineSetsBySizeNewer_Less_def replicas_or_zero_def)
  have "\<exists>s'. scale_proportionally sample_ext sample_client (Some 3) [2] 6 ?s = (Ret (), s')"
  proof -
    have gp: "GetProportion sample_ext (Some (?ms p)) (sample_md 6 2 0) 4 0 = Ret 2"
      "GetProportion sample_ext (Some (?ms p)) (sample_md 6 2 0) 4 2 = Ret 2" for p
      by (simp_all add: GetProportion_def fr i)
    have pr: "proportions sample_ext (sample_md 6 2 0) 4 (map ?ms [3, 2]) 0 (\<lambda>_. None) = Ret (4, [''b'' \<mapsto> 4, ''a'' \<mapsto> 4])"
      using gp(1) [of 3] gp(2) [of 2] by (simp add: i)
    have "\<exists>s'. scale_all sample_ext sample_client [(3, 4), (2, 4)] ?s = (Ret (), s')"
      by (rule scale_all_succeeds [where d = 6 and surge = "i32 2"]) auto
    moreover have "scale_proportionally sample_ext sample_client (Some 3) [2] 6 ?s =
        scale_all sample_ext sample_client [(3, 4), (2, 4)] ?s"
      using act cnt srt i pr by (simp add: scale_proportionally_def with_leftover_def Let_def del: scale_all.simps)
    ultimately show ?thesis by simp
  qed
  then obtain s' where run: "scale_proportionally sample_ext sample_client (Some 3) [2] 6 ?s = (Ret (), s')" by blast
  have "reps_sum s' [2, 3] = 6 + 2 \<or> 6 + 2 < reps_sum ?s [2, 3] \<and> 6 + 2 \<le> reps_sum s' [2, 3] \<and>
      (\<exists>p\<in>set [2, 3]. reps s' p = 0 \<and> (\<forall>q\<in>set [2, 3]. reps ?s q \<le> reps ?s p))"
    by (rule proportional_total [OF run act [symmetric]]) (use T dir i in simp_all)
  then show ?thesis using run T by auto
qed

lemma length_format_nat: "n < 10 ^ k \<Longrightarrow> 0 < k \<Longrightarrow> length (format_nat n) \<le> k"
proof (induction n arbitrary: k rule: format_nat.induct)
  case (1 n)
  show ?case
  proof (cases "n < 10")
    case True
    then show ?thesis using 1(3) by (subst format_nat.simps) simp
  next
    case False
    then obtain j where k: "k = Suc j" "0 < j" using 1(2,3) by (cases k; cases "k - 1") auto
    then have "n div 10 < 10 ^ j" using 1(2) by (simp add: less_mult_imp_div_less mult.commute)
    then have "length (format_nat (n div 10)) \<le> j" using 1(1) False k by simp
    then show ?thesis using False k by (subst format_nat.simps) simp
  qed
qed

lemma computeDesired_Ret:
  assumes "computeDesiredMachineSet ext cl md rnd existing old = Ret ms'"
  obtains i a where "(case existing of None \<Rightarrow> new_identity ext cl md rnd old | Some ms \<Rightarrow> existing_identity ms) = Ret i"
    "ComputeMachineSetAnnotations ext md old existing = Ret a" "ms' = build_machineset md i a"
  using assms by (auto simp: computeDesiredMachineSet_def go_simps)

lemma build_machineset_key:
  "rollout_key ext (mss_Template (ms_Spec (build_machineset md i a))) =
     (sp_Version (id_spec i),
      (sp_Bootstrap (id_spec i))\<lparr>bs_ConfigRef := map_option (drop_ref_version ext) (bs_ConfigRef (sp_Bootstrap (id_spec i)))\<rparr>,
      drop_ref_version ext (sp_InfrastructureRef (id_spec i)), sp_FailureDomain (id_spec i))"
  by (simp add: rollout_key_def build_machineset_def Let_def)

lemma build_machineset_fields [simp]:
  "ms_Name (build_machineset md i a) = id_name i" "om_UID (ms_Meta (build_machineset md i a)) = id_uid i"
  "om_Finalizers (ms_Meta (build_machineset md i a)) = id_finalizers i"
  "ms_Replicas (build_machineset md i a) = Some (id_replicas i)"
  "map_lookup (om_Labels (ms_Meta (build_machineset md i a))) MachineDeploymentUniqueLabel = Some (id_unique i)"
  "map_lookup (om_Labels (ms_Meta (build_machineset md i a))) MachineDeploymentNameLabel = Some (om_Name (md_Meta md))"
  "map_lookup (sel_MatchLabels (mss_Selector (ms_Spec (build_machineset md i a)))) MachineDeploymentUniqueLabel = Some (id_unique i)"
  "map_lookup (tp_Labels (mss_Template (ms_Spec (build_machineset md i a)))) MachineDeploymentUniqueLabel = Some (id_unique i)"
  by (simp_all add: build_machineset_def Let_def CloneAndAddLabel_def CloneSelectorAndAddLabel_def)

text \<open>
  Updating an existing MachineSet in place never replaces its machines: name, UID, finalizers, replicas
  and unique label stay, and so does everything of the template that a rollout depends on.
\<close>

lemma in_place_update_keeps_machines:
  assumes "computeDesiredMachineSet ext cl md rnd (Some ms) old = Ret ms'"
  shows "ms_Name ms' = ms_Name ms \<and> om_UID (ms_Meta ms') = om_UID (ms_Meta ms) \<and>
         om_Finalizers (ms_Meta ms') = om_Finalizers (ms_Meta ms) \<and> ms_Replicas ms' = ms_Replicas ms \<and>
         map_lookup (om_Labels (ms_Meta ms')) MachineDeploymentUniqueLabel =
           map_lookup (om_Labels (ms_Meta ms)) MachineDeploymentUniqueLabel \<and>
         rollout_key ext (mss_Template (ms_Spec ms')) = rollout_key ext (mss_Template (ms_Spec ms))"
proof -
  obtain i a where i: "existing_identity ms = Ret i" "ms' = build_machineset md i a"
    using assms by (auto elim: computeDesired_Ret)
  then obtain u r where u: "map_lookup (om_Labels (ms_Meta ms)) MachineDeploymentUniqueLabel = Some u"
    "ms_Replicas ms = Some r"
    and ident: "i = \<lparr>id_name = ms_Name ms, id_uid = om_UID (ms_Meta ms), id_finalizers = om_Finalizers (ms_Meta ms),
          id_unique = u, id_replicas = r, id_spec = tp_Spec (mss_Template (ms_Spec ms))\<rparr>"
    by (auto simp: existing_identity_def go_simps split: option.splits)
  have "rollout_key ext (mss_Template (ms_Spec ms')) = rollout_key ext (mss_Template (ms_Spec ms))"
    unfolding i(2) build_machineset_key using ident by (simp add: rollout_key_def)
  then show ?thesis using i(2) u ident by simp
qed

text \<open>
  C20: a MachineSet that is created matches the template of the MachineDeployment, so that the next
  reconciliation finds it as the new one; with a random suffix of five characters its name and the value of
  its unique label are at most 63 characters long, and its selector and its machines carry that label.
\<close>

theorem created_machineset_matches:
  assumes "computeDesiredMachineSet ext cl md rnd None old = Ret ms'" and "length rnd = 5"
  shows "fst (MachineTemplateUpToDate ext (mss_Template (ms_Spec ms')) (mds_Template (md_Spec md))) \<and>
         length (ms_Name ms') \<le> 63 \<and>
         (\<exists>u. length u \<le> 63 \<and>
            map_lookup (sel_MatchLabels (mss_Selector (ms_Spec ms'))) MachineDeploymentUniqueLabel = Some u \<and>
            map_lookup (tp_Labels (mss_Template (ms_Spec ms'))) MachineDeploymentUniqueLabel = Some u)"
proof -
  obtain i a where i: "new_identity ext cl md rnd old = Ret i" "ms' = build_machineset md i a"
    using assms(1) by (auto elim: computeDesired_Ret)
  then obtain h r where ident: "i = \<lparr>id_name = fst (computeNewMachineSetName (om_Name (md_Meta md) @ ''-'') rnd), id_uid = [],
      id_finalizers = [], id_unique = FormatInt (uint (h :: 32 word)) @ ''-'' @ rnd, id_replicas = r,
      id_spec = tp_Spec (mds_Template (md_Spec md))\<rparr>"
    by (auto simp: new_identity_def computeNewMachineSetName_def Let_def go_simps)
  have "unat h < 10 ^ 10" using unsigned_less [of h, where ?'a = nat] by simp
  then have "length (FormatInt (uint h)) \<le> 10"
    using length_format_nat [of "unat h" 10] by (simp add: FormatInt_def)
  then have u: "length (id_unique i) \<le> 63" using ident assms(2) by simp
  have n: "length (id_name i) \<le> 63"
    using ident assms(2)
    by (simp add: computeNewMachineSetName_def maxGeneratedNameLength_def maxNameLength_def randomLength_def Let_def)
  have "rollout_key ext (mss_Template (ms_Spec ms')) = rollout_key ext (mds_Template (md_Spec md))"
    unfolding i(2) build_machineset_key using ident by (simp add: rollout_key_def)
  then show ?thesis using u n i(2) by (simp add: UpToDate_iff)
qed

theorem created_machineset_matches_witness:
  "\<exists>ms'. computeDesiredMachineSet sample_ext sample_client (sample_md 3 1 0) ''abcde'' None [] = Ret ms' \<and>
         length (ms_Name ms') \<le> 63"
proof -
  have n: "\<exists>n. NewMSNewReplicas sample_ext (sample_md 3 1 0) [] 0 = Ret n"
    by (simp add: NewMSNewReplicas_def TotalMachineSetsReplicaSum_def)
       (simp add: sample_md_def sample_ext_def scaled_def TotalMachineSetsReplicaSum_eq Let_def)
  have i: "\<exists>i. new_identity sample_ext sample_client (sample_md 3 1 0) ''abcde'' [] = Ret i"
    using n by (auto simp: new_identity_def hash_Compute_def sample_client_def computeNewMachineSetName_def Let_def)
  have a: "\<exists>a. ComputeMachineSetAnnotations sample_ext (sample_md 3 1 0) [] None = Ret a"
    by (simp add: ComputeMachineSetAnnotations_def new_revision_def Let_def)
  obtain ms' where ms': "computeDesiredMachineSet sample_ext sample_client (sample_md 3 1 0) ''abcde'' None [] = Ret ms'"
    using i a by (auto simp: computeDesiredMachineSet_def)
  then show ?thesis using created_machineset_matches [OF ms'] by simp
qed

end
