(* ===== verification/Rollout_System.thy ===== *)
theory Rollout_System
  imports Md_Properties
begin

text \<open>
  A rolling update as a system: the steps of the MachineDeployment controller, whatever happens to its
  requests, and the reports of the MachineSets, in any order. The steps of the controller are those that
  \<^verbatim>\<open>rolloutRolling\<close> is made of; a report changes the number of machines that the status of a MachineSet
  shows towards its desired size.
\<close>

section \<open>Steps\<close>

definition with_report :: "machineset \<Rightarrow> int \<Rightarrow> int \<Rightarrow> machineset" where
  "with_report ms n a = ms\<lparr>ms_Status := (ms_Status ms)\<lparr>mst_Replicas := n, mst_AvailableReplicas := a\<rparr>\<rparr>"

inductive rollout_step :: "md_ext \<Rightarrow> addr list \<Rightarrow> addr \<Rightarrow> md_state \<Rightarrow> md_state \<Rightarrow> bool" for ext old new where
  scale_new: "reconcileNewMachineSet ext cl (map Some (old @ [new])) new s = (r, s') \<Longrightarrow> rollout_step ext old new s s'"
| scale_old: "reconcileOldMachineSets ext cl (map Some (old @ [new])) old new s = (r, s') \<Longrightarrow> rollout_step ext old new s s'"
| sync_status: "syncDeploymentStatus ext cl (map Some (old @ [new])) (Some new) s = (r, s') \<Longrightarrow> rollout_step ext old new s s'"
| report: "p \<in> set (old @ [new]) \<Longrightarrow> min (reps s p) (ms_StatusReplicas (hp s p)) \<le> n \<Longrightarrow> n \<le> peak s p \<Longrightarrow> 0 \<le> a \<Longrightarrow> a \<le> n \<Longrightarrow>
    rollout_step ext old new s (put_ms p (with_report (hp s p) n a) s)"

text \<open>The controller part of \<^verbatim>\<open>rolloutRolling\<close> between finding the MachineSets and cleaning up.\<close>

definition rolling_part :: "md_ext \<Rightarrow> md_client \<Rightarrow> addr list \<Rightarrow> addr \<Rightarrow> unit mdm" where
  "rolling_part ext cl old new =
     mbind (reconcileNewMachineSet ext cl (map Some old @ [Some new]) new) (\<lambda>_.
     mbind (syncDeploymentStatus ext cl (map Some old @ [Some new]) (Some new)) (\<lambda>_.
     mbind (reconcileOldMachineSets ext cl (map Some old @ [Some new]) old new) (\<lambda>_.
       syncDeploymentStatus ext cl (map Some old @ [Some new]) (Some new))))"

lemma mbind_assoc: "mbind (mbind m f) g = mbind m (\<lambda>x. mbind (f x) g)"
  by (rule ext) (auto simp: mbind_def split: prod.splits go.splits)

lemma rolloutRolling_parts:
  "rolloutRolling ext cl msList templateExists =
     mbind (getAllMachineSetsAndSyncRevision ext cl msList True templateExists) (\<lambda>(newMS, oldMSs).
       case newMS of None \<Rightarrow> mret ()
       | Some n \<Rightarrow> mbind (rolling_part ext cl oldMSs n) (\<lambda>_. finish_rollout cl oldMSs))"
  unfolding rolloutRolling_def rolling_part_def mbind_assoc Let_def by (rule refl)

section \<open>Old MachineSets only shrink\<close>

definition counted :: "md_state \<Rightarrow> addr \<Rightarrow> bool" where
  "counted s p \<longleftrightarrow> sized s p \<and> 0 \<le> avail s p \<and> avail s p < 2147483648"

definition shrinks :: "addr list \<Rightarrow> md_state \<Rightarrow> md_state \<Rightarrow> bool" where
  "shrinks ps s s' \<longleftrightarrow> scales (set ps) s s' \<and> (\<forall>p \<in> set ps. sized s' p \<and> reps s' p \<le> reps s p)"

lemma shrinks_refl: "(\<And>p. p \<in> set ps \<Longrightarrow> sized s p) \<Longrightarrow> shrinks ps s s"
  by (simp add: shrinks_def)

lemma shrinks_trans: "shrinks ps s t \<Longrightarrow> shrinks ps t u \<Longrightarrow> shrinks ps s u"
  unfolding shrinks_def using scales_trans order_trans by metis

lemma shrinks_counted: "shrinks ps s t \<Longrightarrow> p \<in> set ps \<Longrightarrow> counted s p \<Longrightarrow> counted t p"
  using scalesD(6) by (fastforce simp: shrinks_def counted_def)

lemma shrinks_cons:
  assumes "scales {p} s t" "sized t p" "reps t p \<le> reps s p" "shrinks ps t u" "p \<notin> set ps" "\<And>q. q \<in> set ps \<Longrightarrow> sized s q"
  shows "shrinks (p # ps) s u"
proof -
  have "scales (set (p # ps)) s t" "scales (set (p # ps)) t u"
    using scales_mono [OF assms(1)] assms(4) scales_mono [of "set ps" t u "set (p # ps)"] by (auto simp: shrinks_def)
  then have "scales (set (p # ps)) s u" by (rule scales_trans)
  moreover have "reps t q = reps s q" if "q \<in> set ps" for q
    using scales_outside(1) [OF assms(1), of q] that assms(5) by auto
  moreover have "reps u p = reps t p" "sized u p = sized t p"
    using scales_outside [of "set ps" t u p] assms(4,5) by (simp_all add: shrinks_def)
  ultimately show ?thesis using assms(2-4) by (auto simp: shrinks_def)
qed

lemma cleanup_loop_shrinks:
  assumes "cleanup_loop ext cl c t ps s = (r, s')" "distinct ps" "\<And>p. p \<in> set ps \<Longrightarrow> counted s p" "0 \<le> t" "c < 2147483648"
  shows "shrinks ps s s'"
  using assms(1-4)
proof (induction ps arbitrary: t s)
  case Nil
  then show ?case by (simp add: shrinks_def)
next
  case (Cons p ps)
  have p: "sized s p" "0 \<le> avail s p" "avail s p < 2147483648" "p \<notin> set ps" using Cons.prems(2,3) by (auto simp: counted_def)
  have sz: "\<And>q. q \<in> set ps \<Longrightarrow> sized s q" using Cons.prems(3) by (simp add: counted_def)
  note x = sized_reps [OF p(1)]
  let ?sc = "min (c - t) (reps s p - avail s p)"
  have skip: ?case if "cleanup_loop ext cl c t ps s = (r, s')"
    using shrinks_cons [of p s s ps s'] Cons.IH [OF that] Cons.prems(2-4) p(1) sz by (simp add: counted_def)
  consider "c \<le> t" | "t < c" "reps s p = 0 \<or> reps s p = avail s p" | "t < c" "reps s p \<noteq> 0" "reps s p \<noteq> avail s p" by linarith
  then show ?case
  proof cases
    case 1
    then have "s' = s" using Cons.prems(1) x by simp
    then show ?thesis using shrinks_refl [of "p # ps" s] p(1) sz by auto
  next
    case 2
    then show ?thesis using Cons.prems(1) x skip by (auto simp: avail_def Let_def split: if_splits)
  next
    case 3
    have i: "i32 (c - t) = c - t" "i32 (reps s p - avail s p) = reps s p - avail s p" "i32 (reps s p - ?sc) = reps s p - ?sc"
      using 3(1) Cons.prems(4) assms(5) x p by (auto intro!: i32_id simp: in_i32_def)
    show ?thesis
    proof (cases "reps s p - ?sc > reps s p")
      case True
      then have "reps s p < avail s p" using 3(1) by linarith
      then have "s' = s" using Cons.prems(1) x 3 i by (auto simp: Let_def avail_def split: if_splits)
      then show ?thesis using shrinks_refl [of "p # ps" s] p(1) sz by auto
    next
      case False
      have sc: "0 \<le> ?sc" "?sc \<le> reps s p" "i32 (t + ?sc) = t + ?sc"
        using False 3(1) p Cons.prems(4) assms(5) by (auto intro!: i32_id simp: in_i32_def)
      obtain r1 u where u: "scaleMachineSet ext cl p (reps s p - ?sc) s = (r1, u)" by fastforce
      have w: "scales {p} s u" "sized u p" "reps u p \<le> reps s p"
        using scale_within [OF u p(1)] sc(1,2) by simp_all
      have cu: "counted u q" if "q \<in> set ps" for q
      proof -
        have "q \<noteq> p" "counted s q" using that p(4) Cons.prems(3) by auto
        then show ?thesis using scales_outside(2) [OF w(1), of q] scalesD(6) [OF w(1)] by (simp add: counted_def)
      qed
      have run: "mbind (scaleMachineSet ext cl p (reps s p - ?sc)) (\<lambda>_. cleanup_loop ext cl c (t + ?sc) ps) s = (r, s')"
        using Cons.prems(1) x 3 i sc(3) False by (simp add: Let_def avail_def)
      show ?thesis
      proof (cases r1)
        case (Ret y)
        then have "cleanup_loop ext cl c (t + ?sc) ps u = (r, s')" using run u by simp
        from Cons.IH [OF this] have "shrinks ps u s'" using Cons.prems(2,4) cu sc(1) by simp
        then show ?thesis using shrinks_cons [OF w _ p(4) sz] by simp
      qed (use run u w p(4) sz cu shrinks_cons [OF w shrinks_refl p(4) sz] in \<open>auto simp: counted_def\<close>)
    qed
  qed
qed

lemma scale_down_loop_shrinks:
  assumes "scale_down_loop ext cl c 0 ps s = (r, s')" "distinct ps" "\<And>p. p \<in> set ps \<Longrightarrow> sized s p" "c < 2147483648"
  shows "shrinks ps s s'"
proof (cases "0 \<le> c")
  case True
  then show ?thesis using scale_down_loop_outcome [OF assms(1-3) _ True assms(4)] by (simp add: shrinks_def)
next
  case False
  have "s' = s"
    using assms(1) sized_reps [OF assms(3)] False by (cases ps) auto
  then show ?thesis using shrinks_refl assms(3) by blast
qed

lemma shrinks_set: "set ps = set qs \<Longrightarrow> shrinks ps s t = shrinks qs s t"
  by (simp add: shrinks_def)

lemma scaleDownOld_shrinks:
  assumes "scaleDownOldMachineSetsForRollingUpdate ext cl all old s = (r, s')" "distinct old" "\<And>p. p \<in> set old \<Longrightarrow> sized s p"
  shows "shrinks old s s'"
proof -
  let ?ps = "sort_by MachineSetsByCreationTimestamp_Less (hp s) old"
  consider "s' = s" | c where "scale_down_loop ext cl (i32 c) 0 ?ps s = (r, s')"
    using assms(1) by (cases "MaxUnavailable ext (mdep s)") (auto simp: scaleDownOldMachineSetsForRollingUpdate_def Let_def split: option.splits if_splits)
  then show ?thesis
  proof cases
    case 1
    then show ?thesis using shrinks_refl assms(3) by blast
  next
    case (2 c)
    have "shrinks ?ps s s'"
      using scale_down_loop_shrinks [OF 2] assms(2,3) i32_range [of c] by (simp add: in_i32_def)
    then show ?thesis using shrinks_set [of ?ps old] by simp
  qed
qed

lemma reconcileOld_shrinks:
  assumes "reconcileOldMachineSets ext cl all old new s = (r, s')" "distinct old" "\<And>p. p \<in> set old \<Longrightarrow> counted s p"
  shows "shrinks old s s'"
proof -
  have sz: "\<And>p. p \<in> set old \<Longrightarrow> sized s p" using assms(3) by (simp add: counted_def)
  consider "s' = s" | m where "mbind (cleanupUnhealthyReplicas ext cl old (i32 m)) (\<lambda>(old', _).
          mbind (scaleDownOldMachineSetsForRollingUpdate ext cl (map Some old' @ [Some new]) old') (\<lambda>_. mret ())) s = (r, s')"
    using assms(1) by (cases "MaxUnavailable ext (mdep s)") (auto simp: reconcileOldMachineSets_def Let_def split: option.splits if_splits)
  then show ?thesis
  proof cases
    case 1
    then show ?thesis using shrinks_refl sz by blast
  next
    case (2 m)
    let ?ps = "sort_by MachineSetsByCreationTimestamp_Less (hp s) old"
    obtain r1 t where l: "cleanup_loop ext cl (i32 m) 0 ?ps s = (r1, t)" by fastforce
    have "shrinks ?ps s t"
      using cleanup_loop_shrinks [OF l] assms(2,3) i32_range [of m] by (simp add: in_i32_def)
    then have st: "shrinks old s t" using shrinks_set [of ?ps old] by simp
    show ?thesis
    proof (cases r1)
      case (Ret k)
      obtain r2 u where d: "scaleDownOldMachineSetsForRollingUpdate ext cl (map Some ?ps @ [Some new]) ?ps t = (r2, u)" by fastforce
      have "shrinks ?ps t u"
        using scaleDownOld_shrinks [OF d] assms(2) st by (simp add: shrinks_def)
      then have "shrinks old t u" using shrinks_set [of ?ps old] by simp
      moreover have "s' = u"
        using 2 l Ret d by (cases r2) (simp_all add: cleanupUnhealthyReplicas_def mbind_def mret_def)
      ultimately show ?thesis using st shrinks_trans by blast
    qed (use 2 l st in \<open>auto simp: cleanupUnhealthyReplicas_def mbind_def\<close>)
  qed
qed

section \<open>The invariant of a rollout\<close>

lemma sync_frame:
  assumes "syncDeploymentStatus ext cl all new s = (r, s')"
  shows "hp s' = hp s" "\<exists>status. mdep s' = (mdep s)\<lparr>md_Status := status\<rparr>"
proof -
  have "hp s' = hp s \<and> (\<exists>status. mdep s' = (mdep s)\<lparr>md_Status := status\<rparr>)"
    using assms by (auto simp: syncDeploymentStatus_def Let_def split: go.splits)
      (metis machinedeployment.surjective machinedeployment.update_convs(3))+
  then show "hp s' = hp s" "\<exists>status. mdep s' = (mdep s)\<lparr>md_Status := status\<rparr>" by blast+
qed

lemma status_frame [simp]:
  "IsRollingUpdate (md\<lparr>md_Status := st\<rparr>) = IsRollingUpdate md" "MaxSurge ext (md\<lparr>md_Status := st\<rparr>) = MaxSurge ext md"
  "MaxUnavailable ext (md\<lparr>md_Status := st\<rparr>) = MaxUnavailable ext md" "surge_value ext (md\<lparr>md_Status := st\<rparr>) = surge_value ext md"
  "strategy_ok ext (md\<lparr>md_Status := st\<rparr>) = strategy_ok ext md"
  by (simp_all add: IsRollingUpdate_def MaxSurge_def MaxUnavailable_def fenceposts_or_zero_def surge_value_def strategy_ok_def cong: if_cong)

definition rollout_inv :: "md_ext \<Rightarrow> addr list \<Rightarrow> addr \<Rightarrow> int \<Rightarrow> int \<Rightarrow> md_state \<Rightarrow> bool" where
  "rollout_inv ext old new d surge s \<longleftrightarrow> rolling_ok ext s old new d surge \<and>
     (\<forall>p \<in> set (old @ [new]). counted s p \<and> 0 \<le> ms_StatusReplicas (hp s p))"

definition rollout_bound :: "addr list \<Rightarrow> addr \<Rightarrow> int \<Rightarrow> int \<Rightarrow> md_state \<Rightarrow> int" where
  "rollout_bound old new d surge s = max (peak_sum s (old @ [new])) (d + surge)"

text \<open>What every step keeps: the invariant, the bound on the machines, and the MachineSets that shrink.\<close>

definition kept_by_step :: "md_ext \<Rightarrow> addr list \<Rightarrow> addr \<Rightarrow> int \<Rightarrow> int \<Rightarrow> md_state \<Rightarrow> md_state \<Rightarrow> bool" where
  "kept_by_step ext old new d surge s s' \<longleftrightarrow> rollout_inv ext old new d surge s' \<and>
     peak_sum s' (old @ [new]) \<le> rollout_bound old new d surge s \<and> (\<forall>p \<in> set old. reps s' p \<le> reps s p)"

lemma peak_sum_nonneg: "(\<And>p. p \<in> set ps \<Longrightarrow> sized s p) \<Longrightarrow> 0 \<le> peak_sum s ps"
proof (induction ps)
  case (Cons p ps)
  then show ?case using sized_reps [of s p] by (auto simp: peak_def)
qed simp

lemma kept_by_scaling:
  assumes "rollout_inv ext old new d surge s" "scales P s s'" "\<And>p. p \<in> set (old @ [new]) \<Longrightarrow> sized s' p"
    "peak_sum s' (old @ [new]) \<le> rollout_bound old new d surge s" "\<And>p. p \<in> set old \<Longrightarrow> reps s' p \<le> reps s p"
  shows "kept_by_step ext old new d surge s s'"
proof -
  have "rolling_ok ext s' old new d surge"
    using assms(1,3,4) scalesD(1) [OF assms(2)] peak_sum_nonneg [of "old @ [new]" s']
    by (auto simp: rollout_inv_def rolling_ok_def rollout_bound_def)
  moreover have "counted s' p \<and> 0 \<le> ms_StatusReplicas (hp s' p)" if "p \<in> set (old @ [new])" for p
    using assms(1,3) that scalesD(6,3) [OF assms(2)] by (auto simp: rollout_inv_def counted_def)
  ultimately show ?thesis using assms(4,5) by (simp add: kept_by_step_def rollout_inv_def)
qed

lemma step_keeps:
  assumes "rollout_step ext old new s s'" "rollout_inv ext old new d surge s"
  shows "kept_by_step ext old new d surge s s'"
  using assms(1)
proof cases
  case (scale_new cl r)
  have ok: "rolling_ok ext s old new d surge" using assms(2) by (simp add: rollout_inv_def)
  note out = reconcileNew_outcome [OF scale_new ok]
  have "p \<noteq> new" if "p \<in> set old" for p using ok that by (auto simp: rolling_ok_def)
  then have other: "reps s' p = reps s p" "sized s' p = sized s p" if "p \<in> set old" for p
    using scales_outside [OF out(1), of p] that by auto
  show ?thesis
    by (rule kept_by_scaling [OF assms(2) out(1)])
      (use out(2,5) other ok in \<open>auto simp: rollout_bound_def rolling_ok_def\<close>)
next
  case (scale_old cl r)
  have ok: "rolling_ok ext s old new d surge" "\<And>p. p \<in> set (old @ [new]) \<Longrightarrow> counted s p"
    using assms(2) by (auto simp: rollout_inv_def)
  then have sh: "shrinks old s s'" using reconcileOld_shrinks [OF scale_old] by (auto simp: rolling_ok_def)
  then have out: "scales (set old) s s'" "\<And>p. p \<in> set old \<Longrightarrow> sized s' p \<and> reps s' p \<le> reps s p" by (auto simp: shrinks_def)
  have n: "reps s' new = reps s new" "sized s' new = sized s new"
    using scales_outside [OF out(1), of new] ok(1) by (auto simp: rolling_ok_def)
  have "peak s' p \<le> peak s p" if "p \<in> set (old @ [new])" for p
  proof -
    have "reps s' p \<le> reps s p" using that out(2) n(1) by auto
    then show ?thesis unfolding peak_scaled [OF out(1)] peak_def [of s] by (rule max.mono) simp
  qed
  from peak_sum_mono [of "old @ [new]", OF this] have "peak_sum s' (old @ [new]) \<le> rollout_bound old new d surge s"
    by (simp add: rollout_bound_def)
  then show ?thesis
    by (intro kept_by_scaling [OF assms(2) out(1)]) (use out n ok in \<open>auto simp: rolling_ok_def\<close>)
next
  case (sync_status cl r)
  obtain st where "hp s' = hp s" "mdep s' = (mdep s)\<lparr>md_Status := st\<rparr>" using sync_frame [OF sync_status] by blast
  then have "peak s' = peak s" "reps s' = reps s" "sized s' = sized s" "counted s' = counted s"
    by (auto simp: peak_def reps_def sized_def counted_def avail_def fun_eq_iff)
  then show ?thesis using assms(2) \<open>hp s' = hp s\<close> \<open>mdep s' = _\<close>
    by (simp add: kept_by_step_def rollout_inv_def rolling_ok_def rollout_bound_def peak_sum_def)
next
  case (report p n a)
  have h: "hp s' = (hp s)(p := with_report (hp s p) n a)" "mdep s' = mdep s" using report(1) by (simp_all add: put_ms_def)
  then have r: "reps s' = reps s" "sized s' = sized s"
    by (auto simp: reps_def sized_def with_report_def fun_eq_iff)
  have p: "sized s p" "0 \<le> ms_StatusReplicas (hp s p)" "peak s p \<le> peak_sum s (old @ [new])"
  proof -
    show "sized s p" "0 \<le> ms_StatusReplicas (hp s p)" using assms(2) report(2) by (auto simp: rollout_inv_def counted_def)
    have "0 \<le> peak s q" if "q \<in> set (old @ [new])" for q
      using assms(2) that sized_reps [of s q] by (auto simp: rollout_inv_def counted_def peak_def)
    then have "\<forall>x \<in> set (map (peak s) (old @ [new])). 0 \<le> x" by auto
    then show "peak s p \<le> peak_sum s (old @ [new])"
      unfolding peak_sum_def by (intro member_le_sum_list) (use report(2) in auto)
  qed
  have peak: "peak s' q \<le> peak s q" for q
    unfolding peak_def r(1) h(1) using report(4) by (auto simp: with_report_def peak_def)
  have le: "peak_sum s' (old @ [new]) \<le> peak_sum s (old @ [new])" by (rule peak_sum_mono) (rule peak)
  have "counted s' q \<and> 0 \<le> ms_StatusReplicas (hp s' q)" if "q \<in> set (old @ [new])" for q
    using assms(2) that report(3-6) p sized_reps [OF p(1)] unfolding rollout_inv_def counted_def r(2) avail_def h(1)
    by (auto simp: with_report_def rolling_ok_def)
  then show ?thesis using assms(2) le peak_sum_nonneg [of "old @ [new]" s']
    by (auto simp: kept_by_step_def rollout_inv_def rolling_ok_def rollout_bound_def r h(2))
qed

section \<open>Rounds\<close>

text \<open>A round: the controller runs and its requests succeed, then all MachineSets report that they are complete.\<close>

definition all_reported :: "addr list \<Rightarrow> md_state \<Rightarrow> bool" where
  "all_reported ps s \<longleftrightarrow> (\<forall>p \<in> set ps. ms_StatusReplicas (hp s p) = reps s p \<and> avail s p = reps s p)"

definition reported :: "addr list \<Rightarrow> md_state \<Rightarrow> md_state" where
  "reported ps s = s\<lparr>hp := (\<lambda>p. if p \<in> set ps then with_report (hp s p) (reps s p) (reps s p) else hp s p)\<rparr>"

definition rollout_round :: "md_ext \<Rightarrow> md_client \<Rightarrow> addr list \<Rightarrow> addr \<Rightarrow> md_state \<Rightarrow> md_state" where
  "rollout_round ext cl old new s = reported (old @ [new]) (snd (rolling_part ext cl old new s))"

lemma reported_frame [simp]:
  "reps (reported ps s) = reps s" "sized (reported ps s) = sized s" "mdep (reported ps s) = mdep s" "all_reported ps (reported ps s)"
proof -
  show r: "reps (reported ps s) = reps s" "sized (reported ps s) = sized s" "mdep (reported ps s) = mdep s"
    by (auto simp: reported_def reps_def sized_def with_report_def fun_eq_iff)
  show "all_reported ps (reported ps s)"
    unfolding all_reported_def avail_def r by (simp add: reported_def with_report_def)
qed

lemma rolling_MaxSurge:
  assumes "IsRollingUpdate md = Ret True" "surge_value ext md = Ret surge"
  shows "\<exists>x. MaxSurge ext md = Ret x"
proof -
  obtain st ru d where "md_Strategy md = Some st" "str_RollingUpdate st = Some ru" "md_Replicas md = Some d"
    using assms(2) by (auto simp: surge_value_def go_simps)
  moreover have "\<exists>a b. ignore_err (0, 0) (ResolveFenceposts ext sv uv d) = Ret (a, b)" for sv uv
    by (auto simp: ResolveFenceposts_def scaled_def split: sum.splits)
  ultimately show ?thesis using assms(1)
    by (auto simp: MaxSurge_def fenceposts_or_zero_def) (metis case_prod_conv go_bind.simps(1))
qed

lemma scale_returns:
  assumes "accepts cl" "sized s p" "md_Replicas (mdep s) = Some d" "IsRollingUpdate (mdep s) = Ret True" "surge_value ext (mdep s) = Ret surge"
  shows "\<exists>s'. scaleMachineSet ext cl p n s = (Ret (), s')"
proof -
  obtain x where "MaxSurge ext (mdep s) = Ret x" using rolling_MaxSurge [OF assms(4,5)] by blast
  then show ?thesis using scaleMachineSet_succeeds [OF assms(1) _ assms(3)] sized_reps [OF assms(2)] by metis
qed

lemma new_returns:
  assumes "rolling_ok ext s old new d surge" "accepts cl"
  shows "\<exists>s'. reconcileNewMachineSet ext cl (map Some (old @ [new])) new s = (Ret (), s')"
proof -
  have ok: "sized s new" "md_Replicas (mdep s) = Some d" "IsRollingUpdate (mdep s) = Ret True" "surge_value ext (mdep s) = Ret surge"
    using assms(1) by (simp_all add: rolling_ok_def)
  have sc: "\<exists>s'. scaleMachineSet ext cl new n s = (Ret (), s')" for n by (rule scale_returns [OF assms(2) ok])
  have "\<exists>n. NewMSNewReplicas ext (mdep s) (objs s (map Some (old @ [new]))) (reps s new) = Ret n"
  proof -
    have "NewMSNewReplicas ext (mdep s) (objs s (map Some (old @ [new]))) (reps s new) =
      Ret (if peak_sum s (old @ [new]) \<ge> d + surge then reps s new
           else min d (reps s new + (d + surge - peak_sum s (old @ [new]))))"
    proof (rule NewMSNewReplicas_rolling)
      show "list_all has_replicas (objs s (map Some (old @ [new])))"
        by (rule objs_has_replicas) (use assms(1) in \<open>auto simp: rolling_ok_def\<close>)
      show "peak_sum s (old @ [new]) = sum_list (map total_count (objs s (map Some (old @ [new]))))"
        by (simp only: objs_total peak_sum_def)
    qed (use assms(1) sized_reps [OF ok(1)] surge_value_bounds(1) [OF ok(4)] in \<open>auto simp: rolling_ok_def in_i32_def\<close>)
    then show ?thesis by blast
  qed
  then show ?thesis using sc ok(2) sized_reps [OF ok(1)] by (auto simp: reconcileNewMachineSet_def)
qed

lemma scale_down_loop_returns:
  assumes "accepts cl" "md_Replicas (mdep s) = Some d" "IsRollingUpdate (mdep s) = Ret True" "surge_value ext (mdep s) = Ret surge"
    and "distinct ps" "\<And>p. p \<in> set ps \<Longrightarrow> sized s p" "0 \<le> t" "t \<le> c" "c < 2147483648"
  shows "\<exists>k s'. scale_down_loop ext cl c t ps s = (Ret k, s')"
  using assms(2-8)
proof (induction ps arbitrary: t s)
  case (Cons p ps)
  have p: "sized s p" "p \<notin> set ps" using Cons.prems by simp_all
  note x = sized_reps [OF p(1)]
  consider "t = c" | "t < c" "reps s p = 0" | "t < c" "reps s p \<noteq> 0" using Cons.prems(7) by linarith
  then show ?case
  proof cases
    case 1
    then show ?thesis using x by simp
  next
    case 2
    then show ?thesis using x Cons.IH [OF Cons.prems(1-3)] Cons.prems(4-7) by simp
  next
    case 3
    note st = scale_down_loop_step [OF p(1) Cons.prems(6) 3(1) assms(9) 3(2)]
    let ?k = "min (reps s p) (c - t)"
    obtain u where u: "scaleMachineSet ext cl p (reps s p - ?k) s = (Ret (), u)"
      using scale_returns [OF assms(1) p(1) Cons.prems(1-3)] by blast
    have su: "scales {p} s u" using scaleMachineSet_outcome(1) [OF u] .
    have "sized u q" if "q \<in> set ps" for q
      using scales_outside(2) [OF su, of q] that p(2) Cons.prems(5) [of q] by auto
    then have "\<exists>k s'. scale_down_loop ext cl c (t + ?k) ps u = (Ret k, s')"
      using Cons.IH [of u "t + ?k"] Cons.prems scalesD(1) [OF su] st(2,4) by simp
    then show ?thesis using st(1) u by simp
  qed
qed simp

lemma cleanup_nothing:
  assumes "\<And>p. p \<in> set ps \<Longrightarrow> sized s p \<and> avail s p = reps s p"
  shows "cleanup_loop ext cl c t ps s = (Ret t, s)"
  using assms
proof (induction ps)
  case (Cons p ps)
  then show ?case using sized_reps [of s p] by (auto simp: avail_def Let_def)
qed simp

lemma sync_returns:
  assumes "md_Replicas (mdep s) = Some d" "MaxUnavailable ext (mdep s) = Ret mu" "cl_SelectorString cl (mds_Selector (md_Spec (mdep s))) \<noteq> None"
  shows "\<exists>s'. syncDeploymentStatus ext cl all new s = (Ret (), s')"
  using assms by (auto simp: syncDeploymentStatus_def calculateStatus_def Let_def)

lemma reps_sum_zero: "(\<And>p. p \<in> set ps \<Longrightarrow> reps s p = 0) \<Longrightarrow> reps_sum s ps = 0"
  by (induction ps) (simp_all add: reps_sum_def)

lemma reps_sum_zeroD:
  assumes "reps_sum s ps = 0" "\<And>p. p \<in> set ps \<Longrightarrow> sized s p" "p \<in> set ps"
  shows "reps s p = 0"
proof -
  have "\<forall>x \<in> set (map (reps s) ps). 0 \<le> x" using assms(2) sized_reps by auto
  then have "reps s p \<le> reps_sum s ps"
    unfolding reps_sum_def by (intro member_le_sum_list) (use assms(3) in auto)
  then show ?thesis using assms(1) sized_reps [OF assms(2) [OF assms(3)]] by linarith
qed

lemma scaleDownOld_returns:
  assumes "accepts cl" "md_Replicas (mdep s) = Some d" "IsRollingUpdate (mdep s) = Ret True" "surge_value ext (mdep s) = Ret surge"
    and "MaxUnavailable ext (mdep s) = Ret mu" "0 \<le> mu" "mu \<le> d" "d < 2147483648"
    and "0 \<le> avail_sum s all" "avail_sum s all < 2147483648" "distinct old" "\<And>p. p \<in> set old \<Longrightarrow> sized s p"
  shows "\<exists>k s'. scaleDownOldMachineSetsForRollingUpdate ext cl (map Some all) old s = (Ret k, s')"
proof -
  let ?A = "avail_sum s all" and ?ps = "sort_by MachineSetsByCreationTimestamp_Less (hp s) old"
  have cnt: "GetAvailableReplicaCountForMachineSets (objs s (map Some all)) = ?A"
    using assms(9,10) by (simp add: GetAvailableReplicaCount_sum objs_counts avail_sum_def [symmetric] i32_id in_i32_def)
  have m: "i32 (d - mu) = d - mu" using assms(6-8) by (simp add: i32_id in_i32_def)
  show ?thesis
  proof (cases "?A \<le> d - mu")
    case True
    then show ?thesis using assms(2,5) cnt m by (simp add: scaleDownOldMachineSetsForRollingUpdate_def)
  next
    case False
    then have i: "i32 (?A - (d - mu)) = ?A - (d - mu)" using assms(6-10) by (simp add: i32_id in_i32_def)
    have "\<exists>k s'. scale_down_loop ext cl (?A - (d - mu)) 0 ?ps s = (Ret k, s')"
      by (rule scale_down_loop_returns [OF assms(1-4)]) (use False assms(6,7,10-12) in auto)
    then show ?thesis using False assms(2,5) cnt m i
      by (simp add: scaleDownOldMachineSetsForRollingUpdate_def del: scale_down_loop.simps)
  qed
qed

text \<open>With every old machine available, the old MachineSets are left with what the new one does not yet provide.\<close>

lemma reconcileOld_exact:
  assumes "accepts cl" "rolling_ok ext s old new d surge" "MaxUnavailable ext (mdep s) = Ret mu"
    and "\<And>p. p \<in> set old \<Longrightarrow> avail s p = reps s p" "0 \<le> avail s new"
    and "reps_sum s old + avail s new < 2147483648" "reps_sum s (old @ [new]) < 2147483648"
  shows "\<exists>s'. reconcileOldMachineSets ext cl (map Some (old @ [new])) old new s = (Ret (), s') \<and>
     reps_sum s' old = (if reps_sum s old + avail s new \<le> d - mu then reps_sum s old else max 0 (d - mu - avail s new))"
proof -
  let ?O = "reps_sum s old" and ?N = "avail s new" and ?ps = "sort_by MachineSetsByCreationTimestamp_Less (hp s) old"
  have ok: "distinct old" "\<And>p. p \<in> set (old @ [new]) \<Longrightarrow> sized s p" "md_Replicas (mdep s) = Some d" "0 \<le> d"
    "IsRollingUpdate (mdep s) = Ret True" "surge_value ext (mdep s) = Ret surge" "strategy_ok ext (mdep s)"
    using assms(2) by (auto simp: rolling_ok_def)
  have d: "d < 2147483648" using assms(2) surge_value_bounds(1) [OF ok(6,7)] by (simp add: rolling_ok_def)
  note mu = MaxUnavailable_bounds [OF ok(7) assms(3) ok(3,4)]
  have szo: "\<And>p. p \<in> set old \<Longrightarrow> sized s p" and szn: "sized s new" using ok(2) by auto
  note n = sized_reps [OF szn]
  have O: "0 \<le> ?O" using reps_sum_nonneg [OF szo] .
  have all: "reps_sum s (old @ [new]) = ?O + reps s new" by (simp add: reps_sum_def)
  have av: "avail_sum s (?ps @ [new]) = ?O + ?N"
  proof -
    have "avail_sum s ?ps = avail_sum s old" by (simp add: avail_sum_def)
    also have "\<dots> = ?O" unfolding avail_sum_def reps_sum_def using assms(4) by (metis map_eq_conv)
    finally show ?thesis by (simp add: avail_sum_def)
  qed
  have cnt: "GetReplicaCountForMachineSets (objs s (map Some old)) = ?O"
    "GetReplicaCountForMachineSets (objs s (map Some (old @ [new]))) = ?O + reps s new"
    using O n assms(7) all by (simp_all only: GetReplicaCount_sum objs_counts reps_sum_def [symmetric] all) (auto intro!: i32_id simp: in_i32_def)
  have e: "?O + reps s new - (d - mu) - (reps s new - ?N) = ?O + ?N - (d - mu)" by simp
  have i: "i32 (d - mu) = d - mu" "i32 (reps s new - ?N) = reps s new - ?N"
    "i32 (?O + reps s new - (d - mu)) = ?O + reps s new - (d - mu)"
    "i32 (?O + reps s new - (d - mu) - (reps s new - ?N)) = ?O + ?N - (d - mu)"
    unfolding e using O n d mu assms(5-7) all by (auto intro!: i32_id simp: in_i32_def)
  consider "?O = 0" | "?O \<noteq> 0" "?O + ?N \<le> d - mu" | "?O \<noteq> 0" "d - mu < ?O + ?N" by linarith
  then show ?thesis
  proof cases
    case 1
    then show ?thesis using ok(3) n cnt by (simp add: reconcileOldMachineSets_def)
  next
    case 2
    then show ?thesis using ok(3) n cnt i assms(3) by (simp add: reconcileOldMachineSets_def Let_def avail_def)
  next
    case 3
    have cl: "cleanup_loop ext cl m 0 ?ps s = (Ret 0, s)" for m
      by (rule cleanup_nothing) (use assms(4) szo in auto)
    obtain k u where u: "scaleDownOldMachineSetsForRollingUpdate ext cl (map Some (?ps @ [new])) ?ps s = (Ret k, u)"
      using scaleDownOld_returns [OF assms(1) ok(3,5,6) assms(3) mu d, of "?ps @ [new]" ?ps] av O assms(5,6) ok(1) szo by auto
    have run: "reconcileOldMachineSets ext cl (map Some (old @ [new])) old new s = (Ret (), u)"
      using 3 ok(3) n cnt i assms(3) cl u by (simp add: reconcileOldMachineSets_def cleanupUnhealthyReplicas_def Let_def avail_def)
    note out = scaleDownOld_outcome [OF u ok(3) assms(3) mu d]
    have ou: "reps_sum t ?ps = reps_sum t old" for t by (simp add: reps_sum_def)
    have "reps_sum s old - reps_sum u old \<le> ?O + ?N - (d - mu)" "\<And>p. p \<in> set old \<Longrightarrow> sized u p"
      "reps_sum s old - reps_sum u old = ?O + ?N - (d - mu) \<or> (\<forall>p \<in> set old. reps u p = 0)"
      using out av O assms(5,6) ok(1) szo 3 by (auto simp: ou)
    moreover have "0 \<le> reps_sum u old" using reps_sum_nonneg calculation(2) by blast
    ultimately have "reps_sum u old = max 0 (d - mu - ?N)"
      using reps_sum_zero [of old u] by fastforce
    then show ?thesis using run 3 by auto
  qed
qed

lemma steps_keep:
  assumes "(rollout_step ext old new)\<^sup>*\<^sup>* s s'" "rollout_inv ext old new d surge s"
  shows "kept_by_step ext old new d surge s s'"
  using assms(1)
proof (induction rule: rtranclp_induct)
  case base
  then show ?case using assms(2) by (simp add: kept_by_step_def rollout_bound_def)
next
  case (step t u)
  have "rollout_inv ext old new d surge t" using step(3) by (simp add: kept_by_step_def)
  from step_keeps [OF step(2) this]
  have "rollout_inv ext old new d surge u" "peak_sum u (old @ [new]) \<le> rollout_bound old new d surge t"
    "\<And>p. p \<in> set old \<Longrightarrow> reps u p \<le> reps t p" by (simp_all add: kept_by_step_def)
  then show ?case using step(3) order_trans unfolding kept_by_step_def rollout_bound_def by fastforce
qed

definition ready :: "md_ext \<Rightarrow> md_client \<Rightarrow> addr list \<Rightarrow> addr \<Rightarrow> int \<Rightarrow> int \<Rightarrow> int \<Rightarrow> md_state \<Rightarrow> bool" where
  "ready ext cl old new d surge mu s \<longleftrightarrow> rollout_inv ext old new d surge s \<and> all_reported (old @ [new]) s \<and>
     MaxUnavailable ext (mdep s) = Ret mu \<and> cl_SelectorString cl (mds_Selector (md_Spec (mdep s))) \<noteq> None"

lemma rollout_inv_okD: "rollout_inv ext old new d surge s \<Longrightarrow> rolling_ok ext s old new d surge"
  by (simp add: rollout_inv_def)

lemma rolling_part_run:
  assumes "ready ext cl old new d surge mu s" "accepts cl"
  shows "\<exists>s'. rolling_part ext cl old new s = (Ret (), s') \<and> (rollout_step ext old new)\<^sup>*\<^sup>* s s' \<and>
     reps s' new = new_target s old new d surge \<and> (\<exists>st. mdep s' = (mdep s)\<lparr>md_Status := st\<rparr>) \<and>
     reps_sum s' old = (if reps_sum s old + reps s new \<le> d - mu then reps_sum s old else max 0 (d - mu - reps s new))"
proof -
  have rd: "rollout_inv ext old new d surge s" "MaxUnavailable ext (mdep s) = Ret mu"
    "cl_SelectorString cl (mds_Selector (md_Spec (mdep s))) \<noteq> None"
    "\<And>p. p \<in> set (old @ [new]) \<Longrightarrow> ms_StatusReplicas (hp s p) = reps s p \<and> avail s p = reps s p"
    using assms(1) unfolding ready_def all_reported_def by blast+
  note ok = rollout_inv_okD [OF rd(1)]
  have md: "md_Replicas (mdep s) = Some d" "new \<notin> set old" using ok by (auto simp: rolling_ok_def)
  obtain t where t: "reconcileNewMachineSet ext cl (map Some (old @ [new])) new s = (Ret (), t)"
    using new_returns [OF ok assms(2)] by blast
  note out = reconcileNew_outcome [OF t ok]
  have mt: "mdep t = mdep s" "reps t new = new_target s old new d surge" "avail t = avail s"
    using scalesD(1,6) [OF out(1)] out(4) by (auto simp: fun_eq_iff)
  have other: "reps t p = reps s p" if "p \<in> set old" for p
    using scales_outside(1) [OF out(1), of p] that md(2) by auto
  obtain u where u: "syncDeploymentStatus ext cl (map Some (old @ [new])) (Some new) t = (Ret (), u)"
    using sync_returns [of t d ext mu cl] mt(1) md(1) rd(2,3) by metis
  obtain st where hu: "hp u = hp t" "mdep u = (mdep s)\<lparr>md_Status := st\<rparr>" using sync_frame [OF u] mt(1) by auto
  then have ru: "reps u = reps t" "avail u = avail s" using mt(3) by (auto simp: reps_def avail_def fun_eq_iff)
  have steps: "(rollout_step ext old new)\<^sup>*\<^sup>* s u"
    using rollout_step.scale_new [OF t] rollout_step.sync_status [OF u] by (meson converse_rtranclp_into_rtranclp r_into_rtranclp)
  have inv: "rollout_inv ext old new d surge u" using steps_keep [OF steps rd(1)] by (simp add: kept_by_step_def)
  have O: "reps_sum u old = reps_sum s old" unfolding reps_sum_def ru(1) using other by (metis map_eq_conv)
  have le: "reps_sum v (old @ [new]) \<le> peak_sum v (old @ [new])" for v
    unfolding reps_sum_def peak_sum_def by (rule sum_list_mono) (simp add: peak_def)
  have "reps_sum s (old @ [new]) < 2147483648" "reps_sum u (old @ [new]) < 2147483648"
    using le [of s] le [of u] ok inv by (auto simp: rollout_inv_def rolling_ok_def)
  then have "reps_sum u old + avail u new < 2147483648" "reps_sum u (old @ [new]) < 2147483648" "avail u new = reps s new"
    using ru(2) rd(4) [of new] O by (simp_all add: reps_sum_def)
  moreover have "avail u p = reps u p" if "p \<in> set old" for p using ru other [OF that] rd(4) [of p] that by simp
  moreover have "0 \<le> avail u new" using inv by (simp add: rollout_inv_def counted_def)
  ultimately obtain v where v: "reconcileOldMachineSets ext cl (map Some (old @ [new])) old new u = (Ret (), v)"
    "reps_sum v old = (if reps_sum s old + reps s new \<le> d - mu then reps_sum s old else max 0 (d - mu - reps s new))"
    using reconcileOld_exact [OF assms(2) rollout_inv_okD [OF inv], of mu] hu(2) rd(2) O by auto
  have "shrinks old u v" by (rule reconcileOld_shrinks [OF v(1)]) (use inv in \<open>auto simp: rollout_inv_def rolling_ok_def\<close>)
  then have sv: "reps v new = reps u new" "mdep v = mdep u"
    using scales_outside(1) [of "set old" u v new] scalesD(1) [of "set old" u v] md(2) by (simp_all add: shrinks_def)
  obtain w where w: "syncDeploymentStatus ext cl (map Some (old @ [new])) (Some new) v = (Ret (), w)"
    using sync_returns [of v d ext mu cl] sv(2) hu(2) md(1) rd(2,3) by fastforce
  obtain st' where hw: "hp w = hp v" "mdep w = (mdep s)\<lparr>md_Status := st'\<rparr>" using sync_frame [OF w] sv(2) hu(2) by auto
  then have rw: "reps w = reps v" by (auto simp: reps_def fun_eq_iff)
  have "rolling_part ext cl old new s = (Ret (), w)" using t u v(1) w by (simp add: rolling_part_def)
  moreover have "(rollout_step ext old new)\<^sup>*\<^sup>* s w"
    using steps rollout_step.scale_old [OF v(1)] rollout_step.sync_status [OF w] by (meson rtranclp.rtrancl_into_rtrancl)
  ultimately show ?thesis using rw sv(1) ru(1) mt(2) v(2) hw(2) by (auto simp: reps_sum_def)
qed

definition left_to_do :: "addr list \<Rightarrow> addr \<Rightarrow> int \<Rightarrow> md_state \<Rightarrow> int" where
  "left_to_do old new d s = reps_sum s old + max 0 (d - reps s new)"

definition complete :: "addr list \<Rightarrow> addr \<Rightarrow> int \<Rightarrow> md_state \<Rightarrow> bool" where
  "complete old new d s \<longleftrightarrow> reps s new = d \<and> (\<forall>p \<in> set old. reps s p = 0)"

lemma peak_sum_reported: "all_reported ps s \<Longrightarrow> peak_sum s ps = reps_sum s ps"
  unfolding peak_sum_def reps_sum_def all_reported_def by (auto simp: peak_def intro!: arg_cong [where f = sum_list])

lemma round_ready:
  assumes "ready ext cl old new d surge mu s" "accepts cl"
  shows "ready ext cl old new d surge mu (rollout_round ext cl old new s)"
proof -
  obtain s' st where r: "rolling_part ext cl old new s = (Ret (), s')" "(rollout_step ext old new)\<^sup>*\<^sup>* s s'"
    "mdep s' = (mdep s)\<lparr>md_Status := st\<rparr>"
    using rolling_part_run [OF assms] by blast
  let ?t = "reported (old @ [new]) s'"
  have t: "rollout_round ext cl old new s = ?t" using r(1) by (simp add: rollout_round_def)
  have i: "rollout_inv ext old new d surge s'"
    using steps_keep [OF r(2)] assms(1) by (auto simp: kept_by_step_def ready_def)
  have ps: "peak_sum ?t (old @ [new]) = reps_sum s' (old @ [new])"
    using peak_sum_reported [of "old @ [new]" ?t] by (simp add: reps_sum_def)
  have "reps_sum s' (old @ [new]) \<le> peak_sum s' (old @ [new])"
    unfolding reps_sum_def peak_sum_def by (rule sum_list_mono) (simp add: peak_def)
  moreover have "0 \<le> reps_sum s' (old @ [new])"
    by (rule reps_sum_nonneg) (use i in \<open>auto simp: rollout_inv_def rolling_ok_def\<close>)
  ultimately have ok: "rolling_ok ext ?t old new d surge"
    using i ps by (simp add: rollout_inv_def rolling_ok_def)
  have "counted ?t p \<and> 0 \<le> ms_StatusReplicas (hp ?t p)" if "p \<in> set (old @ [new])" for p
  proof -
    have "ms_StatusReplicas (hp ?t p) = reps s' p" "avail ?t p = reps s' p"
      using reported_frame(1,4) [of "old @ [new]" s'] that unfolding all_reported_def by metis+
    moreover have "sized s' p" using i that by (auto simp: rollout_inv_def rolling_ok_def)
    ultimately show ?thesis using sized_reps [of s' p] by (simp add: counted_def)
  qed
  then have "rollout_inv ext old new d surge ?t" using ok by (simp add: rollout_inv_def)
  then show ?thesis unfolding t using assms(1) r(3) by (simp add: ready_def)
qed

lemma round_progress:
  assumes "ready ext cl old new d surge mu s" "accepts cl" "0 < d \<Longrightarrow> 0 < surge + mu"
  shows "complete old new d (rollout_round ext cl old new s) \<or>
     left_to_do old new d (rollout_round ext cl old new s) < left_to_do old new d s"
    and "0 \<le> left_to_do old new d s"
proof -
  obtain s' where r: "rolling_part ext cl old new s = (Ret (), s')" "reps s' new = new_target s old new d surge"
    "reps_sum s' old = (if reps_sum s old + reps s new \<le> d - mu then reps_sum s old else max 0 (d - mu - reps s new))"
    using rolling_part_run [OF assms(1,2)] by blast
  let ?t = "rollout_round ext cl old new s"
  have ok: "rolling_ok ext s old new d surge" "rolling_ok ext ?t old new d surge"
    using assms(1) round_ready [OF assms(1,2)] by (simp_all add: ready_def rollout_inv_okD)
  have t: "reps ?t = reps s'" using r(1) by (simp add: rollout_round_def)
  have T: "peak_sum s (old @ [new]) = reps_sum s old + reps s new"
    using peak_sum_reported [of "old @ [new]" s] assms(1) by (simp add: ready_def reps_sum_def)
  have nn: "0 \<le> reps_sum s old" "0 \<le> reps s new" "0 \<le> d" "0 \<le> surge" "0 \<le> mu" "mu \<le> d"
    using reps_sum_nonneg [of old s] sized_reps [of s new] ok(1) surge_value_bounds(1) [of ext "mdep s" surge]
      MaxUnavailable_bounds [of ext "mdep s" mu d] assms(1) by (auto simp: rolling_ok_def ready_def)
  show "0 \<le> left_to_do old new d s" using nn(1) by (simp add: left_to_do_def)
  have O: "reps_sum ?t old = reps_sum s' old" by (simp add: reps_sum_def t)
  have fin: "complete old new d ?t" if "reps s' new = d" "reps_sum s' old = 0"
    using reps_sum_zeroD [of ?t old] that O t ok(2) by (auto simp: complete_def rolling_ok_def)
  show "complete old new d ?t \<or> left_to_do old new d ?t < left_to_do old new d s"
  proof (cases "d \<le> reps s new")
    case True
    then have "reps s' new = d" "reps_sum s' old = 0" using r(2,3) nn by (auto simp: new_target_def)
    then show ?thesis using fin by blast
  next
    case False
    then have "left_to_do old new d ?t < left_to_do old new d s"
      using r(2,3) nn assms(3) T unfolding left_to_do_def t O by (auto simp: new_target_def Let_def)
    then show ?thesis ..
  qed
qed

lemma rounds_ready:
  assumes "ready ext cl old new d surge mu s" "accepts cl"
  shows "ready ext cl old new d surge mu ((rollout_round ext cl old new ^^ m) s)"
  by (induction m) (use assms round_ready in auto)

lemma complete_left: "0 \<le> d \<Longrightarrow> complete old new d s \<Longrightarrow> left_to_do old new d s = 0"
  using reps_sum_zero [of old s] by (auto simp: complete_def left_to_do_def)

lemma complete_stays:
  assumes "ready ext cl old new d surge mu s" "accepts cl" "0 < d \<Longrightarrow> 0 < surge + mu" "complete old new d s"
  shows "complete old new d (rollout_round ext cl old new s)"
proof -
  have "0 \<le> d" using assms(1) by (simp add: ready_def rollout_inv_def rolling_ok_def)
  then have "left_to_do old new d s = 0" using complete_left assms(4) by blast
  moreover have "0 \<le> left_to_do old new d (rollout_round ext cl old new s)"
    by (rule round_progress(2) [OF round_ready [OF assms(1,2)] assms(2,3)])
  ultimately show ?thesis using round_progress(1) [OF assms(1-3)] by linarith
qed

section \<open>Properties\<close>

text \<open>C1: However the steps of the controller (with any client, so with any of its requests failing) and the
  reports of the MachineSets are interleaved, a rolling update never has more machines than the larger of
  those it started from and the desired number plus the surge, counting a MachineSet with the larger of its
  desired size and the machines it reports; the old MachineSets never grow, and the invariant of the rollout
  is kept.\<close>

theorem rollout_never_exceeds:
  assumes "(rollout_step ext old new)\<^sup>*\<^sup>* s s'" and "rollout_inv ext old new d surge s"
  shows "rollout_inv ext old new d surge s' \<and>
     peak_sum s' (old @ [new]) \<le> max (peak_sum s (old @ [new])) (d + surge) \<and>
     (\<forall>p \<in> set old. reps s' p \<le> reps s p)"
  using steps_keep [OF assms] by (simp add: kept_by_step_def rollout_bound_def)

lemma sample_ready:
  "ready sample_ext sample_client [0] 1 3 1 0 (sample_state (sample_old_new 3 0) (sample_md 3 1 0))"
  using sample_rolling_ok sample_md_unavailable [of 3 1 0]
  by (simp add: ready_def rollout_inv_def counted_def all_reported_def sized_def avail_def reps_def sample_old_new_def sample_client_def)

theorem rollout_never_exceeds_witness:
  "let s = sample_state (sample_old_new 3 0) (sample_md 3 1 0);
       t = snd (rolling_part sample_ext sample_client [0] 1 s)
   in (rollout_step sample_ext [0] 1)\<^sup>*\<^sup>* s t \<and> reps t 1 = 1 \<and> peak_sum t [0, 1] \<le> 4"
proof -
  let ?s = "sample_state (sample_old_new 3 0) (sample_md 3 1 0)"
  obtain t where t: "rolling_part sample_ext sample_client [0] 1 ?s = (Ret (), t)"
    "(rollout_step sample_ext [0] 1)\<^sup>*\<^sup>* ?s t" "reps t 1 = new_target ?s [0] 1 3 1"
    using rolling_part_run [OF sample_ready accepts_sample] by blast
  have "rollout_inv sample_ext [0] 1 3 1 ?s" using sample_ready by (simp add: ready_def)
  from rollout_never_exceeds [OF t(2) this] show ?thesis
    using t by (simp add: Let_def new_target_def peak_def reps_def sample_old_new_def)
qed

text \<open>C2: A rolling update completes. When the requests of the controller succeed, the MachineSets reach their sizes
  between two runs and the strategy leaves room (the surge and the machines that may be unavailable are not both
  zero), every run of the controller either completes the rollout or brings it closer, so that after at most one
  more run than there are old machines to remove and new ones to create, the new MachineSet has the desired size and
  the old ones are empty; and this stays so.\<close>

theorem rollout_completes:
  assumes "ready ext cl old new d surge mu s" and "accepts cl" and "0 < d \<Longrightarrow> 0 < surge + mu"
    and "nat (left_to_do old new d s) < m"
  shows "complete old new d ((rollout_round ext cl old new ^^ m) s)"
  using assms(4)
proof (induction m)
  case (Suc m)
  let ?t = "(rollout_round ext cl old new ^^ m) s"
  have rd: "ready ext cl old new d surge mu ((rollout_round ext cl old new ^^ k) s)" for k by (rule rounds_ready [OF assms(1,2)])
  note pr = round_progress [OF rd assms(2,3)]
  have stay: "complete old new d ((rollout_round ext cl old new ^^ k) s) \<or>
      left_to_do old new d ((rollout_round ext cl old new ^^ k) s) \<le> left_to_do old new d s - int k" for k
  proof (induction k)
    case (Suc k)
    then show ?case using pr(1) [of k] complete_stays [OF rd assms(2,3), of k] by auto
  qed simp
  have "complete old new d ?t \<or> left_to_do old new d ?t \<le> 0"
    using stay [of m] Suc.prems by linarith
  then show ?case
    using complete_stays [OF rd assms(2,3), of m] pr(1) [of m] pr(2) [of "Suc m"] by auto
qed simp

theorem rollout_completes_witness:
  "let s = sample_state (sample_old_new 3 0) (sample_md 3 1 0)
   in left_to_do [0] 1 3 s = 6 \<and> complete [0] 1 3 ((rollout_round sample_ext sample_client [0] 1 ^^ 7) s)"
proof -
  let ?s = "sample_state (sample_old_new 3 0) (sample_md 3 1 0)"
  have l: "left_to_do [0] 1 3 ?s = 6" by (simp add: left_to_do_def reps_sum_def reps_def sample_old_new_def)
  then have "nat (left_to_do [0] 1 3 ?s) < 7" by simp
  then have "complete [0] 1 3 ((rollout_round sample_ext sample_client [0] 1 ^^ 7) ?s)"
    by (intro rollout_completes [OF sample_ready accepts_sample]) simp_all
  then show ?thesis using l by (simp only: Let_def)
qed

end
