(* ===== verification/Versions.thy ===== *)
theory Versions
  imports Go_Prelude "HOL-Library.Word"
begin

text \<open>
  Versions: src/util/version/version.go and the part of the control plane contract that compares
  versions and replicas (src/internal/contract/controlplane.go). Parsing and comparing semantic
  versions is a library; \<open>semver_lib\<close> holds its two functions, and \<open>semver_ok\<close> what its documentation
  promises: comparing gives -1, 0 or 1, is a total preorder and ignores build metadata.
\<close>

section \<open>Semantic versions\<close>

record semver =
  sv_Major :: "64 word"
  sv_Minor :: "64 word"
  sv_Patch :: "64 word"
  sv_Pre :: "string list"
  sv_Build :: "string list"

record semver_lib =
  lib_ParseTolerant :: "string \<Rightarrow> string + semver"
  lib_Compare :: "semver \<Rightarrow> semver \<Rightarrow> int"
  lib_String :: "semver \<Rightarrow> string"

definition sv_of :: "64 word \<Rightarrow> 64 word \<Rightarrow> 64 word \<Rightarrow> semver" where
  "sv_of major minor patch = \<lparr>sv_Major = major, sv_Minor = minor, sv_Patch = patch, sv_Pre = [], sv_Build = []\<rparr>"

text \<open>\<^verbatim>\<open>strconv.ParseUint(s, 10, 64)\<close> returns its value also with an error: 0 for a string that is no
  number, the greatest value for a number out of range.\<close>

definition ParseUint64 :: "string \<Rightarrow> 64 word \<times> bool" where
  "ParseUint64 s =
     (case ParseUint10 s of None \<Rightarrow> (0, False)
      | Some n \<Rightarrow> if n < 18446744073709551616 then (word_of_nat n, True) else (- 1, False))"

section \<open>Parsing\<close>

text \<open>
  The regular expressions \<^verbatim>\<open>KubeSemver\<close> and \<^verbatim>\<open>KubeSemverTolerant\<close>: three numbers without leading zeros,
  separated by dots, and a suffix of letters, digits and \<^verbatim>\<open>-_.+\<close>. A number takes all digits that
  follow, as the match is greedy, except that after a zero the number ends.
\<close>

fun regex_number :: "string \<Rightarrow> (string \<times> string) option" where
  "regex_number [] = None"
| "regex_number (c # cs) =
     (if c = CHR ''0'' then Some ([c], cs)
      else if is_digit c then Some (c # takeWhile is_digit cs, dropWhile is_digit cs)
      else None)"

fun regex_dot :: "string \<Rightarrow> string option" where
  "regex_dot [] = None"
| "regex_dot (c # cs) = (if c = CHR ''.'' then Some cs else None)"

definition suffix_char :: "char \<Rightarrow> bool" where
  "suffix_char c \<longleftrightarrow> is_digit c \<or> (CHR ''a'' \<le> c \<and> c \<le> CHR ''z'') \<or> (CHR ''A'' \<le> c \<and> c \<le> CHR ''Z'') \<or>
     c \<in> {CHR ''-'', CHR ''_'', CHR ''.'', CHR ''+''}"

definition regex_v :: "bool \<Rightarrow> string \<Rightarrow> string option" where
  "regex_v tolerant s =
     (if s \<noteq> [] \<and> hd s = CHR ''v'' then Some (tl s) else if tolerant then Some s else None)"

definition KubeSemver_FindSubmatch :: "bool \<Rightarrow> string \<Rightarrow> (string \<times> string \<times> string) option" where
  "KubeSemver_FindSubmatch tolerant s =
     (case regex_v tolerant s of None \<Rightarrow> None | Some s0 \<Rightarrow>
     (case regex_number s0 of None \<Rightarrow> None | Some (major, s1) \<Rightarrow>
     (case regex_dot s1 of None \<Rightarrow> None | Some s2 \<Rightarrow>
     (case regex_number s2 of None \<Rightarrow> None | Some (minor, s3) \<Rightarrow>
     (case regex_dot s3 of None \<Rightarrow> None | Some s4 \<Rightarrow>
     (case regex_number s4 of None \<Rightarrow> None | Some (patch, s5) \<Rightarrow>
        if list_all suffix_char s5 then Some (major, minor, patch) else None))))))"

datatype version_error = NoVersion string | BadMajor string | BadMinor string | BadPatch string

definition parseMajorMinorPatch :: "string \<Rightarrow> bool \<Rightarrow> (version_error, semver) go" where
  "parseMajorMinorPatch version tolerant =
     (case KubeSemver_FindSubmatch tolerant version of None \<Rightarrow> Err (NoVersion version)
      | Some (g1, g2, g3) \<Rightarrow>
          (case ParseUint64 g1 of (major, ok1) \<Rightarrow> if \<not> ok1 then Err (BadMajor version) else
          (case ParseUint64 g2 of (minor, ok2) \<Rightarrow> if \<not> ok2 then Err (BadMinor version) else
          (case ParseUint64 g3 of (patch, ok3) \<Rightarrow> if \<not> ok3 then Err (BadPatch version) else
             Ret (sv_of major minor patch)))))"

definition ParseMajorMinorPatch :: "string \<Rightarrow> (version_error, semver) go" where
  "ParseMajorMinorPatch version = parseMajorMinorPatch version False"

definition ParseMajorMinorPatchTolerant :: "string \<Rightarrow> (version_error, semver) go" where
  "ParseMajorMinorPatchTolerant version = parseMajorMinorPatch version True"

section \<open>Comparing with build identifiers\<close>

definition containsOnly :: "string \<Rightarrow> string \<Rightarrow> bool" where
  "containsOnly s chars \<longleftrightarrow> \<not> list_ex (\<lambda>r. r \<notin> set chars) s"

abbreviation version_numbers :: string where "version_numbers \<equiv> ''01234567890''"

record buildIdentifier =
  IdentifierInt :: "64 word"
  IdentifierStr :: string
  IsNum :: bool

definition newBuildIdentifier :: "string \<Rightarrow> buildIdentifier" where
  "newBuildIdentifier s =
     (if containsOnly s version_numbers
      then \<lparr>IdentifierInt = fst (ParseUint64 s), IdentifierStr = [], IsNum = True\<rparr>
      else \<lparr>IdentifierInt = 0, IdentifierStr = s, IsNum = False\<rparr>)"

definition newBuildIdentifiers :: "string list \<Rightarrow> buildIdentifier list" where
  "newBuildIdentifiers ids = map newBuildIdentifier ids"

definition buildIdentifier_compare :: "buildIdentifier \<Rightarrow> buildIdentifier \<Rightarrow> int" where
  "buildIdentifier_compare v w =
     (if IsNum v \<and> \<not> IsNum w then - 1
      else if \<not> IsNum v \<and> IsNum w then 1
      else if IsNum v \<and> IsNum w then
        (if IdentifierInt v < IdentifierInt w then - 1 else if IdentifierInt v = IdentifierInt w then 0 else 1)
      else if IdentifierStr v = IdentifierStr w then 0 else 2)"

fun buildIdentifiers_compare :: "buildIdentifier list \<Rightarrow> buildIdentifier list \<Rightarrow> int" where
  "buildIdentifiers_compare [] [] = 0"
| "buildIdentifiers_compare [] (w # ws) = - 1"
| "buildIdentifiers_compare (v # vs) [] = 1"
| "buildIdentifiers_compare (v # vs) (w # ws) =
     (let comp = buildIdentifier_compare v w in if comp \<noteq> 0 then comp else buildIdentifiers_compare vs ws)"

record comparer =
  buildTags :: bool
  withoutPreReleases :: bool

definition WithBuildTags :: "comparer \<Rightarrow> comparer" where
  "WithBuildTags c = c\<lparr>buildTags := True\<rparr>"

definition WithoutPreReleases :: "comparer \<Rightarrow> comparer" where
  "WithoutPreReleases c = c\<lparr>withoutPreReleases := True\<rparr>"

definition version_Compare :: "semver_lib \<Rightarrow> semver \<Rightarrow> semver \<Rightarrow> (comparer \<Rightarrow> comparer) list \<Rightarrow> int" where
  "version_Compare lib a b options =
     (let c = foldl (\<lambda>c f. f c) \<lparr>buildTags = False, withoutPreReleases = False\<rparr> options;
          a' = (if withoutPreReleases c then a\<lparr>sv_Pre := []\<rparr> else a);
          b' = (if withoutPreReleases c then b\<lparr>sv_Pre := []\<rparr> else b)
      in if buildTags c then
           (let comp = lib_Compare lib a' b'
            in if comp \<noteq> 0 then comp
               else buildIdentifiers_compare (newBuildIdentifiers (sv_Build a')) (newBuildIdentifiers (sv_Build b')))
         else lib_Compare lib a' b')"

section \<open>The control plane contract\<close>

text \<open>
  A control plane object is unstructured: every field the contract reads may be missing, may have the
  wrong type, or has a value.
\<close>

datatype 'a field = Missing | Malformed string | Present 'a

record controlplane_object =
  cp_Kind :: string
  cp_Namespace :: string
  cp_Name :: string
  cp_Version :: "string field"
  cp_StatusVersion :: "string field"
  cp_Replicas :: "int field"
  cp_StatusReplicas :: "int field"
  cp_UpdatedReplicas :: "int field"
  cp_ReadyReplicas :: "int field"
  cp_UnavailableReplicas :: "int field"

datatype contract_error = FieldNotFound string | FieldMalformed string string | VersionParse string string

definition field_Get :: "string \<Rightarrow> 'a field \<Rightarrow> (contract_error, 'a) go" where
  "field_Get path f = (case f of Missing \<Rightarrow> Err (FieldNotFound path) | Malformed e \<Rightarrow> Err (FieldMalformed path e)
                       | Present v \<Rightarrow> Ret v)"

definition is_not_found :: "contract_error \<Rightarrow> bool" where
  "is_not_found e = (case e of FieldNotFound _ \<Rightarrow> True | _ \<Rightarrow> False)"

text \<open>The value of a field, \<open>dflt\<close> where the field is missing, any other error as it is.\<close>

definition get_or_missing :: "string \<Rightarrow> 'a field \<Rightarrow> (contract_error, 'b) go \<Rightarrow> ('a \<Rightarrow> (contract_error, 'b) go)
    \<Rightarrow> (contract_error, 'b) go" where
  "get_or_missing path f dflt k =
     (case field_Get path f of Ret v \<Rightarrow> k v | Err e \<Rightarrow> if is_not_found e then dflt else Err e | Panic \<Rightarrow> Panic)"

definition parse_tolerant :: "semver_lib \<Rightarrow> string \<Rightarrow> (contract_error, semver) go" where
  "parse_tolerant lib s = (case lib_ParseTolerant lib s of Inl e \<Rightarrow> Err (VersionParse s e) | Inr v \<Rightarrow> Ret v)"

definition IsProvisioning :: "controlplane_object \<Rightarrow> (contract_error, bool) go" where
  "IsProvisioning obj =
     get_or_missing ''status.version'' (cp_StatusVersion obj) (Ret True) (\<lambda>statusVersion. Ret (statusVersion = []))"

definition IsUpgrading :: "semver_lib \<Rightarrow> controlplane_object \<Rightarrow> (contract_error, bool) go" where
  "IsUpgrading lib obj =
     go_bind (field_Get ''spec.version'' (cp_Version obj)) (\<lambda>specVersion.
     go_bind (parse_tolerant lib specVersion) (\<lambda>specV.
     get_or_missing ''status.version'' (cp_StatusVersion obj) (Ret False) (\<lambda>statusVersion.
     go_bind (parse_tolerant lib statusVersion) (\<lambda>statusV.
       Ret (version_Compare lib specV statusV [WithBuildTags] \<ge> 1)))))"

definition IsScaling :: "controlplane_object \<Rightarrow> (contract_error, bool) go" where
  "IsScaling obj =
     go_bind (field_Get ''spec.replicas'' (cp_Replicas obj)) (\<lambda>desiredReplicas.
     get_or_missing ''status.replicas'' (cp_StatusReplicas obj) (Ret True) (\<lambda>statusReplicas.
     get_or_missing ''status.updatedReplicas'' (cp_UpdatedReplicas obj) (Ret True) (\<lambda>updatedReplicas.
     get_or_missing ''status.readyReplicas'' (cp_ReadyReplicas obj) (Ret True) (\<lambda>readyReplicas.
       let decide = (\<lambda>unavailableReplicas.
             Ret (statusReplicas \<noteq> desiredReplicas \<or> updatedReplicas \<noteq> desiredReplicas \<or>
                  readyReplicas \<noteq> desiredReplicas \<or> unavailableReplicas > 0))
       in get_or_missing ''status.unavailableReplicas'' (cp_UnavailableReplicas obj) (decide 0) decide))))"

section \<open>Version skew\<close>

text \<open>\<^verbatim>\<open>IsSupportedVersionSkew\<close> of src/util/util.go.\<close>

definition IsSupportedVersionSkew :: "semver \<Rightarrow> semver \<Rightarrow> bool" where
  "IsSupportedVersionSkew a b =
     (if sv_Major a \<noteq> sv_Major b then False
      else if sv_Minor a > sv_Minor b then sv_Minor a - sv_Minor b = 1
      else sv_Minor b - sv_Minor a \<le> 1)"

section \<open>Lemmas on numbers\<close>

lemma digit_char_simps [simp]:
  "digit_char 0 = CHR ''0''" "digit_char (Suc 0) = CHR ''1''" "digit_char 2 = CHR ''2''" "digit_char 3 = CHR ''3''"
  "digit_char 4 = CHR ''4''" "digit_char 5 = CHR ''5''" "digit_char 6 = CHR ''6''" "digit_char 7 = CHR ''7''"
  "digit_char 8 = CHR ''8''" "digit_char 9 = CHR ''9''"
  by code_simp+

lemma format_nat_of_digits:
  assumes "list_all is_digit d" "d \<noteq> []" "hd d \<noteq> CHR ''0''"
  shows "\<exists>k. k \<noteq> 0 \<and> parse_digits 0 d = Some k \<and> format_nat k = d"
  using assms
proof (induction d rule: rev_induct)
  case (snoc c ds)
  have dig: "is_digit c" "digit_val c < 10" "digit_char (digit_val c) = c"
    using snoc.prems(1) by (auto simp: is_digit_def digit_val_def digit_char_def)
  show ?case
  proof (cases "ds = []")
    case True
    have "digit_val c \<noteq> 0" using snoc.prems(3) True dig(3) by (metis append_Nil digit_char_simps(1) list.sel(1))
    then show ?thesis using True dig by (intro exI [of _ "digit_val c"]) (subst format_nat.simps, simp)
  next
    case False
    then obtain k where k: "k \<noteq> 0" "parse_digits 0 ds = Some k" "format_nat k = ds"
      using snoc by auto
    have "format_nat (10 * k + digit_val c) = ds @ [c]"
      using k dig by (subst format_nat.simps) simp
    moreover have "parse_digits 0 (ds @ [c]) = Some (10 * k + digit_val c)"
      using parse_digits_append [of 0 ds "[c]"] k dig by simp
    ultimately show ?thesis using k(1) by (intro exI [of _ "10 * k + digit_val c"]) simp
  qed
qed simp

lemma format_nat_0: "format_nat 0 = ''0''"
  by (subst format_nat.simps) simp

lemma hd_format_nat: "k \<noteq> 0 \<Longrightarrow> hd (format_nat k) \<noteq> CHR ''0''"
proof (induction k rule: format_nat.induct)
  case (1 n)
  show ?case
  proof (cases "n < 10")
    case True
    then have "n \<in> {1,2,3,4,5,6,7,8,9}" using 1 by auto
    moreover have "format_nat n = [digit_char n]" using True by (subst format_nat.simps) simp
    ultimately show ?thesis by auto
  next
    case False
    then have "hd (format_nat (n div 10)) \<noteq> CHR ''0''" using 1 by auto
    then show ?thesis using False by (subst format_nat.simps) (simp add: hd_append)
  qed
qed

lemma regex_number_iff:
  "regex_number s = Some (d, r) \<longleftrightarrow>
     (\<exists>k. d = format_nat k \<and> s = format_nat k @ r \<and> (k \<noteq> 0 \<longrightarrow> r = [] \<or> \<not> is_digit (hd r)))"
proof (cases s)
  case (Cons c cs)
  show ?thesis
  proof
    assume R: "regex_number s = Some (d, r)"
    show "\<exists>k. d = format_nat k \<and> s = format_nat k @ r \<and> (k \<noteq> 0 \<longrightarrow> r = [] \<or> \<not> is_digit (hd r))"
    proof (cases "c = CHR ''0''")
      case True
      then show ?thesis using R Cons by (intro exI [of _ 0]) (simp add: format_nat_0)
    next
      case False
      then have d: "is_digit c" "d = c # takeWhile is_digit cs" "r = dropWhile is_digit cs"
        using R Cons by (auto split: if_splits)
      have "list_all is_digit d" using d by (auto simp: list_all_iff dest: set_takeWhileD)
      then obtain k where k: "k \<noteq> 0" "format_nat k = d"
        using format_nat_of_digits [of d] d(2) False by auto
      moreover have "s = d @ r" using Cons d by simp
      moreover have "r = [] \<or> \<not> is_digit (hd r)" using d(3) hd_dropWhile by blast
      ultimately show ?thesis by metis
    qed
  next
    assume "\<exists>k. d = format_nat k \<and> s = format_nat k @ r \<and> (k \<noteq> 0 \<longrightarrow> r = [] \<or> \<not> is_digit (hd r))"
    then obtain k where k: "d = format_nat k" "s = format_nat k @ r" "k \<noteq> 0 \<longrightarrow> r = [] \<or> \<not> is_digit (hd r)"
      by blast
    show "regex_number s = Some (d, r)"
    proof (cases "k = 0")
      case True
      then show ?thesis using k by (simp add: format_nat_0)
    next
      case False
      obtain c0 cs0 where F: "format_nat k = c0 # cs0" using format_nat_nonempty by (meson list.exhaust)
      have dig: "is_digit c0" "\<forall>x \<in> set cs0. is_digit x"
        using format_nat_digits [of _ k] F by auto
      have "c0 \<noteq> CHR ''0''" using hd_format_nat [OF False] F by simp
      moreover have "takeWhile is_digit (cs0 @ r) = cs0" "dropWhile is_digit (cs0 @ r) = r"
        using dig(2) k(3) False by (cases r; simp add: takeWhile_append dropWhile_append)+
      ultimately show ?thesis using k(1,2) F dig(1) by simp
    qed
  qed
qed auto

lemma ParseUint64_format_nat:
  "ParseUint64 (format_nat k) = (if k < 18446744073709551616 then (word_of_nat k, True) else (- 1, False))"
  by (simp add: ParseUint64_def ParseUint10_def parse_digits_format_nat)

lemma regex_dot_iff: "regex_dot s = Some r \<longleftrightarrow> s = ''.'' @ r"
  by (cases s) auto

lemma regex_v_iff: "regex_v tolerant (p @ s) = Some s"
  if "p = ''v'' \<or> tolerant \<and> p = [] \<and> (s = [] \<or> hd s \<noteq> CHR ''v'')"
  using that by (auto simp: regex_v_def)

definition printed :: "64 word \<Rightarrow> 64 word \<Rightarrow> 64 word \<Rightarrow> string" where
  "printed major minor patch =
     format_nat (unat major) @ ''.'' @ format_nat (unat minor) @ ''.'' @ format_nat (unat patch)"

text \<open>What is left to show of a match of the regular expression: three printed numbers and a suffix.\<close>

lemma FindSubmatch_iff:
  "KubeSemver_FindSubmatch tolerant s = Some (g1, g2, g3) \<longleftrightarrow>
     (\<exists>p k1 k2 k3 suffix. s = p @ format_nat k1 @ ''.'' @ format_nat k2 @ ''.'' @ format_nat k3 @ suffix \<and>
        (p = ''v'' \<or> tolerant \<and> p = []) \<and> g1 = format_nat k1 \<and> g2 = format_nat k2 \<and> g3 = format_nat k3 \<and>
        list_all suffix_char suffix \<and> (k3 \<noteq> 0 \<longrightarrow> suffix = [] \<or> \<not> is_digit (hd suffix)))"
    (is "?L \<longleftrightarrow> ?R")
proof
  assume ?L
  then obtain s0 s1 s2 s3 s4 s5 where S:
    "regex_v tolerant s = Some s0" "regex_number s0 = Some (g1, s1)" "regex_dot s1 = Some s2"
    "regex_number s2 = Some (g2, s3)" "regex_dot s3 = Some s4" "regex_number s4 = Some (g3, s5)"
    "list_all suffix_char s5"
    unfolding KubeSemver_FindSubmatch_def by (auto split: option.splits prod.splits if_splits)
  obtain k1 where k1: "g1 = format_nat k1" "s0 = format_nat k1 @ s1" using S(2) by (auto simp: regex_number_iff)
  obtain k2 where k2: "g2 = format_nat k2" "s2 = format_nat k2 @ s3" using S(4) by (auto simp: regex_number_iff)
  obtain k3 where k3: "g3 = format_nat k3" "s4 = format_nat k3 @ s5" "k3 \<noteq> 0 \<longrightarrow> s5 = [] \<or> \<not> is_digit (hd s5)"
    using S(6) by (auto simp: regex_number_iff)
  have s0: "s0 = format_nat k1 @ ''.'' @ format_nat k2 @ ''.'' @ format_nat k3 @ s5"
    using k1 k2 k3 S(3,5) by (simp add: regex_dot_iff)
  have "\<exists>p. s = p @ s0 \<and> (p = ''v'' \<or> tolerant \<and> p = [])"
  proof (cases "s \<noteq> [] \<and> hd s = CHR ''v''")
    case True
    then have "s = ''v'' @ s0" using S(1) by (cases s) (auto simp: regex_v_def)
    then show ?thesis by blast
  next
    case False
    then show ?thesis using S(1) by (auto simp: regex_v_def split: if_splits)
  qed
  then show ?R using s0 k1(1) k2(1) k3(1,3) S(7) by blast
next
  assume ?R
  then obtain p k1 k2 k3 suffix where
    s: "s = p @ format_nat k1 @ ''.'' @ format_nat k2 @ ''.'' @ format_nat k3 @ suffix"
    and p: "p = ''v'' \<or> tolerant \<and> p = []"
    and g: "g1 = format_nat k1" "g2 = format_nat k2" "g3 = format_nat k3"
    and suf: "list_all suffix_char suffix" "k3 \<noteq> 0 \<longrightarrow> suffix = [] \<or> \<not> is_digit (hd suffix)"
    by blast
  let ?s4 = "format_nat k3 @ suffix"
  let ?s2 = "format_nat k2 @ ''.'' @ ?s4"
  let ?s0 = "format_nat k1 @ ''.'' @ ?s2"
  have dot: "\<not> is_digit (CHR ''.'')" by (simp add: is_digit_def)
  have "hd ?s0 \<in> set (format_nat k1)" by (simp add: hd_append)
  then have "is_digit (hd ?s0)" using format_nat_digits by blast
  then have "hd ?s0 \<noteq> CHR ''v''" by (auto simp: is_digit_def)
  then have "regex_v tolerant s = Some ?s0" using s p regex_v_iff [of p tolerant ?s0] by auto
  moreover have "regex_number ?s0 = Some (g1, ''.'' @ ?s2)" using g dot by (subst regex_number_iff) auto
  moreover have "regex_number ?s2 = Some (g2, ''.'' @ ?s4)" using g dot by (subst regex_number_iff) auto
  moreover have "regex_number ?s4 = Some (g3, suffix)" using g suf by (subst regex_number_iff) auto
  ultimately show ?L using suf(1) by (simp add: KubeSemver_FindSubmatch_def)
qed

section \<open>Lemmas on comparing\<close>

text \<open>What the documentation of the library promises of \<^verbatim>\<open>Version.Compare\<close>.\<close>

definition semver_ok :: "semver_lib \<Rightarrow> bool" where
  "semver_ok lib \<longleftrightarrow>
     (\<forall>a b. lib_Compare lib a b \<in> {- 1, 0, 1} \<and> lib_Compare lib b a = - lib_Compare lib a b) \<and>
     (\<forall>a b c. lib_Compare lib a b \<le> 0 \<longrightarrow> lib_Compare lib b c \<le> 0 \<longrightarrow> lib_Compare lib a c \<le> 0) \<and>
     (\<forall>a b x y. lib_Compare lib (a\<lparr>sv_Build := x\<rparr>) (b\<lparr>sv_Build := y\<rparr>) = lib_Compare lib a b)"

lemma semver_okD:
  assumes "semver_ok lib"
  shows "lib_Compare lib a b = - 1 \<or> lib_Compare lib a b = 0 \<or> lib_Compare lib a b = 1"
    and "lib_Compare lib b a = - lib_Compare lib a b"
    and "lib_Compare lib a b \<le> 0 \<Longrightarrow> lib_Compare lib b c \<le> 0 \<Longrightarrow> lib_Compare lib a c \<le> 0"
  using assms unfolding semver_ok_def insert_iff empty_iff by blast+

lemma lib_Compare_refl: "semver_ok lib \<Longrightarrow> lib_Compare lib a a = 0"
  using semver_okD(2) [of lib a a] by simp

lemma lib_Compare_cong:
  assumes "semver_ok lib" "lib_Compare lib a b = 0"
  shows "lib_Compare lib a c = lib_Compare lib b c"
proof -
  have "lib_Compare lib b a = 0" using semver_okD(2) [OF assms(1), of b a] assms(2) by simp
  then have le: "lib_Compare lib x c \<le> 0 \<longleftrightarrow> lib_Compare lib y c \<le> 0" "lib_Compare lib c x \<le> 0 \<longleftrightarrow> lib_Compare lib c y \<le> 0"
    if "{x, y} = {a, b}" for x y
    using that semver_okD(3) [OF assms(1)] assms(2) by (metis doubleton_eq_iff order.refl)+
  have "lib_Compare lib c a = - lib_Compare lib a c" "lib_Compare lib c b = - lib_Compare lib b c"
    by (rule semver_okD(2) [OF assms(1)])+
  then show ?thesis
    using le [of a b] semver_okD(1) [OF assms(1), of a c] semver_okD(1) [OF assms(1), of b c] by auto
qed

lemma lib_Compare_trans:
  assumes "semver_ok lib" "lib_Compare lib a b = - 1" "lib_Compare lib b c = - 1"
  shows "lib_Compare lib a c = - 1"
proof -
  have le: "lib_Compare lib a c \<le> 0" using semver_okD(3) [OF assms(1), of a b c] assms(2,3) by simp
  have "lib_Compare lib a c \<noteq> 0"
  proof
    assume "lib_Compare lib a c = 0"
    then have "lib_Compare lib b a = lib_Compare lib b c"
      using lib_Compare_cong [OF assms(1), of a c b] semver_okD(2) [OF assms(1)] by (metis minus_equation_iff)
    then show False using assms semver_okD(2) [OF assms(1), of b a] by simp
  qed
  then show ?thesis using le semver_okD(1) [OF assms(1), of a c] by auto
qed

lemma buildIdentifier_compare_facts:
  shows "buildIdentifier_compare v w \<in> {- 1, 0, 1, 2}"
    and "buildIdentifier_compare v v = 0"
    and "buildIdentifier_compare v w = - 1 \<longleftrightarrow> buildIdentifier_compare w v = 1"
    and "buildIdentifier_compare v w = 2 \<longleftrightarrow> buildIdentifier_compare w v = 2"
    and "buildIdentifier_compare v w = 0 \<longleftrightarrow> buildIdentifier_compare w v = 0"
    and "buildIdentifier_compare v w = - 1 \<Longrightarrow> buildIdentifier_compare w u = - 1 \<Longrightarrow> buildIdentifier_compare v u = - 1"
    and "buildIdentifier_compare v w = 0 \<Longrightarrow> buildIdentifier_compare v u = buildIdentifier_compare w u"
    and "buildIdentifier_compare v w = 0 \<Longrightarrow> buildIdentifier_compare u v = buildIdentifier_compare u w"
  by (auto simp: buildIdentifier_compare_def split: if_splits)

lemma buildIdentifiers_compare_range: "buildIdentifiers_compare vs ws \<in> {- 1, 0, 1, 2}"
  using buildIdentifier_compare_facts(1)
  by (induction vs ws rule: buildIdentifiers_compare.induct) (auto simp: Let_def)

lemma buildIdentifiers_compare_refl: "buildIdentifiers_compare vs vs = 0"
  by (induction vs) (auto simp: buildIdentifier_compare_facts(2))

lemma buildIdentifiers_compare_sym:
  "(buildIdentifiers_compare vs ws = - 1 \<longleftrightarrow> buildIdentifiers_compare ws vs = 1) \<and>
   (buildIdentifiers_compare vs ws = 2 \<longleftrightarrow> buildIdentifiers_compare ws vs = 2)"
proof (induction vs ws rule: buildIdentifiers_compare.induct)
  case (4 v vs w ws)
  show ?case
    using 4 buildIdentifier_compare_facts(3,4,5) [of v w] by (auto simp: Let_def)
qed auto

lemma buildIdentifiers_compare_cong:
  "buildIdentifiers_compare vs ws = 0 \<Longrightarrow> buildIdentifiers_compare vs us = buildIdentifiers_compare ws us"
proof (induction vs ws arbitrary: us rule: buildIdentifiers_compare.induct)
  case (4 v vs w ws)
  then have eq: "buildIdentifier_compare v w = 0" "buildIdentifiers_compare vs ws = 0"
    by (auto simp: Let_def split: if_splits)
  show ?case
  proof (cases us)
    case (Cons u us')
    have "buildIdentifier_compare v u = buildIdentifier_compare w u"
      by (rule buildIdentifier_compare_facts(7) [OF eq(1)])
    moreover have "buildIdentifiers_compare vs us' = buildIdentifiers_compare ws us'"
      using 4(1) [OF refl _ eq(2)] eq(1) by simp
    ultimately show ?thesis by (simp only: Cons buildIdentifiers_compare.simps)
  qed simp
qed auto

lemma buildIdentifiers_compare_trans:
  "buildIdentifiers_compare vs ws = - 1 \<Longrightarrow> buildIdentifiers_compare ws us = - 1 \<Longrightarrow>
   buildIdentifiers_compare vs us = - 1"
proof (induction vs ws arbitrary: us rule: buildIdentifiers_compare.induct)
  case (2 w ws)
  then show ?case by (cases us) auto
next
  case (4 v vs w ws)
  then obtain u us' where us: "us = u # us'" by (cases us) auto
  show ?case
  proof (cases "buildIdentifier_compare v w = 0")
    case True
    then have "buildIdentifiers_compare vs ws = - 1" using 4(2) by (simp add: Let_def)
    moreover have "buildIdentifier_compare v u = buildIdentifier_compare w u"
      using buildIdentifier_compare_facts(7) [OF True] by blast
    moreover have "buildIdentifiers_compare vs us' = - 1"
      if "buildIdentifiers_compare ws us' = - 1" using 4(1) [OF refl _ calculation(1) that] True by simp
    ultimately show ?thesis using 4(3) us by (simp add: Let_def split: if_splits)
  next
    case False
    then have vw: "buildIdentifier_compare v w = - 1" using 4(2) by (simp add: Let_def)
    consider "buildIdentifier_compare w u = 0" | "buildIdentifier_compare w u = - 1"
      using 4(3) us by (auto simp: Let_def split: if_splits)
    then have "buildIdentifier_compare v u = - 1"
      using vw buildIdentifier_compare_facts(6,8) by (cases) metis+
    then show ?thesis using us by (simp add: Let_def)
  qed
qed auto

lemma version_Compare_WithBuildTags:
  "version_Compare lib a b [WithBuildTags] =
     (if lib_Compare lib a b \<noteq> 0 then lib_Compare lib a b
      else buildIdentifiers_compare (newBuildIdentifiers (sv_Build a)) (newBuildIdentifiers (sv_Build b)))"
  by (simp add: version_Compare_def WithBuildTags_def Let_def)

section \<open>Parsing is exact\<close>

lemma parse_version_exact:
  "parseMajorMinorPatch s tolerant = Ret v \<longleftrightarrow>
     (\<exists>p major minor patch suffix.
        s = p @ printed major minor patch @ suffix \<and> (p = ''v'' \<or> tolerant \<and> p = []) \<and>
        list_all suffix_char suffix \<and> (patch \<noteq> 0 \<longrightarrow> suffix = [] \<or> \<not> is_digit (hd suffix)) \<and>
        v = sv_of major minor patch)" (is "?L \<longleftrightarrow> ?R")
proof
  assume ?L
  then obtain g1 g2 g3 where G: "KubeSemver_FindSubmatch tolerant s = Some (g1, g2, g3)"
    and ok: "snd (ParseUint64 g1)" "snd (ParseUint64 g2)" "snd (ParseUint64 g3)"
    and v: "v = sv_of (fst (ParseUint64 g1)) (fst (ParseUint64 g2)) (fst (ParseUint64 g3))"
    by (auto simp: parseMajorMinorPatch_def split: option.splits prod.splits if_splits)
  from G obtain p k1 k2 k3 suffix where
    s: "s = p @ format_nat k1 @ ''.'' @ format_nat k2 @ ''.'' @ format_nat k3 @ suffix"
    and p: "p = ''v'' \<or> tolerant \<and> p = []"
    and g: "g1 = format_nat k1" "g2 = format_nat k2" "g3 = format_nat k3"
    and suf: "list_all suffix_char suffix" "k3 \<noteq> 0 \<longrightarrow> suffix = [] \<or> \<not> is_digit (hd suffix)"
    unfolding FindSubmatch_iff by blast
  have bound: "k1 < 2 ^ 64" "k2 < 2 ^ 64" "k3 < 2 ^ 64"
    using ok g by (auto simp: ParseUint64_format_nat split: if_splits)
  then have u: "unat (word_of_nat k1 :: 64 word) = k1" "unat (word_of_nat k2 :: 64 word) = k2"
    "unat (word_of_nat k3 :: 64 word) = k3"
    by (simp_all add: unat_of_nat)
  have "s = p @ printed (word_of_nat k1) (word_of_nat k2) (word_of_nat k3) @ suffix"
    using s u by (simp add: printed_def)
  moreover have "v = sv_of (word_of_nat k1) (word_of_nat k2) (word_of_nat k3)"
    using v g bound by (simp add: ParseUint64_format_nat)
  moreover have "(word_of_nat k3 :: 64 word) \<noteq> 0 \<longrightarrow> suffix = [] \<or> \<not> is_digit (hd suffix)"
    using suf(2) by (cases "k3 = 0") auto
  ultimately show ?R using p suf(1) by blast
next
  assume ?R
  then obtain p major minor patch suffix where
    s: "s = p @ printed major minor patch @ suffix" and p: "p = ''v'' \<or> tolerant \<and> p = []"
    and suf: "list_all suffix_char suffix" "patch \<noteq> 0 \<longrightarrow> suffix = [] \<or> \<not> is_digit (hd suffix)"
    and v: "v = sv_of major minor patch" by blast
  have "KubeSemver_FindSubmatch tolerant s =
    Some (format_nat (unat major), format_nat (unat minor), format_nat (unat patch))"
    unfolding FindSubmatch_iff using s p suf 
    by (intro exI [of _ p] exI [of _ "unat major"] exI [of _ "unat minor"] exI [of _ "unat patch"] exI [of _ suffix])
      (auto simp: printed_def unat_eq_0)
  moreover have "ParseUint64 (format_nat (unat w)) = (w, True)" for w :: "64 word"
    using unsigned_less [of w, where ?'a = nat] by (simp add: ParseUint64_format_nat)
  ultimately show ?L using v by (simp add: parseMajorMinorPatch_def)
qed

section \<open>A library for concrete runs\<close>

text \<open>
  Versions are compared by major, minor and patch and releases come after pre-releases; a version is
  parsed as \<open>ParseMajorMinorPatchTolerant\<close> does it, with the build identifiers behind a plus sign.
\<close>

definition sample_key :: "semver \<Rightarrow> nat list" where
  "sample_key v = [unat (sv_Major v), unat (sv_Minor v), unat (sv_Patch v), if sv_Pre v = [] then 1 else 0]"

definition sample_parse :: "string \<Rightarrow> string + semver" where
  "sample_parse s =
     (case ParseMajorMinorPatchTolerant s of
        Ret v \<Rightarrow> let b = dropWhile (\<lambda>c. c \<noteq> CHR ''+'') s
                 in Inr (v\<lparr>sv_Build := (if b = [] then [] else go_split (CHR ''.'') (tl b))\<rparr>)
      | _ \<Rightarrow> Inl s)"

definition sample_lib :: semver_lib where
  "sample_lib =
     \<lparr>lib_ParseTolerant = sample_parse,
      lib_Compare = (\<lambda>a b. if sample_key a < sample_key b then - 1 else if sample_key a = sample_key b then 0 else 1),
      lib_String = (\<lambda>v. printed (sv_Major v) (sv_Minor v) (sv_Patch v))\<rparr>"

lemma sample_key_Build [simp]: "sample_key (a\<lparr>sv_Build := x\<rparr>) = sample_key a"
  by (simp add: sample_key_def)

lemma sample_lib_ok: "semver_ok sample_lib"
  unfolding semver_ok_def by (auto simp: sample_lib_def)

section \<open>Properties\<close>

text \<open>
  C31: parsing is complete and exact: a string is accepted exactly when it is an optional (without
  tolerance required) v, three printed 64-bit numbers separated by dots and a suffix of letters, digits
  and -_.+, which begins with a digit only behind a patch number 0; the result has these three numbers.
\<close>

theorem parse_version_iff:
  "parseMajorMinorPatch s tolerant = Ret v \<longleftrightarrow>
     (\<exists>p major minor patch suffix.
        s = p @ printed major minor patch @ suffix \<and> (p = ''v'' \<or> tolerant \<and> p = []) \<and>
        list_all suffix_char suffix \<and> (patch \<noteq> 0 \<longrightarrow> suffix = [] \<or> \<not> is_digit (hd suffix)) \<and>
        v = sv_of major minor patch)"
  by (rule parse_version_exact)

text \<open>A release with a suffix, and a patch number with a leading zero.\<close>

theorem parse_version_iff_witness:
  "parseMajorMinorPatch ''v1.28.3-rc.1'' False = Ret (sv_of 1 28 3) \<and>
   parseMajorMinorPatch ''1.28.03'' True = Ret (sv_of 1 28 0)"
proof
  have f: "format_nat 1 = ''1''" "format_nat 3 = ''3''" "format_nat 28 = ''28''" "format_nat 0 = ''0''"
    by ((subst format_nat.simps, simp)+)
  show "parseMajorMinorPatch ''v1.28.3-rc.1'' False = Ret (sv_of 1 28 3)"
    using f by (subst parse_version_iff, intro exI [of _ "''v''"] exI [of _ 1] exI [of _ 28] exI [of _ 3] exI [of _ "''-rc.1''"])
      (auto simp: printed_def suffix_char_def is_digit_def)
  show "parseMajorMinorPatch ''1.28.03'' True = Ret (sv_of 1 28 0)"
    using f by (subst parse_version_iff, intro exI [of _ "''''"] exI [of _ "''3''"] exI)
      (auto simp: printed_def suffix_char_def is_digit_def)
qed

text \<open>
  C32: comparing with build identifiers is a strict partial order: the results are -1, 0, 1 and 2, equal
  versions compare alike with every other version, -1 and 1 are converses, 2 (different, no order) is
  symmetric, and less is transitive.
\<close>

theorem Compare_partial_order:
  assumes "semver_ok lib" and "cmp = (\<lambda>a b. version_Compare lib a b [WithBuildTags])"
  shows "cmp a b \<in> {- 1, 0, 1, 2} \<and> cmp a a = 0 \<and> (cmp a b = 0 \<longrightarrow> cmp a c = cmp b c) \<and>
     (cmp a b = - 1 \<longleftrightarrow> cmp b a = 1) \<and> (cmp a b = 2 \<longleftrightarrow> cmp b a = 2) \<and>
     (cmp a b = - 1 \<and> cmp b c = - 1 \<longrightarrow> cmp a c = - 1)"
proof -
  let ?L = "lib_Compare lib" and ?B = "\<lambda>a b. buildIdentifiers_compare (newBuildIdentifiers (sv_Build a)) (newBuildIdentifiers (sv_Build b))"
  have cmp: "cmp a b = (if ?L a b \<noteq> 0 then ?L a b else ?B a b)" for a b
    using assms(2) by (simp add: version_Compare_WithBuildTags)
  have flip: "?L b a = - ?L a b" for a b using semver_okD(2) [OF assms(1)] .
  have range: "?L a b = - 1 \<or> ?L a b = 0 \<or> ?L a b = 1" for a b using semver_okD(1) [OF assms(1)] .
  have cong: "?L a b = 0 \<Longrightarrow> ?L a c = ?L b c" for a b c using lib_Compare_cong [OF assms(1)] .
  have "cmp a b \<in> {- 1, 0, 1, 2}" using range [of a b] buildIdentifiers_compare_range cmp by auto
  moreover have "cmp a a = 0" using lib_Compare_refl [OF assms(1)] buildIdentifiers_compare_refl cmp by simp
  moreover have "cmp a c = cmp b c" if "cmp a b = 0"
    using that cong [of a b c] buildIdentifiers_compare_cong by (auto simp: cmp split: if_splits)
  moreover have "cmp a b = - 1 \<longleftrightarrow> cmp b a = 1"
    using flip [of b a] range [of a b] buildIdentifiers_compare_sym by (auto simp: cmp)
  moreover have "cmp a b = 2 \<longleftrightarrow> cmp b a = 2"
    using flip [of b a] range [of a b] buildIdentifiers_compare_sym by (auto simp: cmp)
  moreover have "cmp a c = - 1" if "cmp a b = - 1" "cmp b c = - 1"
  proof (cases "?L a b = 0")
    case True
    then show ?thesis using that cong [OF True, of c] buildIdentifiers_compare_trans by (auto simp: cmp split: if_splits)
  next
    case False
    then have ab: "?L a b = - 1" using that(1) cmp by simp
    show ?thesis
    proof (cases "?L b c = 0")
      case True
      then have "?L a c = ?L a b" using cong [OF True, of a] flip [of a b] flip [of a c] by simp
      then show ?thesis using ab cmp by simp
    next
      case False
      then have "?L a c = - 1" using that(2) cmp ab lib_Compare_trans [OF assms(1), of a b c] by simp
      then show ?thesis using cmp by simp
    qed
  qed
  ultimately show ?thesis by blast
qed

text \<open>Build 1 comes before build 2 and before build 10, and two named builds have no order.\<close>

theorem Compare_partial_order_witness:
  "version_Compare sample_lib (sv_of 1 2 3\<lparr>sv_Build := [''2'']\<rparr>) (sv_of 1 2 3\<lparr>sv_Build := [''1'']\<rparr>) [WithBuildTags] = 1 \<and>
   version_Compare sample_lib (sv_of 1 2 3\<lparr>sv_Build := [''b'']\<rparr>) (sv_of 1 2 3\<lparr>sv_Build := [''a'']\<rparr>) [WithBuildTags] = 2"
proof -
  let ?v = "\<lambda>s. sv_of 1 2 3\<lparr>sv_Build := [s]\<rparr>"
  have "version_Compare sample_lib (?v ''1'') (?v ''2'') [WithBuildTags] = - 1"
    by (simp add: version_Compare_WithBuildTags sample_lib_def sample_key_def sv_of_def newBuildIdentifiers_def
        newBuildIdentifier_def containsOnly_def buildIdentifier_compare_def ParseUint64_def ParseUint10_def
        is_digit_def digit_val_def)
  moreover have "version_Compare sample_lib (?v ''a'') (?v ''b'') [WithBuildTags] = 2"
    by (simp add: version_Compare_WithBuildTags sample_lib_def sample_key_def sv_of_def newBuildIdentifiers_def
        newBuildIdentifier_def containsOnly_def buildIdentifier_compare_def)
  ultimately show ?thesis
    using Compare_partial_order [OF sample_lib_ok refl, of "?v ''1''" "?v ''2''"]
      Compare_partial_order [OF sample_lib_ok refl, of "?v ''a''" "?v ''b''"] by blast
qed

end
