(* ===== verification/Collections.thy ===== *)
theory Collections
  imports Api_Types Versions
begin

text \<open>
  Sets of Machines and their filters (src/util/collections), the choice of failure domains
  (src/util/failuredomains) and owner references (src/util/util.go).

  A Go map is a list of its entries with distinct keys, in the order in which a loop ranges over it.
  That order is arbitrary, so that the lemmas hold for every list. Where one function ranges twice over
  maps, the order of the second loop is an argument (\<open>rng\<close>).
\<close>

abbreviation ClusterNameLabel :: string where "ClusterNameLabel \<equiv> ''cluster.x-k8s.io/cluster-name''"
abbreviation MachineControlPlaneLabel :: string where "MachineControlPlaneLabel \<equiv> ''cluster.x-k8s.io/control-plane''"
abbreviation MachineHealthCheckSucceededCondition :: string where
  "MachineHealthCheckSucceededCondition \<equiv> ''HealthCheckSucceeded''"
abbreviation MachineOwnerRemediatedCondition :: string where "MachineOwnerRemediatedCondition \<equiv> ''OwnerRemediated''"
abbreviation MachineNodeHealthyCondition :: string where "MachineNodeHealthyCondition \<equiv> ''NodeHealthy''"
abbreviation MachineAPIServerPodHealthyCondition :: string where
  "MachineAPIServerPodHealthyCondition \<equiv> ''APIServerPodHealthy''"
abbreviation MachineControllerManagerPodHealthyCondition :: string where
  "MachineControllerManagerPodHealthyCondition \<equiv> ''ControllerManagerPodHealthy''"
abbreviation MachineSchedulerPodHealthyCondition :: string where
  "MachineSchedulerPodHealthyCondition \<equiv> ''SchedulerPodHealthy''"
abbreviation MachineEtcdPodHealthyCondition :: string where "MachineEtcdPodHealthyCondition \<equiv> ''EtcdPodHealthy''"
abbreviation MachineEtcdMemberHealthyCondition :: string where
  "MachineEtcdMemberHealthyCondition \<equiv> ''EtcdMemberHealthy''"

abbreviation m_Labels :: "machine \<Rightarrow> string_map" where "m_Labels m \<equiv> om_Labels (m_Meta m)"
abbreviation m_FailureDomain :: "machine \<Rightarrow> string option" where "m_FailureDomain m \<equiv> sp_FailureDomain (m_Spec m)"

section \<open>Owner references\<close>

text \<open>
  \<^verbatim>\<open>schema.ParseGroupVersion\<close> is a library function: \<open>pgv\<close> gives the group of an API version, \<open>None\<close>
  for a malformed one.
\<close>

definition referSameObject :: "(string \<Rightarrow> string option) \<Rightarrow> owner_reference \<Rightarrow> owner_reference \<Rightarrow> bool" where
  "referSameObject pgv a b =
     (case pgv (or_APIVersion a) of None \<Rightarrow> False
      | Some aG \<Rightarrow> (case pgv (or_APIVersion b) of None \<Rightarrow> False
         | Some bG \<Rightarrow> aG = bG \<and> or_Kind a = or_Kind b \<and> or_Name a = or_Name b))"

fun indexOwnerRef :: "(string \<Rightarrow> string option) \<Rightarrow> owner_reference list \<Rightarrow> owner_reference \<Rightarrow> nat option" where
  "indexOwnerRef pgv [] ref = None"
| "indexOwnerRef pgv (r # rs) ref =
     (if referSameObject pgv r ref then Some 0 else map_option Suc (indexOwnerRef pgv rs ref))"

definition HasOwnerRef :: "(string \<Rightarrow> string option) \<Rightarrow> owner_reference list \<Rightarrow> owner_reference \<Rightarrow> bool" where
  "HasOwnerRef pgv ownerReferences ref \<longleftrightarrow> indexOwnerRef pgv ownerReferences ref \<noteq> None"

definition EnsureOwnerRef ::
  "(string \<Rightarrow> string option) \<Rightarrow> owner_reference list \<Rightarrow> owner_reference \<Rightarrow> owner_reference list" where
  "EnsureOwnerRef pgv ownerReferences ref =
     (case indexOwnerRef pgv ownerReferences ref of None \<Rightarrow> ownerReferences @ [ref]
      | Some idx \<Rightarrow> ownerReferences[idx := ref])"

fun ReplaceOwnerRef :: "owner_reference list \<Rightarrow> string \<Rightarrow> owner_reference \<Rightarrow> owner_reference list" where
  "ReplaceOwnerRef [] sourceUID tgt = [tgt]"
| "ReplaceOwnerRef (r # rs) sourceUID tgt =
     (if or_UID r = sourceUID then tgt # rs else r # ReplaceOwnerRef rs sourceUID tgt)"

definition RemoveOwnerRef ::
  "(string \<Rightarrow> string option) \<Rightarrow> owner_reference list \<Rightarrow> owner_reference \<Rightarrow> owner_reference list" where
  "RemoveOwnerRef pgv ownerReferences inputRef =
     (case indexOwnerRef pgv ownerReferences inputRef of None \<Rightarrow> ownerReferences
      | Some idx \<Rightarrow> take idx ownerReferences @ drop (Suc idx) ownerReferences)"

text \<open>The group, kind and name of an object that an owner reference may point to.\<close>

record owner_target =
  ot_Group :: string
  ot_Kind :: string
  ot_Name :: string

definition refersTo :: "(string \<Rightarrow> string option) \<Rightarrow> owner_reference \<Rightarrow> owner_target \<Rightarrow> bool" where
  "refersTo pgv ref obj =
     (case pgv (or_APIVersion ref) of None \<Rightarrow> False
      | Some g \<Rightarrow> g = ot_Group obj \<and> or_Kind ref = ot_Kind obj \<and> or_Name ref = ot_Name obj)"

definition IsOwnedByObject :: "(string \<Rightarrow> string option) \<Rightarrow> object_meta \<Rightarrow> owner_target \<Rightarrow> bool" where
  "IsOwnedByObject pgv obj tgt \<longleftrightarrow> list_ex (\<lambda>ref. refersTo pgv ref tgt) (om_OwnerReferences obj)"

text \<open>\<^verbatim>\<open>metav1.GetControllerOf\<close>: the first owner reference whose controller flag is set.\<close>

definition GetControllerOf :: "object_meta \<Rightarrow> owner_reference option" where
  "GetControllerOf obj = find (\<lambda>r. or_Controller r = Some True) (om_OwnerReferences obj)"

definition util_IsControlledBy :: "(string \<Rightarrow> string option) \<Rightarrow> object_meta \<Rightarrow> owner_target \<Rightarrow> bool" where
  "util_IsControlledBy pgv obj owner =
     (case GetControllerOf obj of None \<Rightarrow> False | Some ref \<Rightarrow> refersTo pgv ref owner)"

fun hasOwner_loop :: "(string \<Rightarrow> string option) \<Rightarrow> string \<Rightarrow> string list \<Rightarrow> owner_reference list \<Rightarrow> bool" where
  "hasOwner_loop pgv grp kinds [] = False"
| "hasOwner_loop pgv grp kinds (mr # rs) =
     (case pgv (or_APIVersion mr) of None \<Rightarrow> False
      | Some g \<Rightarrow> if g = grp \<and> or_Kind mr \<in> set kinds then True else hasOwner_loop pgv grp kinds rs)"

definition HasOwner :: "(string \<Rightarrow> string option) \<Rightarrow> owner_reference list \<Rightarrow> string \<Rightarrow> string list \<Rightarrow> bool" where
  "HasOwner pgv refList apiVersion kinds =
     (case pgv apiVersion of None \<Rightarrow> False | Some g \<Rightarrow> hasOwner_loop pgv g kinds refList)"

section \<open>Reconcile results and other helpers of util.go\<close>

record ctrl_result =
  res_Requeue :: bool
  res_RequeueAfter :: int

abbreviation result_zero :: ctrl_result where
  "result_zero \<equiv> \<lparr>res_Requeue = False, res_RequeueAfter = 0\<rparr>"

definition result_IsZero :: "ctrl_result \<Rightarrow> bool" where
  "result_IsZero r \<longleftrightarrow> r = result_zero"

definition LowestNonZeroResult :: "ctrl_result \<Rightarrow> ctrl_result \<Rightarrow> ctrl_result" where
  "LowestNonZeroResult i j =
     (if result_IsZero i then j else if result_IsZero j then i
      else if res_Requeue i then i else if res_Requeue j then j
      else if res_RequeueAfter i < res_RequeueAfter j then i else j)"

definition LowestNonZeroInt32 :: "int \<Rightarrow> int \<Rightarrow> int" where
  "LowestNonZeroInt32 i j = (if i = 0 then j else if j = 0 then i else if i < j then i else j)"

definition ordinal_suffix :: "int \<Rightarrow> string" where
  "ordinal_suffix d = (if d = 1 then ''st'' else if d = 2 then ''nd'' else if d = 3 then ''rd'' else ''th'')"

definition Ordinalize :: "int \<Rightarrow> string" where
  "Ordinalize n =
     (let an = \<bar>n\<bar> in if an < 10 then FormatInt n @ ordinal_suffix an else FormatInt n @ ordinal_suffix (an mod 10))"

definition IsControlPlaneMachine :: "machine \<Rightarrow> bool" where
  "IsControlPlaneMachine m \<longleftrightarrow> map_lookup (m_Labels m) MachineControlPlaneLabel \<noteq> None"

section \<open>Machine filters\<close>

type_synonym machine_filter = "machine option \<Rightarrow> bool"

definition And :: "machine_filter list \<Rightarrow> machine_filter" where
  "And filters m \<longleftrightarrow> list_all (\<lambda>f. f m) filters"

definition Or :: "machine_filter list \<Rightarrow> machine_filter" where
  "Or filters m \<longleftrightarrow> list_ex (\<lambda>f. f m) filters"

definition Not :: "machine_filter \<Rightarrow> machine_filter" where
  "Not mf m \<longleftrightarrow> \<not> mf m"

text \<open>\<open>non_nil f\<close> is the guard \<^verbatim>\<open>if machine == nil { return false }\<close> that most filters begin with.\<close>

definition non_nil :: "(machine \<Rightarrow> bool) \<Rightarrow> machine_filter" where
  "non_nil f mo = (case mo of None \<Rightarrow> False | Some m \<Rightarrow> f m)"

definition HasControllerRef :: machine_filter where
  "HasControllerRef = non_nil (\<lambda>m. GetControllerOf (m_Meta m) \<noteq> None)"

definition InFailureDomains :: "string option list \<Rightarrow> machine_filter" where
  "InFailureDomains failureDomains = non_nil (\<lambda>m. list_ex (\<lambda>fd. fd = m_FailureDomain m) failureDomains)"

definition OwnedMachines :: "(string \<Rightarrow> string option) \<Rightarrow> owner_target \<Rightarrow> machine_filter" where
  "OwnedMachines pgv owner = non_nil (\<lambda>m. IsOwnedByObject pgv (m_Meta m) owner)"

text \<open>The selector of \<^verbatim>\<open>ControlPlaneSelectorForCluster\<close>: the cluster's name and the control plane label.\<close>

definition ControlPlaneSelectorForCluster :: "string \<Rightarrow> string_map \<Rightarrow> bool" where
  "ControlPlaneSelectorForCluster clusterName labels \<longleftrightarrow>
     map_lookup labels ClusterNameLabel = Some clusterName \<and> map_lookup labels MachineControlPlaneLabel \<noteq> None"

definition ControlPlaneMachines :: "string \<Rightarrow> machine_filter" where
  "ControlPlaneMachines clusterName = non_nil (\<lambda>m. ControlPlaneSelectorForCluster clusterName (m_Labels m))"

definition AdoptableControlPlaneMachines :: "string \<Rightarrow> machine_filter" where
  "AdoptableControlPlaneMachines clusterName = And [ControlPlaneMachines clusterName, Not HasControllerRef]"

definition ActiveMachines :: machine_filter where
  "ActiveMachines = non_nil (\<lambda>m. time_IsZero (m_DeletionTimestamp m))"

definition HasDeletionTimestamp :: machine_filter where
  "HasDeletionTimestamp = non_nil (\<lambda>m. \<not> time_IsZero (m_DeletionTimestamp m))"

definition IsUnhealthyAndOwnerRemediated :: machine_filter where
  "IsUnhealthyAndOwnerRemediated = non_nil (\<lambda>m.
     conditions_IsFalse (m_Conditions m) MachineHealthCheckSucceededCondition \<and>
     conditions_IsFalse (m_Conditions m) MachineOwnerRemediatedCondition)"

definition IsUnhealthy :: machine_filter where
  "IsUnhealthy = non_nil (\<lambda>m. conditions_IsFalse (m_Conditions m) MachineHealthCheckSucceededCondition)"

definition HasUnhealthyControlPlaneComponents :: "bool \<Rightarrow> machine_filter" where
  "HasUnhealthyControlPlaneComponents isEtcdManaged =
     (let controlPlaneMachineHealthConditions =
            [MachineAPIServerPodHealthyCondition, MachineControllerManagerPodHealthyCondition,
             MachineSchedulerPodHealthyCondition] @
            (if isEtcdManaged then [MachineEtcdPodHealthyCondition, MachineEtcdMemberHealthyCondition] else [])
      in non_nil (\<lambda>m. list_ex (conditions_IsFalse (m_Conditions m)) controlPlaneMachineHealthConditions))"

definition IsReady :: machine_filter where
  "IsReady = non_nil (\<lambda>m. conditions_IsTrue (m_Conditions m) ReadyCondition)"

definition ShouldRolloutAfter :: "int option \<Rightarrow> int option \<Rightarrow> machine_filter" where
  "ShouldRolloutAfter reconciliationTime rolloutAfter = non_nil (\<lambda>m.
     case (reconciliationTime, rolloutAfter) of
       (Some now, Some after) \<Rightarrow> m_CreationTimestamp m < after \<and> after < now
     | _ \<Rightarrow> False)"

text \<open>The reconciliation time is not nil here; the duration of days is an \<^verbatim>\<open>int64\<close> of nanoseconds.\<close>

definition ShouldRolloutBefore :: "int \<Rightarrow> int option option \<Rightarrow> machine_filter" where
  "ShouldRolloutBefore reconciliationTime rolloutBefore mo =
     (case rolloutBefore of None \<Rightarrow> False
      | Some None \<Rightarrow> False
      | Some (Some certificatesExpiryDays) \<Rightarrow>
          (case mo of None \<Rightarrow> False
           | Some m \<Rightarrow> (case st_CertificatesExpiryDate (m_Status m) of None \<Rightarrow> False
              | Some certsExpiryTime \<Rightarrow>
                  reconciliationTime + i64 (certificatesExpiryDays * 86400000000000) > certsExpiryTime)))"

definition HasAnnotationKey :: "string \<Rightarrow> machine_filter" where
  "HasAnnotationKey key = non_nil (\<lambda>m. map_lookup (m_Annotations m) key \<noteq> None)"

definition MatchesKubernetesVersion :: "string \<Rightarrow> machine_filter" where
  "MatchesKubernetesVersion kubernetesVersion = non_nil (\<lambda>m. sp_Version (m_Spec m) = Some kubernetesVersion)"

definition WithVersion :: "semver_lib \<Rightarrow> machine_filter" where
  "WithVersion lib = non_nil (\<lambda>m. case sp_Version (m_Spec m) of None \<Rightarrow> False
     | Some v \<Rightarrow> (case lib_ParseTolerant lib v of Inl _ \<Rightarrow> False | Inr _ \<Rightarrow> True))"

definition HasNode :: machine_filter where
  "HasNode = non_nil (\<lambda>m. st_NodeRef (m_Status m) \<noteq> None)"

section \<open>Sets of machines\<close>

type_synonym machines = "machine list"

fun put_machine :: "machine \<Rightarrow> machines \<Rightarrow> machines" where
  "put_machine m [] = [m]"
| "put_machine m (x # xs) = (if m_Name x = m_Name m then m # xs else x # put_machine m xs)"

definition machines_Insert :: "machines \<Rightarrow> machine option list \<Rightarrow> machines" where
  "machines_Insert s ms = foldl (\<lambda>s mo. case mo of None \<Rightarrow> s | Some m \<Rightarrow> put_machine m s) s ms"

definition FromMachines :: "machine option list \<Rightarrow> machines" where
  "FromMachines ms = machines_Insert [] ms"

definition FromMachineList :: "machine list \<Rightarrow> machines" where
  "FromMachineList items = machines_Insert [] (map Some items)"

definition newFilteredMachineCollection :: "machine_filter \<Rightarrow> machine list \<Rightarrow> machines" where
  "newFilteredMachineCollection f ms =
     foldl (\<lambda>ss m. if f (Some m) then machines_Insert ss [Some m] else ss) [] ms"

definition machines_Filter :: "machine_filter list \<Rightarrow> machines \<Rightarrow> machines" where
  "machines_Filter filters s = newFilteredMachineCollection (And filters) s"

definition machines_AnyFilter :: "machine_filter list \<Rightarrow> machines \<Rightarrow> machines" where
  "machines_AnyFilter filters s = newFilteredMachineCollection (Or filters) s"

definition machines_Difference :: "machines \<Rightarrow> machines \<Rightarrow> machines" where
  "machines_Difference s others =
     machines_Filter [non_nil (\<lambda>m. m_Name m \<notin> set (map m_Name others))] s"

definition machinesByVersion_Less :: "semver_lib \<Rightarrow> machine \<Rightarrow> machine \<Rightarrow> bool" where
  "machinesByVersion_Less lib mi mj =
     (let parse = (\<lambda>m. case lib_ParseTolerant lib (ptr_deref (sp_Version (m_Spec m)) []) of
                         Inl _ \<Rightarrow> sv_of 0 0 0 | Inr v \<Rightarrow> v);
          comp = version_Compare lib (parse mi) (parse mj) [WithBuildTags]
      in if comp = 0 then m_Name mi < m_Name mj else comp = - 1)"

definition machinesByCreationTimestamp_Less :: "machine \<Rightarrow> machine \<Rightarrow> bool" where
  "machinesByCreationTimestamp_Less mi mj =
     (if m_CreationTimestamp mi = m_CreationTimestamp mj then m_Name mi < m_Name mj
      else m_CreationTimestamp mi < m_CreationTimestamp mj)"

definition machinesByDeletionTimestamp_Less :: "machine \<Rightarrow> machine \<Rightarrow> bool" where
  "machinesByDeletionTimestamp_Less mi mj =
     (case (m_DeletionTimestamp mi, m_DeletionTimestamp mj) of
        (None, None) \<Rightarrow> m_Name mi < m_Name mj
      | (None, Some _) \<Rightarrow> False
      | (Some _, None) \<Rightarrow> True
      | (Some ti, Some tj) \<Rightarrow> if ti = tj then m_Name mi < m_Name mj else ti < tj)"

definition SortedByCreationTimestamp :: "machines \<Rightarrow> machine list" where
  "SortedByCreationTimestamp s = go_sort machinesByCreationTimestamp_Less s"

definition SortedByDeletionTimestamp :: "machines \<Rightarrow> machine list" where
  "SortedByDeletionTimestamp s = go_sort machinesByDeletionTimestamp_Less s"

definition sortedByVersion :: "semver_lib \<Rightarrow> machines \<Rightarrow> machine list" where
  "sortedByVersion lib s = go_sort (machinesByVersion_Less lib) s"

definition Oldest :: "machines \<Rightarrow> machine option" where
  "Oldest s = (if length s = 0 then None else Some (hd (SortedByCreationTimestamp s)))"

definition Newest :: "machines \<Rightarrow> machine option" where
  "Newest s = (if length s = 0 then None else Some (SortedByCreationTimestamp s ! (length s - 1)))"

definition OldestDeletionTimestamp :: "machines \<Rightarrow> machine option" where
  "OldestDeletionTimestamp s = (if length s = 0 then None else Some (hd (SortedByDeletionTimestamp s)))"

definition ConditionGetters :: "machines \<Rightarrow> getter list" where
  "ConditionGetters s = map (\<lambda>m. \<lparr>g_Name = m_Name m, g_Kind = ''Machine'', g_Conditions = m_Conditions m\<rparr>) s"

definition machines_Names :: "machines \<Rightarrow> string list" where
  "machines_Names s = map m_Name s"

definition LowestVersion :: "semver_lib \<Rightarrow> machines \<Rightarrow> string option" where
  "LowestVersion lib s =
     (let ms = machines_Filter [WithVersion lib] s
      in if length ms = 0 then None else sp_Version (m_Spec (hd (sortedByVersion lib ms))))"

section \<open>Failure domains\<close>

record failure_domain =
  fd_ControlPlane :: bool
  fd_Attributes :: string_map

type_synonym failure_domains = "(string \<times> failure_domain) list"

definition FilterControlPlane :: "failure_domains \<Rightarrow> failure_domains" where
  "FilterControlPlane fds = filter (\<lambda>(_, spec). fd_ControlPlane spec) fds"

definition fd_GetIDs :: "failure_domains \<Rightarrow> string option list" where
  "fd_GetIDs fds = map (\<lambda>(fid, _). Some fid) fds"

record failureDomainAggregation =
  fda_id :: string
  fda_count :: int

definition fda_Less :: "failureDomainAggregation \<Rightarrow> failureDomainAggregation \<Rightarrow> bool" where
  "fda_Less i j \<longleftrightarrow> fda_count i < fda_count j"

text \<open>
  The counters of \<^verbatim>\<open>pick\<close> as a function on the known failure domains; \<open>rng\<close> is the order in which the
  loop ranges over them.
\<close>

definition count_machine :: "failure_domains \<Rightarrow> (string \<Rightarrow> int) \<Rightarrow> machine \<Rightarrow> (string \<Rightarrow> int)" where
  "count_machine failureDomains counters m =
     (case m_FailureDomain m of None \<Rightarrow> counters
      | Some fid \<Rightarrow> if fid \<notin> fst ` set failureDomains then counters else counters(fid := counters fid + 1))"

definition pick ::
  "(string list \<Rightarrow> string list) \<Rightarrow> failure_domains \<Rightarrow> machines \<Rightarrow> failureDomainAggregation list" where
  "pick rng failureDomains machines =
     (if length failureDomains = 0 then []
      else let counters = foldl (count_machine failureDomains) (\<lambda>_. 0) machines
           in map (\<lambda>fid. \<lparr>fda_id = fid, fda_count = counters fid\<rparr>) (rng (map fst failureDomains)))"

definition orderDescending ::
  "(string list \<Rightarrow> string list) \<Rightarrow> failure_domains \<Rightarrow> machines \<Rightarrow> failureDomainAggregation list" where
  "orderDescending rng failureDomains machines =
     (let aggregations = pick rng failureDomains machines
      in if length aggregations = 0 then [] else go_sort (sort_Reverse fda_Less) aggregations)"

definition PickMost ::
  "(string list \<Rightarrow> string list) \<Rightarrow> failure_domains \<Rightarrow> machines \<Rightarrow> machines \<Rightarrow> string option" where
  "PickMost rng failureDomains groupMachines machines =
     map_option fda_id
       (find (\<lambda>fd. list_ex (\<lambda>m. m_FailureDomain m = Some (fda_id fd)) machines)
         (orderDescending rng failureDomains groupMachines))"

definition PickFewest :: "(string list \<Rightarrow> string list) \<Rightarrow> failure_domains \<Rightarrow> machines \<Rightarrow> string option" where
  "PickFewest rng failureDomains machines =
     (let aggregations = pick rng failureDomains machines
      in if length aggregations = 0 then None else Some (fda_id (hd (go_sort fda_Less aggregations))))"

section \<open>Lemmas on sets of machines\<close>

lemma put_machine_new: "m_Name m \<notin> set (map m_Name s) \<Longrightarrow> put_machine m s = s @ [m]"
  by (induction s) auto

lemma names_put_machine: "set (map m_Name (put_machine m s)) = insert (m_Name m) (set (map m_Name s))"
  by (induction s) auto

lemma distinct_put_machine:
  "distinct (map m_Name s) \<Longrightarrow> distinct (map m_Name (put_machine m s))"
proof (induction s)
  case (Cons x xs)
  then show ?case using names_put_machine [of m xs] by (auto simp del: set_map)
qed simp

lemma newFiltered_is_filter:
  assumes "distinct (map m_Name ms)"
  shows "newFilteredMachineCollection f ms = filter (\<lambda>m. f (Some m)) ms"
proof -
  have "foldl (\<lambda>ss m. if f (Some m) then machines_Insert ss [Some m] else ss) acc ms =
      acc @ filter (\<lambda>m. f (Some m)) ms"
    if "distinct (map m_Name (acc @ ms))" for acc
    using that
  proof (induction ms arbitrary: acc)
    case (Cons m ms)
    have "machines_Insert acc [Some m] = acc @ [m]"
      using Cons.prems put_machine_new [of m acc] by (simp add: machines_Insert_def)
    then show ?case using Cons by simp
  qed simp
  from this [of "[]"] show ?thesis using assms by (simp add: newFilteredMachineCollection_def)
qed

lemma machines_Filter_is_filter:
  "distinct (map m_Name s) \<Longrightarrow> machines_Filter fs s = filter (\<lambda>m. And fs (Some m)) s"
  by (simp add: machines_Filter_def newFiltered_is_filter)

lemma filter_simps [simp]:
  "And [] mo" "And (f # fs) mo \<longleftrightarrow> f mo \<and> And fs mo" "Not f mo \<longleftrightarrow> \<not> f mo"
  "\<not> Or [] mo" "Or (f # fs) mo \<longleftrightarrow> f mo \<or> Or fs mo" "non_nil g (Some m) \<longleftrightarrow> g m" "\<not> non_nil g None"
  by (simp_all add: And_def Or_def Not_def non_nil_def)

interpretation by_creation: weak_order machinesByCreationTimestamp_Less
  by unfold_locales (auto simp: machinesByCreationTimestamp_Less_def split: if_splits)

interpretation by_deletion: weak_order machinesByDeletionTimestamp_Less
  by unfold_locales (auto simp: machinesByDeletionTimestamp_Less_def split: option.splits if_splits)

interpretation fewest: weak_order fda_Less
  by unfold_locales (auto simp: fda_Less_def)

interpretation most: weak_order "sort_Reverse fda_Less"
  by unfold_locales (auto simp: sort_Reverse_def fda_Less_def)

lemma machine_orders_total:
  assumes "distinct (map m_Name s)" "x \<in> set s" "y \<in> set s" "x \<noteq> y"
  shows "machinesByCreationTimestamp_Less x y \<or> machinesByCreationTimestamp_Less y x"
    and "machinesByDeletionTimestamp_Less x y \<or> machinesByDeletionTimestamp_Less y x"
proof -
  have "m_Name x \<noteq> m_Name y" using assms by (auto simp: distinct_map inj_on_def)
  then show "machinesByCreationTimestamp_Less x y \<or> machinesByCreationTimestamp_Less y x"
    and "machinesByDeletionTimestamp_Less x y \<or> machinesByDeletionTimestamp_Less y x"
    by (auto simp: machinesByCreationTimestamp_Less_def machinesByDeletionTimestamp_Less_def split: option.splits)
qed

lemma sorted_order_independent:
  assumes "mset s' = mset s" "distinct (map m_Name s)"
  shows "SortedByCreationTimestamp s' = SortedByCreationTimestamp s"
    and "SortedByDeletionTimestamp s' = SortedByDeletionTimestamp s"
  unfolding SortedByCreationTimestamp_def SortedByDeletionTimestamp_def
  using assms machine_orders_total [OF assms(2)]
  by (auto intro!: by_creation.sorted_perm_unique by_creation.sorted_go_sort
      by_deletion.sorted_perm_unique by_deletion.sorted_go_sort)

lemma Oldest_least:
  assumes "Oldest s = Some m"
  shows "m \<in> set s" and "x \<in> set s \<Longrightarrow> m_CreationTimestamp m \<le> m_CreationTimestamp x"
proof -
  have ne: "s \<noteq> []" and m: "m = hd (go_sort machinesByCreationTimestamp_Less s)"
    using assms by (auto simp: Oldest_def SortedByCreationTimestamp_def split: if_splits)
  then show "m \<in> set s" by (metis go_sort_Nil_iff hd_in_set set_go_sort)
  assume "x \<in> set s"
  then have "\<not> machinesByCreationTimestamp_Less x m" using by_creation.hd_go_sort_least [OF ne] m by simp
  then show "m_CreationTimestamp m \<le> m_CreationTimestamp x"
    by (auto simp: machinesByCreationTimestamp_Less_def split: if_splits)
qed

lemma Newest_greatest:
  assumes "Newest s = Some m"
  shows "m \<in> set s" and "x \<in> set s \<Longrightarrow> m_CreationTimestamp x \<le> m_CreationTimestamp m"
proof -
  let ?r = "go_sort machinesByCreationTimestamp_Less s"
  have ne: "?r \<noteq> []" and m: "m = last ?r"
    using assms by (auto simp: Newest_def SortedByCreationTimestamp_def last_conv_nth split: if_splits)
  then show "m \<in> set s" by (metis last_in_set set_go_sort)
  assume "x \<in> set s"
  then have x: "x \<in> set ?r" by simp
  have "\<not> machinesByCreationTimestamp_Less m x"
  proof (cases "x = m")
    case False
    obtain ys where r: "?r = ys @ [m]" using ne m by (metis append_butlast_last_id)
    then have "x \<in> set ys" using x False by auto
    then show ?thesis using by_creation.sorted_go_sort [of s] r by (simp add: sorted_wrt_append)
  qed (simp add: machinesByCreationTimestamp_Less_def)
  then show "m_CreationTimestamp x \<le> m_CreationTimestamp m"
    by (auto simp: machinesByCreationTimestamp_Less_def split: if_splits)
qed

section \<open>Lemmas on failure domains\<close>

definition fd_load :: "machines \<Rightarrow> string \<Rightarrow> int" where
  "fd_load ms fid = int (length (filter (\<lambda>m. m_FailureDomain m = Some fid) ms))"

definition range_order :: "(string list \<Rightarrow> string list) \<Rightarrow> bool" where
  "range_order rng \<longleftrightarrow> (\<forall>ks. mset (rng ks) = mset ks)"

lemma counters_load:
  assumes "fid \<in> fst ` set fds"
  shows "foldl (count_machine fds) c ms fid = c fid + fd_load ms fid"
  using assms
proof (induction ms arbitrary: c)
  case (Cons m ms)
  then show ?case by (auto simp: fd_load_def count_machine_def split: option.splits)
qed (simp add: fd_load_def)

lemma set_pick:
  assumes "range_order rng"
  shows "set (pick rng fds ms) = (\<lambda>fid. \<lparr>fda_id = fid, fda_count = fd_load ms fid\<rparr>) ` fst ` set fds"
proof -
  have "set (rng (map fst fds)) = fst ` set fds"
    using assms by (metis list.set_map range_order_def set_mset_mset)
  then show ?thesis using counters_load [of _ fds "\<lambda>_. 0" ms] by (auto simp: pick_def Let_def image_iff)
qed

lemma PickFewest_iff_None: "range_order rng \<Longrightarrow> PickFewest rng fds ms = None \<longleftrightarrow> fds = []"
  using set_pick [of rng fds ms] by (auto simp: PickFewest_def Let_def)

lemma PickFewest_least:
  assumes "range_order rng" "PickFewest rng fds ms = Some fid"
  shows "fid \<in> fst ` set fds" and "g \<in> fst ` set fds \<Longrightarrow> fd_load ms fid \<le> fd_load ms g"
proof -
  let ?p = "pick rng fds ms"
  have ne: "?p \<noteq> []" and f: "fid = fda_id (hd (go_sort fda_Less ?p))"
    using assms(2) by (auto simp: PickFewest_def Let_def split: if_splits)
  have h: "hd (go_sort fda_Less ?p) \<in> set ?p" using ne by (metis go_sort_Nil_iff hd_in_set set_go_sort)
  then have hd: "fid \<in> fst ` set fds" "fda_count (hd (go_sort fda_Less ?p)) = fd_load ms fid"
    using f set_pick [OF assms(1), of fds ms] by (force simp: image_iff)+
  show "fid \<in> fst ` set fds" by (rule hd(1))
  assume "g \<in> fst ` set fds"
  then have "\<lparr>fda_id = g, fda_count = fd_load ms g\<rparr> \<in> set ?p" using set_pick [OF assms(1)] by blast
  then show "fd_load ms fid \<le> fd_load ms g"
    using fewest.hd_go_sort_least [OF ne, of "\<lparr>fda_id = g, fda_count = fd_load ms g\<rparr>"] hd(2)
    by (simp add: fda_Less_def)
qed

lemma find_sorted_greatest:
  assumes "sorted_wrt (\<lambda>a b. \<not> sort_Reverse fda_Less b a) xs" "find P xs = Some x" "y \<in> set xs" "P y"
  shows "fda_count y \<le> fda_count x"
  using assms by (induction xs) (auto simp: sort_Reverse_def fda_Less_def split: if_splits)

lemma PickMost_greatest:
  assumes "range_order rng" "PickMost rng fds grp ms = Some fid"
  shows "fid \<in> fst ` set fds" and "\<exists>m \<in> set ms. m_FailureDomain m = Some fid"
    and "g \<in> fst ` set fds \<Longrightarrow> \<exists>m \<in> set ms. m_FailureDomain m = Some g \<Longrightarrow> fd_load grp g \<le> fd_load grp fid"
proof -
  let ?P = "\<lambda>fd. list_ex (\<lambda>m. m_FailureDomain m = Some (fda_id fd)) ms"
  let ?o = "orderDescending rng fds grp"
  obtain x where x: "find ?P ?o = Some x" "fid = fda_id x"
    using assms(2) by (auto simp: PickMost_def)
  have so: "set ?o = set (pick rng fds grp)" by (auto simp: orderDescending_def Let_def)
  have "x \<in> set ?o" "?P x" using x(1) by (auto simp: find_Some_iff)
  then have xf: "fid \<in> fst ` set fds" "fda_count x = fd_load grp fid" "\<exists>m \<in> set ms. m_FailureDomain m = Some fid"
    using x(2) so set_pick [OF assms(1), of fds grp] by (force simp: list_ex_iff image_iff)+
  show "fid \<in> fst ` set fds" "\<exists>m \<in> set ms. m_FailureDomain m = Some fid" by (rule xf)+
  assume g: "g \<in> fst ` set fds" "\<exists>m \<in> set ms. m_FailureDomain m = Some g"
  let ?y = "\<lparr>fda_id = g, fda_count = fd_load grp g\<rparr>"
  have "?y \<in> set ?o" using g(1) so set_pick [OF assms(1)] by blast
  moreover have "?P ?y" using g(2) by (auto simp: list_ex_iff)
  moreover have "sorted_wrt (\<lambda>a b. \<not> sort_Reverse fda_Less b a) ?o"
    using most.sorted_go_sort by (simp add: orderDescending_def Let_def)
  ultimately show "fd_load grp g \<le> fd_load grp fid"
    using find_sorted_greatest [OF _ x(1)] xf(2) by fastforce
qed

lemma PickMost_None:
  assumes "range_order rng" "PickMost rng fds grp ms = None" "g \<in> fst ` set fds"
  shows "\<not> (\<exists>m \<in> set ms. m_FailureDomain m = Some g)"
proof -
  have so: "set (orderDescending rng fds grp) = set (pick rng fds grp)" by (auto simp: orderDescending_def Let_def)
  have "\<lparr>fda_id = g, fda_count = fd_load grp g\<rparr> \<in> set (orderDescending rng fds grp)"
    using assms(3) so set_pick [OF assms(1)] by blast
  then show ?thesis using assms(2) by (fastforce simp: PickMost_def find_None_iff list_ex_iff)
qed

text \<open>
  Growing and shrinking a set of machines: a new machine goes to the failure domain with the fewest
  machines, a machine is removed from one with the most; in between a loop may see the set in any
  order.
\<close>

inductive spread :: "failure_domains \<Rightarrow> machines \<Rightarrow> bool" for fds where
  spread_empty: "spread fds []"
| spread_add: "spread fds ms \<Longrightarrow> range_order rng \<Longrightarrow> PickFewest rng fds ms = m_FailureDomain m \<Longrightarrow> spread fds (m # ms)"
| spread_remove: "spread fds ms \<Longrightarrow> range_order rng \<Longrightarrow> PickMost rng fds ms ms = m_FailureDomain m \<Longrightarrow> m \<in> set ms \<Longrightarrow>
    spread fds (remove1 m ms)"
| spread_reorder: "spread fds ms \<Longrightarrow> mset ms' = mset ms \<Longrightarrow> spread fds ms'"

lemma fd_load_Cons: "fd_load (m # ms) fid = fd_load ms fid + (if m_FailureDomain m = Some fid then 1 else 0)"
  by (simp add: fd_load_def)

lemma fd_load_mset: "mset ms' = mset ms \<Longrightarrow> fd_load ms' fid = fd_load ms fid"
  unfolding fd_load_def by (metis mset_filter size_mset)

lemma fd_load_remove1:
  "m \<in> set ms \<Longrightarrow> fd_load (remove1 m ms) fid = fd_load ms fid - (if m_FailureDomain m = Some fid then 1 else 0)"
  using fd_load_mset [of "m # remove1 m ms" ms fid] fd_load_Cons [of m "remove1 m ms" fid] by auto

lemma fd_load_pos: "m \<in> set ms \<Longrightarrow> m_FailureDomain m = Some fid \<Longrightarrow> 0 < fd_load ms fid"
  unfolding fd_load_def by (auto simp: filter_empty_conv)

lemma fd_load_zero: "\<not> (\<exists>m \<in> set ms. m_FailureDomain m = Some g) \<Longrightarrow> fd_load ms g = 0"
  by (auto simp: fd_load_def filter_empty_conv)

lemma spread_balance_add:
  assumes "range_order rng" "PickFewest rng fds ms = m_FailureDomain m"
    and "\<And>f g. f \<in> fst ` set fds \<Longrightarrow> g \<in> fst ` set fds \<Longrightarrow> fd_load ms f \<le> fd_load ms g + 1"
    and "f \<in> fst ` set fds" "g \<in> fst ` set fds"
  shows "fd_load (m # ms) f \<le> fd_load (m # ms) g + 1"
proof (cases "m_FailureDomain m = Some f")
  case True
  then have "PickFewest rng fds ms = Some f" using assms(2) by simp
  then show ?thesis using PickFewest_least(2) [OF assms(1) _ assms(5)] True by (simp add: fd_load_Cons)
next
  case False
  then show ?thesis using assms(3) [OF assms(4,5)] by (simp add: fd_load_Cons)
qed

lemma spread_balance_remove:
  assumes "range_order rng" "PickMost rng fds ms ms = m_FailureDomain m" "m \<in> set ms"
    and "\<And>f g. f \<in> fst ` set fds \<Longrightarrow> g \<in> fst ` set fds \<Longrightarrow> fd_load ms f \<le> fd_load ms g + 1"
    and "f \<in> fst ` set fds" "g \<in> fst ` set fds"
  shows "fd_load (remove1 m ms) f \<le> fd_load (remove1 m ms) g + 1"
proof (cases "m_FailureDomain m = Some g")
  case True
  then have P: "PickMost rng fds ms ms = Some g" using assms(2) by simp
  have "fd_load ms f \<le> fd_load ms g"
  proof (cases "\<exists>x \<in> set ms. m_FailureDomain x = Some f")
    case ex: True
    show ?thesis by (rule PickMost_greatest(3) [OF assms(1) P assms(5) ex])
  next
    case False
    then show ?thesis using fd_load_zero [OF False] by (simp add: fd_load_def)
  qed
  then show ?thesis using True assms(3) by (simp add: fd_load_remove1)
next
  case False
  then show ?thesis using assms(4) [OF assms(5,6)] assms(3) by (simp add: fd_load_remove1)
qed

section \<open>Lemmas on owner references\<close>

lemma indexOwnerRef_Some:
  "indexOwnerRef pgv rs ref = Some i \<Longrightarrow>
     i < length rs \<and> referSameObject pgv (rs ! i) ref \<and> (\<forall>j < i. \<not> referSameObject pgv (rs ! j) ref)"
proof (induction rs arbitrary: i)
  case (Cons r rs)
  show ?case
  proof (cases "referSameObject pgv r ref")
    case False
    then obtain k where "i = Suc k" "indexOwnerRef pgv rs ref = Some k" using Cons.prems by auto
    then show ?thesis using Cons.IH [of k] False by (auto simp: less_Suc_eq_0_disj)
  qed (use Cons.prems in auto)
qed simp

lemma indexOwnerRef_None: "indexOwnerRef pgv rs ref = None \<longleftrightarrow> (\<forall>r \<in> set rs. \<not> referSameObject pgv r ref)"
  by (induction rs) auto

lemma indexOwnerRef_update:
  "indexOwnerRef pgv rs ref = Some i \<Longrightarrow> referSameObject pgv ref ref \<Longrightarrow>
     indexOwnerRef pgv (rs[i := ref]) ref = Some i"
  by (induction rs arbitrary: i) (auto split: if_splits nat.splits)

lemma indexOwnerRef_append:
  "indexOwnerRef pgv rs ref = None \<Longrightarrow> referSameObject pgv ref ref \<Longrightarrow>
     indexOwnerRef pgv (rs @ [ref]) ref = Some (length rs)"
  by (induction rs) (auto split: if_splits)

lemma filter_update_other:
  "i < length rs \<Longrightarrow> \<not> P (rs ! i) \<Longrightarrow> \<not> P x \<Longrightarrow> filter P (rs[i := x]) = filter P rs"
  by (induction rs arbitrary: i) (auto split: nat.splits)

section \<open>Concrete machines\<close>

definition sample_machine :: "string \<Rightarrow> int \<Rightarrow> string option \<Rightarrow> string option \<Rightarrow> machine" where
  "sample_machine n created fd v =
     \<lparr>m_Meta = \<lparr>om_Name = n, om_Namespace = ''default'', om_UID = n, om_Labels = None, om_Annotations = None,
        om_CreationTimestamp = created, om_DeletionTimestamp = None, om_Generation = 1, om_Finalizers = [],
        om_OwnerReferences = []\<rparr>,
      m_Spec = \<lparr>sp_ClusterName = ''c'', sp_Bootstrap = \<lparr>bs_ConfigRef = None, bs_DataSecretName = None\<rparr>,
        sp_InfrastructureRef = empty_reference, sp_Version = v, sp_ProviderID = None, sp_FailureDomain = fd,
        sp_ReadinessGates = None, sp_NodeDrainTimeout = None, sp_NodeVolumeDetachTimeout = None,
        sp_NodeDeletionTimeout = None\<rparr>,
      m_Status = \<lparr>st_NodeRef = None, st_NodeInfo = None, st_LastUpdated = None, st_FailureReason = None,
        st_FailureMessage = None, st_Addresses = [], st_Phase = [], st_CertificatesExpiryDate = None,
        st_BootstrapReady = True, st_InfrastructureReady = True, st_ObservedGeneration = 1, st_Conditions = [],
        st_Deletion = None, st_V1Beta2 = None\<rparr>\<rparr>"

definition sample_fds :: failure_domains where
  "sample_fds = [(''a'', \<lparr>fd_ControlPlane = True, fd_Attributes = None\<rparr>), (''b'', \<lparr>fd_ControlPlane = True, fd_Attributes = None\<rparr>)]"

section \<open>Properties\<close>



text \<open>
  The failure domain for a new machine has no more machines than any other one and there is one
  unless there are no failure domains; the failure domain to remove a machine from holds one of the
  candidates, and no failure domain that holds one has more machines of the group; there is none only
  if every candidate is outside of the known failure domains.
\<close>

lemma failure_domain_choice:
  assumes "range_order rng"
  shows "(case PickFewest rng fds ms of None \<Rightarrow> fds = []
          | Some f \<Rightarrow> f \<in> fst ` set fds \<and> (\<forall>g \<in> fst ` set fds. fd_load ms f \<le> fd_load ms g)) \<and>
         (case PickMost rng fds grp ms of None \<Rightarrow> (\<forall>m \<in> set ms. \<forall>f. m_FailureDomain m = Some f \<longrightarrow> f \<notin> fst ` set fds)
          | Some f \<Rightarrow> f \<in> fst ` set fds \<and> f \<in> (\<lambda>m. the (m_FailureDomain m)) ` {m \<in> set ms. m_FailureDomain m \<noteq> None} \<and>
              (\<forall>m \<in> set ms. \<forall>g. m_FailureDomain m = Some g \<and> g \<in> fst ` set fds \<longrightarrow> fd_load grp g \<le> fd_load grp f))"
proof
  show "case PickFewest rng fds ms of None \<Rightarrow> fds = []
          | Some f \<Rightarrow> f \<in> fst ` set fds \<and> (\<forall>g \<in> fst ` set fds. fd_load ms f \<le> fd_load ms g)"
    using PickFewest_iff_None [OF assms] PickFewest_least [OF assms] by (auto split: option.splits)
  show "case PickMost rng fds grp ms of None \<Rightarrow> (\<forall>m \<in> set ms. \<forall>f. m_FailureDomain m = Some f \<longrightarrow> f \<notin> fst ` set fds)
          | Some f \<Rightarrow> f \<in> fst ` set fds \<and> f \<in> (\<lambda>m. the (m_FailureDomain m)) ` {m \<in> set ms. m_FailureDomain m \<noteq> None} \<and>
              (\<forall>m \<in> set ms. \<forall>g. m_FailureDomain m = Some g \<and> g \<in> fst ` set fds \<longrightarrow> fd_load grp g \<le> fd_load grp f)"
  proof (cases "PickMost rng fds grp ms")
    case None
    then show ?thesis using PickMost_None [OF assms None] by auto
  next
    case (Some f)
    obtain m where m: "m \<in> set ms" "m_FailureDomain m = Some f" using PickMost_greatest(2) [OF assms Some] by blast
    then have "f \<in> (\<lambda>m. the (m_FailureDomain m)) ` {m \<in> set ms. m_FailureDomain m \<noteq> None}"
      by (intro image_eqI [of _ _ m]) auto
    then show ?thesis using PickMost_greatest(1,3) [OF assms Some] by (auto simp: Some)
  qed
qed

text \<open>Both failure domains hold one machine of the group; the one with the candidate is chosen.\<close>

text \<open>
  C30: the sorted lists of machines, and so the oldest machine, the newest one and the one that is deleted
  for the longest time, do not depend on the order in which the loop ranges over the set; the oldest and
  the newest machine are what they are called.
\<close>

theorem machines_order_independent:
  assumes "mset s' = mset s" and "distinct (map m_Name s)"
  shows "SortedByCreationTimestamp s' = SortedByCreationTimestamp s \<and>
     SortedByDeletionTimestamp s' = SortedByDeletionTimestamp s \<and>
     Oldest s' = Oldest s \<and> Newest s' = Newest s \<and> OldestDeletionTimestamp s' = OldestDeletionTimestamp s \<and>
     (\<forall>m. Oldest s = Some m \<longrightarrow> m \<in> set s \<and> (\<forall>x \<in> set s. m_CreationTimestamp m \<le> m_CreationTimestamp x)) \<and>
     (\<forall>m. Newest s = Some m \<longrightarrow> m \<in> set s \<and> (\<forall>x \<in> set s. m_CreationTimestamp x \<le> m_CreationTimestamp m))"
proof -
  have len: "length s' = length s" using assms(1) by (metis size_mset)
  show ?thesis
    using sorted_order_independent [OF assms] Oldest_least [of s] Newest_greatest [of s]
    by (auto simp: Oldest_def [of s'] Oldest_def [of s] Newest_def [of s'] Newest_def [of s]
        OldestDeletionTimestamp_def len split: if_splits)
qed

text \<open>Two machines created at the same time, in both orders.\<close>

theorem machines_order_independent_witness:
  "Oldest [sample_machine ''m1'' 7 None None, sample_machine ''m2'' 7 None None] = Some (sample_machine ''m1'' 7 None None) \<and>
   Oldest [sample_machine ''m2'' 7 None None, sample_machine ''m1'' 7 None None] = Some (sample_machine ''m1'' 7 None None)"
proof -
  let ?m1 = "sample_machine ''m1'' 7 None None" and ?m2 = "sample_machine ''m2'' 7 None None"
  have n: "m_Name ?m1 = ''m1''" "m_Name ?m2 = ''m2''" "m_CreationTimestamp ?m1 = 7" "m_CreationTimestamp ?m2 = 7"
    by (simp_all add: sample_machine_def)
  have "Oldest [?m1, ?m2] = Some ?m1"
    by (simp add: Oldest_def SortedByCreationTimestamp_def go_sort_def machinesByCreationTimestamp_Less_def n)
  moreover have "mset [?m2, ?m1] = mset [?m1, ?m2]" "distinct (map m_Name [?m1, ?m2])" using n by simp_all
  ultimately show ?thesis using machines_order_independent [of "[?m2, ?m1]" "[?m1, ?m2]"] by simp
qed

text \<open>
  Ensuring an owner reference puts it into the list, replacing a reference to the same object of
  another version or UID; the references to other objects keep their places, ensuring again changes
  nothing, and removing the reference restores a list that did not have it.
\<close>

lemma owner_reference_ensured:
  assumes "pgv (or_APIVersion ref) = Some g"
  shows "ref \<in> set (EnsureOwnerRef pgv rs ref) \<and> HasOwnerRef pgv (EnsureOwnerRef pgv rs ref) ref \<and>
     EnsureOwnerRef pgv (EnsureOwnerRef pgv rs ref) ref = EnsureOwnerRef pgv rs ref \<and>
     filter (\<lambda>r. \<not> referSameObject pgv r ref) (EnsureOwnerRef pgv rs ref) =
       filter (\<lambda>r. \<not> referSameObject pgv r ref) rs \<and>
     (\<not> HasOwnerRef pgv rs ref \<longrightarrow> RemoveOwnerRef pgv (EnsureOwnerRef pgv rs ref) ref = rs)"
proof -
  have self: "referSameObject pgv ref ref" using assms by (simp add: referSameObject_def)
  show ?thesis
  proof (cases "indexOwnerRef pgv rs ref")
    case None
    then have "EnsureOwnerRef pgv rs ref = rs @ [ref]" by (simp add: EnsureOwnerRef_def)
    then show ?thesis using indexOwnerRef_append [OF None self] self
      by (simp add: HasOwnerRef_def EnsureOwnerRef_def RemoveOwnerRef_def)
  next
    case (Some i)
    have i: "i < length rs" "referSameObject pgv (rs ! i) ref" using indexOwnerRef_Some [OF Some] by auto
    have "EnsureOwnerRef pgv rs ref = rs[i := ref]" using Some by (simp add: EnsureOwnerRef_def)
    then show ?thesis using indexOwnerRef_update [OF Some self] self i Some
      by (simp add: HasOwnerRef_def EnsureOwnerRef_def filter_update_other set_update_memI)
  qed
qed

text \<open>
  C33: the lowest version of a set of machines is not always a lowest one: versions whose build identifiers
  have no order come in between, so that sorting does not bring the lowest version to the front. Here
  build a.1 is lower than build a.2, and a.2 is returned.
\<close>

theorem LowestVersion_not_lowest:
  "LowestVersion sample_lib
     [sample_machine ''m1'' 1 None (Some ''v1.0.0+a.2''), sample_machine ''m2'' 2 None (Some ''v1.0.0+b''),
      sample_machine ''m3'' 3 None (Some ''v1.0.0+a.1'')] = Some ''v1.0.0+a.2'' \<and>
   version_Compare sample_lib (sv_of 1 0 0\<lparr>sv_Build := [''a'', ''1'']\<rparr>) (sv_of 1 0 0\<lparr>sv_Build := [''a'', ''2'']\<rparr>)
     [WithBuildTags] = - 1"
proof
  let ?v = "\<lambda>b. sv_of 1 0 0\<lparr>sv_Build := b\<rparr>"
  have f: "format_nat 1 = ''1''" "format_nat 0 = ''0''" by ((subst format_nat.simps, simp)+)
  have parse: "parseMajorMinorPatch (''v1.0.0+'' @ s) True = Ret (sv_of 1 0 0)" if "list_all suffix_char s" for s
    using f that by (subst parse_version_exact, intro exI [of _ "''v''"] exI [of _ 1] exI [of _ 0] exI [of _ 0]
        exI [of _ "CHR ''+'' # s"]) (auto simp: printed_def suffix_char_def)
  have p: "lib_ParseTolerant sample_lib ''v1.0.0+a.2'' = Inr (?v [''a'', ''2''])"
    "lib_ParseTolerant sample_lib ''v1.0.0+a.1'' = Inr (?v [''a'', ''1''])"
    "lib_ParseTolerant sample_lib ''v1.0.0+b'' = Inr (?v [''b''])"
    using parse [of "''a.2''"] parse [of "''a.1''"] parse [of "''b''"]
    by (simp_all add: sample_lib_def sample_parse_def ParseMajorMinorPatchTolerant_def suffix_char_def is_digit_def)
  have key: "lib_Compare sample_lib (?v x) (?v y) = 0" for x y by (simp add: sample_lib_def)
  have bi: "newBuildIdentifier ''a'' = \<lparr>IdentifierInt = 0, IdentifierStr = ''a'', IsNum = False\<rparr>"
    "newBuildIdentifier ''b'' = \<lparr>IdentifierInt = 0, IdentifierStr = ''b'', IsNum = False\<rparr>"
    "newBuildIdentifier ''1'' = \<lparr>IdentifierInt = 1, IdentifierStr = [], IsNum = True\<rparr>"
    "newBuildIdentifier ''2'' = \<lparr>IdentifierInt = 2, IdentifierStr = [], IsNum = True\<rparr>"
    by (simp_all add: newBuildIdentifier_def containsOnly_def ParseUint64_def ParseUint10_def is_digit_def digit_val_def)
  have cmp: "version_Compare sample_lib (?v x) (?v y) [WithBuildTags] =
      buildIdentifiers_compare (newBuildIdentifiers x) (newBuildIdentifiers y)" for x y
    by (simp add: version_Compare_WithBuildTags key)
  show "version_Compare sample_lib (?v [''a'', ''1'']) (?v [''a'', ''2'']) [WithBuildTags] = - 1"
    by (simp add: cmp newBuildIdentifiers_def bi buildIdentifier_compare_def)
  let ?m1 = "sample_machine ''m1'' 1 None (Some ''v1.0.0+a.2'')" and ?m2 = "sample_machine ''m2'' 2 None (Some ''v1.0.0+b'')"
    and ?m3 = "sample_machine ''m3'' 3 None (Some ''v1.0.0+a.1'')"
  have ver: "sp_Version (m_Spec (sample_machine n t d v)) = v" "m_Name (sample_machine n t d v) = n" for n t d v
    by (simp_all add: sample_machine_def)
  have "\<not> machinesByVersion_Less sample_lib ?m2 ?m1" "\<not> machinesByVersion_Less sample_lib ?m3 ?m2"
    by (simp_all add: machinesByVersion_Less_def ver p cmp newBuildIdentifiers_def bi buildIdentifier_compare_def)
  moreover have "machines_Filter [WithVersion sample_lib] [?m1, ?m2, ?m3] = [?m1, ?m2, ?m3]"
    by (simp add: machines_Filter_is_filter WithVersion_def ver p)
  ultimately show "LowestVersion sample_lib [?m1, ?m2, ?m3] = Some ''v1.0.0+a.2''"
    by (simp add: LowestVersion_def sortedByVersion_def go_sort_def ver)
qed

end
