(* ===== verification/Ms_Policy.thy ===== *)
theory Ms_Policy
  imports Complex_Main Collections
begin

text \<open>
  The decisions of the MachineSet controller that make no API requests: which Machines a scale-down
  deletes (machineset_delete_policy.go), whether a scale-up or a remediation may begin
  (machineset_preflight.go) and the value of a label (src/util/labels/format/helpers.go).

  A \<^verbatim>\<open>float64\<close> is a real number. \<open>float_lib\<close> holds the rounding of the result of an operation to a
  \<^verbatim>\<open>float64\<close> and the exponential function \<^verbatim>\<open>math.Exp\<close>; \<open>float_ok\<close> is what is used of them. The clock is an
  argument and stands still while the Machines are sorted.
\<close>

record float_lib =
  fp_round :: "real \<Rightarrow> real"
  fp_Exp :: "real \<Rightarrow> real"

section \<open>machineset_delete_policy.go\<close>

abbreviation mustDelete :: real where "mustDelete \<equiv> 100"
abbreviation shouldDelete :: real where "shouldDelete \<equiv> 75"
abbreviation betterDelete :: real where "betterDelete \<equiv> 50"
abbreviation couldDelete :: real where "couldDelete \<equiv> 20"
abbreviation mustNotDelete :: real where "mustNotDelete \<equiv> 0"
abbreviation secondsPerTenDays :: real where "secondsPerTenDays \<equiv> 864000"

definition isMachineHealthy :: "machine \<Rightarrow> bool" where
  "isMachineHealthy m =
     (if st_NodeRef (m_Status m) = None then False
      else if st_FailureReason (m_Status m) \<noteq> None \<or> st_FailureMessage (m_Status m) \<noteq> None then False
      else if conditions_IsFalse (m_Conditions m) MachineNodeHealthyCondition then False
      else if conditions_IsFalse (m_Conditions m) MachineHealthCheckSucceededCondition then False
      else True)"

text \<open>
  \<^verbatim>\<open>Time.Sub\<close> saturates at the bounds of an \<^verbatim>\<open>int64\<close> of nanoseconds; \<^verbatim>\<open>Duration.Seconds\<close> adds the whole
  seconds and the rest, both of the sign of the duration.
\<close>

definition time_Sub :: "int \<Rightarrow> int \<Rightarrow> int" where
  "time_Sub t u = max (- (2 ^ 63)) (min (2 ^ 63 - 1) (t - u))"

definition d_Seconds :: "float_lib \<Rightarrow> int \<Rightarrow> real" where
  "d_Seconds fp d =
     (let fl = fp_round fp;
          seconds = (\<lambda>e. fl (of_int (e div 1000000000) + fl (of_int (e mod 1000000000) / 1000000000)))
      in if d < 0 then - seconds (- d) else seconds d)"

definition age_priority :: "float_lib \<Rightarrow> int \<Rightarrow> real" where
  "age_priority fp d =
     (let fl = fp_round fp
      in fl (betterDelete * fl (1 - fp_Exp fp (fl (- d_Seconds fp d / secondsPerTenDays)))))"

definition oldestDeletePriority :: "float_lib \<Rightarrow> int \<Rightarrow> machine \<Rightarrow> real" where
  "oldestDeletePriority fp now m =
     (if \<not> time_IsZero (m_DeletionTimestamp m) then mustDelete
      else if map_lookup (m_Annotations m) DeleteMachineAnnotation \<noteq> None then shouldDelete
      else if \<not> isMachineHealthy m then betterDelete
      else if m_CreationTimestamp m = 0 then mustNotDelete
      else let d = time_Sub now (m_CreationTimestamp m)
           in if d_Seconds fp d < 0 then mustNotDelete else age_priority fp d)"

definition newestDeletePriority :: "float_lib \<Rightarrow> int \<Rightarrow> machine \<Rightarrow> real" where
  "newestDeletePriority fp now m =
     (if \<not> time_IsZero (m_DeletionTimestamp m) then mustDelete
      else if map_lookup (m_Annotations m) DeleteMachineAnnotation \<noteq> None then shouldDelete
      else if \<not> isMachineHealthy m then betterDelete
      else fp_round fp (betterDelete - oldestDeletePriority fp now m))"

definition randomDeletePolicy :: "machine \<Rightarrow> real" where
  "randomDeletePolicy m =
     (if \<not> time_IsZero (m_DeletionTimestamp m) then mustDelete
      else if map_lookup (m_Annotations m) DeleteMachineAnnotation \<noteq> None then betterDelete
      else if \<not> isMachineHealthy m then betterDelete
      else couldDelete)"

definition sortableMachines_Less :: "(machine \<Rightarrow> real) \<Rightarrow> machine \<Rightarrow> machine \<Rightarrow> bool" where
  "sortableMachines_Less priority mi mj =
     (if priority mi = priority mj then m_Name mi < m_Name mj else priority mj < priority mi)"

text \<open>The slice is sorted in place: the result is the slice afterwards and the Machines to delete.\<close>

definition getMachinesToDeletePrioritized :: "machine list \<Rightarrow> int \<Rightarrow> (machine \<Rightarrow> real) \<Rightarrow> machine list \<times> machine list" where
  "getMachinesToDeletePrioritized filteredMachines diff priority =
     (if diff \<ge> int (length filteredMachines) then (filteredMachines, filteredMachines)
      else if diff \<le> 0 then (filteredMachines, [])
      else let sorted_ms = go_sort (sortableMachines_Less priority) filteredMachines
           in (sorted_ms, take (nat diff) sorted_ms))"

abbreviation RandomMachineSetDeletePolicy :: string where "RandomMachineSetDeletePolicy \<equiv> ''Random''"
abbreviation NewestMachineSetDeletePolicy :: string where "NewestMachineSetDeletePolicy \<equiv> ''Newest''"
abbreviation OldestMachineSetDeletePolicy :: string where "OldestMachineSetDeletePolicy \<equiv> ''Oldest''"

text \<open>The error is the unsupported policy.\<close>

definition getDeletePriorityFunc :: "float_lib \<Rightarrow> int \<Rightarrow> machineset \<Rightarrow> string + (machine \<Rightarrow> real)" where
  "getDeletePriorityFunc fp now ms =
     (let msdp = mss_DeletePolicy (ms_Spec ms)
      in if msdp = RandomMachineSetDeletePolicy then Inr randomDeletePolicy
         else if msdp = NewestMachineSetDeletePolicy then Inr (newestDeletePriority fp now)
         else if msdp = OldestMachineSetDeletePolicy then Inr (oldestDeletePriority fp now)
         else if msdp = [] then Inr randomDeletePolicy
         else Inl msdp)"

section \<open>machineset_preflight.go\<close>

abbreviation MachineSetPreflightCheckAll :: string where "MachineSetPreflightCheckAll \<equiv> ''All''"
abbreviation MachineSetPreflightCheckKubeadmVersionSkew :: string where
  "MachineSetPreflightCheckKubeadmVersionSkew \<equiv> ''KubeadmVersionSkew''"
abbreviation MachineSetPreflightCheckKubernetesVersionSkew :: string where
  "MachineSetPreflightCheckKubernetesVersionSkew \<equiv> ''KubernetesVersionSkew''"
abbreviation MachineSetPreflightCheckControlPlaneIsStable :: string where
  "MachineSetPreflightCheckControlPlaneIsStable \<equiv> ''ControlPlaneIsStable''"

record cluster_view =
  clv_Name :: string
  clv_Namespace :: string
  clv_UID :: string
  clv_ControlPlaneRef :: "object_reference option"

text \<open>
  A failed check is its message. \<^verbatim>\<open>klog.KRef\<close> prints the name of an object behind its namespace, and \<^verbatim>\<open>%q\<close>
  quotes the names of the checks, which need no escaping.
\<close>

definition KRef :: "string \<Rightarrow> string \<Rightarrow> string" where
  "KRef ns name = (if ns = [] then name else ns @ ''/'' @ name)"

definition check_failed :: "string \<Rightarrow> string" where
  "check_failed check = '' ('' @ [CHR 0x22] @ check @ [CHR 0x22] @ '' preflight check failed)''"

datatype preflight_error = GetControlPlaneErr string | ControlPlaneVersionErr contract_error
  | ControlPlaneParseErr string string | MachineSetParseErr string string
  | ProvisioningErr contract_error | UpgradingErr contract_error | BootstrapAPIVersionErr string
  | PreflightErrs "preflight_error list"

definition controlPlaneStablePreflightCheck ::
  "semver_lib \<Rightarrow> controlplane_object \<Rightarrow> (preflight_error, string option) go" where
  "controlPlaneStablePreflightCheck lib controlPlane =
     (case IsProvisioning controlPlane of
        Err e \<Rightarrow> Err (ProvisioningErr e) | Panic \<Rightarrow> Panic
      | Ret True \<Rightarrow> Ret (Some (cp_Kind controlPlane @ '' '' @ KRef (cp_Namespace controlPlane) (cp_Name controlPlane) @
          '' is provisioning'' @ check_failed MachineSetPreflightCheckControlPlaneIsStable))
      | Ret False \<Rightarrow>
          (case IsUpgrading lib controlPlane of
             Err e \<Rightarrow> Err (UpgradingErr e) | Panic \<Rightarrow> Panic
           | Ret b \<Rightarrow> Ret (if b then Some (cp_Kind controlPlane @ '' '' @ KRef (cp_Namespace controlPlane) (cp_Name controlPlane) @
               '' is upgrading'' @ check_failed MachineSetPreflightCheckControlPlaneIsStable) else None)))"

definition minorSkew :: "semver_lib \<Rightarrow> semver \<Rightarrow> 64 word" where
  "minorSkew lib cpSemver = (if lib_Compare lib cpSemver (sv_of 1 28 0) = - 1 then 2 else 3)"

definition versions_message :: "semver_lib \<Rightarrow> semver \<Rightarrow> semver \<Rightarrow> string" where
  "versions_message lib msSemver cpSemver =
     ''MachineSet version ('' @ lib_String lib msSemver @ '') and ControlPlane version ('' @ lib_String lib cpSemver @ '')''"

definition kubernetesVersionPreflightCheck :: "semver_lib \<Rightarrow> semver \<Rightarrow> semver \<Rightarrow> string option" where
  "kubernetesVersionPreflightCheck lib cpSemver msSemver =
     (if sv_Minor msSemver > sv_Minor cpSemver 
      then Some (versions_message lib msSemver cpSemver @ '' do not conform to the kubernetes version skew policy as '' @
        ''MachineSet version is higher than ControlPlane version'' @ check_failed MachineSetPreflightCheckKubernetesVersionSkew)
      else let skew = minorSkew lib cpSemver
           in if sv_Minor msSemver < sv_Minor cpSemver - skew 
              then Some (versions_message lib msSemver cpSemver @ '' do not conform to the kubernetes version skew policy as '' @
                ''MachineSet version is more than '' @ format_nat (unat skew) @ '' minor versions older than the ControlPlane version'' @
                check_failed MachineSetPreflightCheckKubernetesVersionSkew)
              else None)"

abbreviation bootstrapv1_group :: string where "bootstrapv1_group \<equiv> ''bootstrap.cluster.x-k8s.io''"

definition kubeadmVersionPreflightCheck ::
  "semver_lib \<Rightarrow> (string \<Rightarrow> string option) \<Rightarrow> semver \<Rightarrow> semver \<Rightarrow> machineset \<Rightarrow> (preflight_error, string option) go" where
  "kubeadmVersionPreflightCheck lib pgv cpSemver msSemver ms =
     (case bs_ConfigRef (sp_Bootstrap (tp_Spec (mss_Template (ms_Spec ms)))) of None \<Rightarrow> Ret None
      | Some bootstrapConfigRef \<Rightarrow>
          (case pgv (ref_APIVersion bootstrapConfigRef) of None \<Rightarrow> Err (BootstrapAPIVersionErr (ref_APIVersion bootstrapConfigRef))
           | Some g \<Rightarrow>
               if ref_Kind bootstrapConfigRef = ''KubeadmConfigTemplate'' \<and> g = bootstrapv1_group
               then (if sv_Minor cpSemver \<noteq> sv_Minor msSemver
                     then Ret (Some (versions_message lib msSemver cpSemver @ '' do not conform to kubeadm version skew policy as '' @
                       ''kubeadm only supports joining with the same major+minor version as the control plane'' @
                       check_failed MachineSetPreflightCheckKubeadmVersionSkew)) else Ret None)
               else Ret None))"

definition skippedPreflightChecks :: "machineset option \<Rightarrow> string set" where
  "skippedPreflightChecks mso =
     (case mso of None \<Rightarrow> {}
      | Some ms \<Rightarrow>
          let skip = map_str (ms_Annotations ms) MachineSetSkipPreflightChecksAnnotation
          in if skip = [] then {} else set (map TrimSpace (go_split (CHR '','') skip)))"

text \<open>
  The checks of \<^verbatim>\<open>runPreflightChecks\<close> run one after the other, their errors and failures are collected.
\<close>

fun collect_checks ::
  "(preflight_error, string option) go list \<Rightarrow> preflight_error list \<times> string list
     \<Rightarrow> (preflight_error, preflight_error list \<times> string list) go" where
  "collect_checks [] acc = Ret acc"
| "collect_checks (c # cs) (errs, fails) =
     (case c of Err e \<Rightarrow> collect_checks cs (errs @ [e], fails) | Panic \<Rightarrow> Panic
      | Ret None \<Rightarrow> collect_checks cs (errs, fails) | Ret (Some f) \<Rightarrow> collect_checks cs (errs, fails @ [f]))"

abbreviation preflightFailedRequeueAfter :: int where "preflightFailedRequeueAfter \<equiv> 15000000000"

definition preflight_outcome ::
  "preflight_error list \<times> string list \<Rightarrow> (preflight_error, ctrl_result \<times> string list) go" where
  "preflight_outcome acc =
     (case acc of (errList, preflightCheckErrs) \<Rightarrow>
        if length errList > 0 then Err (PreflightErrs errList)
        else if length preflightCheckErrs > 0
        then Ret (result_zero\<lparr>res_RequeueAfter := preflightFailedRequeueAfter\<rparr>, preflightCheckErrs)
        else Ret (result_zero, []))"

definition version_checks ::
  "semver_lib \<Rightarrow> (string \<Rightarrow> string option) \<Rightarrow> string set \<Rightarrow> semver \<Rightarrow> semver \<Rightarrow> machineset \<Rightarrow> (preflight_error, string option) go list" where
  "version_checks lib pgv skipped cpSemver msSemver ms =
     (if MachineSetPreflightCheckKubernetesVersionSkew \<notin> skipped
      then [Ret (kubernetesVersionPreflightCheck lib cpSemver msSemver)] else []) @
     (if MachineSetPreflightCheckKubeadmVersionSkew \<notin> skipped
      then [kubeadmVersionPreflightCheck lib pgv cpSemver msSemver ms] else [])"

text \<open>\<open>cpResult\<close> is what reading the control plane object from the API server returns.\<close>

definition runPreflightChecks ::
  "bool \<Rightarrow> semver_lib \<Rightarrow> (string \<Rightarrow> string option) \<Rightarrow> string + controlplane_object \<Rightarrow> cluster_view \<Rightarrow> machineset
     \<Rightarrow> (preflight_error, ctrl_result \<times> string list) go" where
  "runPreflightChecks enabled lib pgv cpResult cluster ms =
     (if \<not> enabled then Ret (result_zero, [])
      else let skipped = skippedPreflightChecks (Some ms)
      in if MachineSetPreflightCheckAll \<in> skipped then Ret (result_zero, [])
      else if clv_ControlPlaneRef cluster = None then Ret (result_zero, [])
      else case cpResult of Inl e \<Rightarrow> Err (GetControlPlaneErr e)
      | Inr controlPlane \<Rightarrow>
        (case field_Get ''spec.version'' (cp_Version controlPlane) of
           Err e \<Rightarrow> if is_not_found e then Ret (result_zero, []) else Err (ControlPlaneVersionErr e)
         | Panic \<Rightarrow> Panic
         | Ret cpVersion \<Rightarrow>
        (case lib_ParseTolerant lib cpVersion of Inl e \<Rightarrow> Err (ControlPlaneParseErr cpVersion e)
         | Inr cpSemver \<Rightarrow>
           go_bind (collect_checks
             (if MachineSetPreflightCheckControlPlaneIsStable \<notin> skipped
              then [controlPlaneStablePreflightCheck lib controlPlane] else []) ([], [])) (\<lambda>acc.
           case sp_Version (tp_Spec (mss_Template (ms_Spec ms))) of
             None \<Rightarrow> preflight_outcome acc
           | Some msVersion \<Rightarrow>
               (case lib_ParseTolerant lib msVersion of Inl e \<Rightarrow> Err (MachineSetParseErr msVersion e)
                | Inr msSemver \<Rightarrow>
                    go_bind (collect_checks (version_checks lib pgv skipped cpSemver msSemver ms) acc) preflight_outcome)))))"

section \<open>Label values\<close>

text \<open>
  \<^verbatim>\<open>base64.URLEncoding\<close> without padding of the four bytes of a 32-bit hash: six characters of six bits,
  the last one with four zero bits.
\<close>

definition base64url_char :: "nat \<Rightarrow> char" where
  "base64url_char n = (''ABCDEFGHIJKLMNOPQRSTUVWXYZabcdefghijklmnopqrstuvwxyz0123456789-_'' ! n)"

definition base64url_32 :: "32 word \<Rightarrow> string" where
  "base64url_32 h =
     (let n = unat h * 16
      in map (\<lambda>i. base64url_char (n div 64 ^ (5 - i) mod 64)) [0..<6])"

text \<open>\<^verbatim>\<open>validation.IsValidLabelValue\<close> is a library function, the argument \<open>valid\<close>.\<close>

definition MustFormatValue :: "(string \<Rightarrow> bool) \<Rightarrow> string \<Rightarrow> string" where
  "MustFormatValue valid str =
     (if valid str then str else ''hash_'' @ base64url_32 (fnv32a str) @ ''_z'')"

definition MustEqualValue :: "(string \<Rightarrow> bool) \<Rightarrow> string \<Rightarrow> string \<Rightarrow> bool" where
  "MustEqualValue valid str labelValue \<longleftrightarrow> labelValue = MustFormatValue valid str"

section \<open>The order of deletion\<close>

definition float_ok :: "float_lib \<Rightarrow> bool" where
  "float_ok fp \<longleftrightarrow>
     (\<forall>x y. x \<le> y \<longrightarrow> fp_round fp x \<le> fp_round fp y) \<and>
     (\<forall>x \<in> {0, 1, 50}. fp_round fp x = x) \<and> (\<forall>x. fp_round fp (- x) = - fp_round fp x) \<and>
     (\<forall>x y. x \<le> y \<longrightarrow> fp_Exp fp x \<le> fp_Exp fp y) \<and> (\<forall>x. 0 \<le> fp_Exp fp x) \<and> fp_Exp fp 0 = 1"

definition sample_float :: float_lib where
  "sample_float = \<lparr>fp_round = (\<lambda>x. x), fp_Exp = exp\<rparr>"

lemma sample_float_ok: "float_ok sample_float"
  by (simp add: float_ok_def sample_float_def)

text \<open>Machines that are neither being deleted nor marked for deletion, and healthy.\<close>

definition plain_machine :: "machine \<Rightarrow> bool" where
  "plain_machine m \<longleftrightarrow> time_IsZero (m_DeletionTimestamp m) \<and>
     map_lookup (m_Annotations m) DeleteMachineAnnotation = None \<and> isMachineHealthy m"

lemma fp_mono: "float_ok fp \<Longrightarrow> x \<le> y \<Longrightarrow> fp_round fp x \<le> fp_round fp y"
  by (simp add: float_ok_def)

lemma fp_exact: "float_ok fp \<Longrightarrow> fp_round fp 0 = 0 \<and> fp_round fp 1 = 1 \<and> fp_round fp 50 = 50"
  by (simp add: float_ok_def)

lemma fp_nonneg: "float_ok fp \<Longrightarrow> 0 \<le> x \<Longrightarrow> 0 \<le> fp_round fp x"
  using fp_mono [of fp 0 x] fp_exact [of fp] by simp

lemma seconds_mono:
  assumes ok: "float_ok fp" and "0 \<le> d" "d \<le> e"
  shows "d_Seconds fp d \<le> d_Seconds fp e"
proof -
  let ?r = "\<lambda>e::int. fp_round fp (of_int (e mod 1000000000) / 1000000000)"
  have bounds: "0 \<le> ?r x \<and> ?r x \<le> 1" for x
  proof -
    have "(of_int (x mod 1000000000) :: real) \<le> of_int 1000000000"
      by (subst of_int_le_iff) (simp add: less_imp_le)
    then have "of_int (x mod 1000000000) / 1000000000 \<le> (1::real)" by simp
    then show ?thesis
      using fp_mono [OF ok, of _ 1] fp_exact [OF ok] fp_nonneg [OF ok] by simp
  qed
  have "of_int (d div 1000000000) + ?r d \<le> of_int (e div 1000000000) + ?r e"
  proof (cases "d div 1000000000 = e div 1000000000")
    case True
    then have "d mod 1000000000 \<le> e mod 1000000000"
      using \<open>d \<le> e\<close> by (simp add: minus_div_mult_eq_mod [symmetric])
    then have "?r d \<le> ?r e" by (intro fp_mono [OF ok] divide_right_mono) simp_all
    then show ?thesis by (simp add: True)
  next
    case False
    then have "d div 1000000000 + 1 \<le> e div 1000000000"
      using zdiv_mono1 [OF \<open>d \<le> e\<close>, of 1000000000] by simp
    then have "of_int (d div 1000000000) + 1 \<le> (of_int (e div 1000000000) :: real)"
      by (metis of_int_1 of_int_add of_int_le_iff)
    then show ?thesis using bounds [of d] bounds [of e] by linarith
  qed
  then show ?thesis
    using assms by (simp add: d_Seconds_def Let_def fp_mono [OF ok])
qed

lemma seconds_sign: "float_ok fp \<Longrightarrow> 0 \<le> d \<Longrightarrow> 0 \<le> d_Seconds fp d"
  using seconds_mono [of fp 0 d] fp_exact [of fp] by (simp add: d_Seconds_def Let_def)

lemma seconds_zero: "float_ok fp \<Longrightarrow> d_Seconds fp 0 = 0"
  using fp_exact [of fp] by (simp add: d_Seconds_def Let_def)

lemma seconds_neg: "float_ok fp \<Longrightarrow> d < 0 \<Longrightarrow> d_Seconds fp d \<le> 0"
  using seconds_sign [of fp "- d"] by (simp add: d_Seconds_def Let_def)

lemma age_priority_mono:
  assumes ok: "float_ok fp" and "d_Seconds fp d \<le> d_Seconds fp e"
  shows "age_priority fp d \<le> age_priority fp e"
  using assms unfolding age_priority_def Let_def
  by (intro fp_mono [OF ok] mult_left_mono diff_left_mono)
    (auto simp: float_ok_def divide_right_mono)

lemma age_priority_zero: "float_ok fp \<Longrightarrow> d_Seconds fp d = 0 \<Longrightarrow> age_priority fp d = 0"
  by (simp add: age_priority_def Let_def float_ok_def)

lemma age_priority_range:
  assumes ok: "float_ok fp" and "0 \<le> d_Seconds fp d"
  shows "0 \<le> age_priority fp d \<and> age_priority fp d \<le> 50"
proof
  have "age_priority fp 0 \<le> age_priority fp d"
    using assms by (intro age_priority_mono) (simp_all add: seconds_zero)
  then show "0 \<le> age_priority fp d" by (simp add: age_priority_zero seconds_zero ok)
  have "fp_round fp (1 - fp_Exp fp (fp_round fp (- d_Seconds fp d / 864000))) \<le> 1"
    using fp_mono [OF ok, of _ 1] fp_exact [OF ok] ok by (simp add: float_ok_def)
  then show "age_priority fp d \<le> 50"
    using fp_mono [OF ok, of _ 50] fp_exact [OF ok] by (simp add: age_priority_def Let_def)
qed

lemma oldest_plain: "plain_machine m \<Longrightarrow> oldestDeletePriority fp now m =
    (if m_CreationTimestamp m = 0 \<or> d_Seconds fp (time_Sub now (m_CreationTimestamp m)) < 0 then 0
     else age_priority fp (time_Sub now (m_CreationTimestamp m)))"
  by (simp add: oldestDeletePriority_def plain_machine_def Let_def)

lemma oldest_plain_range:
  "float_ok fp \<Longrightarrow> plain_machine m \<Longrightarrow> 0 \<le> oldestDeletePriority fp now m \<and> oldestDeletePriority fp now m \<le> 50"
  using age_priority_range [of fp] by (simp add: oldest_plain)

lemma newest_plain: "plain_machine m \<Longrightarrow>
    newestDeletePriority fp now m = fp_round fp (50 - oldestDeletePriority fp now m)"
  by (simp add: newestDeletePriority_def plain_machine_def)

lemma newest_plain_range:
  assumes "float_ok fp" "plain_machine m"
  shows "0 \<le> newestDeletePriority fp now m \<and> newestDeletePriority fp now m \<le> 50"
  using oldest_plain_range [OF assms, of now] fp_nonneg [OF assms(1)] fp_mono [OF assms(1), of _ 50]
    fp_exact [OF assms(1)] by (simp add: newest_plain assms(2))

lemma time_Sub_antimono: "u \<le> v \<Longrightarrow> time_Sub t v \<le> time_Sub t u"
  by (simp add: time_Sub_def)

lemma oldest_plain_mono:
  assumes ok: "float_ok fp" and "plain_machine m" "plain_machine k"
    and "0 < m_CreationTimestamp k" "m_CreationTimestamp k \<le> m_CreationTimestamp m"
  shows "oldestDeletePriority fp now m \<le> oldestDeletePriority fp now k"
proof -
  let ?dm = "time_Sub now (m_CreationTimestamp m)" and ?dk = "time_Sub now (m_CreationTimestamp k)"
  have le: "?dm \<le> ?dk" using assms(5) by (rule time_Sub_antimono)
  show ?thesis
  proof (cases "0 \<le> ?dm")
    case True
    then show ?thesis
      using assms le seconds_mono [OF ok True le] seconds_sign [OF ok True] age_priority_mono [OF ok, of ?dm ?dk]
      by (simp add: oldest_plain)
  next
    case False
    then have "oldestDeletePriority fp now m = 0"
      using seconds_neg [OF ok, of ?dm] age_priority_zero [OF ok, of ?dm] assms(2) by (simp add: oldest_plain)
    then show ?thesis using oldest_plain_range [OF ok assms(3)] by simp
  qed
qed

lemma newest_plain_mono:
  assumes ok: "float_ok fp" and "plain_machine m" "plain_machine k"
    and "0 < m_CreationTimestamp m" "m_CreationTimestamp m \<le> m_CreationTimestamp k"
  shows "newestDeletePriority fp now m \<le> newestDeletePriority fp now k"
  using oldest_plain_mono [OF ok assms(3,2,4,5), of now] assms(2,3) fp_mono [OF ok]
  by (simp add: newest_plain)

text \<open>The order of \<^verbatim>\<open>sortableMachines\<close> is a strict weak order whatever the priorities are.\<close>

interpretation deletion: weak_order "sortableMachines_Less priority" for priority
proof
  fix x y z
  show "sortableMachines_Less priority x y \<Longrightarrow> \<not> sortableMachines_Less priority y x"
    by (auto simp: sortableMachines_Less_def split: if_splits)
  show "\<not> sortableMachines_Less priority y x \<Longrightarrow> \<not> sortableMachines_Less priority z y \<Longrightarrow>
      \<not> sortableMachines_Less priority z x"
    by (auto simp: sortableMachines_Less_def split: if_splits)
qed

lemma selected_before_kept:
  assumes "distinct (map m_Name ms)" "getMachinesToDeletePrioritized ms diff priority = (ms', del)" "0 \<le> diff"
  shows "mset ms' = mset ms \<and> length del = min (nat diff) (length ms) \<and> set del \<subseteq> set ms \<and> distinct del \<and>
    (\<forall>m \<in> set del. \<forall>k \<in> set ms - set del. sortableMachines_Less priority m k)"
proof (cases "diff \<ge> int (length ms) \<or> diff \<le> 0")
  case True
  have "distinct ms" using assms(1) by (simp add: distinct_map)
  show ?thesis
  proof (cases "diff \<ge> int (length ms)")
    case True
    then have "ms' = ms" "del = ms" using assms(2) by (auto simp: getMachinesToDeletePrioritized_def)
    then show ?thesis using True \<open>distinct ms\<close> by (simp add: min_def nat_le_iff)
  next
    case False
    then have "ms' = ms" "del = []" "diff = 0"
      using True assms(2,3) by (auto simp: getMachinesToDeletePrioritized_def)
    then show ?thesis by simp
  qed
next
  case False
  define s where "s = go_sort (sortableMachines_Less priority) ms"
  have eq: "ms' = s" "del = take (nat diff) s"
    using assms(2) False by (auto simp: getMachinesToDeletePrioritized_def s_def Let_def)
  have names: "m_Name m \<noteq> m_Name k" if "m \<in> set ms" "k \<in> set ms" "m \<noteq> k" for m k
    using assms(1) that by (meson distinct_map inj_onD)
  have total_less: "sortableMachines_Less priority m k \<or> sortableMachines_Less priority k m"
    if "m \<in> set ms" "k \<in> set ms" "m \<noteq> k" for m k
    using names [OF that] by (auto simp: sortableMachines_Less_def)
  have order: "\<not> sortableMachines_Less priority k m" if "m \<in> set del" "k \<in> set (drop (nat diff) s)" for m k
  proof -
    have "sorted_wrt (\<lambda>a b. \<not> sortableMachines_Less priority b a) (take (nat diff) s @ drop (nat diff) s)"
      unfolding append_take_drop_id s_def by (rule deletion.sorted_go_sort)
    then show ?thesis using that by (simp only: sorted_wrt_append eq) blast
  qed
  have s: "set s = set ms" "length s = length ms" "mset s = mset ms" by (simp_all add: s_def)
  have "distinct s" using assms(1) by (simp add: s_def distinct_map)
  have split: "set s = set del \<union> set (drop (nat diff) s)"
    unfolding eq by (metis append_take_drop_id set_append)
  have "sortableMachines_Less priority m k" if "m \<in> set del" "k \<in> set ms - set del" for m k
    using that split s(1) total_less [of m k] order [of m k] by blast
  moreover have "length del = min (nat diff) (length ms)" "distinct del" "mset ms' = mset ms"
    using s \<open>distinct s\<close> by (simp_all add: eq)
  ultimately show ?thesis using split s(1) by blast
qed

section \<open>Properties of scaling down\<close>

text \<open>The classes of Machines from those that are being deleted (3) to those with no reason to be deleted (0).\<close>

definition delete_class :: "machine \<Rightarrow> nat" where
  "delete_class m =
     (if \<not> time_IsZero (m_DeletionTimestamp m) then 3
      else if map_lookup (m_Annotations m) DeleteMachineAnnotation \<noteq> None then 2
      else if \<not> isMachineHealthy m then 1 else 0)"

lemma delete_class_0: "delete_class m = 0 \<longleftrightarrow> plain_machine m"
  by (simp add: delete_class_def plain_machine_def)

lemma delete_class_le: "delete_class m \<le> 3"
  by (simp add: delete_class_def)

lemma oldest_class: "delete_class m \<noteq> 0 \<Longrightarrow> oldestDeletePriority fp now m = [0, 50, 75, 100] ! delete_class m"
  by (simp add: oldestDeletePriority_def delete_class_def split: if_splits)

lemma newest_class: "delete_class m \<noteq> 0 \<Longrightarrow> newestDeletePriority fp now m = [0, 50, 75, 100] ! delete_class m"
  by (simp add: newestDeletePriority_def delete_class_def split: if_splits)

lemma random_class: "randomDeletePolicy m = [20, 50, 50, 100] ! delete_class m"
  by (simp add: randomDeletePolicy_def delete_class_def)

lemma less_cases:
  "sortableMachines_Less priority m k \<longleftrightarrow>
     priority k < priority m \<or> priority k = priority m \<and> m_Name m < m_Name k"
  by (auto simp: sortableMachines_Less_def)

text \<open>What holds of a Machine \<open>m\<close> that is deleted before a Machine \<open>k\<close> under a delete policy.\<close>

definition deleted_first :: "string \<Rightarrow> (machine \<Rightarrow> real) \<Rightarrow> machine \<Rightarrow> machine \<Rightarrow> bool" where
  "deleted_first policy priority m k \<longleftrightarrow>
     (delete_class k = 3 \<longrightarrow> delete_class m = 3) \<and>
     (policy \<in> {NewestMachineSetDeletePolicy, OldestMachineSetDeletePolicy} \<and> delete_class k = 2 \<longrightarrow> 2 \<le> delete_class m) \<and>
     (delete_class m = 0 \<and> delete_class k > 0 \<longrightarrow>
        policy \<in> {NewestMachineSetDeletePolicy, OldestMachineSetDeletePolicy} \<and> delete_class k = 1 \<and>
        priority m = priority k \<and> m_Name m < m_Name k) \<and>
     (delete_class m = 0 \<and> delete_class k = 0 \<longrightarrow>
        (if policy = OldestMachineSetDeletePolicy then m_CreationTimestamp m \<le> m_CreationTimestamp k
         else if policy = NewestMachineSetDeletePolicy then m_CreationTimestamp k \<le> m_CreationTimestamp m
         else False) \<or> priority m = priority k \<and> m_Name m < m_Name k)"

lemma class_cases: "delete_class m = 0 \<or> delete_class m = 1 \<or> delete_class m = 2 \<or> delete_class m = 3"
  using delete_class_le [of m] by linarith

lemma aged_policy_first:
  assumes less: "sortableMachines_Less priority m k"
    and cls: "\<And>x. delete_class x \<noteq> 0 \<Longrightarrow> priority x = [0, 50, 75, 100] ! delete_class x"
    and plain: "\<And>x. plain_machine x \<Longrightarrow> 0 \<le> priority x \<and> priority x \<le> 50"
    and age: "plain_machine m \<Longrightarrow> plain_machine k \<Longrightarrow> \<not> older m k \<Longrightarrow> priority m \<le> priority k"
  shows "(delete_class k = 3 \<longrightarrow> delete_class m = 3) \<and> (delete_class k = 2 \<longrightarrow> 2 \<le> delete_class m) \<and>
     (delete_class m = 0 \<and> delete_class k > 0 \<longrightarrow> delete_class k = 1 \<and> priority m = priority k \<and> m_Name m < m_Name k) \<and>
     (delete_class m = 0 \<and> delete_class k = 0 \<longrightarrow> older m k \<or> priority m = priority k \<and> m_Name m < m_Name k)"
  using class_cases [of m] class_cases [of k] less cls [of m] cls [of k] plain [of m] plain [of k] age
  by (elim disjE) (auto simp: less_cases delete_class_0 [symmetric])

lemma policy_deleted_first:
  assumes ok: "float_ok fp" and fn: "getDeletePriorityFunc fp now ms = Inr priority"
    and less: "sortableMachines_Less priority m k" and "0 < m_CreationTimestamp m" "0 < m_CreationTimestamp k"
  shows "deleted_first (mss_DeletePolicy (ms_Spec ms)) priority m k"
proof -
  let ?p = "mss_DeletePolicy (ms_Spec ms)"
  consider (oldest) "?p = OldestMachineSetDeletePolicy" "priority = oldestDeletePriority fp now"
    | (newest) "?p = NewestMachineSetDeletePolicy" "priority = newestDeletePriority fp now"
    | (random) "?p = RandomMachineSetDeletePolicy \<or> ?p = []" "priority = randomDeletePolicy"
    using fn by (auto simp: getDeletePriorityFunc_def Let_def split: if_splits)
  then show ?thesis
  proof cases
    case oldest
    show ?thesis
      using aged_policy_first [OF less, where older = "\<lambda>m k. m_CreationTimestamp m \<le> m_CreationTimestamp k"]
        oldest_class oldest_plain_range [OF ok] oldest_plain_mono [OF ok, of m k now] assms(4,5)
      by (auto simp: deleted_first_def oldest)
  next
    case newest
    show ?thesis
      using aged_policy_first [OF less, where older = "\<lambda>m k. m_CreationTimestamp k \<le> m_CreationTimestamp m"]
        newest_class newest_plain_range [OF ok] newest_plain_mono [OF ok, of m k now] assms(4,5)
      by (auto simp: deleted_first_def newest)
  next
    case random
    show ?thesis
      using class_cases [of m] class_cases [of k] less random(1)
      by (elim disjE) (auto simp: deleted_first_def less_cases random(2) random_class)
  qed
qed

text \<open>
  C34: a scale-down selects as many Machines as it is asked for and has, each of them of the set, and never
  in place of one that comes before it: a Machine that is being deleted is selected before every other
  Machine, a marked one before the unmarked ones (with the policies Newest and Oldest), an unhealthy one
  before a healthy one unless the two have the same priority, and among healthy ones the policy's age or,
  for equal priorities, the name decides.
\<close>

theorem scale_down_choice:
  assumes "distinct (map m_Name machines)" "\<forall>m \<in> set machines. 0 < m_CreationTimestamp m" "float_ok fp"
    and "getDeletePriorityFunc fp now ms = Inr priority" "0 \<le> diff"
    and "getMachinesToDeletePrioritized machines diff priority = (machines', del)"
  shows "mset machines' = mset machines \<and> length del = min (nat diff) (length machines) \<and> distinct del \<and>
     set del \<subseteq> set machines \<and>
     (\<forall>m \<in> set del. \<forall>k \<in> set machines - set del. deleted_first (mss_DeletePolicy (ms_Spec ms)) priority m k)"
proof -
  note sel = selected_before_kept [OF assms(1,6,5)]
  have "deleted_first (mss_DeletePolicy (ms_Spec ms)) priority m k"
    if "m \<in> set del" "k \<in> set machines - set del" for m k
    using that sel assms(2) by (intro policy_deleted_first [OF assms(3,4)]) auto
  with sel show ?thesis by blast
qed

definition sample_set :: "string \<Rightarrow> int \<Rightarrow> machineset" where
  "sample_set policy replicas =
     \<lparr>ms_Meta = \<lparr>om_Name = ''ms'', om_Namespace = ''default'', om_UID = ''ms'', om_Labels = None, om_Annotations = None,
        om_CreationTimestamp = 1, om_DeletionTimestamp = None, om_Generation = 1, om_Finalizers = [], om_OwnerReferences = []\<rparr>,
      ms_Spec = \<lparr>mss_ClusterName = ''c'', mss_Replicas = Some replicas, mss_MinReadySeconds = 0, mss_DeletePolicy = policy,
        mss_Selector = \<lparr>sel_MatchLabels = None, sel_MatchExpressions = None\<rparr>,
        mss_Template = \<lparr>tp_Labels = None, tp_Annotations = None,
          tp_Spec = m_Spec (sample_machine ''m'' 1 None (Some ''v1.30.0''))\<rparr>\<rparr>,
      ms_Status = \<lparr>mst_Selector = [], mst_Replicas = 0, mst_FullyLabeledReplicas = 0, mst_ReadyReplicas = 0,
        mst_AvailableReplicas = 0, mst_ObservedGeneration = 1, mst_FailureReason = None, mst_FailureMessage = None,
        mst_Conditions = [], mst_V1Beta2 = None\<rparr>\<rparr>"

definition with_node :: "machine \<Rightarrow> machine" where
  "with_node m = m\<lparr>m_Status := (m_Status m)\<lparr>st_NodeRef := Some empty_reference\<rparr>\<rparr>"

theorem scale_down_choice_witness:
  "\<exists>machines' del. getMachinesToDeletePrioritized [sample_machine ''a'' 1 None None, with_node (sample_machine ''b'' 2 None None)] 1
      (oldestDeletePriority sample_float 10) = (machines', del) \<and> length del = 1 \<and>
     (\<forall>m \<in> set del. \<forall>k \<in> set [sample_machine ''a'' 1 None None, with_node (sample_machine ''b'' 2 None None)] - set del.
        deleted_first OldestMachineSetDeletePolicy (oldestDeletePriority sample_float 10) m k)"
proof -
  let ?ms = "[sample_machine ''a'' 1 None None, with_node (sample_machine ''b'' 2 None None)]"
  let ?p = "oldestDeletePriority sample_float 10"
  obtain machines' del where eq: "getMachinesToDeletePrioritized ?ms 1 ?p = (machines', del)" by fastforce
  have "distinct (map m_Name ?ms)" "\<forall>m \<in> set ?ms. 0 < m_CreationTimestamp m"
    by (simp_all add: sample_machine_def with_node_def)
  moreover have "getDeletePriorityFunc sample_float 10 (sample_set OldestMachineSetDeletePolicy 1) = Inr ?p"
    by (simp add: getDeletePriorityFunc_def sample_set_def)
  ultimately show ?thesis
    using scale_down_choice [OF _ _ sample_float_ok _ _ eq, of 10 "sample_set OldestMachineSetDeletePolicy 1"] eq
    by (simp add: sample_set_def)
qed

text \<open>
  With the policy Newest a healthy Machine that was created just now has the priority of an unhealthy
  one, so that its name can decide that it is deleted and the unhealthy Machine kept.
\<close>

lemma newest_deletes_healthy:
  "snd (getMachinesToDeletePrioritized [with_node (sample_machine ''a'' 10 None None), sample_machine ''b'' 10 None None] 1
     (newestDeletePriority sample_float 10)) = [with_node (sample_machine ''a'' 10 None None)] \<and>
   isMachineHealthy (with_node (sample_machine ''a'' 10 None None)) \<and> \<not> isMachineHealthy (sample_machine ''b'' 10 None None)"
proof -
  let ?a = "with_node (sample_machine ''a'' 10 None None)" and ?b = "sample_machine ''b'' 10 None None"
  have "plain_machine ?a" "isMachineHealthy ?a" "\<not> isMachineHealthy ?b"
    by (simp_all add: plain_machine_def isMachineHealthy_def sample_machine_def with_node_def time_IsZero_def
        conditions_IsFalse_def conditions_Get_def)
  moreover have "newestDeletePriority sample_float 10 ?b = 50"
    using \<open>\<not> isMachineHealthy ?b\<close> by (simp add: newestDeletePriority_def sample_machine_def time_IsZero_def)
  moreover have "newestDeletePriority sample_float 10 ?a = 50"
    using \<open>plain_machine ?a\<close>
    by (simp add: newest_plain oldest_plain sample_float_def age_priority_def d_Seconds_def time_Sub_def
        with_node_def sample_machine_def)
  ultimately show ?thesis
    by (simp add: getMachinesToDeletePrioritized_def go_sort_def sortableMachines_Less_def with_node_def sample_machine_def)
qed

section \<open>Properties of the preflight checks\<close>

lemma word_underflow:
  fixes a b k :: "64 word"
  assumes "b \<le> a" "\<not> k \<le> a"
  shows "b < a - k"
proof -
  have lt: "unat a < unat k" using assms(2) by (simp add: word_le_nat_alt)
  have bound: "unat k < 2 ^ 64" using unsigned_less [of k, where ?'a = nat] by simp
  have "unat (a - k) = unat a + 2 ^ 64 - unat k"
    using lt by (simp add: unat_sub_if_size word_size)
  moreover have "unat b \<le> unat a" using assms(1) by (simp add: word_le_nat_alt)
  ultimately show ?thesis using bound by (simp add: word_less_nat_alt)
qed

lemma word_skew_iff:
  fixes a b k :: "64 word"
  assumes "b \<le> a"
  shows "b < a - k \<longleftrightarrow> \<not> (unat k \<le> unat a \<and> unat a \<le> unat b + unat k)"
proof (cases "k \<le> a")
  case True
  then have "unat (a - k) = unat a - unat k" by (rule unat_sub)
  then show ?thesis using True by (auto simp: word_less_nat_alt word_le_nat_alt)
next
  case False
  then show ?thesis using word_underflow [OF assms False] by (simp add: word_le_nat_alt)
qed

lemma skew_check_iff:
  "kubernetesVersionPreflightCheck lib cp ms = None \<longleftrightarrow>
     unat (minorSkew lib cp) \<le> unat (sv_Minor cp) \<and> unat (sv_Minor ms) \<le> unat (sv_Minor cp) \<and>
     unat (sv_Minor cp) \<le> unat (sv_Minor ms) + unat (minorSkew lib cp)"
proof (cases "sv_Minor ms \<le> sv_Minor cp")
  case True
  have "unat (sv_Minor ms) \<le> unat (sv_Minor cp)" using True by (simp add: word_le_nat_alt)
  moreover have "\<not> sv_Minor cp < sv_Minor ms" using True by (simp only: not_less)
  ultimately show ?thesis
    using word_skew_iff [OF True, of "minorSkew lib cp"]
    unfolding kubernetesVersionPreflightCheck_def Let_def by auto
next
  case False
  then show ?thesis by (simp add: kubernetesVersionPreflightCheck_def word_le_nat_alt word_less_nat_alt)
qed

definition kubeadm_ok :: "(string \<Rightarrow> string option) \<Rightarrow> semver \<Rightarrow> semver \<Rightarrow> machineset \<Rightarrow> bool" where
  "kubeadm_ok pgv cpV msV ms =
     (case bs_ConfigRef (sp_Bootstrap (tp_Spec (mss_Template (ms_Spec ms)))) of None \<Rightarrow> True
      | Some r \<Rightarrow> pgv (ref_APIVersion r) \<noteq> None \<and>
          (ref_Kind r = ''KubeadmConfigTemplate'' \<and> pgv (ref_APIVersion r) = Some bootstrapv1_group \<longrightarrow>
           sv_Minor cpV = sv_Minor msV))"

lemma kubeadm_check_iff: "kubeadmVersionPreflightCheck lib pgv cpV msV ms = Ret None \<longleftrightarrow> kubeadm_ok pgv cpV msV ms"
  by (auto simp: kubeadmVersionPreflightCheck_def kubeadm_ok_def split: option.splits)

lemma stable_check_iff:
  "controlPlaneStablePreflightCheck lib cp = Ret None \<longleftrightarrow> IsProvisioning cp = Ret False \<and> IsUpgrading lib cp = Ret False"
  by (auto simp: controlPlaneStablePreflightCheck_def split: go.splits bool.splits)

lemma collect_accumulates:
  "collect_checks cs (errs, fails) = Ret (errs', fails') \<Longrightarrow> \<exists>e f. errs' = errs @ e \<and> fails' = fails @ f"
  by (induction cs arbitrary: errs fails) (fastforce split: go.splits option.splits)+

lemma collect_pass: "collect_checks cs ([], []) = Ret ([], []) \<longleftrightarrow> (\<forall>c \<in> set cs. c = Ret None)"
proof (induction cs)
  case (Cons c cs)
  show ?case
    using Cons collect_accumulates [of cs "[_]" "[]" "[]" "[]"] collect_accumulates [of cs "[]" "[_]" "[]" "[]"]
    by (fastforce split: go.splits option.splits)
qed simp

lemma outcome_pass: "preflight_outcome acc = Ret (r, []) \<longleftrightarrow> acc = ([], []) \<and> r = result_zero"
  by (cases acc) (auto simp: preflight_outcome_def)

lemma run_checks_pass:
  assumes "clv_ControlPlaneRef cluster \<noteq> None" "skippedPreflightChecks (Some ms) = {}"
    and "cp_Version cp = Present v" "sp_Version (tp_Spec (mss_Template (ms_Spec ms))) = Some mv"
    and "lib_ParseTolerant lib v = Inr cpV" "lib_ParseTolerant lib mv = Inr msV"
  shows "runPreflightChecks True lib pgv (Inr cp) cluster ms = Ret (r, []) \<longleftrightarrow>
     controlPlaneStablePreflightCheck lib cp = Ret None \<and> kubernetesVersionPreflightCheck lib cpV msV = None \<and>
     kubeadmVersionPreflightCheck lib pgv cpV msV ms = Ret None \<and> r = result_zero"
proof -
  let ?st = "collect_checks [controlPlaneStablePreflightCheck lib cp] ([], [])"
  let ?vs = "version_checks lib pgv {} cpV msV ms"
  have "runPreflightChecks True lib pgv (Inr cp) cluster ms =
      go_bind ?st (\<lambda>acc. go_bind (collect_checks ?vs acc) preflight_outcome)"
    using assms by (auto simp: runPreflightChecks_def field_Get_def)
  moreover have "go_bind ?st (\<lambda>acc. go_bind (collect_checks ?vs acc) preflight_outcome) = Ret (r, []) \<longleftrightarrow>
      collect_checks (controlPlaneStablePreflightCheck lib cp # ?vs) ([], []) = Ret ([], []) \<and> r = result_zero"
    by (auto simp: go_simps outcome_pass split: go.splits option.splits)
  ultimately show ?thesis by (simp add: collect_pass version_checks_def del: collect_checks.simps)
qed

lemma run_checks_parse:
  assumes "clv_ControlPlaneRef cluster \<noteq> None" "skippedPreflightChecks (Some ms) = {}"
    and "cp_Version cp = Present v" "sp_Version (tp_Spec (mss_Template (ms_Spec ms))) = Some mv"
    and "runPreflightChecks True lib pgv (Inr cp) cluster ms = Ret r"
  shows "\<exists>cpV msV. lib_ParseTolerant lib v = Inr cpV \<and> lib_ParseTolerant lib mv = Inr msV"
  using assms by (cases "lib_ParseTolerant lib mv") (auto simp: runPreflightChecks_def field_Get_def go_simps split: sum.splits)

text \<open>
  C35: with no check skipped, a scale-up may go on exactly when the control plane is neither provisioning
  nor upgrading, both versions can be parsed, the minor version of the MachineSet is at most that of the
  control plane and at most the supported skew behind it (where the control plane's minor version is
  not below the skew itself), and with kubeadm the minor versions agree.
\<close>

theorem preflight_passes_iff:
  assumes "clv_ControlPlaneRef cluster \<noteq> None" "skippedPreflightChecks (Some ms) = {}"
    and "cp_Version cp = Present v" "sp_Version (tp_Spec (mss_Template (ms_Spec ms))) = Some mv"
  shows "runPreflightChecks True lib pgv (Inr cp) cluster ms = Ret (result_zero, []) \<longleftrightarrow>
     IsProvisioning cp = Ret False \<and> IsUpgrading lib cp = Ret False \<and>
     (\<exists>cpV msV. lib_ParseTolerant lib v = Inr cpV \<and> lib_ParseTolerant lib mv = Inr msV \<and>
        unat (minorSkew lib cpV) \<le> unat (sv_Minor cpV) \<and> unat (sv_Minor msV) \<le> unat (sv_Minor cpV) \<and>
        unat (sv_Minor cpV) \<le> unat (sv_Minor msV) + unat (minorSkew lib cpV) \<and> kubeadm_ok pgv cpV msV ms)"
  (is "?run \<longleftrightarrow> ?ok")
proof
  assume ?run
  then obtain cpV msV where parsed: "lib_ParseTolerant lib v = Inr cpV" "lib_ParseTolerant lib mv = Inr msV"
    using run_checks_parse [OF assms] by blast
  then show ?ok
    using \<open>?run\<close> run_checks_pass [OF assms parsed] by (simp add: stable_check_iff skew_check_iff kubeadm_check_iff)
next
  assume ok: ?ok
  then obtain cpV msV where parsed: "lib_ParseTolerant lib v = Inr cpV" "lib_ParseTolerant lib mv = Inr msV" by blast
  then show ?run
    using ok run_checks_pass [OF assms parsed] by (auto simp: stable_check_iff skew_check_iff kubeadm_check_iff)
qed

definition sample_cp :: "string \<Rightarrow> controlplane_object" where
  "sample_cp v = \<lparr>cp_Kind = ''KubeadmControlPlane'', cp_Namespace = ''default'', cp_Name = ''cp'', cp_Version = Present v,
     cp_StatusVersion = Present v, cp_Replicas = Present 3, cp_StatusReplicas = Present 3, cp_UpdatedReplicas = Present 3,
     cp_ReadyReplicas = Present 3, cp_UnavailableReplicas = Missing\<rparr>"

definition sample_cluster :: cluster_view where
  "sample_cluster = \<lparr>clv_Name = ''c'', clv_Namespace = ''default'', clv_UID = ''c'', clv_ControlPlaneRef = Some empty_reference\<rparr>"

lemma sample_parse_32_30: "sample_parse ''v1.32.1'' = Inr (sv_of 1 32 1)" "sample_parse ''v1.30.0'' = Inr (sv_of 1 30 0)"
proof -
  have f: "format_nat 1 = ''1''" "format_nat 0 = ''0''" "format_nat 32 = ''32''" "format_nat 30 = ''30''"
    by ((subst format_nat.simps, simp)+)
  have "parseMajorMinorPatch ''v1.32.1'' True = Ret (sv_of 1 32 1)"
    using f by (subst parse_version_exact, intro exI [of _ "''v''"] exI [of _ 1] exI [of _ 32] exI [of _ 1] exI [of _ "[]"])
      (auto simp: printed_def)
  then show "sample_parse ''v1.32.1'' = Inr (sv_of 1 32 1)"
    by (simp add: sample_parse_def ParseMajorMinorPatchTolerant_def sv_of_def)
  have "parseMajorMinorPatch ''v1.30.0'' True = Ret (sv_of 1 30 0)"
    using f by (subst parse_version_exact, intro exI [of _ "''v''"] exI [of _ 1] exI [of _ 30] exI [of _ 0] exI [of _ "[]"])
      (auto simp: printed_def)
  then show "sample_parse ''v1.30.0'' = Inr (sv_of 1 30 0)"
    by (simp add: sample_parse_def ParseMajorMinorPatchTolerant_def sv_of_def)
qed

theorem preflight_passes_iff_witness:
  "runPreflightChecks True sample_lib (\<lambda>_. None) (Inr (sample_cp ''v1.32.1'')) sample_cluster (sample_set [] 3) =
     Ret (result_zero, [])"
proof -
  let ?cp = "sample_cp ''v1.32.1''" and ?ms = "sample_set [] 3"
  have "minorSkew sample_lib (sv_of 1 32 1) = 3" by (simp add: minorSkew_def sample_lib_def sample_key_def sv_of_def)
  moreover have "IsProvisioning ?cp = Ret False"
    by (simp add: IsProvisioning_def get_or_missing_def field_Get_def sample_cp_def)
  moreover have "version_Compare sample_lib (sv_of 1 32 1) (sv_of 1 32 1) [WithBuildTags] = 0"
    by (simp add: version_Compare_WithBuildTags sample_lib_def newBuildIdentifiers_def sv_of_def)
  then have "IsUpgrading sample_lib ?cp = Ret False"
    by (simp add: IsUpgrading_def get_or_missing_def field_Get_def sample_cp_def parse_tolerant_def sample_parse_32_30
        sample_lib_def)
  moreover have "kubeadm_ok (\<lambda>_. None) (sv_of 1 32 1) (sv_of 1 30 0) ?ms"
    by (simp add: kubeadm_ok_def sample_set_def sample_machine_def)
  moreover have "lib_ParseTolerant sample_lib = sample_parse" by (simp add: sample_lib_def)
  moreover have "sv_Minor (sv_of 1 32 1) = 32" "sv_Minor (sv_of 1 30 0) = 30" by (simp_all add: sv_of_def)
  moreover have "clv_ControlPlaneRef sample_cluster \<noteq> None" "skippedPreflightChecks (Some ?ms) = {}"
    "cp_Version ?cp = Present ''v1.32.1''" "sp_Version (tp_Spec (mss_Template (ms_Spec ?ms))) = Some ''v1.30.0''"
    by (simp_all add: sample_cluster_def skippedPreflightChecks_def sample_set_def map_str_def sample_cp_def sample_machine_def)
  ultimately show ?thesis
    by (subst preflight_passes_iff) (auto simp: sample_parse_32_30)
qed

section \<open>Properties of label values\<close>

text \<open>The documented syntax of a label value.\<close>

definition alphanumeric :: "char \<Rightarrow> bool" where
  "alphanumeric c \<longleftrightarrow> is_digit c \<or> (CHR ''a'' \<le> c \<and> c \<le> CHR ''z'') \<or> (CHR ''A'' \<le> c \<and> c \<le> CHR ''Z'')"

definition label_value :: "string \<Rightarrow> bool" where
  "label_value s \<longleftrightarrow> length s \<le> 63 \<and>
     (s = [] \<or> alphanumeric (hd s) \<and> alphanumeric (last s) \<and>
               (\<forall>c \<in> set s. alphanumeric c \<or> c \<in> {CHR ''-'', CHR ''_'', CHR ''.''}))"

lemma base64url_chars: "n < 64 \<Longrightarrow> alphanumeric (base64url_char n) \<or> base64url_char n \<in> {CHR ''-'', CHR ''_''}"
proof -
  have "list_all (\<lambda>c. alphanumeric c \<or> c \<in> {CHR ''-'', CHR ''_''})
      ''ABCDEFGHIJKLMNOPQRSTUVWXYZabcdefghijklmnopqrstuvwxyz0123456789-_''" by code_simp
  moreover have "length ''ABCDEFGHIJKLMNOPQRSTUVWXYZabcdefghijklmnopqrstuvwxyz0123456789-_'' = 64" by simp
  ultimately show "n < 64 \<Longrightarrow> ?thesis" unfolding base64url_char_def list_all_length by metis
qed

lemma base64url_32_chars: "c \<in> set (base64url_32 h) \<Longrightarrow> alphanumeric c \<or> c \<in> {CHR ''-'', CHR ''_''}"
proof -
  assume "c \<in> set (base64url_32 h)"
  then obtain i where c: "c = base64url_char (unat h * 16 div 64 ^ (5 - i) mod 64)"
    unfolding base64url_32_def Let_def set_map by blast
  show ?thesis unfolding c by (rule base64url_chars) simp
qed

lemma hash_label: "label_value (''hash_'' @ base64url_32 h @ ''_z'')"
proof -
  have "alphanumeric (CHR ''h'')" "alphanumeric (CHR ''a'')" "alphanumeric (CHR ''s'')" "alphanumeric (CHR ''z'')"
    by code_simp+
  moreover have "length (base64url_32 h) = 6" by (simp add: base64url_32_def Let_def)
  ultimately show ?thesis using base64url_32_chars [of _ h] by (auto simp: label_value_def)
qed

text \<open>
  Every string has a valid label value, which is the string itself where that is valid; formatting a
  formatted value changes nothing, and a label is recognised as the value of the string it was made from.
\<close>

lemma MustFormatValue_valid:
  assumes "\<And>s. valid s \<longleftrightarrow> label_value s"
  shows "label_value (MustFormatValue valid s) \<and> (label_value s \<longrightarrow> MustFormatValue valid s = s) \<and>
     MustFormatValue valid (MustFormatValue valid s) = MustFormatValue valid s \<and>
     MustEqualValue valid s (MustFormatValue valid s)"
  using assms hash_label by (simp add: MustFormatValue_def MustEqualValue_def del: append.simps append_Cons)

end
