(* ===== verification/Conditions_V1Beta2.thy ===== *)
theory Conditions_V1Beta2
  imports Api_Types
begin

text \<open>
  Package util/conditions/v1beta2: conditions of type \<^verbatim>\<open>metav1.Condition\<close>. Reading, writing and ordering
  (getter.go, setter.go, sort.go), the three-way patch (patch.go), mirroring (mirror.go) and merging
  into summaries and aggregates (merge_strategies.go, summary.go, aggregate.go).

  The list operations \<^verbatim>\<open>meta.FindStatusCondition\<close>, \<^verbatim>\<open>meta.SetStatusCondition\<close> and
  \<^verbatim>\<open>meta.RemoveStatusCondition\<close> and the plural of a kind come from libraries: \<open>meta_lib\<close> holds them and
  \<open>meta_ok\<close> what their documentation promises.
\<close>

section \<open>Data\<close>

record meta_lib =
  ml_Find :: "meta_condition list \<Rightarrow> string \<Rightarrow> meta_condition option"
  ml_Set :: "int \<Rightarrow> meta_condition list \<Rightarrow> meta_condition \<Rightarrow> meta_condition list \<times> bool"
  ml_Remove :: "meta_condition list \<Rightarrow> string \<Rightarrow> meta_condition list"
  ml_Pluralize :: "string \<Rightarrow> string"

text \<open>An object as the package sees it; the generation is known for a \<^verbatim>\<open>metav1.Object\<close> only.\<close>

record v2_object =
  v2_Kind :: string
  v2_Name :: string
  v2_Generation :: "int option"
  v2_Conditions :: "meta_condition list"

abbreviation AvailableV1Beta2Condition :: string where "AvailableV1Beta2Condition \<equiv> ''Available''"
abbreviation ReadyV1Beta2Condition :: string where "ReadyV1Beta2Condition \<equiv> ''Ready''"
abbreviation PausedV1Beta2Condition :: string where "PausedV1Beta2Condition \<equiv> ''Paused''"
abbreviation DeletingV1Beta2Condition :: string where "DeletingV1Beta2Condition \<equiv> ''Deleting''"
abbreviation NotYetReportedReason :: string where "NotYetReportedReason \<equiv> ''NotYetReported''"
abbreviation NoReasonReported :: string where "NoReasonReported \<equiv> ''NoReasonReported''"

section \<open>getter.go\<close>

definition v2_Get :: "meta_lib \<Rightarrow> v2_object option \<Rightarrow> string \<Rightarrow> meta_condition option" where
  "v2_Get ml obj t = (case obj of None \<Rightarrow> None | Some x \<Rightarrow> ml_Find ml (v2_Conditions x) t)"

definition v2_Has :: "meta_lib \<Rightarrow> v2_object option \<Rightarrow> string \<Rightarrow> bool" where
  "v2_Has ml obj t \<longleftrightarrow> v2_Get ml obj t \<noteq> None"

definition v2_IsTrue :: "meta_lib \<Rightarrow> v2_object option \<Rightarrow> string \<Rightarrow> bool" where
  "v2_IsTrue ml obj t = (case v2_Get ml obj t of None \<Rightarrow> False | Some c \<Rightarrow> mc_Status c = ConditionTrue)"

definition v2_IsFalse :: "meta_lib \<Rightarrow> v2_object option \<Rightarrow> string \<Rightarrow> bool" where
  "v2_IsFalse ml obj t = (case v2_Get ml obj t of None \<Rightarrow> False | Some c \<Rightarrow> mc_Status c = ConditionFalse)"

definition v2_IsUnknown :: "meta_lib \<Rightarrow> v2_object option \<Rightarrow> string \<Rightarrow> bool" where
  "v2_IsUnknown ml obj t = (case v2_Get ml obj t of None \<Rightarrow> True | Some c \<Rightarrow> mc_Status c = ConditionUnknown)"

datatype v2_error = BeforeIsNil | AfterIsNil | LatestIsNil
  | V2AddConflict string | V2ChangeDeleted string | V2ChangeConflict string | V2RemoveConflict string
  | MergeEmpty | NoPriorityFunc | NoConditionTypes | TargetInTypes string | OverrideTwice string | OverrideMissing string
  | SummaryEmpty | NoSourceObjs | BadNegativePolarity string | TypeMissing | StatusMissing string | StatusInvalid string

definition validateAndFixConvertedCondition :: "meta_condition \<Rightarrow> (v2_error, meta_condition) go" where
  "validateAndFixConvertedCondition c =
     (if mc_Type c = [] then Err TypeMissing
      else if mc_Status c = [] then Err (StatusMissing (mc_Type c))
      else if mc_Status c \<notin> {ConditionFalse, ConditionTrue, ConditionUnknown} then Err (StatusInvalid (mc_Type c))
      else Ret (if mc_Reason c = [] then c\<lparr>mc_Reason := NoReasonReported\<rparr> else c))"

section \<open>sort.go\<close>

definition first_conditions :: "string \<Rightarrow> int option" where
  "first_conditions = [AvailableV1Beta2Condition \<mapsto> 0, ReadyV1Beta2Condition \<mapsto> 1]"

definition last_conditions :: "string \<Rightarrow> int option" where
  "last_conditions = [PausedV1Beta2Condition \<mapsto> 0, DeletingV1Beta2Condition \<mapsto> 1]"

definition defaultSortLessFunc :: "meta_condition \<Rightarrow> meta_condition \<Rightarrow> bool" where
  "defaultSortLessFunc i j =
     (case (first_conditions (mc_Type i), first_conditions (mc_Type j)) of
        (Some _, None) \<Rightarrow> True
      | (None, Some _) \<Rightarrow> False
      | (Some fi, Some fj) \<Rightarrow> fi < fj
      | (None, None) \<Rightarrow>
          (case (last_conditions (mc_Type i), last_conditions (mc_Type j)) of
             (Some _, None) \<Rightarrow> False
           | (None, Some _) \<Rightarrow> True
           | (Some li, Some lj) \<Rightarrow> li < lj
           | (None, None) \<Rightarrow> mc_Type i < mc_Type j))"

section \<open>setter.go\<close>

definition setStatusCondition :: "meta_lib \<Rightarrow> int \<Rightarrow> meta_condition list \<Rightarrow> meta_condition \<Rightarrow> meta_condition list \<times> bool" where
  "setStatusCondition ml now conditions c =
     (let c1 = (if mc_LastTransitionTime c = 0 then c\<lparr>mc_LastTransitionTime := now\<rparr> else c);
          c2 = c1\<lparr>mc_LastTransitionTime := truncate_second (mc_LastTransitionTime c1)\<rparr>
      in ml_Set ml now conditions c2)"

text \<open>The sort function is an option: by default \<open>defaultSortLessFunc\<close>, nil for no sorting.\<close>

definition v2_sort :: "(meta_condition \<Rightarrow> meta_condition \<Rightarrow> bool) option \<Rightarrow> meta_condition list \<Rightarrow> meta_condition list" where
  "v2_sort lt cs = (case lt of None \<Rightarrow> cs | Some f \<Rightarrow> go_sort f cs)"

definition v2_Set ::
  "meta_lib \<Rightarrow> int \<Rightarrow> (meta_condition \<Rightarrow> meta_condition \<Rightarrow> bool) option \<Rightarrow> v2_object option \<Rightarrow> meta_condition \<Rightarrow> v2_object option" where
  "v2_Set ml now sortFunc targetObj c =
     (case targetObj of None \<Rightarrow> None
      | Some obj \<Rightarrow>
          let c' = (case v2_Generation obj of None \<Rightarrow> c | Some g \<Rightarrow> c\<lparr>mc_ObservedGeneration := g\<rparr>);
              (cs, changed) = setStatusCondition ml now (v2_Conditions obj) c'
          in if \<not> changed then Some obj else Some (obj\<lparr>v2_Conditions := v2_sort sortFunc cs\<rparr>))"

definition v2_Delete :: "v2_object option \<Rightarrow> string \<Rightarrow> v2_object option" where
  "v2_Delete targetObj t =
     map_option (\<lambda>obj. obj\<lparr>v2_Conditions := filter (\<lambda>c. mc_Type c \<noteq> t) (v2_Conditions obj)\<rparr>) targetObj"

section \<open>patch.go\<close>

datatype v2_patchOperation = V2Add meta_condition | V2Change meta_condition meta_condition | V2Remove meta_condition

definition v2_HasSameState :: "meta_condition \<Rightarrow> meta_condition \<Rightarrow> bool" where
  "v2_HasSameState i j \<longleftrightarrow> mc_Type i = mc_Type j \<and> mc_Status i = mc_Status j \<and>
     mc_ObservedGeneration i = mc_ObservedGeneration j \<and> mc_Reason i = mc_Reason j \<and> mc_Message i = mc_Message j"

definition v2_changes :: "meta_lib \<Rightarrow> meta_condition list \<Rightarrow> meta_condition list \<Rightarrow> v2_patchOperation list" where
  "v2_changes ml beforeConditions afterConditions =
     List.map_filter (\<lambda>after. case ml_Find ml beforeConditions (mc_Type after) of
         None \<Rightarrow> Some (V2Add after)
       | Some before \<Rightarrow> if after \<noteq> before then Some (V2Change before after) else None) afterConditions"

definition v2_removals :: "meta_lib \<Rightarrow> meta_condition list \<Rightarrow> meta_condition list \<Rightarrow> v2_patchOperation list" where
  "v2_removals ml afterConditions beforeConditions =
     List.map_filter (\<lambda>before. case ml_Find ml afterConditions (mc_Type before) of
         None \<Rightarrow> Some (V2Remove before) | Some _ \<Rightarrow> None) beforeConditions"

definition v2_NewPatch ::
  "meta_lib \<Rightarrow> v2_object option \<Rightarrow> v2_object option \<Rightarrow> (v2_error, v2_patchOperation list) go" where
  "v2_NewPatch ml before after =
     (case before of None \<Rightarrow> Err BeforeIsNil
      | Some b \<Rightarrow> (case after of None \<Rightarrow> Err AfterIsNil
         | Some a \<Rightarrow> Ret (v2_changes ml (v2_Conditions b) (v2_Conditions a) @
                          v2_removals ml (v2_Conditions a) (v2_Conditions b))))"

record v2_applyOptions =
  v2_owned :: "string list"
  v2_force :: bool
  v2_sortFunc :: "(meta_condition \<Rightarrow> meta_condition \<Rightarrow> bool) option"

definition isOwnedConditionType :: "v2_applyOptions \<Rightarrow> string \<Rightarrow> bool" where
  "isOwnedConditionType opt t \<longleftrightarrow> t \<in> set (v2_owned opt)"

fun v2_apply_operation ::
  "meta_lib \<Rightarrow> int \<Rightarrow> v2_applyOptions \<Rightarrow> v2_patchOperation \<Rightarrow> meta_condition list \<Rightarrow> (v2_error, meta_condition list) go" where
  "v2_apply_operation ml now opt (V2Add after) latest =
     (if v2_force opt \<or> isOwnedConditionType opt (mc_Type after) then Ret (fst (setStatusCondition ml now latest after))
      else (case ml_Find ml latest (mc_Type after) of
              Some l \<Rightarrow> if \<not> v2_HasSameState l after then Err (V2AddConflict (mc_Type after)) else Ret latest
            | None \<Rightarrow> Ret (fst (setStatusCondition ml now latest after))))"
| "v2_apply_operation ml now opt (V2Change before after) latest =
     (if v2_force opt \<or> isOwnedConditionType opt (mc_Type after) then Ret (fst (setStatusCondition ml now latest after))
      else (case ml_Find ml latest (mc_Type after) of
              None \<Rightarrow> Err (V2ChangeDeleted (mc_Type after))
            | Some l \<Rightarrow>
                if l \<noteq> before then
                  (if \<not> v2_HasSameState l after then Err (V2ChangeConflict (mc_Type after)) else Ret latest)
                else Ret (fst (setStatusCondition ml now latest after))))"
| "v2_apply_operation ml now opt (V2Remove before) latest =
     (if length latest = 0 then Ret latest
      else if v2_force opt \<or> isOwnedConditionType opt (mc_Type before) then Ret (ml_Remove ml latest (mc_Type before))
      else (case ml_Find ml latest (mc_Type before) of
              Some l \<Rightarrow> if \<not> v2_HasSameState l before then Err (V2RemoveConflict (mc_Type before))
                        else Ret (ml_Remove ml latest (mc_Type before))
            | None \<Rightarrow> Ret (ml_Remove ml latest (mc_Type before))))"

fun v2_apply_operations ::
  "meta_lib \<Rightarrow> int \<Rightarrow> v2_applyOptions \<Rightarrow> v2_patchOperation list \<Rightarrow> meta_condition list \<Rightarrow> (v2_error, meta_condition list) go" where
  "v2_apply_operations ml now opt [] latest = Ret latest"
| "v2_apply_operations ml now opt (p # ps) latest =
     go_bind (v2_apply_operation ml now opt p latest) (v2_apply_operations ml now opt ps)"

definition v2_IsZero :: "v2_patchOperation list \<Rightarrow> bool" where
  "v2_IsZero p \<longleftrightarrow> length p = 0"

definition v2_Apply ::
  "meta_lib \<Rightarrow> int \<Rightarrow> v2_applyOptions \<Rightarrow> v2_patchOperation list \<Rightarrow> v2_object option \<Rightarrow> (v2_error, v2_object option) go" where
  "v2_Apply ml now opt p latest =
     (if v2_IsZero p then Ret latest
      else (case latest of None \<Rightarrow> Err LatestIsNil
            | Some obj \<Rightarrow> go_bind (v2_apply_operations ml now opt p (v2_Conditions obj)) (\<lambda>cs.
                Ret (Some (obj\<lparr>v2_Conditions := v2_sort (v2_sortFunc opt) cs\<rparr>)))))"

section \<open>mirror.go\<close>

record mirrorOptions2 =
  mo_target :: string
  mo_fallbackStatus :: string
  mo_fallbackReason :: string
  mo_fallbackMessage :: string

text \<open>A condition that is not yet part of an object: no transition time, no generation.\<close>

definition new_meta_condition :: "string \<Rightarrow> string \<Rightarrow> string \<Rightarrow> string \<Rightarrow> meta_condition" where
  "new_meta_condition t status reason message =
     \<lparr>mc_Type = t, mc_Status = status, mc_ObservedGeneration = 0, mc_LastTransitionTime = 0, mc_Reason = reason,
      mc_Message = message\<rparr>"

definition newMirrorCondition ::
  "meta_condition option \<Rightarrow> string \<Rightarrow> (mirrorOptions2 \<Rightarrow> mirrorOptions2) list \<Rightarrow> meta_condition" where
  "newMirrorCondition sourceCondition sourceConditionType opts =
     (let mirrorOpt = foldl (\<lambda>opt f. f opt) \<lparr>mo_target = sourceConditionType, mo_fallbackStatus = [],
                         mo_fallbackReason = [], mo_fallbackMessage = []\<rparr> opts
      in case sourceCondition of
           Some c \<Rightarrow> (new_meta_condition (mo_target mirrorOpt) (mc_Status c) (mc_Reason c) (mc_Message c))
                       \<lparr>mc_LastTransitionTime := mc_LastTransitionTime c\<rparr>
         | None \<Rightarrow> if mo_fallbackStatus mirrorOpt \<noteq> []
                   then new_meta_condition (mo_target mirrorOpt) (mo_fallbackStatus mirrorOpt)
                          (mo_fallbackReason mirrorOpt) (mo_fallbackMessage mirrorOpt)
                   else new_meta_condition (mo_target mirrorOpt) ConditionUnknown NotYetReportedReason
                          (''Condition '' @ sourceConditionType @ '' not yet reported''))"

definition NewMirrorCondition ::
  "meta_lib \<Rightarrow> v2_object option \<Rightarrow> string \<Rightarrow> (mirrorOptions2 \<Rightarrow> mirrorOptions2) list \<Rightarrow> meta_condition" where
  "NewMirrorCondition ml sourceObj sourceConditionType opts =
     newMirrorCondition (v2_Get ml sourceObj sourceConditionType) sourceConditionType opts"

definition SetMirrorCondition ::
  "meta_lib \<Rightarrow> int \<Rightarrow> v2_object option \<Rightarrow> v2_object option \<Rightarrow> string \<Rightarrow> (mirrorOptions2 \<Rightarrow> mirrorOptions2) list \<Rightarrow> v2_object option" where
  "SetMirrorCondition ml now sourceObj targetObj sourceConditionType opts =
     v2_Set ml now (Some defaultSortLessFunc) targetObj (NewMirrorCondition ml sourceObj sourceConditionType opts)"

section \<open>merge_strategies.go\<close>

record owner_info =
  oi_Kind :: string
  oi_Name :: string

record owned_condition =
  oc_Owner :: owner_info
  oc_Condition :: meta_condition

abbreviation oc_Type :: "owned_condition \<Rightarrow> string" where "oc_Type c \<equiv> mc_Type (oc_Condition c)"
abbreviation oc_Message :: "owned_condition \<Rightarrow> string" where "oc_Message c \<equiv> mc_Message (oc_Condition c)"

datatype merge_priority = IssueMergePriority | UnknownMergePriority | InfoMergePriority

definition GetDefaultMergePriorityFunc :: "string list \<Rightarrow> meta_condition \<Rightarrow> merge_priority" where
  "GetDefaultMergePriorityFunc negativePolarityConditionTypes c =
     (if mc_Status c = ConditionTrue then
        (if mc_Type c \<in> set negativePolarityConditionTypes then IssueMergePriority else InfoMergePriority)
      else if mc_Status c = ConditionFalse then
        (if mc_Type c \<in> set negativePolarityConditionTypes then InfoMergePriority else IssueMergePriority)
      else UnknownMergePriority)"

type_synonym reason_func = "owned_condition list \<Rightarrow> owned_condition list \<Rightarrow> owned_condition list \<Rightarrow> string"

definition GetDefaultComputeMergeReasonFunc :: "string \<Rightarrow> string \<Rightarrow> string \<Rightarrow> reason_func" where
  "GetDefaultComputeMergeReasonFunc issueReason unknownReason infoReason issues unknowns infos =
     (if length issues > 0 then issueReason else if length unknowns > 0 then unknownReason else infoReason)"

record defaultMergeStrategy =
  dm_getPriorityFunc :: "(meta_condition \<Rightarrow> merge_priority) option"
  dm_computeReasonFunc :: reason_func
  dm_positivePolarity :: bool

definition DefaultMergeStrategy :: "(defaultMergeStrategy \<Rightarrow> defaultMergeStrategy) list \<Rightarrow> defaultMergeStrategy" where
  "DefaultMergeStrategy opts = foldl (\<lambda>opt f. f opt)
     \<lparr>dm_getPriorityFunc = Some (GetDefaultMergePriorityFunc []),
      dm_computeReasonFunc = GetDefaultComputeMergeReasonFunc ''IssuesReported'' ''UnknownReported'' ''InfoReported'',
      dm_positivePolarity = True\<rparr> opts"

text \<open>The position of a type in the list, the last one for a type that occurs twice, 0 for a missing one.\<close>

definition condition_order :: "string list \<Rightarrow> string \<Rightarrow> nat" where
  "condition_order orderedConditionTypes t =
     (case List.find (\<lambda>i. orderedConditionTypes ! i = t) (rev [0..<length orderedConditionTypes]) of None \<Rightarrow> 0 | Some i \<Rightarrow> i)"

definition sortConditions :: "owned_condition list \<Rightarrow> string list \<Rightarrow> owned_condition list" where
  "sortConditions conditions orderedConditionTypes =
     go_sort (\<lambda>i j. condition_order orderedConditionTypes (oc_Type i) < condition_order orderedConditionTypes (oc_Type j) \<or>
        (condition_order orderedConditionTypes (oc_Type i) = condition_order orderedConditionTypes (oc_Type j) \<and>
         mc_LastTransitionTime (oc_Condition i) < mc_LastTransitionTime (oc_Condition j))) conditions"

definition splitConditionsByPriority :: "owned_condition list \<Rightarrow> (meta_condition \<Rightarrow> merge_priority)
    \<Rightarrow> owned_condition list \<times> owned_condition list \<times> owned_condition list" where
  "splitConditionsByPriority conditions getPriority =
     (filter (\<lambda>c. getPriority (oc_Condition c) = IssueMergePriority) conditions,
      filter (\<lambda>c. getPriority (oc_Condition c) = UnknownMergePriority) conditions,
      filter (\<lambda>c. getPriority (oc_Condition c) = InfoMergePriority) conditions)"

abbreviation newline :: string where "newline \<equiv> [CHR 0x0A]"

definition indentIfMultiline :: "string \<Rightarrow> string" where
  "indentIfMultiline m =
     (if CHR 0x0A \<in> set m \<or> HasPrefix m ''* ''
      then newline @ go_join newline (map (\<lambda>l. ''  '' @ l) (go_split (CHR 0x0A) m))
      else '' '' @ m)"

text \<open>
  The objects that report the same message, by kind and message. The maps of \<^verbatim>\<open>aggregateMessages\<close> are
  read off the list of conditions; \<open>rng\<close> is the order in which the loop ranges over the messages of a
  kind.
\<close>

definition reporters :: "owned_condition list \<Rightarrow> string \<Rightarrow> string \<Rightarrow> string list" where
  "reporters conditions kind m =
     map (\<lambda>c. oi_Name (oc_Owner c)) (filter (\<lambda>c. oi_Kind (oc_Owner c) = kind \<and> oc_Message c = m) conditions)"

definition message_line :: "meta_lib \<Rightarrow> string \<Rightarrow> string \<Rightarrow> string list \<Rightarrow> string" where
  "message_line ml kind m objects =
     (let allObjects = go_sort (<) objects; kindPlural = ml_Pluralize ml kind
      in (if length allObjects = 0 then []
          else if length allObjects = 1 then ''* '' @ kind @ '' '' @ go_join '', '' allObjects @ '':''
          else if length allObjects \<le> 3 then ''* '' @ kindPlural @ '' '' @ go_join '', '' allObjects @ '':''
          else ''* '' @ kindPlural @ '' '' @ go_join '', '' (take 3 allObjects) @ '', ... ('' @
                 FormatInt (int (length allObjects) - 3) @ '' more):'')
         @ indentIfMultiline m)"

fun kind_messages :: "meta_lib \<Rightarrow> owned_condition list \<Rightarrow> string \<Rightarrow> string list \<Rightarrow> nat \<Rightarrow> nat \<Rightarrow> string list \<times> nat \<times> nat" where
  "kind_messages ml conditions kind [] n other = ([], n, other)"
| "kind_messages ml conditions kind (m # ms) n other =
     (if n = 0 then kind_messages ml conditions kind ms n (other + length (reporters conditions kind m))
      else (case kind_messages ml conditions kind ms (n - 1) other of
              (msgs, n', other') \<Rightarrow> (message_line ml kind m (reporters conditions kind m) # msgs, n', other')))"

definition other_line :: "meta_lib \<Rightarrow> string \<Rightarrow> nat \<Rightarrow> string \<Rightarrow> string list" where
  "other_line ml kind other otherMessage =
     (if other = 0 then []
      else [''And '' @ FormatInt (int other) @ '' '' @ (if other = 1 then kind else ml_Pluralize ml kind) @ '' '' @ otherMessage])"

definition message_index :: "(string list \<Rightarrow> string list) \<Rightarrow> owned_condition list \<Rightarrow> string \<Rightarrow> string list" where
  "message_index rng conditions kind =
     go_sort (\<lambda>a b. length (reporters conditions kind a) > length (reporters conditions kind b) \<or>
                (length (reporters conditions kind a) = length (reporters conditions kind b) \<and>
                 go_join '','' (reporters conditions kind a) < go_join '','' (reporters conditions kind b)))
       (rng (remdups (map oc_Message (filter (\<lambda>c. oi_Kind (oc_Owner c) = kind) conditions))))"

fun kinds_messages ::
  "meta_lib \<Rightarrow> (string list \<Rightarrow> string list) \<Rightarrow> owned_condition list \<Rightarrow> string \<Rightarrow> string list \<Rightarrow> nat \<Rightarrow> string list \<times> nat" where
  "kinds_messages ml rng conditions otherMessage [] n = ([], n)"
| "kinds_messages ml rng conditions otherMessage (kind # kinds) n =
     (case kind_messages ml conditions kind (message_index rng conditions kind) n 0 of (msgs, n', other) \<Rightarrow>
      (case kinds_messages ml rng conditions otherMessage kinds n' of (rest, n'') \<Rightarrow>
         (msgs @ other_line ml kind other otherMessage @ rest, n'')))"

definition aggregateMessages ::
  "meta_lib \<Rightarrow> (string list \<Rightarrow> string list) \<Rightarrow> owned_condition list \<Rightarrow> nat \<Rightarrow> bool \<Rightarrow> string \<Rightarrow> string list \<times> nat" where
  "aggregateMessages ml rng conditions n dropEmpty otherMessage =
     (let kept = filter (\<lambda>c. \<not> (dropEmpty \<and> oc_Message c = [])) conditions;
          kinds = go_sort (<) (remdups (map (\<lambda>c. oi_Kind (oc_Owner c)) kept))
      in kinds_messages ml rng kept otherMessage kinds n)"

definition summary_messages ::
  "(meta_condition \<Rightarrow> merge_priority) \<Rightarrow> string \<Rightarrow> owned_condition list \<Rightarrow> string list" where
  "summary_messages getPriority status conditions =
     List.map_filter (\<lambda>c.
       if getPriority (oc_Condition c) = InfoMergePriority \<and> (status \<noteq> ConditionTrue \<or> oc_Message c = []) then None
       else Some (''* '' @ oc_Type c @ '':'' @
              (if oc_Message c \<noteq> [] then indentIfMultiline (oc_Message c) else '' No additional info provided''))) conditions"

definition aggregate_messages ::
  "meta_lib \<Rightarrow> (string list \<Rightarrow> string list) \<Rightarrow> owned_condition list \<Rightarrow> owned_condition list \<Rightarrow> owned_condition list \<Rightarrow> string list" where
  "aggregate_messages ml rng issues unknowns infos =
     (case (if length issues > 0 then aggregateMessages ml rng issues 3 False ''with other issues'' else ([], 3)) of
        (m1, n1) \<Rightarrow>
      (case (if length unknowns > 0 then aggregateMessages ml rng unknowns n1 False ''with status unknown'' else ([], n1)) of
        (m2, n2) \<Rightarrow>
      m1 @ m2 @
      (if length issues = 0 \<and> length unknowns = 0 \<and> length infos > 0
       then fst (aggregateMessages ml rng infos n2 True ''with additional info'') else [])))"

definition merged_status :: "bool \<Rightarrow> owned_condition list \<Rightarrow> owned_condition list \<Rightarrow> owned_condition list \<Rightarrow> (v2_error, string) go" where
  "merged_status positivePolarity issues unknowns infos =
     (if length issues > 0 then Ret (if positivePolarity then ConditionFalse else ConditionTrue)
      else if length unknowns > 0 then Ret ConditionUnknown
      else if length infos > 0 then Ret (if positivePolarity then ConditionTrue else ConditionFalse)
      else Err MergeEmpty)"

definition Merge ::
  "meta_lib \<Rightarrow> (string list \<Rightarrow> string list) \<Rightarrow> defaultMergeStrategy \<Rightarrow> owned_condition list \<Rightarrow> string list
     \<Rightarrow> (v2_error, string \<times> string \<times> string) go" where
  "Merge ml rng d conditions types =
     (if length conditions = 0 then Err MergeEmpty
      else case dm_getPriorityFunc d of None \<Rightarrow> Err NoPriorityFunc
      | Some getPriority \<Rightarrow>
          let isAggregateOperation = (length types = 1)
          in case splitConditionsByPriority (sortConditions conditions types) getPriority of
               (issues, unknowns, infos) \<Rightarrow>
                 go_bind (merged_status (dm_positivePolarity d) issues unknowns infos) (\<lambda>status.
                   Ret (status, dm_computeReasonFunc d issues unknowns infos,
                        go_join newline
                          (if isAggregateOperation then aggregate_messages ml rng issues unknowns infos
                           else summary_messages getPriority status (issues @ unknowns @ infos)))))"

definition getConditionOwnerInfo :: "v2_object \<Rightarrow> owner_info" where
  "getConditionOwnerInfo obj = \<lparr>oi_Kind = v2_Kind obj, oi_Name = v2_Name obj\<rparr>"

definition getConditionsWithOwnerInfo :: "v2_object \<Rightarrow> owned_condition list" where
  "getConditionsWithOwnerInfo obj =
     map (\<lambda>c. \<lparr>oc_Owner = getConditionOwnerInfo obj, oc_Condition = c\<rparr>) (v2_Conditions obj)"

section \<open>summary.go\<close>

text \<open>A custom merge strategy is an arbitrary function; without one the default strategy is used.\<close>

type_synonym merge_strategy = "owned_condition list \<Rightarrow> string list \<Rightarrow> (v2_error, string \<times> string \<times> string) go"

record summaryOptions =
  so_mergeStrategy :: "merge_strategy option"
  so_conditionTypes :: "string list"
  so_negativePolarity :: "string list"
  so_ignoreIfMissing :: "string list"
  so_override :: "owned_condition list"

fun check_overrides :: "string list \<Rightarrow> string list \<Rightarrow> owned_condition list \<Rightarrow> (v2_error, unit) go" where
  "check_overrides existing seen [] = Ret ()"
| "check_overrides existing seen (c # cs) =
     (if oc_Type c \<in> set seen then Err (OverrideTwice (oc_Type c))
      else if oc_Type c \<notin> set existing then Err (OverrideMissing (oc_Type c))
      else check_overrides existing (oc_Type c # seen) cs)"

definition summary_in_scope :: "(string list \<Rightarrow> string list) \<Rightarrow> v2_object \<Rightarrow> summaryOptions \<Rightarrow> owned_condition list" where
  "summary_in_scope rng sourceObj opt =
     (let conditions = getConditionsWithOwnerInfo sourceObj;
          inScope = filter (\<lambda>c. oc_Type c \<in> set (so_conditionTypes opt)) conditions;
          overridden = map (\<lambda>c. case find (\<lambda>v. oc_Type v = oc_Type c) (so_override opt) of Some v \<Rightarrow> v | None \<Rightarrow> c) inScope;
          missing = rng (filter (\<lambda>t. t \<notin> set (map oc_Type inScope) \<and> t \<notin> set (so_ignoreIfMissing opt))
                          (remdups (so_conditionTypes opt)))
      in overridden @ map (\<lambda>t. \<lparr>oc_Owner = getConditionOwnerInfo sourceObj,
            oc_Condition = new_meta_condition t ConditionUnknown NotYetReportedReason ''Condition not yet reported''\<rparr>) missing)"

definition NewSummaryCondition ::
  "meta_lib \<Rightarrow> (string list \<Rightarrow> string list) \<Rightarrow> v2_object \<Rightarrow> string \<Rightarrow> summaryOptions \<Rightarrow> (v2_error, meta_condition) go" where
  "NewSummaryCondition ml rng sourceObj targetConditionType opt =
     (let strategy = (case so_mergeStrategy opt of Some f \<Rightarrow> f
            | None \<Rightarrow> Merge ml rng (DefaultMergeStrategy
                [\<lambda>d. d\<lparr>dm_getPriorityFunc := Some (GetDefaultMergePriorityFunc (so_negativePolarity opt))\<rparr>]))
      in if length (so_conditionTypes opt) = 0 then Err NoConditionTypes
         else if targetConditionType \<in> set (so_conditionTypes opt) then Err (TargetInTypes targetConditionType)
         else go_bind (check_overrides (map mc_Type (v2_Conditions sourceObj)) [] (so_override opt)) (\<lambda>_.
           let inScope = summary_in_scope rng sourceObj opt
           in if length inScope = 0 then Err SummaryEmpty
              else go_bind (strategy inScope (so_conditionTypes opt)) (\<lambda>(status, reason, message).
                     Ret (new_meta_condition targetConditionType status reason message))))"

section \<open>aggregate.go\<close>

record aggregateOptions =
  ao_mergeStrategy :: "merge_strategy option"
  ao_target :: string
  ao_negativePolarity :: "string list"

definition aggregate_in_scope :: "string \<Rightarrow> v2_object \<Rightarrow> owned_condition" where
  "aggregate_in_scope sourceConditionType obj =
     (case find (\<lambda>c. oc_Type c = sourceConditionType) (getConditionsWithOwnerInfo obj) of
        Some c \<Rightarrow> c
      | None \<Rightarrow> \<lparr>oc_Owner = getConditionOwnerInfo obj,
                 oc_Condition = new_meta_condition sourceConditionType ConditionUnknown NotYetReportedReason
                   (''Condition '' @ sourceConditionType @ '' not yet reported'')\<rparr>)"

definition NewAggregateCondition ::
  "meta_lib \<Rightarrow> (string list \<Rightarrow> string list) \<Rightarrow> v2_object list \<Rightarrow> string \<Rightarrow> aggregateOptions \<Rightarrow> (v2_error, meta_condition) go" where
  "NewAggregateCondition ml rng sourceObjs sourceConditionType opt =
     (if length sourceObjs = 0 then Err NoSourceObjs
      else if length (ao_negativePolarity opt) \<noteq> 0 \<and>
              (hd (ao_negativePolarity opt) \<noteq> sourceConditionType \<or> length (ao_negativePolarity opt) > 1)
      then Err (BadNegativePolarity sourceConditionType)
      else let strategy = (case ao_mergeStrategy opt of Some f \<Rightarrow> f
                 | None \<Rightarrow> Merge ml rng (DefaultMergeStrategy
                     [\<lambda>d. d\<lparr>dm_positivePolarity := (sourceConditionType \<notin> set (ao_negativePolarity opt))\<rparr>,
                      \<lambda>d. d\<lparr>dm_getPriorityFunc := Some (GetDefaultMergePriorityFunc (ao_negativePolarity opt))\<rparr>]))
           in go_bind (strategy (map (aggregate_in_scope sourceConditionType) sourceObjs) [sourceConditionType])
                (\<lambda>(status, reason, message). Ret (new_meta_condition (ao_target opt) status reason message)))"

section \<open>The library of list operations\<close>

definition v2_wf :: "meta_condition list \<Rightarrow> bool" where
  "v2_wf cs \<longleftrightarrow> distinct (map mc_Type cs)"

definition v2_get :: "meta_condition list \<Rightarrow> string \<Rightarrow> meta_condition option" where
  "v2_get cs t = find (\<lambda>c. mc_Type c = t) cs"

text \<open>What setting \<open>c\<close> leaves where \<open>old\<close> was: the old transition time unless the status changes.\<close>

definition v2_stamp :: "int \<Rightarrow> meta_condition option \<Rightarrow> meta_condition \<Rightarrow> meta_condition" where
  "v2_stamp now old c =
     (let fresh = (if mc_LastTransitionTime c = 0 then c\<lparr>mc_LastTransitionTime := now\<rparr> else c)
      in case old of None \<Rightarrow> fresh
         | Some e \<Rightarrow> if mc_Status e \<noteq> mc_Status c then fresh
                     else c\<lparr>mc_LastTransitionTime := mc_LastTransitionTime e\<rparr>)"

definition meta_ok :: "meta_lib \<Rightarrow> bool" where
  "meta_ok ml \<longleftrightarrow>
     (\<forall>cs t. ml_Find ml cs t = v2_get cs t) \<and>
     (\<forall>cs t. ml_Remove ml cs t = filter (\<lambda>c. mc_Type c \<noteq> t) cs) \<and>
     (\<forall>now cs c. v2_wf cs \<longrightarrow> v2_wf (fst (ml_Set ml now cs c)) \<and>
        v2_get (fst (ml_Set ml now cs c)) = (v2_get cs)(mc_Type c \<mapsto> v2_stamp now (v2_get cs (mc_Type c)) c) \<and>
        (\<not> snd (ml_Set ml now cs c) \<longrightarrow> fst (ml_Set ml now cs c) = cs))"

lemma meta_okD:
  assumes "meta_ok ml"
  shows "ml_Find ml cs = v2_get cs" and "ml_Remove ml cs t = filter (\<lambda>c. mc_Type c \<noteq> t) cs"
    and "v2_wf cs \<Longrightarrow> v2_wf (fst (ml_Set ml now cs c))"
    and "v2_wf cs \<Longrightarrow> v2_get (fst (ml_Set ml now cs c)) = (v2_get cs)(mc_Type c \<mapsto> v2_stamp now (v2_get cs (mc_Type c)) c)"
    and "v2_wf cs \<Longrightarrow> \<not> snd (ml_Set ml now cs c) \<Longrightarrow> fst (ml_Set ml now cs c) = cs"
  using assms by (auto simp: meta_ok_def fun_eq_iff)

text \<open>A library for concrete runs.\<close>

definition sample_Set :: "int \<Rightarrow> meta_condition list \<Rightarrow> meta_condition \<Rightarrow> meta_condition list \<times> bool" where
  "sample_Set now cs c =
     (case v2_get cs (mc_Type c) of None \<Rightarrow> (cs @ [v2_stamp now None c], True)
      | Some e \<Rightarrow> let n = v2_stamp now (Some e) c
                  in (map (\<lambda>x. if mc_Type x = mc_Type c then n else x) cs, n \<noteq> e))"

definition sample_meta_lib :: meta_lib where
  "sample_meta_lib = \<lparr>ml_Find = v2_get, ml_Set = sample_Set,
     ml_Remove = (\<lambda>cs t. filter (\<lambda>c. mc_Type c \<noteq> t) cs), ml_Pluralize = (\<lambda>k. k @ ''s'')\<rparr>"

lemma v2_stamp_Type [simp]: "mc_Type (v2_stamp now old c) = mc_Type c"
  by (simp add: v2_stamp_def Let_def split: option.splits)

lemma v2_stamp_state: "v2_HasSameState (v2_stamp now old c) c"
  by (simp add: v2_stamp_def v2_HasSameState_def Let_def split: option.splits)

lemma v2_get_None: "v2_get cs t = None \<longleftrightarrow> t \<notin> mc_Type ` set cs"
  by (auto simp: v2_get_def find_None_iff)

lemma v2_get_Some: "v2_wf cs \<Longrightarrow> v2_get cs t = Some c \<longleftrightarrow> c \<in> set cs \<and> mc_Type c = t"
  unfolding v2_get_def v2_wf_def
  by (induction cs) (auto simp: find_Some_iff image_iff split: if_splits)

lemma v2_get_filter: "v2_get (filter (\<lambda>c. mc_Type c \<noteq> t) cs) = (v2_get cs)(t := None)"
  unfolding v2_get_def by (induction cs) (auto simp: fun_eq_iff)

lemma v2_wf_filter: "v2_wf cs \<Longrightarrow> v2_wf (filter P cs)"
  by (auto simp: v2_wf_def distinct_map inj_on_def)

lemma v2_get_append: "v2_get (cs @ [c]) t = (case v2_get cs t of None \<Rightarrow> if mc_Type c = t then Some c else None | Some e \<Rightarrow> Some e)"
  unfolding v2_get_def by (induction cs) auto

lemma v2_get_map:
  assumes "mc_Type n = t0" "v2_get cs t0 \<noteq> None"
  shows "v2_get (map (\<lambda>x. if mc_Type x = t0 then n else x) cs) t = (if t = t0 then Some n else v2_get cs t)"
proof (cases "t = t0")
  case True
  then show ?thesis using assms unfolding v2_get_def by (induction cs) (auto split: if_splits)
next
  case False
  then show ?thesis using assms(1) unfolding v2_get_def by (induction cs) auto
qed

lemma sample_meta_lib_ok: "meta_ok sample_meta_lib"
proof -
  have "v2_wf (fst (sample_Set now cs c)) \<and>
      v2_get (fst (sample_Set now cs c)) = (v2_get cs)(mc_Type c \<mapsto> v2_stamp now (v2_get cs (mc_Type c)) c) \<and>
      (\<not> snd (sample_Set now cs c) \<longrightarrow> fst (sample_Set now cs c) = cs)" if wf: "v2_wf cs" for now cs c
  proof (cases "v2_get cs (mc_Type c)")
    case None
    then have "v2_wf (cs @ [v2_stamp now None c])" using wf by (simp add: v2_wf_def v2_get_None)
    then show ?thesis using None by (auto simp: sample_Set_def v2_get_append fun_eq_iff split: option.splits)
  next
    case (Some e)
    let ?n = "v2_stamp now (Some e) c" and ?f = "\<lambda>x. if mc_Type x = mc_Type c then v2_stamp now (Some e) c else x"
    have s: "sample_Set now cs c = (map ?f cs, ?n \<noteq> e)" using Some by (simp add: sample_Set_def Let_def)
    have "map mc_Type (map ?f cs) = map mc_Type cs" by (induction cs) auto
    then have "v2_wf (map ?f cs)" using wf by (simp only: v2_wf_def)
    moreover have "map ?f cs = cs" if "?n = e"
    proof (rule map_idI)
      fix x assume "x \<in> set cs"
      then show "?f x = x" using that Some v2_get_Some [OF wf, of "mc_Type c" x] by auto
    qed
    ultimately show ?thesis using Some s v2_get_map [of ?n "mc_Type c" cs] by (auto simp: fun_eq_iff)
  qed
  then show ?thesis by (simp add: meta_ok_def sample_meta_lib_def)
qed

section \<open>Writing\<close>

lemma defaultSort_total:
  "mc_Type i \<noteq> mc_Type j \<Longrightarrow> defaultSortLessFunc i j \<or> defaultSortLessFunc j i"
  by (auto simp: defaultSortLessFunc_def first_conditions_def last_conditions_def split: option.splits if_splits)

interpretation v2_order: weak_order defaultSortLessFunc
  by unfold_locales
    (auto simp: defaultSortLessFunc_def first_conditions_def last_conditions_def split: option.splits if_splits)

lemma v2_wf_perm: "mset cs = mset ds \<Longrightarrow> v2_wf cs = v2_wf ds"
  unfolding v2_wf_def by (metis mset_eq_imp_distinct_iff mset_map)

lemma v2_wf_sort [simp]: "v2_wf (v2_sort lt cs) = v2_wf cs"
  using v2_wf_perm [of "v2_sort lt cs" cs] by (cases lt) (simp_all add: v2_sort_def)

lemma v2_get_sort: "v2_wf cs \<Longrightarrow> v2_get (v2_sort lt cs) = v2_get cs"
proof
  fix t assume wf: "v2_wf cs"
  have set: "set (v2_sort lt cs) = set cs" by (cases lt) (simp_all add: v2_sort_def)
  show "v2_get (v2_sort lt cs) t = v2_get cs t"
  proof (cases "v2_get cs t")
    case None
    then have "v2_get (v2_sort lt cs) t = None" using set by (simp add: v2_get_None)
    then show ?thesis using None by simp
  next
    case (Some c)
    then have "v2_get (v2_sort lt cs) t = Some c" using wf set v2_get_Some [of "v2_sort lt cs"] v2_get_Some [OF wf] by simp
    then show ?thesis using Some by simp
  qed
qed

lemma sorted_v2_sort:
  assumes "v2_wf cs"
  shows "sorted_wrt defaultSortLessFunc (v2_sort (Some defaultSortLessFunc) cs)"
proof -
  let ?r = "v2_sort (Some defaultSortLessFunc) cs"
  have "distinct (map mc_Type ?r)" using assms v2_wf_sort [of "Some defaultSortLessFunc" cs] by (simp add: v2_wf_def)
  then have d: "sorted_wrt (\<lambda>i j. mc_Type i \<noteq> mc_Type j) ?r" by (simp add: distinct_conv_nth sorted_wrt_iff_nth_less)
  have "sorted_wrt (\<lambda>i j. \<not> defaultSortLessFunc j i) ?r"
    using v2_order.sorted_go_sort by (simp add: v2_sort_def)
  with d show ?thesis unfolding sorted_wrt_iff_nth_less using defaultSort_total by blast
qed

definition v2_normal :: "int \<Rightarrow> meta_condition \<Rightarrow> meta_condition" where
  "v2_normal now c = c\<lparr>mc_LastTransitionTime := truncate_second (if mc_LastTransitionTime c = 0 then now else mc_LastTransitionTime c)\<rparr>"

lemma v2_normal_Type [simp]: "mc_Type (v2_normal now c) = mc_Type c"
  by (simp add: v2_normal_def)

lemma setStatusCondition_eq: "setStatusCondition ml now cs c = ml_Set ml now cs (v2_normal now c)"
  by (simp add: setStatusCondition_def v2_normal_def Let_def)

lemma v2_put:
  assumes "meta_ok ml" "v2_wf cs"
  shows "v2_wf (fst (setStatusCondition ml now cs c))"
    and "v2_get (fst (setStatusCondition ml now cs c)) =
      (v2_get cs)(mc_Type c \<mapsto> v2_stamp now (v2_get cs (mc_Type c)) (v2_normal now c))"
    and "\<not> snd (setStatusCondition ml now cs c) \<Longrightarrow> fst (setStatusCondition ml now cs c) = cs"
  using meta_okD(3,4,5) [OF assms] by (simp_all add: setStatusCondition_eq)

lemma v2_normal_state: "v2_HasSameState (v2_stamp now' old (v2_normal now c)) c"
  by (simp add: v2_stamp_def v2_HasSameState_def v2_normal_def Let_def split: option.splits)

section \<open>Patching\<close>

lemma v2_apply_append:
  "v2_apply_operations ml now opt (ps @ qs) s =
     go_bind (v2_apply_operations ml now opt ps s) (v2_apply_operations ml now opt qs)"
proof (induction ps arbitrary: s)
  case (Cons p ps)
  then show ?case by (cases "v2_apply_operation ml now opt p s") simp_all
qed simp

lemma v2_changes_simps:
  "v2_changes ml b [] = []"
  "v2_changes ml b (x # xs) =
     (case ml_Find ml b (mc_Type x) of None \<Rightarrow> V2Add x # v2_changes ml b xs
      | Some y \<Rightarrow> if x \<noteq> y then V2Change y x # v2_changes ml b xs else v2_changes ml b xs)"
  by (simp_all add: v2_changes_def List.map_filter_def split: option.split)

lemma v2_removals_simps:
  "v2_removals ml a [] = []"
  "v2_removals ml a (x # xs) =
     (case ml_Find ml a (mc_Type x) of None \<Rightarrow> V2Remove x # v2_removals ml a xs | Some _ \<Rightarrow> v2_removals ml a xs)"
  by (simp_all add: v2_removals_def List.map_filter_def split: option.split)

lemma v2_HasSameState_refl [simp]: "v2_HasSameState c c"
  by (simp add: v2_HasSameState_def)

lemma v2_apply_changes:
  assumes "meta_ok ml" "v2_wf s" "distinct (map mc_Type as)"
    and "\<And>x. x \<in> set as \<Longrightarrow> v2_get s (mc_Type x) = v2_get b (mc_Type x)"
  shows "\<exists>s'. v2_apply_operations ml now opt (v2_changes ml b as) s = Ret s' \<and> v2_wf s' \<and>
     (\<forall>x \<in> set as. \<exists>y. v2_get s' (mc_Type x) = Some y \<and> v2_HasSameState y x) \<and>
     (\<forall>t. t \<notin> mc_Type ` set as \<longrightarrow> v2_get s' t = v2_get s t)"
  using assms(2-)
proof (induction as arbitrary: s)
  case (Cons x xs)
  define s1 where "s1 = (if v2_get b (mc_Type x) = Some x then s else fst (setStatusCondition ml now s x))"
  have wf1: "v2_wf s1" using Cons.prems(1) v2_put(1) [OF assms(1)] by (simp add: s1_def)
  have same1: "\<exists>y. v2_get s1 (mc_Type x) = Some y \<and> v2_HasSameState y x"
    using Cons.prems(1,3) v2_put(2) [OF assms(1)] v2_normal_state by (auto simp: s1_def)
  have other1: "v2_get s1 t = v2_get s t" if "t \<noteq> mc_Type x" for t
    using Cons.prems(1) that v2_put(2) [OF assms(1)] by (simp add: s1_def)
  have step: "v2_apply_operations ml now opt (v2_changes ml b (x # xs)) s =
      v2_apply_operations ml now opt (v2_changes ml b xs) s1"
    using Cons.prems(3) [of x] meta_okD(1) [OF assms(1)]
    by (auto simp: v2_changes_simps s1_def split: option.splits)
  have ne: "mc_Type y \<noteq> mc_Type x" if "y \<in> set xs" for y using Cons.prems(2) that by (auto simp: image_iff)
  have "\<exists>s'. v2_apply_operations ml now opt (v2_changes ml b xs) s1 = Ret s' \<and> v2_wf s' \<and>
     (\<forall>x \<in> set xs. \<exists>y. v2_get s' (mc_Type x) = Some y \<and> v2_HasSameState y x) \<and>
     (\<forall>t. t \<notin> mc_Type ` set xs \<longrightarrow> v2_get s' t = v2_get s1 t)"
    using Cons.prems wf1 by (intro Cons.IH) (auto simp: other1 ne)
  moreover have "mc_Type x \<notin> mc_Type ` set xs" using Cons.prems(2) by auto
  ultimately show ?case using same1 other1 unfolding step by auto
qed (simp add: v2_changes_simps)

lemma v2_apply_removals:
  assumes "meta_ok ml" "v2_wf s" "distinct (map mc_Type bs)"
    and "\<And>x. x \<in> set bs \<Longrightarrow> v2_get a (mc_Type x) = None \<Longrightarrow> v2_get s (mc_Type x) = Some x"
  shows "\<exists>s'. v2_apply_operations ml now opt (v2_removals ml a bs) s = Ret s' \<and> v2_wf s' \<and>
     (\<forall>t. v2_get s' t = (if t \<in> mc_Type ` set bs \<and> v2_get a t = None then None else v2_get s t))"
  using assms(2-)
proof (induction bs arbitrary: s)
  case (Cons x xs)
  define s1 where "s1 = (if v2_get a (mc_Type x) = None then filter (\<lambda>c. mc_Type c \<noteq> mc_Type x) s else s)"
  have wf1: "v2_wf s1" using Cons.prems(1) by (simp add: s1_def v2_wf_filter)
  have get1: "v2_get s1 t = (if t = mc_Type x \<and> v2_get a t = None then None else v2_get s t)" for t
    by (auto simp: s1_def v2_get_filter)
  have empty: "length s \<noteq> 0" if "v2_get a (mc_Type x) = None"
    using Cons.prems(3) [of x] that by (auto simp: v2_get_def)
  have step: "v2_apply_operations ml now opt (v2_removals ml a (x # xs)) s =
      v2_apply_operations ml now opt (v2_removals ml a xs) s1"
    using Cons.prems(3) [of x] empty meta_okD(1,2) [OF assms(1)]
    by (auto simp: v2_removals_simps s1_def split: option.splits)
  have ne: "mc_Type y \<noteq> mc_Type x" if "y \<in> set xs" for y using Cons.prems(2) that by (auto simp: image_iff)
  have "\<exists>s'. v2_apply_operations ml now opt (v2_removals ml a xs) s1 = Ret s' \<and> v2_wf s' \<and>
     (\<forall>t. v2_get s' t = (if t \<in> mc_Type ` set xs \<and> v2_get a t = None then None else v2_get s1 t))"
    using Cons.prems wf1 by (intro Cons.IH) (auto simp: get1 ne)
  then show ?case unfolding step by (auto simp: get1)
qed (simp add: v2_removals_simps)

section \<open>Merging\<close>

lemma default_priority:
  "GetDefaultMergePriorityFunc neg c = IssueMergePriority \<longleftrightarrow>
     mc_Status c = (if mc_Type c \<in> set neg then ConditionTrue else ConditionFalse)"
  "GetDefaultMergePriorityFunc neg c = InfoMergePriority \<longleftrightarrow>
     mc_Status c = (if mc_Type c \<in> set neg then ConditionFalse else ConditionTrue)"
  by (auto simp: GetDefaultMergePriorityFunc_def)

lemma set_sortConditions [simp]: "set (sortConditions cs ts) = set cs"
  by (simp add: sortConditions_def)

lemma filter_nonempty: "0 < length (filter P xs) \<longleftrightarrow> (\<exists>x \<in> set xs. P x)"
  by (auto simp: filter_empty_conv)

lemma Merge_status_eq:
  assumes "cs \<noteq> []" "dm_getPriorityFunc d = Some p"
  shows "\<exists>reason message. Merge ml rng d cs ts =
     Ret (if \<exists>c \<in> set cs. p (oc_Condition c) = IssueMergePriority
          then (if dm_positivePolarity d then ConditionFalse else ConditionTrue)
          else if \<exists>c \<in> set cs. p (oc_Condition c) = UnknownMergePriority then ConditionUnknown
          else (if dm_positivePolarity d then ConditionTrue else ConditionFalse), reason, message)"
proof -
  let ?s = "sortConditions cs ts"
  let ?f = "\<lambda>q. filter (\<lambda>c. p (oc_Condition c) = q) ?s"
  obtain c where c: "c \<in> set cs" using assms(1) by (cases cs) auto
  have "0 < length (?f IssueMergePriority) \<or> 0 < length (?f UnknownMergePriority) \<or> 0 < length (?f InfoMergePriority)"
    unfolding filter_nonempty using c by (cases "p (oc_Condition c)") auto
  then show ?thesis
    using assms unfolding Merge_def merged_status_def splitConditionsByPriority_def
    by (simp add: filter_nonempty Let_def del: length_greater_0_conv) blast
qed

lemma summary_in_scope_no_override:
  "so_override opt = [] \<Longrightarrow> summary_in_scope rng obj opt =
     filter (\<lambda>c. oc_Type c \<in> set (so_conditionTypes opt)) (getConditionsWithOwnerInfo obj) @
     map (\<lambda>t. \<lparr>oc_Owner = getConditionOwnerInfo obj,
            oc_Condition = new_meta_condition t ConditionUnknown NotYetReportedReason ''Condition not yet reported''\<rparr>)
       (rng (filter (\<lambda>t. v2_get (v2_Conditions obj) t = None \<and> t \<notin> set (so_ignoreIfMissing opt))
          (remdups (so_conditionTypes opt))))"
proof -
  have "set (map oc_Type (filter (\<lambda>c. oc_Type c \<in> set ts) (getConditionsWithOwnerInfo obj))) =
      mc_Type ` set (v2_Conditions obj) \<inter> set ts" for ts
    by (auto simp: getConditionsWithOwnerInfo_def filter_map comp_def image_image)
  then have "t \<notin> set (map oc_Type (filter (\<lambda>c. oc_Type c \<in> set ts) (getConditionsWithOwnerInfo obj))) \<longleftrightarrow>
      v2_get (v2_Conditions obj) t = None" if "t \<in> set ts" for t ts
    using that by (auto simp: v2_get_None)
  then have "filter (\<lambda>t. t \<notin> set (map oc_Type (filter (\<lambda>c. oc_Type c \<in> set (so_conditionTypes opt)) (getConditionsWithOwnerInfo obj))) \<and>
          t \<notin> set (so_ignoreIfMissing opt)) (remdups (so_conditionTypes opt)) =
      filter (\<lambda>t. v2_get (v2_Conditions obj) t = None \<and> t \<notin> set (so_ignoreIfMissing opt)) (remdups (so_conditionTypes opt))"
    by (intro filter_cong) auto
  moreover assume "so_override opt = []"
  ultimately show ?thesis by (simp add: summary_in_scope_def Let_def)
qed

text \<open>The conditions of a summary by their types: those of the object, and unknown ones for missing types.\<close>

lemma summary_in_scope_types:
  assumes "so_override opt = []" "v2_wf (v2_Conditions obj)" "\<And>ks. set (rng ks) = set ks"
  shows "(\<exists>c \<in> set (summary_in_scope rng obj opt). P (oc_Condition c)) \<longleftrightarrow>
     (\<exists>t \<in> set (so_conditionTypes opt).
        case v2_get (v2_Conditions obj) t of Some c \<Rightarrow> P c
        | None \<Rightarrow> t \<notin> set (so_ignoreIfMissing opt) \<and>
                  P (new_meta_condition t ConditionUnknown NotYetReportedReason ''Condition not yet reported''))"
proof -
  have own: "(\<exists>c \<in> set (filter (\<lambda>c. oc_Type c \<in> set ts) (getConditionsWithOwnerInfo obj)). P (oc_Condition c)) \<longleftrightarrow>
      (\<exists>t \<in> set ts. \<exists>c. v2_get (v2_Conditions obj) t = Some c \<and> P c)" for ts
    using v2_get_Some [OF assms(2)] by (auto simp: getConditionsWithOwnerInfo_def)
  have case_get: "(case v2_get (v2_Conditions obj) t of Some c \<Rightarrow> P c | None \<Rightarrow> R) \<longleftrightarrow>
      (\<exists>c. v2_get (v2_Conditions obj) t = Some c \<and> P c) \<or> v2_get (v2_Conditions obj) t = None \<and> R" for t R
    by (cases "v2_get (v2_Conditions obj) t") auto
  show ?thesis
    unfolding summary_in_scope_no_override [OF assms(1)] set_append bex_Un own case_get bex_disj_distrib
    by (auto simp: assms(3))
qed

section \<open>Messages of an aggregate\<close>

lemma kind_messages_eq:
  "kind_messages ml cs kind ms n other = (msgs, n', other') \<Longrightarrow>
     msgs = map (\<lambda>m. message_line ml kind m (reporters cs kind m)) (take n ms) \<and> n' = n - length msgs \<and>
     other' = other + sum_list (map (\<lambda>m. length (reporters cs kind m)) (drop n ms))"
proof (induction ms arbitrary: n other msgs n' other')
  case (Cons m ms)
  show ?case
  proof (cases n)
    case 0
    then show ?thesis using Cons.IH [of 0 "other + length (reporters cs kind m)"] Cons.prems by (auto simp: min_def)
  next
    case (Suc k)
    then obtain msgs0 where "kind_messages ml cs kind ms k other = (msgs0, n', other')"
      "msgs = message_line ml kind m (reporters cs kind m) # msgs0"
      using Cons.prems by (auto split: prod.splits)
    then show ?thesis using Cons.IH [of k other msgs0 n' other'] Suc by auto
  qed
qed auto

lemma reporters_count:
  "length (reporters cs kind m) =
     count_list (map oc_Message (filter (\<lambda>c. oi_Kind (oc_Owner c) = kind) cs)) m"
  by (induction cs) (auto simp: reporters_def)

text \<open>The messages that objects of a kind report.\<close>

definition messages_of :: "owned_condition list \<Rightarrow> string \<Rightarrow> string set" where
  "messages_of cs kind = oc_Message ` {c \<in> set cs. oi_Kind (oc_Owner c) = kind}"

lemma message_index_messages:
  assumes "\<And>ks. mset (rng ks) = mset ks"
  shows "distinct (message_index rng cs kind)" "set (message_index rng cs kind) = messages_of cs kind"
proof -
  let ?ys = "map oc_Message (filter (\<lambda>c. oi_Kind (oc_Owner c) = kind) cs)"
  have m: "mset (message_index rng cs kind) = mset (remdups ?ys)" by (simp add: message_index_def assms)
  then show "distinct (message_index rng cs kind)" by (metis distinct_remdups mset_eq_imp_distinct_iff)
  have "set (message_index rng cs kind) = set ?ys" by (metis m set_mset_mset set_remdups)
  then show "set (message_index rng cs kind) = messages_of cs kind" by (auto simp: messages_of_def)
qed

lemma reporters_total:
  assumes "\<And>ks. mset (rng ks) = mset ks"
  shows "sum_list (map (\<lambda>m. length (reporters cs kind m)) (message_index rng cs kind)) =
     length (filter (\<lambda>c. oi_Kind (oc_Owner c) = kind) cs)"
proof -
  let ?ys = "map oc_Message (filter (\<lambda>c. oi_Kind (oc_Owner c) = kind) cs)"
  have "set ?ys = messages_of cs kind" by (auto simp: messages_of_def)
  then have "sum_list (map (count_list ?ys) (message_index rng cs kind)) = sum (count_list ?ys) (set ?ys)"
    using message_index_messages [OF assms, of cs kind] by (simp add: sum_list_distinct_conv_sum_set)
  also have "\<dots> = length ?ys" by (rule sum_count_set) auto
  finally show ?thesis by (simp add: reporters_count)
qed

interpretation name_order: weak_order "(<) :: string \<Rightarrow> string \<Rightarrow> bool"
  by unfold_locales auto

interpretation message_order: weak_order
  "\<lambda>a b. length (reporters cs kind a) > length (reporters cs kind b) \<or>
     (length (reporters cs kind a) = length (reporters cs kind b) \<and>
      go_join '','' (reporters cs kind a) < go_join '','' (reporters cs kind b))" for cs kind
  by unfold_locales auto

lemma message_index_sorted:
  "sorted_wrt (\<lambda>a b. length (reporters cs kind b) \<le> length (reporters cs kind a)) (message_index rng cs kind)"
  unfolding message_index_def
  by (rule sorted_wrt_mono_rel [OF _ message_order.sorted_go_sort]) auto

text \<open>
  What is shown of one kind: some of its messages, the most reported ones in the order of the number of objects that
  report them, and the number of the other objects.
\<close>

definition accounts_for :: "owned_condition list \<Rightarrow> string \<Rightarrow> string list \<Rightarrow> nat \<Rightarrow> bool" where
  "accounts_for cs kind shown other \<longleftrightarrow> distinct shown \<and> set shown \<subseteq> messages_of cs kind \<and>
     sorted_wrt (\<lambda>a b. length (reporters cs kind b) \<le> length (reporters cs kind a)) shown \<and>
     (\<forall>m \<in> set shown. \<forall>m' \<in> messages_of cs kind - set shown. length (reporters cs kind m') \<le> length (reporters cs kind m)) \<and>
     sum_list (map (\<lambda>m. length (reporters cs kind m)) shown) + other = length (filter (\<lambda>c. oi_Kind (oc_Owner c) = kind) cs)"

fun kind_lines :: "meta_lib \<Rightarrow> owned_condition list \<Rightarrow> string \<Rightarrow> string \<times> string list \<times> nat \<Rightarrow> string list" where
  "kind_lines ml cs otherMessage (kind, shown, other) =
     map (\<lambda>m. message_line ml kind m (reporters cs kind m)) shown @ other_line ml kind other otherMessage"

lemma kind_messages_accounts:
  assumes rng: "\<And>ks. mset (rng ks) = mset ks" and run: "kind_messages ml cs kind (message_index rng cs kind) n 0 = (msgs, n', other)"
  shows "\<exists>shown. msgs = map (\<lambda>m. message_line ml kind m (reporters cs kind m)) shown \<and> n = n' + length shown \<and>
    accounts_for cs kind shown other \<and> (0 < n' \<longrightarrow> other = 0 \<and> set shown = messages_of cs kind)"
proof -
  let ?mi = "message_index rng cs kind" and ?r = "\<lambda>m. length (reporters cs kind m)"
  have k: "msgs = map (\<lambda>m. message_line ml kind m (reporters cs kind m)) (take n ?mi)" "n' = n - length msgs"
      "other = sum_list (map ?r (drop n ?mi))"
    using kind_messages_eq [OF run] by auto
  note mi = message_index_messages [OF rng, of cs kind]
  have split: "take n ?mi @ drop n ?mi = ?mi" by (rule append_take_drop_id)
  then have srt: "sorted_wrt (\<lambda>a b. ?r b \<le> ?r a) (take n ?mi @ drop n ?mi)" using message_index_sorted [of cs kind rng] by simp
  have rest: "messages_of cs kind - set (take n ?mi) \<subseteq> set (drop n ?mi)" using mi(2) split by (metis Diff_subset_conv order_refl set_append)
  have "sum_list (map ?r (take n ?mi)) + other = length (filter (\<lambda>c. oi_Kind (oc_Owner c) = kind) cs)"
    unfolding k(3) using reporters_total [OF rng, of cs kind] split by (metis map_append sum_list_append)
  then have "accounts_for cs kind (take n ?mi) other"
    using mi srt rest set_take_subset [of n ?mi] unfolding accounts_for_def sorted_wrt_append by auto
  moreover have "0 < n' \<longrightarrow> other = 0 \<and> set (take n ?mi) = messages_of cs kind" using k mi(2) by auto
  moreover have "n = n' + length (take n ?mi)" using k(1,2) by simp
  ultimately show ?thesis using k(1) by blast
qed

lemma kinds_messages_accounts:
  assumes rng: "\<And>ks. mset (rng ks) = mset ks"
  shows "kinds_messages ml rng cs otherMessage kinds n = (msgs, n') \<Longrightarrow>
    \<exists>xs. map fst xs = kinds \<and> msgs = concat (map (kind_lines ml cs otherMessage) xs) \<and> n = n' + sum_list (map (\<lambda>(_, shown, _). length shown) xs) \<and>
      (\<forall>(kind, shown, other) \<in> set xs. accounts_for cs kind shown other \<and> (0 < n' \<longrightarrow> other = 0 \<and> set shown = messages_of cs kind))"
proof (induction kinds arbitrary: n msgs n')
  case (Cons kind kinds)
  obtain m1 n1 other where k: "kind_messages ml cs kind (message_index rng cs kind) n 0 = (m1, n1, other)" by (metis prod_cases3)
  obtain m2 n2 where l: "kinds_messages ml rng cs otherMessage kinds n1 = (m2, n2)" by fastforce
  obtain shown where s: "m1 = map (\<lambda>m. message_line ml kind m (reporters cs kind m)) shown" "n = n1 + length shown"
      "accounts_for cs kind shown other" "0 < n1 \<longrightarrow> other = 0 \<and> set shown = messages_of cs kind"
    using kind_messages_accounts [OF rng k] by blast
  obtain xs where xs: "map fst xs = kinds" "m2 = concat (map (kind_lines ml cs otherMessage) xs)"
      "n1 = n2 + sum_list (map (\<lambda>(_, shown, _). length shown) xs)"
      "\<forall>(kind, shown, other) \<in> set xs. accounts_for cs kind shown other \<and> (0 < n2 \<longrightarrow> other = 0 \<and> set shown = messages_of cs kind)"
    using Cons.IH [OF l] by blast
  have "n' = n2" "msgs = m1 @ other_line ml kind other otherMessage @ m2" using Cons.prems k l by simp_all
  then show ?case using s xs by (intro exI [of _ "(kind, shown, other) # xs"]) auto
qed simp

section \<open>Properties\<close>

text \<open>
  C25: setting a condition keeps the list well formed (no type twice; Available and Ready first, Paused and
  Deleting last, the others by type in between) and refines the update of one key of the map from types
  to conditions: the observed generation is that of the object, the transition time, in whole seconds,
  stays when the status does not change.
\<close>

theorem v2_Set_refines_update:
  assumes "meta_ok ml" "v2_wf (v2_Conditions obj)" "v2_Generation obj = Some g"
    and "sorted_wrt defaultSortLessFunc (v2_Conditions obj)"
  shows "\<exists>obj'. v2_Set ml now (Some defaultSortLessFunc) (Some obj) c = Some obj' \<and>
     v2_wf (v2_Conditions obj') \<and> sorted_wrt defaultSortLessFunc (v2_Conditions obj') \<and>
     v2_get (v2_Conditions obj') = (v2_get (v2_Conditions obj))
       (mc_Type c \<mapsto> v2_stamp now (v2_get (v2_Conditions obj) (mc_Type c)) (v2_normal now (c\<lparr>mc_ObservedGeneration := g\<rparr>)))"
proof -
  let ?c = "c\<lparr>mc_ObservedGeneration := g\<rparr>" and ?cs = "v2_Conditions obj"
  obtain cs changed where s: "setStatusCondition ml now ?cs ?c = (cs, changed)" by fastforce
  have put: "v2_wf cs" "v2_get cs = (v2_get ?cs)(mc_Type c \<mapsto> v2_stamp now (v2_get ?cs (mc_Type c)) (v2_normal now ?c))"
    "\<not> changed \<Longrightarrow> cs = ?cs"
    using v2_put [OF assms(1,2), of now ?c] s by auto
  show ?thesis
  proof (cases changed)
    case True
    then have "v2_Set ml now (Some defaultSortLessFunc) (Some obj) c =
        Some (obj\<lparr>v2_Conditions := v2_sort (Some defaultSortLessFunc) cs\<rparr>)"
      using s assms(3) by (simp add: v2_Set_def)
    then show ?thesis using put(1,2) sorted_v2_sort [OF put(1)] by (simp add: v2_get_sort)
  next
    case False
    then have "v2_Set ml now (Some defaultSortLessFunc) (Some obj) c = Some obj"
      using s assms(3) by (simp add: v2_Set_def)
    then show ?thesis using put(2) put(3) [OF False] assms(2,4) by simp
  qed
qed

definition sample_v2 :: "string \<Rightarrow> meta_condition list \<Rightarrow> v2_object" where
  "sample_v2 n cs = \<lparr>v2_Kind = ''Machine'', v2_Name = n, v2_Generation = Some 4, v2_Conditions = cs\<rparr>"

text \<open>A Ready condition is put before another one.\<close>

theorem v2_Set_refines_update_witness:
  "\<exists>obj'. v2_Set sample_meta_lib 5000000001 (Some defaultSortLessFunc)
       (Some (sample_v2 ''m'' [new_meta_condition ''A'' ''True'' ''R'' []])) (new_meta_condition ''Ready'' ''True'' ''R'' []) = Some obj' \<and>
     sorted_wrt defaultSortLessFunc (v2_Conditions obj') \<and>
     v2_get (v2_Conditions obj') ''A'' = Some (new_meta_condition ''A'' ''True'' ''R'' [])"
proof -
  let ?o = "sample_v2 ''m'' [new_meta_condition ''A'' ''True'' ''R'' []]"
  have h: "v2_wf (v2_Conditions ?o)" "v2_Generation ?o = Some 4" "sorted_wrt defaultSortLessFunc (v2_Conditions ?o)"
    by (simp_all add: sample_v2_def v2_wf_def)
  have "v2_get (v2_Conditions ?o) ''A'' = Some (new_meta_condition ''A'' ''True'' ''R'' [])"
    "mc_Type (new_meta_condition ''Ready'' ''True'' ''R'' []) = ''Ready''"
    by (simp_all add: sample_v2_def v2_get_def new_meta_condition_def)
  then show ?thesis
    using v2_Set_refines_update [OF sample_meta_lib_ok h, of 5000000001 "new_meta_condition ''Ready'' ''True'' ''R'' []"] by auto
qed

text \<open>
  C26: the patch between two objects applied to the first one never conflicts and gives exactly the
  condition types of the second one, each in the same state, whatever is owned or forced.
\<close>

theorem v2_Patch_roundtrip:
  assumes "meta_ok ml" "v2_wf (v2_Conditions before)" "v2_wf (v2_Conditions after)"
  shows "\<exists>p r. v2_NewPatch ml (Some before) (Some after) = Ret p \<and> v2_Apply ml now opt p (Some before) = Ret (Some r) \<and>
     v2_wf (v2_Conditions r) \<and>
     (\<forall>t. rel_option v2_HasSameState (v2_get (v2_Conditions r) t) (v2_get (v2_Conditions after) t))"
proof -
  let ?b = "v2_Conditions before" and ?a = "v2_Conditions after"
  have d: "distinct (map mc_Type ?a)" "distinct (map mc_Type ?b)" using assms by (simp_all add: v2_wf_def)
  obtain s where s: "v2_apply_operations ml now opt (v2_changes ml ?b ?a) ?b = Ret s" "v2_wf s"
    "\<And>x. x \<in> set ?a \<Longrightarrow> \<exists>y. v2_get s (mc_Type x) = Some y \<and> v2_HasSameState y x"
    "\<And>t. t \<notin> mc_Type ` set ?a \<Longrightarrow> v2_get s t = v2_get ?b t"
    using v2_apply_changes [OF assms(1,2) d(1), of ?b now opt] by auto
  have "v2_get s (mc_Type x) = Some x" if "x \<in> set ?b" "v2_get ?a (mc_Type x) = None" for x
    using that s(4) v2_get_None [of ?a] v2_get_Some [OF assms(2)] by auto
  then obtain r where r: "v2_apply_operations ml now opt (v2_removals ml ?a ?b) s = Ret r" "v2_wf r"
    "\<And>t. v2_get r t = (if t \<in> mc_Type ` set ?b \<and> v2_get ?a t = None then None else v2_get s t)"
    using v2_apply_removals [OF assms(1) s(2) d(2), of ?a now opt] by auto
  have state: "rel_option v2_HasSameState (v2_get r t) (v2_get ?a t)" for t
  proof (cases "v2_get ?a t")
    case None
    then have "v2_get s t = v2_get ?b t" using s(4) by (simp add: v2_get_None)
    then have "v2_get r t = None" using None r(3) [of t] v2_get_None [of ?b t] by auto
    then show ?thesis using None by simp
  next
    case (Some c)
    then have "c \<in> set ?a" "mc_Type c = t" using v2_get_Some [OF assms(3)] by auto
    then show ?thesis using s(3) [of c] r(3) [of t] Some by auto
  qed
  define p where "p = v2_changes ml ?b ?a @ v2_removals ml ?a ?b"
  have app: "v2_apply_operations ml now opt p ?b = Ret r" by (simp add: p_def v2_apply_append s(1) r(1))
  have new: "v2_NewPatch ml (Some before) (Some after) = Ret p" by (simp add: v2_NewPatch_def p_def)
  show ?thesis
  proof (cases "p = []")
    case True
    then have "r = ?b" using app by simp
    then have "v2_Apply ml now opt p (Some before) = Ret (Some before)" "v2_wf ?b"
      using True assms(2) by (simp_all add: v2_Apply_def v2_IsZero_def)
    then show ?thesis using new state \<open>r = ?b\<close> by blast
  next
    case False
    let ?r = "before\<lparr>v2_Conditions := v2_sort (v2_sortFunc opt) r\<rparr>"
    have "v2_Apply ml now opt p (Some before) = Ret (Some ?r)" using False app by (simp add: v2_Apply_def v2_IsZero_def)
    moreover have "v2_wf (v2_Conditions ?r)" "v2_get (v2_Conditions ?r) = v2_get r" using r(2) by (simp_all add: v2_get_sort)
    ultimately show ?thesis using new state by metis
  qed
qed

text \<open>One condition changes, one is removed.\<close>

theorem v2_Patch_roundtrip_witness:
  "\<exists>p r. v2_NewPatch sample_meta_lib
       (Some (sample_v2 ''m'' [new_meta_condition ''A'' ''True'' ''R'' [], new_meta_condition ''B'' ''True'' ''R'' []]))
       (Some (sample_v2 ''m'' [new_meta_condition ''A'' ''False'' ''S'' []])) = Ret p \<and>
     v2_Apply sample_meta_lib 7000000000 \<lparr>v2_owned = [], v2_force = False, v2_sortFunc = Some defaultSortLessFunc\<rparr> p
       (Some (sample_v2 ''m'' [new_meta_condition ''A'' ''True'' ''R'' [], new_meta_condition ''B'' ''True'' ''R'' []])) = Ret (Some r) \<and>
     v2_get (v2_Conditions r) ''B'' = None \<and> map_option mc_Status (v2_get (v2_Conditions r) ''A'') = Some ''False''"
proof -
  let ?b = "sample_v2 ''m'' [new_meta_condition ''A'' ''True'' ''R'' [], new_meta_condition ''B'' ''True'' ''R'' []]"
  let ?a = "sample_v2 ''m'' [new_meta_condition ''A'' ''False'' ''S'' []]"
  let ?opt = "\<lparr>v2_owned = [], v2_force = False, v2_sortFunc = Some defaultSortLessFunc\<rparr>"
  have wf: "v2_wf (v2_Conditions ?b)" "v2_wf (v2_Conditions ?a)"
    by (simp_all add: sample_v2_def v2_wf_def new_meta_condition_def)
  obtain p r where pr: "v2_NewPatch sample_meta_lib (Some ?b) (Some ?a) = Ret p"
    "v2_Apply sample_meta_lib 7000000000 ?opt p (Some ?b) = Ret (Some r)"
    "\<And>t. rel_option v2_HasSameState (v2_get (v2_Conditions r) t) (v2_get (v2_Conditions ?a) t)"
    using v2_Patch_roundtrip [OF sample_meta_lib_ok wf, of 7000000000 ?opt] by blast
  have "v2_get (v2_Conditions ?a) ''B'' = None"
    "v2_get (v2_Conditions ?a) ''A'' = Some (new_meta_condition ''A'' ''False'' ''S'' [])"
    by (simp_all add: sample_v2_def v2_get_def new_meta_condition_def)
  then have "v2_get (v2_Conditions r) ''B'' = None" "map_option mc_Status (v2_get (v2_Conditions r) ''A'') = Some ''False''"
    using pr(3) [of "''B''"] pr(3) [of "''A''"]
    by (auto simp: option_rel_Some2 v2_HasSameState_def new_meta_condition_def)
  then show ?thesis using pr(1,2) by blast
qed

lemma summary_issue:
  assumes "so_override opt = []" "v2_wf (v2_Conditions obj)" "\<And>ks. set (rng ks) = set ks"
  shows "(\<exists>c \<in> set (summary_in_scope rng obj opt). GetDefaultMergePriorityFunc (so_negativePolarity opt) (oc_Condition c) = IssueMergePriority) \<longleftrightarrow>
      (\<exists>t \<in> set (so_conditionTypes opt). \<exists>x. v2_get (v2_Conditions obj) t = Some x \<and>
         mc_Status x = (if t \<in> set (so_negativePolarity opt) then ConditionTrue else ConditionFalse))"
proof -
  let ?scope = "summary_in_scope rng obj opt" and ?get = "v2_get (v2_Conditions obj)"
  let ?p = "GetDefaultMergePriorityFunc (so_negativePolarity opt)"
  note sc = summary_in_scope_types [OF assms(1,2), where rng = rng, OF assms(3)]
  have ty: "mc_Type x = t" if "?get t = Some x" for t x using that v2_get_Some [OF assms(2)] by auto
  have "(\<exists>c \<in> set ?scope. ?p (oc_Condition c) = IssueMergePriority) \<longleftrightarrow> (\<exists>t \<in> set (so_conditionTypes opt).
      case ?get t of Some c \<Rightarrow> ?p c = IssueMergePriority
      | None \<Rightarrow> t \<notin> set (so_ignoreIfMissing opt) \<and>
          ?p (new_meta_condition t ConditionUnknown NotYetReportedReason ''Condition not yet reported'') = IssueMergePriority)"
    by (rule sc)
  also have "\<dots> \<longleftrightarrow> (\<exists>t \<in> set (so_conditionTypes opt). \<exists>x. ?get t = Some x \<and>
       mc_Status x = (if t \<in> set (so_negativePolarity opt) then ConditionTrue else ConditionFalse))"
  proof (intro bex_cong refl)
    fix t
    show "(case ?get t of Some c \<Rightarrow> ?p c = IssueMergePriority | None \<Rightarrow> t \<notin> set (so_ignoreIfMissing opt) \<and>
          ?p (new_meta_condition t ConditionUnknown NotYetReportedReason ''Condition not yet reported'') = IssueMergePriority) \<longleftrightarrow>
        (\<exists>x. ?get t = Some x \<and> mc_Status x = (if t \<in> set (so_negativePolarity opt) then ConditionTrue else ConditionFalse))"
      using ty [of t] by (cases "?get t") (auto simp: default_priority new_meta_condition_def)
  qed
  finally show ?thesis .
qed

lemma summary_info:
  assumes "so_override opt = []" "v2_wf (v2_Conditions obj)" "\<And>ks. set (rng ks) = set ks"
  shows "(\<exists>c \<in> set (summary_in_scope rng obj opt). GetDefaultMergePriorityFunc (so_negativePolarity opt) (oc_Condition c) \<noteq> InfoMergePriority) \<longleftrightarrow>
      \<not> (\<forall>t \<in> set (so_conditionTypes opt). case v2_get (v2_Conditions obj) t of None \<Rightarrow> t \<in> set (so_ignoreIfMissing opt)
         | Some x \<Rightarrow> mc_Status x = (if t \<in> set (so_negativePolarity opt) then ConditionFalse else ConditionTrue))"
proof -
  let ?scope = "summary_in_scope rng obj opt" and ?get = "v2_get (v2_Conditions obj)"
  let ?p = "GetDefaultMergePriorityFunc (so_negativePolarity opt)"
  note sc = summary_in_scope_types [OF assms(1,2), where rng = rng, OF assms(3)]
  have ty: "mc_Type x = t" if "?get t = Some x" for t x using that v2_get_Some [OF assms(2)] by auto
  have "(\<exists>c \<in> set ?scope. ?p (oc_Condition c) \<noteq> InfoMergePriority) \<longleftrightarrow> (\<exists>t \<in> set (so_conditionTypes opt).
      case ?get t of Some c \<Rightarrow> ?p c \<noteq> InfoMergePriority
      | None \<Rightarrow> t \<notin> set (so_ignoreIfMissing opt) \<and>
          ?p (new_meta_condition t ConditionUnknown NotYetReportedReason ''Condition not yet reported'') \<noteq> InfoMergePriority)"
    by (rule sc)
  also have "\<dots> \<longleftrightarrow> (\<exists>t \<in> set (so_conditionTypes opt). \<not> (case ?get t of None \<Rightarrow> t \<in> set (so_ignoreIfMissing opt)
       | Some x \<Rightarrow> mc_Status x = (if t \<in> set (so_negativePolarity opt) then ConditionFalse else ConditionTrue)))"
  proof (intro bex_cong refl)
    fix t
    show "(case ?get t of Some c \<Rightarrow> ?p c \<noteq> InfoMergePriority | None \<Rightarrow> t \<notin> set (so_ignoreIfMissing opt) \<and>
          ?p (new_meta_condition t ConditionUnknown NotYetReportedReason ''Condition not yet reported'') \<noteq> InfoMergePriority) \<longleftrightarrow>
        \<not> (case ?get t of None \<Rightarrow> t \<in> set (so_ignoreIfMissing opt)
       | Some x \<Rightarrow> mc_Status x = (if t \<in> set (so_negativePolarity opt) then ConditionFalse else ConditionTrue))"
      using ty [of t] by (cases "?get t") (auto simp: default_priority new_meta_condition_def)
  qed
  finally show ?thesis by blast
qed

text \<open>
  C27: a summary is True exactly when every type in its scope is in its good state (True, or False for
  negative polarity) or is missing and may be, and False exactly when some type is in its bad state; in
  all other cases it is Unknown.
\<close>

theorem summary_status:
  assumes "so_mergeStrategy opt = None" "so_override opt = []" "v2_wf (v2_Conditions obj)"
    and "tgt \<notin> set (so_conditionTypes opt)" "\<And>ks. set (rng ks) = set ks"
    and "\<exists>t \<in> set (so_conditionTypes opt). v2_get (v2_Conditions obj) t \<noteq> None \<or> t \<notin> set (so_ignoreIfMissing opt)"
  shows "\<exists>c. NewSummaryCondition ml rng obj tgt opt = Ret c \<and> mc_Type c = tgt \<and>
     mc_Status c =
       (if \<exists>t \<in> set (so_conditionTypes opt). \<exists>x. v2_get (v2_Conditions obj) t = Some x \<and>
             mc_Status x = (if t \<in> set (so_negativePolarity opt) then ConditionTrue else ConditionFalse) then ConditionFalse
        else if \<forall>t \<in> set (so_conditionTypes opt). case v2_get (v2_Conditions obj) t of None \<Rightarrow> t \<in> set (so_ignoreIfMissing opt)
             | Some x \<Rightarrow> mc_Status x = (if t \<in> set (so_negativePolarity opt) then ConditionFalse else ConditionTrue) then ConditionTrue
        else ConditionUnknown)"
proof -
  let ?d = "DefaultMergeStrategy [\<lambda>d. d\<lparr>dm_getPriorityFunc := Some (GetDefaultMergePriorityFunc (so_negativePolarity opt))\<rparr>]"
  let ?p = "GetDefaultMergePriorityFunc (so_negativePolarity opt)"
  let ?scope = "summary_in_scope rng obj opt" and ?get = "v2_get (v2_Conditions obj)"
  have d: "dm_getPriorityFunc ?d = Some ?p" "dm_positivePolarity ?d" by (simp_all add: DefaultMergeStrategy_def)
  note sc = summary_in_scope_types [OF assms(2,3), where rng = rng, OF assms(5)]
  have ne: "?scope \<noteq> []" using sc [of "\<lambda>_. True"] assms(6) by (auto split: option.splits)
  note issue = summary_issue [OF assms(2,3), where rng = rng, OF assms(5)]
  note info = summary_info [OF assms(2,3), where rng = rng, OF assms(5)]
  have unknown: "(\<exists>c \<in> set ?scope. ?p (oc_Condition c) = UnknownMergePriority) \<longleftrightarrow> (\<exists>c \<in> set ?scope. ?p (oc_Condition c) \<noteq> InfoMergePriority)"
    if "\<not> (\<exists>c \<in> set ?scope. ?p (oc_Condition c) = IssueMergePriority)"
    using that by (metis merge_priority.distinct(5) merge_priority.exhaust)
  have types: "so_conditionTypes opt \<noteq> []" using assms(6) by auto
  obtain reason message where m: "Merge ml rng ?d ?scope (so_conditionTypes opt) =
      Ret (if \<exists>c \<in> set ?scope. ?p (oc_Condition c) = IssueMergePriority then ConditionFalse
           else if \<exists>c \<in> set ?scope. ?p (oc_Condition c) = UnknownMergePriority then ConditionUnknown
           else ConditionTrue, reason, message)"
    using Merge_status_eq [OF ne d(1), of ml rng "so_conditionTypes opt"] d(2) by auto
  have "NewSummaryCondition ml rng obj tgt opt = Ret (new_meta_condition tgt
      (if \<exists>c \<in> set ?scope. ?p (oc_Condition c) = IssueMergePriority then ConditionFalse
       else if \<exists>c \<in> set ?scope. ?p (oc_Condition c) = UnknownMergePriority then ConditionUnknown
       else ConditionTrue) reason message)"
    using assms(1,2,4) ne m types by (simp add: NewSummaryCondition_def Let_def)
  then show ?thesis using unknown info by (simp add: issue new_meta_condition_def)
qed

definition sample_summary :: summaryOptions where
  "sample_summary = \<lparr>so_mergeStrategy = None, so_conditionTypes = [''A'', ''Deleting'', ''B''], so_negativePolarity = [''Deleting''],
     so_ignoreIfMissing = [''B''], so_override = []\<rparr>"

text \<open>A good condition, one of negative polarity, and one that may be missing.\<close>

theorem summary_status_witness:
  "\<exists>c. NewSummaryCondition sample_meta_lib (\<lambda>ks. ks)
     (sample_v2 ''m'' [new_meta_condition ''A'' ''True'' ''R'' [], new_meta_condition ''Deleting'' ''False'' ''R'' []]) ''Ready'' sample_summary = Ret c \<and>
     mc_Status c = ''True''"
proof -
  let ?o = "sample_v2 ''m'' [new_meta_condition ''A'' ''True'' ''R'' [], new_meta_condition ''Deleting'' ''False'' ''R'' []]"
  have g: "v2_get (v2_Conditions ?o) ''A'' = Some (new_meta_condition ''A'' ''True'' ''R'' [])"
    "v2_get (v2_Conditions ?o) ''Deleting'' = Some (new_meta_condition ''Deleting'' ''False'' ''R'' [])"
    "v2_get (v2_Conditions ?o) ''B'' = None" "v2_wf (v2_Conditions ?o)"
    by (simp_all add: sample_v2_def v2_get_def v2_wf_def new_meta_condition_def)
  have "\<exists>c. NewSummaryCondition sample_meta_lib (\<lambda>ks. ks) ?o ''Ready'' sample_summary = Ret c \<and> mc_Type c = ''Ready'' \<and>
     mc_Status c =
       (if \<exists>t \<in> set (so_conditionTypes sample_summary). \<exists>x. v2_get (v2_Conditions ?o) t = Some x \<and>
             mc_Status x = (if t \<in> set (so_negativePolarity sample_summary) then ConditionTrue else ConditionFalse) then ConditionFalse
        else if \<forall>t \<in> set (so_conditionTypes sample_summary). case v2_get (v2_Conditions ?o) t of None \<Rightarrow> t \<in> set (so_ignoreIfMissing sample_summary)
             | Some x \<Rightarrow> mc_Status x = (if t \<in> set (so_negativePolarity sample_summary) then ConditionFalse else ConditionTrue) then ConditionTrue
        else ConditionUnknown)"
    by (rule summary_status) (simp_all add: g sample_summary_def)
  moreover have "so_conditionTypes sample_summary = [''A'', ''Deleting'', ''B'']" "so_negativePolarity sample_summary = [''Deleting'']"
    "so_ignoreIfMissing sample_summary = [''B'']"
    by (simp_all add: sample_summary_def)
  moreover have "mc_Status (new_meta_condition t x r m) = x" for t x r m by (simp add: new_meta_condition_def)
  ultimately show ?thesis by (auto simp: g)
qed

text \<open>
  C28: an aggregated message goes through the kinds of the objects in alphabetic order. For each kind it has a line for each
  message that is shown, which names up to three of the objects that report it and how many more there are, and then,
  if objects are left, a line with their number. The messages shown are different messages of objects of the
  kind, in the order of the number of objects that report them, and at least as many objects report them as any message left
  out; the objects that report them and the number of the others add up to all objects of the kind. All
  kinds together use up the budget \<open>n\<close> by one for each message shown, and while budget is left no object is left out.
  With \<open>dropEmpty\<close> all this is about the conditions with a message only.
\<close>

theorem aggregate_accounts_for_all:
  assumes "\<And>ks. mset (rng ks) = mset ks"
    and "aggregateMessages ml rng conditions n dropEmpty otherMessage = (msgs, n')"
    and "cs = filter (\<lambda>c. \<not> (dropEmpty \<and> oc_Message c = [])) conditions"
  shows "\<exists>xs. sorted_wrt (<) (map fst xs) \<and> set (map fst xs) = (\<lambda>c. oi_Kind (oc_Owner c)) ` set cs \<and>
     msgs = concat (map (\<lambda>(kind, shown, other).
       map (\<lambda>m. message_line ml kind m (reporters cs kind m)) shown @ other_line ml kind other otherMessage) xs) \<and>
     n = n' + sum_list (map (\<lambda>(kind, shown, other). length shown) xs) \<and>
     (\<forall>(kind, shown, other) \<in> set xs. accounts_for cs kind shown other \<and> (0 < n' \<longrightarrow> other = 0))"
proof -
  let ?kinds = "go_sort (<) (remdups (map (\<lambda>c. oi_Kind (oc_Owner c)) cs))"
  have "kinds_messages ml rng cs otherMessage ?kinds n = (msgs, n')" using assms(2,3) by (simp add: aggregateMessages_def Let_def)
  from kinds_messages_accounts [OF assms(1) this] obtain xs where xs: "map fst xs = ?kinds"
      "msgs = concat (map (kind_lines ml cs otherMessage) xs)" "n = n' + sum_list (map (\<lambda>(_, shown, _). length shown) xs)"
      "\<forall>(kind, shown, other) \<in> set xs. accounts_for cs kind shown other \<and> (0 < n' \<longrightarrow> other = 0 \<and> set shown = messages_of cs kind)"
    by blast
  have "sorted_wrt (\<lambda>a b. \<not> b < a) ?kinds" by (rule name_order.sorted_go_sort)
  then have "sorted_wrt (<) (map fst xs)" unfolding xs(1) by (simp add: strict_sorted_iff not_less)
  moreover have "set (map fst xs) = (\<lambda>c. oi_Kind (oc_Owner c)) ` set cs" unfolding xs(1) by simp
  moreover have "kind_lines ml cs otherMessage = (\<lambda>(kind, shown, other).
      map (\<lambda>m. message_line ml kind m (reporters cs kind m)) shown @ other_line ml kind other otherMessage)" by auto
  ultimately show ?thesis using xs(2-4) by (intro exI [of _ xs]) auto
qed

text \<open>Two messages and room for one: the other one is counted.\<close>

definition sample_reports :: "owned_condition list" where
  "sample_reports = map (aggregate_in_scope ''A'') [sample_v2 ''m1'' [new_meta_condition ''A'' ''False'' ''R'' ''x''],
     sample_v2 ''m2'' [new_meta_condition ''A'' ''False'' ''R'' ''y'']]"

theorem aggregate_accounts_for_all_witness:
  "\<exists>msgs n' xs. aggregateMessages sample_meta_lib (\<lambda>ks. ks) sample_reports 1 False ''others'' = (msgs, n') \<and>
     1 = n' + sum_list (map (\<lambda>(kind, shown, other). length shown) xs) \<and>
     (\<forall>(kind, shown, other) \<in> set xs. accounts_for sample_reports kind shown other)"
proof -
  obtain msgs n' where k: "aggregateMessages sample_meta_lib (\<lambda>ks. ks) sample_reports 1 False ''others'' = (msgs, n')" by fastforce
  show ?thesis using aggregate_accounts_for_all [OF _ k, of sample_reports] k by fastforce
qed

end
