(* ===== verification/Ms_Status.thy ===== *)
theory Ms_Status
  imports Ms_Policy Conditions_V1Beta2
begin

text \<open>
  The status of a MachineSet: machineset_controller_status.go (the replica counters and conditions of the
  v1beta2 status) and the readiness of nodes, src/controllers/noderefutil/util.go. The library of
  conditions, the iteration order of maps and the clock are arguments.
\<close>

section \<open>Objects with v1beta2 conditions\<close>

definition machine_v2 :: "machine \<Rightarrow> v2_object" where
  "machine_v2 m = \<lparr>v2_Kind = ''Machine'', v2_Name = m_Name m, v2_Generation = Some (om_Generation (m_Meta m)),
     v2_Conditions = (case st_V1Beta2 (m_Status m) of None \<Rightarrow> [] | Some x \<Rightarrow> m2_Conditions x)\<rparr>"

definition put_machine_v2 :: "machine \<Rightarrow> v2_object option \<Rightarrow> machine" where
  "put_machine_v2 m obj =
     (case obj of None \<Rightarrow> m
      | Some x \<Rightarrow> if v2_Conditions x = v2_Conditions (machine_v2 m) then m
                  else m\<lparr>m_Status := (m_Status m)\<lparr>st_V1Beta2 := Some \<lparr>m2_Conditions = v2_Conditions x\<rparr>\<rparr>\<rparr>)"

definition machineset_v2 :: "machineset \<Rightarrow> v2_object" where
  "machineset_v2 ms = \<lparr>v2_Kind = ''MachineSet'', v2_Name = ms_Name ms, v2_Generation = Some (om_Generation (ms_Meta ms)),
     v2_Conditions = (case mst_V1Beta2 (ms_Status ms) of None \<Rightarrow> [] | Some x \<Rightarrow> ms2_Conditions x)\<rparr>"

definition zero_v1beta2 :: machineset_v1beta2 where
  "zero_v1beta2 = \<lparr>ms2_Conditions = [], ms2_ReadyReplicas = None, ms2_AvailableReplicas = None, ms2_UpToDateReplicas = None\<rparr>"

definition put_machineset_v2 :: "machineset \<Rightarrow> v2_object option \<Rightarrow> machineset" where
  "put_machineset_v2 ms obj =
     (case obj of None \<Rightarrow> ms
      | Some x \<Rightarrow> if v2_Conditions x = v2_Conditions (machineset_v2 ms) then ms
                  else ms\<lparr>ms_Status := (ms_Status ms)\<lparr>mst_V1Beta2 :=
                    Some ((ptr_deref (mst_V1Beta2 (ms_Status ms)) zero_v1beta2)\<lparr>ms2_Conditions := v2_Conditions x\<rparr>)\<rparr>\<rparr>)"

record status_lib =
  sl_meta :: meta_lib
  sl_strings :: "string list \<Rightarrow> string list"
  sl_machines :: "machine list \<Rightarrow> machine list"
  sl_now :: int

definition ms_v2_Set :: "status_lib \<Rightarrow> machineset \<Rightarrow> string \<Rightarrow> string \<Rightarrow> string \<Rightarrow> string \<Rightarrow> machineset" where
  "ms_v2_Set lib ms t status reason message =
     put_machineset_v2 ms (v2_Set (sl_meta lib) (sl_now lib) (Some defaultSortLessFunc) (Some (machineset_v2 ms))
       (new_meta_condition t status reason message))"

abbreviation check_logs :: string where "check_logs \<equiv> ''Please check controller logs for errors''"

abbreviation machine_is_true :: "status_lib \<Rightarrow> machine \<Rightarrow> string \<Rightarrow> bool" where
  "machine_is_true lib m t \<equiv> v2_IsTrue (sl_meta lib) (Some (machine_v2 m)) t"

section \<open>machineset_controller_status.go\<close>

definition count_true :: "status_lib \<Rightarrow> string \<Rightarrow> machine list \<Rightarrow> int" where
  "count_true lib t machines = foldl (\<lambda>acc m. if machine_is_true lib m t then i32 (acc + 1) else acc) 0 machines"

definition ms_setReplicas :: "status_lib \<Rightarrow> machineset \<Rightarrow> machine list \<Rightarrow> bool \<Rightarrow> machineset" where
  "ms_setReplicas lib ms machines succeeded =
     (if \<not> succeeded then ms
      else ms\<lparr>ms_Status := (ms_Status ms)\<lparr>mst_V1Beta2 :=
        Some ((ptr_deref (mst_V1Beta2 (ms_Status ms)) zero_v1beta2)\<lparr>
          ms2_ReadyReplicas := Some (count_true lib ''Ready'' machines),
          ms2_AvailableReplicas := Some (count_true lib ''Available'' machines),
          ms2_UpToDateReplicas := Some (count_true lib ''UpToDate'' machines)\<rparr>)\<rparr>\<rparr>)"

definition calculateMissingReferencesMessage :: "machineset \<Rightarrow> bool \<Rightarrow> bool \<Rightarrow> ('e, string) go" where
  "calculateMissingReferencesMessage ms bootstrapTemplateNotFound infraMachineTemplateNotFound =
     (let t = tp_Spec (mss_Template (ms_Spec ms))
      in go_bind (if bootstrapTemplateNotFound
                  then go_bind (deref (bs_ConfigRef (sp_Bootstrap t))) (\<lambda>r. Ret [ref_Kind r]) else Ret []) (\<lambda>bootstrap.
         let missingObjects = bootstrap @ (if infraMachineTemplateNotFound then [ref_Kind (sp_InfrastructureRef t)] else [])
         in Ret (if length missingObjects = 0 then []
                 else if length missingObjects = 1 then hd missingObjects @ '' does not exist''
                 else go_join '' and '' missingObjects @ '' do not exist'')))"

definition desired_replicas :: "machineset \<Rightarrow> int \<Rightarrow> int" where
  "desired_replicas ms replicas = (if \<not> time_IsZero (om_DeletionTimestamp (ms_Meta ms)) then 0 else replicas)"

definition setScalingUpCondition ::
  "status_lib \<Rightarrow> machineset \<Rightarrow> machine list \<Rightarrow> bool \<Rightarrow> bool \<Rightarrow> bool \<Rightarrow> string \<Rightarrow> ('e, machineset) go" where
  "setScalingUpCondition lib ms machines bootstrapNotFound infrastructureNotFound succeeded preflightMessage =
     (if \<not> succeeded then Ret (ms_v2_Set lib ms ''ScalingUp'' ConditionUnknown ''InternalError'' check_logs)
      else case ms_Replicas ms of None \<Rightarrow> Ret (ms_v2_Set lib ms ''ScalingUp'' ConditionUnknown ''WaitingForReplicasSet'' [])
      | Some replicas \<Rightarrow>
          let desiredReplicas = desired_replicas ms replicas;
              currentReplicas = i32 (int (length machines))
          in go_bind (calculateMissingReferencesMessage ms bootstrapNotFound infrastructureNotFound) (\<lambda>missing. Ret (
            if currentReplicas \<ge> desiredReplicas
            then ms_v2_Set lib ms ''ScalingUp'' ConditionFalse ''NotScalingUp''
                   (if missing \<noteq> [] then ''Scaling up would be blocked because '' @ missing else [])
            else ms_v2_Set lib ms ''ScalingUp'' ConditionTrue ''ScalingUp''
                   (''Scaling up from '' @ FormatInt currentReplicas @ '' to '' @ FormatInt desiredReplicas @ '' replicas'' @
                    (if missing \<noteq> [] \<or> preflightMessage \<noteq> []
                     then '' is blocked because '' @ go_join '' and '' (filter (\<lambda>t. t \<noteq> []) [missing, preflightMessage]) else [])))))"

text \<open>\<^verbatim>\<open>clog.ListToString\<close> of src/util/log/log.go on a list of names.\<close>

definition ListToString :: "string list \<Rightarrow> nat \<Rightarrow> string" where
  "ListToString xs n =
     go_join '', '' (take n xs @ (if length xs > n then [''... ('' @ FormatInt (int (length xs - n)) @ '' more)''] else []))"

definition aggregateStaleMachines :: "int \<Rightarrow> machine list \<Rightarrow> string" where
  "aggregateStaleMachines now machines =
     (let machineNames = map m_Name (filter (\<lambda>m. case m_DeletionTimestamp m of None \<Rightarrow> False
            | Some t \<Rightarrow> t \<noteq> 0 \<and> time_Sub now t > 1800000000000) machines)
      in if length machines = 0 \<or> length machineNames = 0 then []
         else ''Machine'' @ (if length machineNames > 1 then ''s'' else []) @ '' '' @ ListToString (go_sort (<) machineNames) 3 @
              (if length machineNames = 1 then '' is '' else '' are '') @ ''in deletion since more than 30m'')"

definition aggregateUnhealthyMachines :: "machine list \<Rightarrow> string" where
  "aggregateUnhealthyMachines machines =
     (let machineNames = machines_Names machines
      in if length machineNames = 0 then []
         else ''Machine'' @ (if length machineNames > 1 then ''s'' else []) @ '' '' @ ListToString (go_sort (<) machineNames) 3 @
              (if length machineNames = 1 then '' is '' else '' are '') @ ''not healthy (not to be remediated by MachineSet)'')"

definition with_stale :: "string \<Rightarrow> int \<Rightarrow> machine list \<Rightarrow> string" where
  "with_stale message now machines =
     (let stale = aggregateStaleMachines now machines in if stale \<noteq> [] then message @ '' and '' @ stale else message)"

definition setScalingDownCondition :: "status_lib \<Rightarrow> machineset \<Rightarrow> machine list \<Rightarrow> bool \<Rightarrow> machineset" where
  "setScalingDownCondition lib ms machines succeeded =
     (if \<not> succeeded then ms_v2_Set lib ms ''ScalingDown'' ConditionUnknown ''InternalError'' check_logs
      else case ms_Replicas ms of None \<Rightarrow> ms_v2_Set lib ms ''ScalingDown'' ConditionUnknown ''WaitingForReplicasSet'' []
      | Some replicas \<Rightarrow>
          let desiredReplicas = desired_replicas ms replicas;
              currentReplicas = i32 (int (length machines))
          in if currentReplicas > desiredReplicas
             then ms_v2_Set lib ms ''ScalingDown'' ConditionTrue ''ScalingDown''
                    (with_stale (''Scaling down from '' @ FormatInt currentReplicas @ '' to '' @ FormatInt desiredReplicas @ '' replicas'')
                       (sl_now lib) machines)
             else ms_v2_Set lib ms ''ScalingDown'' ConditionFalse ''NotScalingDown'' [])"

definition aggregate_machines :: "status_lib \<Rightarrow> machine list \<Rightarrow> string \<Rightarrow> string \<Rightarrow> reason_func option \<Rightarrow> (v2_error, meta_condition) go" where
  "aggregate_machines lib machines source target reason =
     NewAggregateCondition (sl_meta lib) (sl_strings lib) (map machine_v2 machines) source
       \<lparr>ao_mergeStrategy = map_option (\<lambda>f. Merge (sl_meta lib) (sl_strings lib)
            (DefaultMergeStrategy [\<lambda>d. d\<lparr>dm_computeReasonFunc := f\<rparr>])) reason,
        ao_target = target, ao_negativePolarity = []\<rparr>"

definition set_aggregate :: "status_lib \<Rightarrow> machineset \<Rightarrow> machine list \<Rightarrow> bool \<Rightarrow> string \<Rightarrow> string \<Rightarrow> reason_func \<Rightarrow> ('e, machineset) go" where
  "set_aggregate lib ms machines succeeded source target reason =
     (if \<not> succeeded then Ret (ms_v2_Set lib ms target ConditionUnknown ''InternalError'' check_logs)
      else if length machines = 0 then Ret (ms_v2_Set lib ms target ConditionTrue ''NoReplicas'' [])
      else case aggregate_machines lib machines source target (Some reason) of
             Ret c \<Rightarrow> Ret (ms_v2_Set lib ms (mc_Type c) (mc_Status c) (mc_Reason c) (mc_Message c))
           | Err _ \<Rightarrow> Ret (ms_v2_Set lib ms target ConditionUnknown ''InternalError'' check_logs)
           | Panic \<Rightarrow> Panic)"

definition setMachinesReadyCondition :: "status_lib \<Rightarrow> machineset \<Rightarrow> machine list \<Rightarrow> bool \<Rightarrow> ('e, machineset) go" where
  "setMachinesReadyCondition lib ms machines succeeded =
     set_aggregate lib ms machines succeeded ''Ready'' ''MachinesReady''
       (GetDefaultComputeMergeReasonFunc ''NotReady'' ''ReadyUnknown'' ''Ready'')"

definition setMachinesUpToDateCondition :: "status_lib \<Rightarrow> machineset \<Rightarrow> machine list \<Rightarrow> bool \<Rightarrow> ('e, machineset) go" where
  "setMachinesUpToDateCondition lib ms machines succeeded =
     set_aggregate lib ms machines succeeded ''UpToDate'' ''MachinesUpToDate''
       (GetDefaultComputeMergeReasonFunc ''NotUpToDate'' ''UpToDateUnknown'' ''UpToDate'')"

definition setRemediatingCondition :: "status_lib \<Rightarrow> machineset \<Rightarrow> machines \<Rightarrow> machines \<Rightarrow> bool \<Rightarrow> ('e, machineset) go" where
  "setRemediatingCondition lib ms machinesToBeRemediated unhealthyMachines succeeded =
     (if \<not> succeeded then Ret (ms_v2_Set lib ms ''Remediating'' ConditionUnknown ''InternalError'' check_logs)
      else if length machinesToBeRemediated = 0
      then Ret (ms_v2_Set lib ms ''Remediating'' ConditionFalse ''NotRemediating'' (aggregateUnhealthyMachines unhealthyMachines))
      else case aggregate_machines lib (sl_machines lib machinesToBeRemediated) ''OwnerRemediated'' ''Remediating'' None of
             Ret c \<Rightarrow> Ret (ms_v2_Set lib ms (mc_Type c) ConditionTrue ''Remediating'' (mc_Message c))
           | Err _ \<Rightarrow> Ret (ms_v2_Set lib ms ''Remediating'' ConditionUnknown ''InternalError'' check_logs)
           | Panic \<Rightarrow> Panic)"

definition setDeletingCondition :: "status_lib \<Rightarrow> machineset \<Rightarrow> machine list \<Rightarrow> bool \<Rightarrow> machineset" where
  "setDeletingCondition lib ms machines succeeded =
     (if \<not> succeeded then ms_v2_Set lib ms ''Deleting'' ConditionUnknown ''InternalError'' check_logs
      else if time_IsZero (om_DeletionTimestamp (ms_Meta ms))
      then ms_v2_Set lib ms ''Deleting'' ConditionFalse ''DeletionTimestampNotSet'' []
      else ms_v2_Set lib ms ''Deleting'' ConditionTrue ''DeletionTimestampSet''
             (if length machines > 0
              then with_stale (''Deleting '' @ FormatInt (int (length machines)) @ (if length machines = 1 then '' Machine'' else '' Machines''))
                     (sl_now lib) machines
              else []))"

definition updateStatus ::
  "status_lib \<Rightarrow> machineset \<Rightarrow> machine list \<Rightarrow> bool \<Rightarrow> bool \<Rightarrow> bool \<Rightarrow> string \<Rightarrow> ('e, machineset) go" where
  "updateStatus lib ms machines bootstrapNotFound infrastructureNotFound succeeded preflightMessage =
     go_bind (setScalingUpCondition lib (ms_setReplicas lib ms machines succeeded) machines bootstrapNotFound
                infrastructureNotFound succeeded preflightMessage) (\<lambda>ms1.
     go_bind (setMachinesReadyCondition lib (setScalingDownCondition lib ms1 machines succeeded) machines succeeded) (\<lambda>ms2.
     go_bind (setMachinesUpToDateCondition lib ms2 machines succeeded) (\<lambda>ms3.
     let all = FromMachines (map Some machines)
     in go_bind (setRemediatingCondition lib ms3 (machines_Filter [IsUnhealthyAndOwnerRemediated] all)
                   (machines_Filter [IsUnhealthy] all) succeeded) (\<lambda>ms4.
          Ret (setDeletingCondition lib ms4 machines succeeded)))))"

section \<open>Nodes\<close>

record node_condition =
  nc_Type :: string
  nc_Status :: string
  nc_LastTransitionTime :: int

record node =
  nd_Conditions :: "node_condition list"

text \<open>src/controllers/noderefutil/util.go.\<close>

definition IsNodeReady :: "node option \<Rightarrow> bool" where
  "IsNodeReady n =
     (case n of None \<Rightarrow> False
      | Some x \<Rightarrow> (case find (\<lambda>c. nc_Type c = ''Ready'') (nd_Conditions x) of None \<Rightarrow> False
                   | Some c \<Rightarrow> nc_Status c = ConditionTrue))"

definition GetReadyCondition :: "node \<Rightarrow> node_condition option" where
  "GetReadyCondition n = find (\<lambda>c. nc_Type c = ''Ready'') (nd_Conditions n)"

definition IsNodeUnreachable :: "node option \<Rightarrow> bool" where
  "IsNodeUnreachable n =
     (case n of None \<Rightarrow> False
      | Some x \<Rightarrow> (case find (\<lambda>c. nc_Type c = ''Ready'') (nd_Conditions x) of None \<Rightarrow> False
                   | Some c \<Rightarrow> nc_Status c = ConditionUnknown))"

definition IsNodeAvailable :: "node option \<Rightarrow> int \<Rightarrow> int \<Rightarrow> ('e, bool) go" where
  "IsNodeAvailable n minReadySeconds now =
     (if \<not> IsNodeReady n then Ret False
      else if minReadySeconds = 0 then Ret True
      else go_bind (deref n) (\<lambda>x. go_bind (deref (GetReadyCondition x)) (\<lambda>c.
        Ret (nc_LastTransitionTime c \<noteq> 0 \<and> nc_LastTransitionTime c + minReadySeconds * 1000000000 < now))))"

end
