(* ===== verification/Ms_Conditions.thy ===== *)
theory Ms_Conditions
  imports Ms_Status
begin

text \<open>
  The v1beta2 conditions that the MachineSet controller writes: when a MachineSet is reported as scaling
  up, scaling down or being deleted, and the counters beside them.
\<close>

definition set_conditions_v2 :: "machineset \<Rightarrow> meta_condition list" where
  "set_conditions_v2 ms = v2_Conditions (machineset_v2 ms)"

definition status_of :: "machineset \<Rightarrow> string \<Rightarrow> string option" where
  "status_of ms t = map_option mc_Status (v2_get (set_conditions_v2 ms) t)"

definition counters :: "machineset \<Rightarrow> int option \<times> int option \<times> int option" where
  "counters ms = (case mst_V1Beta2 (ms_Status ms) of None \<Rightarrow> (None, None, None)
     | Some x \<Rightarrow> (ms2_ReadyReplicas x, ms2_AvailableReplicas x, ms2_UpToDateReplicas x))"

lemma put_conditions: "set_conditions_v2 (put_machineset_v2 ms (Some x)) = v2_Conditions x"
  by (simp add: put_machineset_v2_def set_conditions_v2_def machineset_v2_def)

lemma put_frame [simp]:
  "ms_Spec (put_machineset_v2 ms x) = ms_Spec ms" "ms_Meta (put_machineset_v2 ms x) = ms_Meta ms"
  "counters (put_machineset_v2 ms x) = counters ms"
  by (simp_all add: put_machineset_v2_def counters_def zero_v1beta2_def split: option.splits)

lemma v2_Set_frame [simp]: "ms_Spec (ms_v2_Set lib ms t st r m) = ms_Spec ms" "ms_Meta (ms_v2_Set lib ms t st r m) = ms_Meta ms"
  "counters (ms_v2_Set lib ms t st r m) = counters ms"
  by (simp_all add: ms_v2_Set_def)

lemma stamped_status: "mc_Status (v2_stamp now old (v2_normal now c)) = mc_Status c"
  by (simp add: v2_stamp_def v2_normal_def Let_def split: option.splits)

text \<open>Writing a condition changes the status of its type only.\<close>

lemma set_status:
  assumes "meta_ok (sl_meta lib)" "v2_wf (set_conditions_v2 ms)"
  shows "v2_wf (set_conditions_v2 (ms_v2_Set lib ms t st r m))"
    and "status_of (ms_v2_Set lib ms t st r m) = (status_of ms)(t \<mapsto> st)"
proof -
  let ?c = "(new_meta_condition t st r m)\<lparr>mc_ObservedGeneration := om_Generation (ms_Meta ms)\<rparr>"
  let ?cs = "set_conditions_v2 ms" and ?now = "sl_now lib"
  obtain cs changed where s: "setStatusCondition (sl_meta lib) ?now ?cs ?c = (cs, changed)" by fastforce
  note put = v2_put [OF assms, of ?now ?c]
  define cs' where "cs' = (if changed then v2_sort (Some defaultSortLessFunc) cs else ?cs)"
  have "\<exists>x. v2_Set (sl_meta lib) ?now (Some defaultSortLessFunc) (Some (machineset_v2 ms)) (new_meta_condition t st r m) = Some x \<and>
      v2_Conditions x = cs'"
    using s by (simp add: v2_Set_def cs'_def set_conditions_v2_def machineset_v2_def)
  then have eq: "set_conditions_v2 (ms_v2_Set lib ms t st r m) = cs'"
    by (auto simp: ms_v2_Set_def put_conditions)
  have wf: "v2_wf cs" "v2_get cs = (v2_get ?cs)(t \<mapsto> v2_stamp ?now (v2_get ?cs t) (v2_normal ?now ?c))" "\<not> changed \<Longrightarrow> cs = ?cs"
    using put s by (simp_all add: new_meta_condition_def)
  then have get: "v2_wf cs'" "v2_get cs' = v2_get cs"
    using v2_get_sort [OF wf(1)] assms(2) by (auto simp: cs'_def)
  then show "v2_wf (set_conditions_v2 (ms_v2_Set lib ms t st r m))" using eq by simp
  show "status_of (ms_v2_Set lib ms t st r m) = (status_of ms)(t \<mapsto> st)"
    by (auto simp: fun_eq_iff status_of_def eq get(2) wf(2) stamped_status new_meta_condition_def)
qed

text \<open>One step of \<^verbatim>\<open>updateStatus\<close> writes one condition type and keeps the rest.\<close>

definition writes :: "string \<Rightarrow> machineset \<Rightarrow> machineset \<Rightarrow> bool" where
  "writes t ms ms' \<longleftrightarrow> ms_Spec ms' = ms_Spec ms \<and> ms_Meta ms' = ms_Meta ms \<and> counters ms' = counters ms \<and>
     (v2_wf (set_conditions_v2 ms) \<longrightarrow> v2_wf (set_conditions_v2 ms') \<and> status_of ms' t \<noteq> None \<and>
        (\<forall>u. u \<noteq> t \<longrightarrow> status_of ms' u = status_of ms u))"

lemma writes_set: "meta_ok (sl_meta lib) \<Longrightarrow> writes t ms (ms_v2_Set lib ms t st r m)"
  using set_status [of lib ms t st r m] by (simp add: writes_def)

lemma aggregate_type: "aggregate_machines lib machines source target reason = Ret c \<Longrightarrow> mc_Type c = target"
  by (auto simp: aggregate_machines_def NewAggregateCondition_def Let_def go_bind_Ret_iff new_meta_condition_def split: if_splits)

lemma set_aggregate_writes:
  "meta_ok (sl_meta lib) \<Longrightarrow> set_aggregate lib ms machines succeeded source target reason = Ret ms' \<Longrightarrow> writes target ms ms'"
  by (auto simp: set_aggregate_def intro: writes_set split: if_splits go.splits dest!: aggregate_type)

lemma setRemediating_writes:
  "meta_ok (sl_meta lib) \<Longrightarrow> setRemediatingCondition lib ms x y succeeded = Ret ms' \<Longrightarrow> writes ''Remediating'' ms ms'"
  by (auto simp: setRemediatingCondition_def intro: writes_set split: if_splits go.splits dest!: aggregate_type)

lemma replicas_frame [simp]:
  "set_conditions_v2 (ms_setReplicas lib ms machines b) = set_conditions_v2 ms" "ms_Spec (ms_setReplicas lib ms machines b) = ms_Spec ms"
  "ms_Meta (ms_setReplicas lib ms machines b) = ms_Meta ms"
  by (simp_all add: ms_setReplicas_def set_conditions_v2_def machineset_v2_def zero_v1beta2_def split: option.splits)

lemma count_true_bounds:
  assumes "length machines < 2 ^ 31"
  shows "0 \<le> count_true lib t machines \<and> count_true lib t machines \<le> int (length machines)"
proof -
  have "\<exists>k. foldl (\<lambda>acc m. if machine_is_true lib m t then i32 (acc + 1) else acc) a ms = k \<and> a \<le> k \<and> k \<le> a + int (length ms)"
    if "0 \<le> a" "a + int (length ms) < 2 ^ 31" for a ms
    using that
  proof (induction ms arbitrary: a)
    case (Cons m ms)
    have "i32 (a + 1) = a + 1" using Cons.prems by (intro i32_id) (simp add: in_i32_def)
    then show ?case using Cons.IH [of "a + 1"] Cons.IH [of a] Cons.prems by auto
  qed simp
  from this [of 0 machines] show ?thesis using assms by (simp add: count_true_def)
qed

lemma scaling_up_set:
  assumes "setScalingUpCondition lib ms machines b i True p = Ret ms1" "ms_Replicas ms = Some k"
  shows "\<exists>r m. ms1 = ms_v2_Set lib ms ''ScalingUp''
    (if i32 (int (length machines)) < desired_replicas ms k then ConditionTrue else ConditionFalse) r m"
proof (cases "i32 (int (length machines)) < desired_replicas ms k")
  case True
  then have "\<not> desired_replicas ms k \<le> i32 (int (length machines))" by simp
  then have "\<exists>m. ms_v2_Set lib ms ''ScalingUp'' ConditionTrue ''ScalingUp'' m = ms1"
    using assms unfolding setScalingUpCondition_def Let_def go_bind_Ret_iff by (simp only: option.case not_True_eq_False if_False if_True go_bind_Ret_iff go.inject) blast
  then show ?thesis using True by (auto simp del: append.simps)
next
  case False
  then have "desired_replicas ms k \<le> i32 (int (length machines))" by simp
  then have "\<exists>m. ms_v2_Set lib ms ''ScalingUp'' ConditionFalse ''NotScalingUp'' m = ms1"
    using assms unfolding setScalingUpCondition_def Let_def go_bind_Ret_iff by (simp only: option.case not_True_eq_False if_False if_True go_bind_Ret_iff go.inject) blast
  then show ?thesis using False by (auto simp del: append.simps)
qed

lemma scaling_down_set:
  assumes "ms_Replicas ms = Some k"
  shows "\<exists>r m. setScalingDownCondition lib ms machines True = ms_v2_Set lib ms ''ScalingDown''
    (if i32 (int (length machines)) > desired_replicas ms k then ConditionTrue else ConditionFalse) r m"
  using assms by (cases "i32 (int (length machines)) > desired_replicas ms k") (simp_all add: setScalingDownCondition_def Let_def, blast+)

lemma deleting_set:
  "\<exists>r m. setDeletingCondition lib ms machines True = ms_v2_Set lib ms ''Deleting''
    (if time_IsZero (om_DeletionTimestamp (ms_Meta ms)) then ConditionFalse else ConditionTrue) r m"
  by (cases "time_IsZero (om_DeletionTimestamp (ms_Meta ms))") (simp_all add: setDeletingCondition_def, blast+)

text \<open>
  C38: when the Machines were listed, the conditions say what the controller does: ScalingUp is True exactly
  when there are fewer Machines than wanted, ScalingDown exactly when there are more (none is wanted of a
  MachineSet that is being deleted), Deleting exactly when the deletion timestamp is set. The three
  conditions on the Machines are present, no other condition changes, and the new counters are between 0
  and the number of Machines.
\<close>

theorem status_conditions_truthful:
  assumes "meta_ok (sl_meta lib)" "v2_wf (v2_Conditions (machineset_v2 ms))" "ms_Replicas ms = Some k" "length machines < 2 ^ 31"
    and "updateStatus lib ms machines bootstrapNotFound infrastructureNotFound True message = (Ret ms' :: ('e, machineset) go)"
  defines "wanted \<equiv> (if time_IsZero (om_DeletionTimestamp (ms_Meta ms)) then k else 0)"
  shows "status_of ms' ''ScalingUp'' = Some (if int (length machines) < wanted then ConditionTrue else ConditionFalse) \<and>
    status_of ms' ''ScalingDown'' = Some (if wanted < int (length machines) then ConditionTrue else ConditionFalse) \<and>
    status_of ms' ''Deleting'' = Some (if time_IsZero (om_DeletionTimestamp (ms_Meta ms)) then ConditionFalse else ConditionTrue) \<and>
    (\<forall>t \<in> {''MachinesReady'', ''MachinesUpToDate'', ''Remediating''}. status_of ms' t \<noteq> None) \<and>
    (\<forall>t. t \<notin> {''ScalingUp'', ''ScalingDown'', ''MachinesReady'', ''MachinesUpToDate'', ''Remediating'', ''Deleting''} \<longrightarrow>
       status_of ms' t = status_of ms t) \<and>
    counters ms' = (Some (count_true lib ''Ready'' machines), Some (count_true lib ''Available'' machines),
      Some (count_true lib ''UpToDate'' machines)) \<and>
    (\<forall>t. 0 \<le> count_true lib t machines \<and> count_true lib t machines \<le> int (length machines)) \<and>
    v2_wf (v2_Conditions (machineset_v2 ms')) \<and> ms_Spec ms' = ms_Spec ms \<and> ms_Meta ms' = ms_Meta ms"
proof -
  let ?ms = "ms_setReplicas lib ms machines True" and ?all = "FromMachines (map Some machines)" and ?n = "int (length machines)"
  obtain ms1 ms2 ms3 ms4 where
      1: "setScalingUpCondition lib ?ms machines bootstrapNotFound infrastructureNotFound True message = (Ret ms1 :: ('e, machineset) go)" and
      2: "setMachinesReadyCondition lib (setScalingDownCondition lib ms1 machines True) machines True = (Ret ms2 :: ('e, machineset) go)" and
      3: "setMachinesUpToDateCondition lib ms2 machines True = (Ret ms3 :: ('e, machineset) go)" and
      4: "setRemediatingCondition lib ms3 (machines_Filter [IsUnhealthyAndOwnerRemediated] ?all) (machines_Filter [IsUnhealthy] ?all) True = (Ret ms4 :: ('e, machineset) go)" and
      5: "ms' = setDeletingCondition lib ms4 machines True"
    using assms(5) by (auto simp: updateStatus_def go_bind_Ret_iff Let_def)
  have wf: "v2_wf (set_conditions_v2 ?ms)" using assms(2) by (simp add: set_conditions_v2_def [of ms])
  have n: "i32 ?n = ?n" using assms(4) by (intro i32_id) (simp add: in_i32_def)
  have des: "desired_replicas x k = wanted" if "ms_Meta x = ms_Meta ms" for x using that by (simp add: desired_replicas_def wanted_def)
  obtain st1 r1 m1 where e1: "ms1 = ms_v2_Set lib ?ms ''ScalingUp'' st1 r1 m1" "st1 = (if ?n < wanted then ConditionTrue else ConditionFalse)"
    using scaling_up_set [OF 1, of k] assms(3) n des [of ?ms] by auto
  have s1: "ms_Spec ms1 = ms_Spec ms" "ms_Meta ms1 = ms_Meta ms" "v2_wf (set_conditions_v2 ms1)"
      "status_of ms1 = (status_of ms)(''ScalingUp'' \<mapsto> st1)"
    using set_status [OF assms(1) wf] by (simp_all add: e1(1) status_of_def fun_eq_iff)
  obtain st2 r2 m2 where e2: "setScalingDownCondition lib ms1 machines True = ms_v2_Set lib ms1 ''ScalingDown'' st2 r2 m2"
      "st2 = (if wanted < ?n then ConditionTrue else ConditionFalse)"
    using scaling_down_set [of ms1 k lib machines] assms(3) n des [OF s1(2)] s1(1) by auto
  note s2 = set_status [OF assms(1) s1(3), of "''ScalingDown''" st2 r2 m2]
  have w2: "writes ''MachinesReady'' (ms_v2_Set lib ms1 ''ScalingDown'' st2 r2 m2) ms2"
    using set_aggregate_writes [OF assms(1)] 2 e2(1) unfolding setMachinesReadyCondition_def by metis
  have w3: "writes ''MachinesUpToDate'' ms2 ms3"
    using set_aggregate_writes [OF assms(1)] 3 unfolding setMachinesUpToDateCondition_def by metis
  have w4: "writes ''Remediating'' ms3 ms4" using setRemediating_writes [OF assms(1) 4] .
  have f: "ms_Spec ms4 = ms_Spec ms" "ms_Meta ms4 = ms_Meta ms" "v2_wf (set_conditions_v2 ms4)" "counters ms4 = counters ?ms"
    using w2 w3 w4 s2(1) s1 by (simp_all add: writes_def e1(1))
  obtain st5 r5 m5 where e5: "ms' = ms_v2_Set lib ms4 ''Deleting'' st5 r5 m5"
      "st5 = (if time_IsZero (om_DeletionTimestamp (ms_Meta ms)) then ConditionFalse else ConditionTrue)"
    using 5 f(2) deleting_set [of lib ms4 machines] by auto
  note s5 = set_status [OF assms(1) f(3), of "''Deleting''" st5 r5 m5]
  have other: "status_of ms4 t = (if t = ''ScalingDown'' then Some st2 else if t = ''ScalingUp'' then Some st1 else status_of ms t)"
    if "t \<notin> {''MachinesReady'', ''MachinesUpToDate'', ''Remediating''}" for t
    using that w2 w3 w4 s1(4) s2 by (auto simp: writes_def)
  have present: "status_of ms4 t \<noteq> None" if "t \<in> {''MachinesReady'', ''MachinesUpToDate'', ''Remediating''}" for t
    using that w2 w3 w4 s2(1) by (auto simp: writes_def)
  have c: "counters ?ms = (Some (count_true lib ''Ready'' machines), Some (count_true lib ''Available'' machines),
      Some (count_true lib ''UpToDate'' machines))"
    by (simp add: ms_setReplicas_def counters_def)
  show ?thesis using s5 f c other present count_true_bounds [OF assms(4)] by (auto simp: e5 e1(2) e2(2) set_conditions_v2_def)
qed

definition sample_status_lib :: status_lib where
  "sample_status_lib = \<lparr>sl_meta = sample_meta_lib, sl_strings = (\<lambda>xs. xs), sl_machines = (\<lambda>ms. ms), sl_now = 5000000000\<rparr>"

theorem status_conditions_truthful_witness:
  "\<exists>ms'. updateStatus sample_status_lib (sample_set OldestMachineSetDeletePolicy 2) [] False False True [] = (Ret ms' :: (v2_error, machineset) go) \<and>
     status_of ms' ''ScalingUp'' = Some ConditionTrue \<and> status_of ms' ''ScalingDown'' = Some ConditionFalse \<and>
     status_of ms' ''Deleting'' = Some ConditionFalse"
proof -
  let ?ms = "sample_set OldestMachineSetDeletePolicy 2"
  have h: "meta_ok (sl_meta sample_status_lib)" "v2_wf (v2_Conditions (machineset_v2 ?ms))" "ms_Replicas ?ms = Some 2"
      "time_IsZero (om_DeletionTimestamp (ms_Meta ?ms))"
    by (simp_all add: sample_status_lib_def sample_meta_lib_ok sample_set_def machineset_v2_def v2_wf_def time_IsZero_def)
  have "machines_Filter fs (FromMachines []) = []" for fs
    by (simp add: machines_Filter_def newFilteredMachineCollection_def FromMachines_def machines_Insert_def)
  moreover have "\<exists>ms1. setScalingUpCondition sample_status_lib x [] False False True [] = (Ret ms1 :: (v2_error, machineset) go)" for x
    by (simp add: setScalingUpCondition_def calculateMissingReferencesMessage_def Let_def split: option.split)
  ultimately obtain ms' where u: "updateStatus sample_status_lib ?ms [] False False True [] = (Ret ms' :: (v2_error, machineset) go)"
    by (simp add: updateStatus_def go_bind_Ret_iff setMachinesReadyCondition_def setMachinesUpToDateCondition_def set_aggregate_def
        setRemediatingCondition_def) blast
  from status_conditions_truthful [OF h(1-3) _ u] u h(4) show ?thesis by auto
qed

end
