(* ===== verification/Ms_Controller.thy ===== *)
theory Ms_Controller
  imports Ms_Status Md_Util
begin

text \<open>
  The MachineSet controller, machineset_controller.go of internal/controllers/machineset. One
  reconciliation works on a scope: the MachineSet, its Machines and what it has found out so far. The
  Machines are pointers that several lists share; a pointer is the name of the Machine, which is unique
  in a namespace, and writing through it (\<open>update_machine\<close>) changes the Machine in the scope.

  The scope also records the requests to the API server and the events in their order (\<open>sc_requests\<close>).
  The API server, the clock and the libraries are the fields of the record \<open>ms_env\<close>; the answer to a
  request may depend on the number of requests made before it. Cloning an external object from its
  template, reading it and adjusting its managed fields are requests, since these objects are
  unstructured. Where the code only adds the name of an object to the text of an error, the model keeps
  the error.
\<close>

section \<open>State\<close>

abbreviation MachineFinalizer :: string where "MachineFinalizer \<equiv> ''machine.cluster.x-k8s.io''"
abbreviation MachineSetFinalizer :: string where "MachineSetFinalizer \<equiv> ''cluster.x-k8s.io/machineset''"
abbreviation clusterv1_version :: string where "clusterv1_version \<equiv> ''cluster.x-k8s.io/v1beta1''"
abbreviation MachinesCreatedCondition :: string where "MachinesCreatedCondition \<equiv> ''MachinesCreated''"
abbreviation MachinesReadyCondition :: string where "MachinesReadyCondition \<equiv> ''MachinesReady''"
abbreviation ResizedCondition :: string where "ResizedCondition \<equiv> ''Resized''"
abbreviation MachineOwnerRemediatedV1Beta2Condition :: string where
  "MachineOwnerRemediatedV1Beta2Condition \<equiv> ''OwnerRemediated''"
abbreviation MachineHealthCheckSucceededV1Beta2Condition :: string where
  "MachineHealthCheckSucceededV1Beta2Condition \<equiv> ''HealthCheckSucceeded''"
abbreviation MachineUpToDateV1Beta2Condition :: string where "MachineUpToDateV1Beta2Condition \<equiv> ''UpToDate''"

datatype api_outcome = Done | Gone | Failed string

datatype ms_error =
    ApiError string
  | ReplicasNil string
  | UnsupportedPolicy string
  | PreflightError preflight_error
  | MaxInFlightError string
  | NoOwnerDeployment string
  | PollTimeout
  | Wrapped string ms_error
  | Aggregated "ms_error list"

record clone_input =
  ci_TemplateRef :: object_reference
  ci_Namespace :: string
  ci_Name :: string
  ci_ClusterName :: string
  ci_Labels :: string_map
  ci_Annotations :: string_map
  ci_OwnerRef :: owner_reference

datatype ms_request =
    ListMachines string
  | AdoptMachine string
  | PatchMachine string
  | CleanUpFields string
  | ApplyMachine "machine option" machine
  | DeleteMachine string
  | GetMachine string
  | GetControlPlane
  | UpdateReference object_reference
  | GetObject object_reference
  | PatchObject object_reference
  | DropFields object_reference
  | ApplyObject object_reference
  | CloneObject clone_input
  | DeleteObject object_reference
  | GetNode string
  | GetDeployment string
  | PatchMachineSet machineset
  | Event string string

record ms_env =
  en_List :: "nat \<Rightarrow> string \<Rightarrow> string_map \<Rightarrow> string + machine list"
  en_Adopt :: "nat \<Rightarrow> machine \<Rightarrow> machine \<Rightarrow> string + machine"
  en_NewHelper :: "nat \<Rightarrow> machine \<Rightarrow> string option"
  en_Patch :: "nat \<Rightarrow> machine \<Rightarrow> machine \<Rightarrow> string option"
  en_CleanUpFields :: "nat \<Rightarrow> machine \<Rightarrow> string option"
  en_Apply :: "nat \<Rightarrow> machine option \<Rightarrow> machine \<Rightarrow> string + machine"
  en_Delete :: "nat \<Rightarrow> machine \<Rightarrow> api_outcome"
  en_GetMachine :: "nat \<Rightarrow> string \<Rightarrow> string \<Rightarrow> api_outcome + machine"
  en_GetControlPlane :: "nat \<Rightarrow> object_reference \<Rightarrow> string \<Rightarrow> string + controlplane_object"
  en_UpdateReference :: "nat \<Rightarrow> object_reference \<Rightarrow> string + object_reference"
  en_GetObject :: "nat \<Rightarrow> object_reference \<Rightarrow> string \<Rightarrow> api_outcome + owner_reference list"
  en_PatchObject :: "nat \<Rightarrow> object_reference \<Rightarrow> owner_reference list \<Rightarrow> string option"
  en_DropFields :: "nat \<Rightarrow> object_reference \<Rightarrow> string option"
  en_ApplyObject :: "nat \<Rightarrow> object_reference \<Rightarrow> string_map \<Rightarrow> string_map \<Rightarrow> string option"
  en_Clone :: "nat \<Rightarrow> clone_input \<Rightarrow> string + object_reference"
  en_GetNode :: "nat \<Rightarrow> string \<Rightarrow> string + node"
  en_PatchSet :: "nat \<Rightarrow> machineset \<Rightarrow> string option"
  en_GetDeployment :: "nat \<Rightarrow> string \<Rightarrow> string + machinedeployment"
  en_GenerateName :: "nat \<Rightarrow> string \<Rightarrow> string"
  en_Now :: "nat \<Rightarrow> int"
  en_Polls :: nat
  en_SelectorAsMap :: "label_selector \<Rightarrow> string + string_map"
  en_SelectorString :: "label_selector \<Rightarrow> string + string"
  en_Matches :: "string_map \<Rightarrow> string_map \<Rightarrow> bool"
  en_ValidLabel :: "string \<Rightarrow> bool"
  en_ErrorText :: "ms_error \<Rightarrow> string"
  en_NotConnected :: "string \<Rightarrow> bool"
  en_PreflightEnabled :: bool
  en_DeprecatedNaming :: bool
  en_Order :: "machine list \<Rightarrow> machine list"
  en_Strings :: "string list \<Rightarrow> string list"
  en_Group :: "string \<Rightarrow> string option"
  en_float :: float_lib
  en_semver :: semver_lib
  en_meta :: meta_lib
  en_ext :: md_ext

record ms_scope =
  sc_machineSet :: machineset
  sc_cluster :: cluster_view
  sc_machines :: "machine list"
  sc_bootstrapObjectNotFound :: bool
  sc_infrastructureObjectNotFound :: bool
  sc_adopted :: bool
  sc_owner :: "machinedeployment option"
  sc_preflightMessage :: string
  sc_time :: int
  sc_requests :: "ms_request list"

type_synonym 'a msm = "(ms_scope, ms_error, 'a) gom"

abbreviation nreq :: "ms_scope \<Rightarrow> nat" where "nreq s \<equiv> length (sc_requests s)"

definition request :: "ms_request \<Rightarrow> ms_scope \<Rightarrow> ms_scope" where
  "request r s = s\<lparr>sc_requests := sc_requests s @ [r]\<rparr>"

definition update_machine :: "machine \<Rightarrow> ms_scope \<Rightarrow> ms_scope" where
  "update_machine m s = s\<lparr>sc_machines := map (\<lambda>x. if m_Name x = m_Name m then m else x) (sc_machines s)\<rparr>"

definition put_machineSet :: "machineset \<Rightarrow> ms_scope \<Rightarrow> ms_scope" where
  "put_machineSet ms s = s\<lparr>sc_machineSet := ms\<rparr>"

text \<open>The conditions of the MachineSet and of a Machine as the condition packages read and write them.\<close>

definition set_conditions :: "(condition list option \<Rightarrow> condition list option) \<Rightarrow> machineset \<Rightarrow> machineset" where
  "set_conditions f ms =
     (case f (Some (mst_Conditions (ms_Status ms))) of None \<Rightarrow> ms
      | Some cs \<Rightarrow> ms\<lparr>ms_Status := (ms_Status ms)\<lparr>mst_Conditions := cs\<rparr>\<rparr>)"

definition machine_conditions :: "(condition list option \<Rightarrow> condition list option) \<Rightarrow> machine \<Rightarrow> machine" where
  "machine_conditions f m =
     (case f (Some (st_Conditions (m_Status m))) of None \<Rightarrow> m
      | Some cs \<Rightarrow> m\<lparr>m_Status := (m_Status m)\<lparr>st_Conditions := cs\<rparr>\<rparr>)"

definition machine_v2_Set :: "ms_env \<Rightarrow> int \<Rightarrow> machine \<Rightarrow> meta_condition \<Rightarrow> machine" where
  "machine_v2_Set env now m c =
     put_machine_v2 m (v2_Set (en_meta env) now (Some defaultSortLessFunc) (Some (machine_v2 m)) c)"

definition machine_v2_Delete :: "machine \<Rightarrow> string \<Rightarrow> machine" where
  "machine_v2_Delete m t = put_machine_v2 m (v2_Delete (Some (machine_v2 m)) t)"

text \<open>A request whose answer is only an error or not.\<close>

definition ask :: "(nat \<Rightarrow> string option) \<Rightarrow> ms_request \<Rightarrow> unit msm" where
  "ask f r s = (case f (nreq s) of None \<Rightarrow> (Ret (), request r s) | Some e \<Rightarrow> (Err (ApiError e), request r s))"

text \<open>A call whose error is kept in a list while the loop goes on.\<close>

definition attempt :: "'a msm \<Rightarrow> (ms_error + 'a) msm" where
  "attempt m s = (case m s of (Ret x, s') \<Rightarrow> (Ret (Inr x), s') | (Err e, s') \<Rightarrow> (Ret (Inl e), s') | (Panic, s') \<Rightarrow> (Panic, s'))"

fun collect_errors :: "('a \<Rightarrow> unit msm) \<Rightarrow> 'a list \<Rightarrow> ms_error list msm" where
  "collect_errors f [] = mret []"
| "collect_errors f (x # xs) =
     mbind (attempt (f x)) (\<lambda>r. mbind (collect_errors f xs) (\<lambda>es. mret (case r of Inl e \<Rightarrow> e # es | Inr _ \<Rightarrow> es)))"

definition fail_if :: "string \<Rightarrow> ms_error list \<Rightarrow> unit msm" where
  "fail_if msg es = (if length es > 0 then mlift (Err (Wrapped msg (Aggregated es))) else mret ())"

section \<open>The desired Machine\<close>

definition machineLabelsFromMachineSet :: "(string \<Rightarrow> bool) \<Rightarrow> machineset \<Rightarrow> string_map" where
  "machineLabelsFromMachineSet valid ms =
     (let l0 = Some (map_make (tp_Labels (mss_Template (ms_Spec ms))));
          l1 = map_put l0 MachineSetNameLabel (MustFormatValue valid (ms_Name ms))
      in case map_lookup (om_Labels (ms_Meta ms)) MachineDeploymentNameLabel of
           Some mdName \<Rightarrow> map_put l1 MachineDeploymentNameLabel mdName
         | None \<Rightarrow> l1)"

definition machineAnnotationsFromMachineSet :: "machineset \<Rightarrow> string_map" where
  "machineAnnotationsFromMachineSet ms = Some (map_make (tp_Annotations (mss_Template (ms_Spec ms))))"

text \<open>\<^verbatim>\<open>metav1.NewControllerRef\<close> for a MachineSet; the external objects get the same reference without controller.\<close>

definition machineSetController :: "machineset \<Rightarrow> owner_reference" where
  "machineSetController ms = \<lparr>or_APIVersion = clusterv1_version, or_Kind = ''MachineSet'', or_Name = ms_Name ms,
     or_UID = om_UID (ms_Meta ms), or_Controller = Some True\<rparr>"

definition machineSetOwner :: "machineset \<Rightarrow> owner_reference" where
  "machineSetOwner ms = (machineSetController ms)\<lparr>or_Controller := None\<rparr>"

definition zero_machine_status :: machine_status where
  "zero_machine_status = \<lparr>st_NodeRef = None, st_NodeInfo = None, st_LastUpdated = None, st_FailureReason = None,
     st_FailureMessage = None, st_Addresses = [], st_Phase = [], st_CertificatesExpiryDate = None, st_BootstrapReady = False,
     st_InfrastructureReady = False, st_ObservedGeneration = 0, st_Conditions = [], st_Deletion = None, st_V1Beta2 = None\<rparr>"

definition computeDesiredMachine :: "(string \<Rightarrow> bool) \<Rightarrow> string \<Rightarrow> machineset \<Rightarrow> machine option \<Rightarrow> machine" where
  "computeDesiredMachine valid generated ms existing =
     (let template = tp_Spec (mss_Template (ms_Spec ms));
          spec = template\<lparr>sp_ClusterName := mss_ClusterName (ms_Spec ms), sp_InfrastructureRef := empty_reference,
            sp_Bootstrap := (sp_Bootstrap template)\<lparr>bs_ConfigRef := None\<rparr>\<rparr>;
          (name, uid, finalizers, spec') =
            (case existing of None \<Rightarrow> (generated, [], [MachineFinalizer], spec)
             | Some m \<Rightarrow>
                 (m_Name m, om_UID (m_Meta m),
                  if MachineFinalizer \<in> set (om_Finalizers (m_Meta m)) then om_Finalizers (m_Meta m)
                  else om_Finalizers (m_Meta m) @ [MachineFinalizer],
                  spec\<lparr>sp_Bootstrap := (sp_Bootstrap spec)\<lparr>bs_ConfigRef := bs_ConfigRef (sp_Bootstrap (m_Spec m))\<rparr>,
                    sp_InfrastructureRef := sp_InfrastructureRef (m_Spec m)\<rparr>))
      in \<lparr>m_Meta = \<lparr>om_Name = name, om_Namespace = om_Namespace (ms_Meta ms), om_UID = uid,
            om_Labels = machineLabelsFromMachineSet valid ms, om_Annotations = machineAnnotationsFromMachineSet ms,
            om_CreationTimestamp = 0, om_DeletionTimestamp = None, om_Generation = 0, om_Finalizers = finalizers,
            om_OwnerReferences = [machineSetController ms]\<rparr>,
          m_Spec = spec'\<lparr>sp_ReadinessGates := sp_ReadinessGates template, sp_NodeDrainTimeout := sp_NodeDrainTimeout template,
            sp_NodeDeletionTimeout := sp_NodeDeletionTimeout template,
            sp_NodeVolumeDetachTimeout := sp_NodeVolumeDetachTimeout template\<rparr>,
          m_Status = zero_machine_status\<rparr>)"

section \<open>Owner, labels and external references\<close>

definition isDeploymentChild :: "machineset \<Rightarrow> bool" where
  "isDeploymentChild ms \<longleftrightarrow> map_lookup (om_Labels (ms_Meta ms)) MachineDeploymentNameLabel \<noteq> None"

definition isCurrentMachineSet :: "machineset \<Rightarrow> machinedeployment option \<Rightarrow> bool" where
  "isCurrentMachineSet ms md =
     (case md of None \<Rightarrow> False
      | Some d \<Rightarrow> map_str (om_Annotations (md_Meta d)) RevisionAnnotation = map_str (ms_Annotations ms) RevisionAnnotation)"

definition shouldAdopt :: "ms_env \<Rightarrow> machineset \<Rightarrow> bool" where
  "shouldAdopt env ms =
     (if HasOwner (en_Group env) (om_OwnerReferences (ms_Meta ms)) clusterv1_version [''MachineDeployment'', ''Cluster''] then False
      else \<not> isDeploymentChild ms)"

definition clusterOwner :: "cluster_view \<Rightarrow> owner_reference" where
  "clusterOwner cluster = \<lparr>or_APIVersion = clusterv1_version, or_Kind = ''Cluster'', or_Name = clv_Name cluster,
     or_UID = clv_UID cluster, or_Controller = None\<rparr>"

definition reconcileMachineSetOwnerAndLabels :: "ms_env \<Rightarrow> ctrl_result msm" where
  "reconcileMachineSetOwnerAndLabels env s =
     (let ms = sc_machineSet s;
          name = mss_ClusterName (ms_Spec ms);
          meta = (ms_Meta ms)\<lparr>om_Labels := map_put (om_Labels (ms_Meta ms)) ClusterNameLabel name\<rparr>;
          meta' = (if shouldAdopt env (ms\<lparr>ms_Meta := meta\<rparr>)
                   then meta\<lparr>om_OwnerReferences := EnsureOwnerRef (en_Group env) (om_OwnerReferences meta) (clusterOwner (sc_cluster s))\<rparr>
                   else meta);
          selector = mss_Selector (ms_Spec ms);
          template = mss_Template (ms_Spec ms);
          spec = (ms_Spec ms)\<lparr>
            mss_Selector := selector\<lparr>sel_MatchLabels := map_put (sel_MatchLabels selector) ClusterNameLabel name\<rparr>,
            mss_Template := template\<lparr>tp_Labels := map_put (tp_Labels template) ClusterNameLabel name\<rparr>\<rparr>
      in (Ret result_zero, put_machineSet (ms\<lparr>ms_Meta := meta', ms_Spec := spec\<rparr>) s))"

text \<open>
  The reference is updated in place and returned; the second component of the result is
  \<^verbatim>\<open>objectNotFound\<close>, which is returned together with an error.
\<close>

definition reconcileExternalTemplateReference ::
  "ms_env \<Rightarrow> object_reference \<Rightarrow> (object_reference \<times> bool \<times> ms_error option) msm" where
  "reconcileExternalTemplateReference env ref s =
     (let ms = sc_machineSet s; cluster = sc_cluster s
      in if \<not> HasSuffix (ref_Kind ref) TemplateSuffix then (Ret (ref, False, None), s)
      else case en_UpdateReference env (nreq s) ref of Inl e \<Rightarrow> (Ret (ref, False, Some (ApiError e)), request (UpdateReference ref) s)
      | Inr ref' \<Rightarrow>
        let s1 = request (UpdateReference ref) s; s2 = request (GetObject ref') s1
        in case en_GetObject env (nreq s1) ref' (clv_Namespace cluster) of
             Inl (Failed e) \<Rightarrow> (Ret (ref', False, Some (ApiError e)), s2)
           | Inl _ \<Rightarrow>
               if \<not> time_IsZero (om_DeletionTimestamp (ms_Meta ms)) then (Ret (ref', True, None), s2)
               else if sc_owner s = None then (Ret (ref', True, Some (ApiError ''not found'')), s2)
               else if \<not> isCurrentMachineSet ms (sc_owner s) then (Ret (ref', True, None), s2)
               else (Ret (ref', True, Some (ApiError ''not found'')), s2)
           | Inr owners \<Rightarrow>
               (case en_PatchObject env (nreq s2) ref' (EnsureOwnerRef (en_Group env) owners (clusterOwner cluster)) of
                  None \<Rightarrow> (Ret (ref', False, None), request (PatchObject ref') s2)
                | Some e \<Rightarrow> (Ret (ref', False, Some (ApiError e)), request (PatchObject ref') s2)))"

definition set_template_spec :: "(machine_spec \<Rightarrow> machine_spec) \<Rightarrow> machineset \<Rightarrow> machineset" where
  "set_template_spec f ms =
     ms\<lparr>ms_Spec := (ms_Spec ms)\<lparr>mss_Template := (mss_Template (ms_Spec ms))\<lparr>tp_Spec := f (tp_Spec (mss_Template (ms_Spec ms)))\<rparr>\<rparr>\<rparr>"

definition reconcileInfrastructure :: "ms_env \<Rightarrow> ctrl_result msm" where
  "reconcileInfrastructure env s =
     mbind (reconcileExternalTemplateReference env (sp_InfrastructureRef (tp_Spec (mss_Template (ms_Spec (sc_machineSet s))))))
       (\<lambda>(ref, notFound, err) s.
         ((case err of Some e \<Rightarrow> Err e | None \<Rightarrow> Ret result_zero),
          put_machineSet (set_template_spec (\<lambda>t. t\<lparr>sp_InfrastructureRef := ref\<rparr>) (sc_machineSet s))
            (s\<lparr>sc_infrastructureObjectNotFound := notFound\<rparr>))) s"

definition reconcileBootstrapConfig :: "ms_env \<Rightarrow> ctrl_result msm" where
  "reconcileBootstrapConfig env s =
     (case bs_ConfigRef (sp_Bootstrap (tp_Spec (mss_Template (ms_Spec (sc_machineSet s))))) of None \<Rightarrow> (Ret result_zero, s)
      | Some configRef \<Rightarrow>
          mbind (reconcileExternalTemplateReference env configRef) (\<lambda>(ref, notFound, err) s.
            ((case err of Some e \<Rightarrow> Err e | None \<Rightarrow> Ret result_zero),
             put_machineSet (set_template_spec (\<lambda>t. t\<lparr>sp_Bootstrap := (sp_Bootstrap t)\<lparr>bs_ConfigRef := Some ref\<rparr>\<rparr>) (sc_machineSet s))
               (s\<lparr>sc_bootstrapObjectNotFound := notFound\<rparr>))) s)"

section \<open>Adopting Machines\<close>

text \<open>\<^verbatim>\<open>metav1.IsControlledBy\<close> compares the UID of the controller reference.\<close>

definition shouldExcludeMachine :: "machineset \<Rightarrow> machine \<Rightarrow> bool" where
  "shouldExcludeMachine ms m =
     (case GetControllerOf (m_Meta m) of None \<Rightarrow> False | Some ref \<Rightarrow> or_UID ref \<noteq> om_UID (ms_Meta ms))"

definition adopted_machine :: "ms_env \<Rightarrow> machineset \<Rightarrow> machine \<Rightarrow> machine" where
  "adopted_machine env ms m = m\<lparr>m_Meta := (m_Meta m)\<lparr>om_OwnerReferences :=
     EnsureOwnerRef (en_Group env) (om_OwnerReferences (m_Meta m)) (machineSetController ms)\<rparr>\<rparr>"

definition adoptOrphan :: "ms_env \<Rightarrow> machine \<Rightarrow> machine msm" where
  "adoptOrphan env m s =
     (let m' = adopted_machine env (sc_machineSet s) m; s' = request (AdoptMachine (m_Name m)) s
      in case en_Adopt env (nreq s) m m' of Inl e \<Rightarrow> (Err (ApiError e), s') | Inr r \<Rightarrow> (Ret r, s'))"

fun adopt_machines :: "ms_env \<Rightarrow> machine list \<Rightarrow> machine list msm" where
  "adopt_machines env [] = mret []"
| "adopt_machines env (m # ms) =
     (\<lambda>s. if shouldExcludeMachine (sc_machineSet s) m then adopt_machines env ms s
          else if GetControllerOf (m_Meta m) = None then
            mbind (attempt (adoptOrphan env m)) (\<lambda>r.
              case r of Inl _ \<Rightarrow> (\<lambda>s. adopt_machines env ms (request (Event ''FailedAdopt'' (m_Name m)) s))
              | Inr m' \<Rightarrow> (\<lambda>s. mbind (adopt_machines env ms) (\<lambda>rest. mret (m' # rest))
                            (request (Event ''SuccessfulAdopt'' (m_Name m)) s))) s
          else mbind (adopt_machines env ms) (\<lambda>rest. mret (m # rest)) s)"

definition getAndAdoptMachinesForMachineSet :: "ms_env \<Rightarrow> ctrl_result msm" where
  "getAndAdoptMachinesForMachineSet env s =
     (let ms = sc_machineSet s; ns = om_Namespace (ms_Meta ms)
      in case en_SelectorAsMap env (mss_Selector (ms_Spec ms)) of
           Inl e \<Rightarrow> (Err (Wrapped ''failed to convert label selector to a map'' (ApiError e)), s)
         | Inr selectorMap \<Rightarrow>
           (case en_List env (nreq s) ns selectorMap of
              Inl e \<Rightarrow> (Err (Wrapped ''failed to list machines'' (ApiError e)), request (ListMachines ns) s)
            | Inr allMachines \<Rightarrow>
                mbind (adopt_machines env allMachines) (\<lambda>filteredMachines s.
                  (Ret result_zero, s\<lparr>sc_machines := filteredMachines, sc_adopted := True\<rparr>)) (request (ListMachines ns) s)))"

section \<open>Deleting a MachineSet\<close>

definition delete_machine :: "ms_env \<Rightarrow> bool \<Rightarrow> machine \<Rightarrow> unit msm" where
  "delete_machine env ignoreNotFound m s =
     (let s' = request (DeleteMachine (m_Name m)) s
      in case en_Delete env (nreq s) m of Done \<Rightarrow> (Ret (), s')
         | Gone \<Rightarrow> (if ignoreNotFound then Ret () else Err (ApiError ''not found''), s')
         | Failed e \<Rightarrow> (Err (ApiError e), s'))"

fun delete_owned :: "ms_env \<Rightarrow> machine list \<Rightarrow> unit msm" where
  "delete_owned env [] = mret ()"
| "delete_owned env (m # ms) =
     mbind (if time_IsZero (m_DeletionTimestamp m) then delete_machine env True m else mret ()) (\<lambda>_. delete_owned env ms)"

definition reconcileDelete :: "ms_env \<Rightarrow> ctrl_result msm" where
  "reconcileDelete env s =
     (let ms = sc_machineSet s
      in if \<not> sc_adopted s then (Ret result_zero, s)
         else if length (sc_machines s) = 0
         then (Ret result_zero, put_machineSet (ms\<lparr>ms_Meta := (ms_Meta ms)\<lparr>om_Finalizers :=
                 filter (\<lambda>f. f \<noteq> MachineSetFinalizer) (om_Finalizers (ms_Meta ms))\<rparr>\<rparr>) s)
         else mbind (delete_owned env (sc_machines s)) (\<lambda>_. mret result_zero) s)"

section \<open>Preflight checks\<close>

text \<open>The checks as a request: the control plane object is read only when some check needs it.\<close>

definition preflight :: "ms_env \<Rightarrow> (ctrl_result \<times> string list) msm" where
  "preflight env s =
     (let ms = sc_machineSet s; cluster = sc_cluster s;
          run = (\<lambda>cp. case runPreflightChecks (en_PreflightEnabled env) (en_semver env) (en_Group env) cp cluster ms of
                   Ret r \<Rightarrow> Ret r | Err e \<Rightarrow> Err (PreflightError e) | Panic \<Rightarrow> Panic)
      in if en_PreflightEnabled env \<and> MachineSetPreflightCheckAll \<notin> skippedPreflightChecks (Some ms) then
           (case clv_ControlPlaneRef cluster of None \<Rightarrow> (run (Inl []), s)
            | Some ref \<Rightarrow> (run (en_GetControlPlane env (nreq s) ref (clv_Namespace cluster)), request GetControlPlane s))
         else (run (Inl []), s))"

section \<open>Updating Machines in place\<close>

definition newMachineUpToDateCondition :: "ms_env \<Rightarrow> ms_scope \<Rightarrow> meta_condition option" where
  "newMachineUpToDateCondition env s =
     (case sc_owner s of None \<Rightarrow> None
      | Some md \<Rightarrow>
          let ms = sc_machineSet s;
              (upToDate, _, conditionMessages) =
                MachineTemplateUpToDate (en_ext env) (mss_Template (ms_Spec ms)) (mds_Template (md_Spec md));
              expired = (case mds_RolloutAfter (md_Spec md) of None \<Rightarrow> False
                         | Some t \<Rightarrow> t < sc_time s \<and> \<not> ms_CreationTimestamp ms > t)
          in if \<not> upToDate \<or> expired
             then Some (new_meta_condition MachineUpToDateV1Beta2Condition ConditionFalse ''NotUpToDate''
                    (go_join ''; '' (conditionMessages @ (if expired then [''MachineDeployment spec.rolloutAfter expired''] else []))))
             else Some (new_meta_condition MachineUpToDateV1Beta2Condition ConditionTrue ''UpToDate'' []))"

text \<open>
  Patching a Machine through a pointer: the object in memory is changed first and is not reset when the
  patch fails.
\<close>

definition patch_machine :: "ms_env \<Rightarrow> machine \<Rightarrow> (int \<Rightarrow> machine \<Rightarrow> machine) \<Rightarrow> unit msm" where
  "patch_machine env m f s =
     (case en_NewHelper env (nreq s) m of Some e \<Rightarrow> (Err (ApiError e), s)
      | None \<Rightarrow> let m' = f (en_Now env (nreq s)) m
                in ask (\<lambda>n. en_Patch env n m m') (PatchMachine (m_Name m)) (update_machine m' s))"

definition sync_teardown_fields :: "machineset \<Rightarrow> machine \<Rightarrow> machine" where
  "sync_teardown_fields ms m =
     (let t = tp_Spec (mss_Template (ms_Spec ms))
      in m\<lparr>m_Spec := (m_Spec m)\<lparr>sp_ReadinessGates := sp_ReadinessGates t, sp_NodeDrainTimeout := sp_NodeDrainTimeout t,
           sp_NodeDeletionTimeout := sp_NodeDeletionTimeout t, sp_NodeVolumeDetachTimeout := sp_NodeVolumeDetachTimeout t\<rparr>\<rparr>)"

definition set_up_to_date :: "ms_env \<Rightarrow> meta_condition option \<Rightarrow> int \<Rightarrow> machine \<Rightarrow> machine" where
  "set_up_to_date env c now m = (case c of None \<Rightarrow> m | Some c \<Rightarrow> machine_v2_Set env now m c)"

definition updateExternalObject :: "ms_env \<Rightarrow> object_reference \<Rightarrow> unit msm" where
  "updateExternalObject env ref s =
     ask (\<lambda>n. en_ApplyObject env n ref (machineLabelsFromMachineSet (en_ValidLabel env) (sc_machineSet s))
                (machineAnnotationsFromMachineSet (sc_machineSet s))) (ApplyObject ref) s"

definition sync_external :: "ms_env \<Rightarrow> object_reference \<Rightarrow> string \<Rightarrow> unit msm" where
  "sync_external env ref ns =
     mbind (ask (\<lambda>n. case en_GetObject env n ref ns of Inr _ \<Rightarrow> None | Inl (Failed e) \<Rightarrow> Some e | Inl _ \<Rightarrow> Some ''not found'') (GetObject ref)) (\<lambda>_.
     mbind (ask (\<lambda>n. en_DropFields env n ref) (DropFields ref)) (\<lambda>_.
     updateExternalObject env ref))"

definition apply_machine :: "ms_env \<Rightarrow> machine option \<Rightarrow> machine \<Rightarrow> machine msm" where
  "apply_machine env original m s =
     (let s' = request (ApplyMachine original m) s
      in case en_Apply env (nreq s) original m of Inl e \<Rightarrow> (Err (ApiError e), s') | Inr r \<Rightarrow> (Ret r, s'))"

text \<open>The body of the loop of \<^verbatim>\<open>syncMachines\<close> for the Machine with the given name.\<close>

definition find_machine :: "string \<Rightarrow> ms_scope \<Rightarrow> machine option" where
  "find_machine n s = find (\<lambda>m. m_Name m = n) (sc_machines s)"

definition replace_machine :: "string \<Rightarrow> machine \<Rightarrow> ms_scope \<Rightarrow> ms_scope" where
  "replace_machine n m s = s\<lparr>sc_machines := map (\<lambda>x. if m_Name x = n then m else x) (sc_machines s)\<rparr>"

definition sync_live_machine :: "ms_env \<Rightarrow> machine \<Rightarrow> unit msm" where
  "sync_live_machine env m =
     mbind (ask (\<lambda>n. en_CleanUpFields env n m) (CleanUpFields (m_Name m))) (\<lambda>_ s.
     mbind (apply_machine env (Some m)
       (computeDesiredMachine (en_ValidLabel env) (en_GenerateName env (nreq s) (ms_Name (sc_machineSet s) @ ''-'')) (sc_machineSet s) (Some m)))
       (\<lambda>updated s.
         mbind (sync_external env (sp_InfrastructureRef (m_Spec updated)) (om_Namespace (m_Meta updated))) (\<lambda>_.
           case bs_ConfigRef (sp_Bootstrap (m_Spec updated)) of None \<Rightarrow> mret ()
           | Some ref \<Rightarrow> sync_external env ref (om_Namespace (m_Meta updated)))
         (replace_machine (m_Name m) updated s)) s)"

definition sync_machine :: "ms_env \<Rightarrow> machine \<Rightarrow> unit msm" where
  "sync_machine env m s =
     (let c = newMachineUpToDateCondition env s
      in if \<not> time_IsZero (m_DeletionTimestamp m)
         then patch_machine env m (\<lambda>now x. set_up_to_date env c now (sync_teardown_fields (sc_machineSet s) x)) s
         else mbind (case c of None \<Rightarrow> mret () | Some _ \<Rightarrow> patch_machine env m (set_up_to_date env c)) (\<lambda>_ s.
           case find_machine (m_Name m) s of None \<Rightarrow> (Ret (), s) | Some m' \<Rightarrow> sync_live_machine env m' s) s)"

fun sync_loop :: "ms_env \<Rightarrow> machine list \<Rightarrow> unit msm" where
  "sync_loop env [] = mret ()"
| "sync_loop env (m # ms) = mbind (sync_machine env m) (\<lambda>_. sync_loop env ms)"

definition syncMachines :: "ms_env \<Rightarrow> ctrl_result msm" where
  "syncMachines env s =
     (if \<not> sc_adopted s then (Ret result_zero, s)
      else mbind (sync_loop env (sc_machines s)) (\<lambda>_. mret result_zero) s)"

section \<open>Scaling\<close>

definition mark_not_created :: "ms_env \<Rightarrow> string \<Rightarrow> string \<Rightarrow> ms_scope \<Rightarrow> ms_scope" where
  "mark_not_created env reason message s =
     put_machineSet (set_conditions (\<lambda>cs. conditions_MarkFalse (en_Now env (nreq s)) cs MachinesCreatedCondition reason
       ConditionSeverityError (Sprintf0 message)) (sc_machineSet s)) s"

definition clone_object :: "ms_env \<Rightarrow> clone_input \<Rightarrow> object_reference msm" where
  "clone_object env input s =
     (let s' = request (CloneObject input) s
      in case en_Clone env (nreq s) input of Inl e \<Rightarrow> (Err (ApiError e), s') | Inr ref \<Rightarrow> (Ret ref, s'))"

text \<open>The error of a call, with what is done before it is returned.\<close>

definition on_error :: "'a msm \<Rightarrow> (ms_error \<Rightarrow> ms_scope \<Rightarrow> ms_scope) \<Rightarrow> string \<Rightarrow> 'a msm" where
  "on_error m h msg s = (case m s of (Err e, s') \<Rightarrow> (Err (Wrapped msg e), h e s') | r \<Rightarrow> r)"

definition clone_for :: "machineset \<Rightarrow> machine \<Rightarrow> object_reference \<Rightarrow> string \<Rightarrow> clone_input" where
  "clone_for ms m ref name = \<lparr>ci_TemplateRef = ref, ci_Namespace = om_Namespace (m_Meta m), ci_Name = name,
     ci_ClusterName = sp_ClusterName (m_Spec m), ci_Labels = om_Labels (m_Meta m), ci_Annotations = om_Annotations (m_Meta m),
     ci_OwnerRef = machineSetOwner ms\<rparr>"

definition clone_bootstrap :: "ms_env \<Rightarrow> machine \<Rightarrow> object_reference option msm" where
  "clone_bootstrap env m s =
     (let ms = sc_machineSet s
      in case bs_ConfigRef (sp_Bootstrap (tp_Spec (mss_Template (ms_Spec ms)))) of None \<Rightarrow> (Ret None, s)
         | Some ref \<Rightarrow>
             mbind (on_error (clone_object env (clone_for ms m ref (m_Name m)))
               (\<lambda>e. mark_not_created env ''BootstrapTemplateCloningFailed'' (en_ErrorText env e))
               ''failed to clone bootstrap configuration while creating a machine'') (\<lambda>r. mret (Some r)) s)"

definition clone_infrastructure :: "ms_env \<Rightarrow> machine \<Rightarrow> object_reference msm" where
  "clone_infrastructure env m s =
     (let ms = sc_machineSet s; ref = sp_InfrastructureRef (tp_Spec (mss_Template (ms_Spec ms)));
          name = (if en_DeprecatedNaming env then en_GenerateName env (nreq s) (ref_Name ref @ ''-'') else m_Name m)
      in on_error (clone_object env (clone_for ms m ref name))
           (\<lambda>e. mark_not_created env ''InfrastructureTemplateCloningFailed'' (en_ErrorText env e))
           ''failed to clone infrastructure machine while creating a machine'' s)"

text \<open>The outcome of a clean-up request is only logged.\<close>

definition clean_up :: "object_reference \<Rightarrow> ms_scope \<Rightarrow> ms_scope" where
  "clean_up ref s = request (DeleteObject ref) s"

definition creation_failed :: "ms_env \<Rightarrow> machine \<Rightarrow> object_reference \<Rightarrow> object_reference option \<Rightarrow> ms_error \<Rightarrow> ms_scope \<Rightarrow> ms_scope" where
  "creation_failed env m infraRef bootstrapRef e s =
     (let s1 = request (Event ''FailedCreate'' (m_Name m)) s;
          s2 = mark_not_created env ''MachineCreationFailed'' (en_ErrorText env e) s1;
          s3 = clean_up infraRef s2
      in case bootstrapRef of None \<Rightarrow> s3 | Some ref \<Rightarrow> clean_up ref s3)"

definition with_refs :: "machine \<Rightarrow> object_reference \<Rightarrow> object_reference option \<Rightarrow> machine" where
  "with_refs m infraRef bootstrapRef =
     (let spec = (case bootstrapRef of None \<Rightarrow> m_Spec m
                  | Some r \<Rightarrow> (m_Spec m)\<lparr>sp_Bootstrap := (sp_Bootstrap (m_Spec m))\<lparr>bs_ConfigRef := Some r\<rparr>\<rparr>)
      in m\<lparr>m_Spec := spec\<lparr>sp_InfrastructureRef := infraRef\<rparr>\<rparr>)"

text \<open>One pass of the creation loop: the Machine that was created, or the error with which the loop goes on.\<close>

definition create_machine :: "ms_env \<Rightarrow> (ms_error + machine) msm" where
  "create_machine env s =
     (let m = computeDesiredMachine (en_ValidLabel env) (en_GenerateName env (nreq s) (ms_Name (sc_machineSet s) @ ''-'')) (sc_machineSet s) None
      in mbind (clone_bootstrap env m) (\<lambda>bootstrapRef.
         mbind (clone_infrastructure env m) (\<lambda>infraRef.
         mbind (attempt (apply_machine env None (with_refs m infraRef bootstrapRef))) (\<lambda>r s.
           case r of Inl e \<Rightarrow> (Ret (Inl e), creation_failed env m infraRef bootstrapRef e s)
           | Inr created \<Rightarrow> (Ret (Inr created), request (Event ''SuccessfulCreate'' (m_Name created)) s)))) s)"

fun create_machines :: "ms_env \<Rightarrow> nat \<Rightarrow> (ms_error list \<times> machine list) msm" where
  "create_machines env 0 = mret ([], [])"
| "create_machines env (Suc n) =
     mbind (create_machine env) (\<lambda>r. mbind (create_machines env n) (\<lambda>(errs, machineList).
       mret (case r of Inl e \<Rightarrow> (e # errs, machineList) | Inr m \<Rightarrow> (errs, m # machineList))))"

text \<open>
  \<^verbatim>\<open>wait.PollUntilContextTimeout\<close> asks at once and then again until the timeout; \<open>en_Polls\<close> is the number
  of times that it asks.
\<close>

fun poll :: "nat \<Rightarrow> bool msm \<Rightarrow> unit msm" where
  "poll 0 f = mlift (Err PollTimeout)"
| "poll (Suc n) f = mbind f (\<lambda>ready. if ready then mret () else poll n f)"

definition machine_exists :: "ms_env \<Rightarrow> machine \<Rightarrow> bool msm" where
  "machine_exists env m s =
     ((case en_GetMachine env (nreq s) (om_Namespace (m_Meta m)) (m_Name m) of
         Inr _ \<Rightarrow> Ret True | Inl (Failed e) \<Rightarrow> Err (ApiError e) | Inl _ \<Rightarrow> Ret False), request (GetMachine (m_Name m)) s)"

definition machine_deleted :: "ms_env \<Rightarrow> machine \<Rightarrow> bool msm" where
  "machine_deleted env m s =
     ((case en_GetMachine env (nreq s) (om_Namespace (m_Meta m)) (m_Name m) of
         Inr x \<Rightarrow> Ret (\<not> time_IsZero (m_DeletionTimestamp x)) | Inl (Failed e) \<Rightarrow> Err (ApiError e) | Inl _ \<Rightarrow> Ret True),
      request (GetMachine (m_Name m)) s)"

fun wait_for :: "ms_env \<Rightarrow> (machine \<Rightarrow> bool msm) \<Rightarrow> machine list \<Rightarrow> unit msm" where
  "wait_for env f [] = mret ()"
| "wait_for env f (m # ms) = mbind (poll (en_Polls env) (f m)) (\<lambda>_. wait_for env f ms)"

definition waitForMachineCreation :: "ms_env \<Rightarrow> machine list \<Rightarrow> unit msm" where
  "waitForMachineCreation env machineList = wait_for env (machine_exists env) machineList"

definition waitForMachineDeletion :: "ms_env \<Rightarrow> machine list \<Rightarrow> unit msm" where
  "waitForMachineDeletion env machineList = wait_for env (machine_deleted env) machineList"

definition scale_down_machine :: "ms_env \<Rightarrow> machine \<Rightarrow> unit msm" where
  "scale_down_machine env m s =
     (if \<not> time_IsZero (m_DeletionTimestamp m) then (Ret (), s)
      else case delete_machine env False m s of
             (Ret _, s') \<Rightarrow> (Ret (), request (Event ''SuccessfulDelete'' (m_Name m)) s')
           | (Err e, s') \<Rightarrow> (Err e, request (Event ''FailedDelete'' (m_Name m)) s')
           | (Panic, s') \<Rightarrow> (Panic, s'))"

definition scale_up :: "ms_env \<Rightarrow> nat \<Rightarrow> ctrl_result msm" where
  "scale_up env diff s =
     (if map_lookup (ms_Annotations (sc_machineSet s)) DisableMachineCreateAnnotation \<noteq> None then (Ret result_zero, s)
      else case preflight env s of
             (Panic, s') \<Rightarrow> (Panic, s')
           | (Err e, s') \<Rightarrow>
               (Err e, mark_not_created env ''PreflightCheckFailed'' (en_ErrorText env e) (s'\<lparr>sc_preflightMessage := en_ErrorText env e\<rparr>))
           | (Ret (r, messages), s') \<Rightarrow>
               if \<not> result_IsZero r
               then (Ret r, mark_not_created env ''PreflightCheckFailed'' (go_join ''; '' messages)
                              (s'\<lparr>sc_preflightMessage := go_join ''; '' messages\<rparr>))
               else mbind (create_machines env diff) (\<lambda>(errs, machineList).
                      if length errs > 0 then mlift (Err (Aggregated errs))
                      else mbind (waitForMachineCreation env machineList) (\<lambda>_. mret result_zero)) s')"

definition scale_down :: "ms_env \<Rightarrow> int \<Rightarrow> ctrl_result msm" where
  "scale_down env diff s =
     (case getDeletePriorityFunc (en_float env) (en_Now env (nreq s)) (sc_machineSet s) of
        Inl p \<Rightarrow> (Err (UnsupportedPolicy p), s)
      | Inr priority \<Rightarrow>
          (case getMachinesToDeletePrioritized (sc_machines s) diff priority of (sorted_machines, machinesToDelete) \<Rightarrow>
             mbind (collect_errors (scale_down_machine env) machinesToDelete) (\<lambda>errs.
               if length errs > 0 then mlift (Err (Aggregated errs))
               else mbind (waitForMachineDeletion env machinesToDelete) (\<lambda>_. mret result_zero))
             (s\<lparr>sc_machines := sorted_machines\<rparr>)))"

definition syncReplicas :: "ms_env \<Rightarrow> ctrl_result msm" where
  "syncReplicas env s =
     (if \<not> sc_adopted s then (Ret result_zero, s)
      else case ms_Replicas (sc_machineSet s) of None \<Rightarrow> (Err (ReplicasNil (ms_Name (sc_machineSet s))), s)
      | Some replicas \<Rightarrow>
          let diff = int (length (sc_machines s)) - replicas
          in if diff < 0 then scale_up env (nat (- diff)) s
             else if diff > 0 then scale_down env diff s
             else (Ret result_zero, s))"

section \<open>Remediation\<close>

text \<open>\<^verbatim>\<open>conditions.Set\<close> on the v1beta1 and on the v1beta2 conditions of a Machine, and the patch.\<close>

definition set_both :: "ms_env \<Rightarrow> meta_condition \<Rightarrow> condition option \<Rightarrow> int \<Rightarrow> machine \<Rightarrow> machine" where
  "set_both env v1beta2Condition c now m =
     machine_v2_Set env now
       (case c of None \<Rightarrow> m | Some c \<Rightarrow> machine_conditions (\<lambda>cs. conditions_Set now cs (Some c)) m) v1beta2Condition"

definition patchMachineConditions :: "ms_env \<Rightarrow> machine list \<Rightarrow> meta_condition \<Rightarrow> condition option \<Rightarrow> unit msm" where
  "patchMachineConditions env machines v1beta2Condition c =
     mbind (collect_errors (\<lambda>m. patch_machine env m (set_both env v1beta2Condition c)) machines) (fail_if ''failed to patch Machines'')"

definition cleanup_conditions :: "ms_env \<Rightarrow> machine \<Rightarrow> unit msm" where
  "cleanup_conditions env m =
     (let shouldCleanup = (conditions_IsTrue (m_Conditions m) MachineHealthCheckSucceededCondition \<and>
            conditions_IsFalse (m_Conditions m) MachineOwnerRemediatedCondition);
          shouldCleanupV1Beta2 = (v2_IsTrue (en_meta env) (Some (machine_v2 m)) MachineHealthCheckSucceededV1Beta2Condition \<and>
            v2_IsFalse (en_meta env) (Some (machine_v2 m)) MachineOwnerRemediatedV1Beta2Condition)
      in if \<not> time_IsZero (m_DeletionTimestamp m) \<or> \<not> (shouldCleanup \<or> shouldCleanupV1Beta2) then mret ()
         else patch_machine env m (\<lambda>_ x.
           let x1 = (if shouldCleanup then machine_conditions (\<lambda>cs. conditions_Delete cs MachineOwnerRemediatedCondition) x else x)
           in if shouldCleanupV1Beta2 then machine_v2_Delete x1 MachineOwnerRemediatedV1Beta2Condition else x1))"

definition machines_to_remediate :: "ms_env \<Rightarrow> ms_scope \<Rightarrow> machine list" where
  "machines_to_remediate env s =
     en_Order env (machines_Filter [IsUnhealthyAndOwnerRemediated, Not HasDeletionTimestamp] (FromMachines (map Some (sc_machines s))))"

abbreviation MaxInt :: int where "MaxInt \<equiv> 9223372036854775807"

definition deferred_condition :: "string \<Rightarrow> string \<Rightarrow> meta_condition" where
  "deferred_condition reason message =
     new_meta_condition MachineOwnerRemediatedV1Beta2Condition ConditionFalse reason message"

text \<open>\<open>None\<close> where no remediation is allowed because the MachineSet is not the current revision.\<close>

definition max_in_flight :: "ms_env \<Rightarrow> ms_scope \<Rightarrow> (ms_error, int option) go" where
  "max_in_flight env s =
     (let ms = sc_machineSet s
      in if \<not> isDeploymentChild ms then Ret (Some MaxInt)
         else go_bind (deref (sc_owner s)) (\<lambda>md.
           if map_str (om_Annotations (md_Meta md)) RevisionAnnotation \<noteq> map_str (ms_Annotations ms) RevisionAnnotation then Ret None
           else case md_Strategy md of None \<Rightarrow> Ret (Some MaxInt)
           | Some strategy \<Rightarrow>
             (case str_Remediation strategy of None \<Rightarrow> Ret (Some MaxInt)
              | Some remediation \<Rightarrow>
                (case rs_MaxInFlight remediation of None \<Rightarrow> Ret (Some MaxInt)
                 | Some v \<Rightarrow>
                     (case ext_Scaled (en_ext env) (Some v) (ptr_deref (md_Replicas md) 1) True of
                        Inl e \<Rightarrow> Err (MaxInFlightError e) | Inr n \<Rightarrow> Ret (Some n))))))"

definition in_flight :: "machine list \<Rightarrow> nat" where
  "in_flight machines = length (filter (\<lambda>m. \<not> time_IsZero (m_DeletionTimestamp m) \<and>
     conditions_IsTrue (m_Conditions m) MachineOwnerRemediatedCondition) machines)"

definition int_or_string_String :: "int_or_string option \<Rightarrow> string" where
  "int_or_string_String v = (case v of None \<Rightarrow> ''<nil>'' | Some (IntVal n) \<Rightarrow> FormatInt n | Some (StrVal t) \<Rightarrow> t)"

definition too_many_message :: "ms_scope \<Rightarrow> (ms_error, string) go" where
  "too_many_message s =
     go_bind (deref (sc_owner s)) (\<lambda>md. go_bind (deref (md_Strategy md)) (\<lambda>strategy.
     go_bind (deref (str_Remediation strategy)) (\<lambda>remediation.
       Ret (''Waiting because there are already too many remediations in progress (spec.strategy.remediation.maxInFlight is '' @
            int_or_string_String (rs_MaxInFlight remediation) @ '')''))))"

definition defer_remediation :: "ms_env \<Rightarrow> machine list \<Rightarrow> unit msm" where
  "defer_remediation env machines s =
     mbind (mlift (too_many_message s)) (\<lambda>message.
       patchMachineConditions env machines (deferred_condition ''RemediationDeferred'' message) None) s"

definition newest_first :: "machine list \<Rightarrow> machine list" where
  "newest_first machines = go_sort (\<lambda>a b. m_CreationTimestamp a > m_CreationTimestamp b) machines"

text \<open>The Machines are patched before they are deleted.\<close>

definition remediate :: "ms_env \<Rightarrow> machine list \<Rightarrow> unit msm" where
  "remediate env machines =
     mbind (patchMachineConditions env machines
       (deferred_condition ''MachineDeleted'' ''Machine deletionTimestamp set'') (Some (TrueCondition MachineOwnerRemediatedCondition))) (\<lambda>_.
     mbind (collect_errors (delete_machine env True) machines) (fail_if ''failed to delete unhealthy Machines''))"

definition remediate_or_wait :: "ms_env \<Rightarrow> machine list \<Rightarrow> ctrl_result msm" where
  "remediate_or_wait env machines s =
     (let hold = (\<lambda>r message. mbind (patchMachineConditions env machines (deferred_condition ''RemediationDeferred'' message)
                     (Some \<lparr>c_Type = MachineOwnerRemediatedCondition, c_Status = ConditionFalse, c_Severity = ConditionSeverityWarning,
                        c_LastTransitionTime = 0, c_Reason = ''WaitingForRemediation'', c_Message = message\<rparr>)) (\<lambda>_. mret r))
      in case preflight env s of
           (Panic, s') \<Rightarrow> (Panic, s')
         | (Err e, s') \<Rightarrow> hold result_zero (en_ErrorText env e) s'
         | (Ret (r, messages), s') \<Rightarrow>
             if \<not> result_IsZero r then hold r (go_join ''; '' messages) s'
             else mbind (remediate env machines) (\<lambda>_. mret result_zero) s')"

definition reconcileUnhealthyMachines :: "ms_env \<Rightarrow> ctrl_result msm" where
  "reconcileUnhealthyMachines env s =
     (if \<not> sc_adopted s then (Ret result_zero, s)
      else mbind (collect_errors (cleanup_conditions env) (sc_machines s)) (\<lambda>errList.
        mbind (fail_if ''failed to remove OwnerRemediated condition from healhty Machines'' errList) (\<lambda>_ s.
        let machinesToRemediate = machines_to_remediate env s
        in if length machinesToRemediate = 0 then (Ret result_zero, s)
        else mbind (mlift (max_in_flight env s)) (\<lambda>limit.
          case limit of
            None \<Rightarrow> mbind (patchMachineConditions env machinesToRemediate
                (deferred_condition ''CannotBeRemediated'' ''Machine won't be remediated because it is pending removal due to rollout'') None)
                (\<lambda>_. mret result_zero)
          | Some n \<Rightarrow>
              let maxInFlight = n - int (in_flight (sc_machines s));
                  sorted_machines = newest_first machinesToRemediate
              in if maxInFlight \<le> 0 then mbind (defer_remediation env machinesToRemediate) (\<lambda>_. mret result_zero)
                 else if int (length sorted_machines) > maxInFlight
                 then mbind (defer_remediation env (drop (nat maxInFlight) sorted_machines)) (\<lambda>_.
                        remediate_or_wait env (take (nat maxInFlight) sorted_machines))
                 else remediate_or_wait env sorted_machines) s)) s)"

section \<open>Status\<close>

record replica_counts =
  rc_labeled :: nat
  rc_ready :: nat
  rc_available :: nat

text \<open>One Machine of the counting loop; the node that cannot be read is nil.\<close>

definition count_ready :: "ms_env \<Rightarrow> machine \<Rightarrow> replica_counts \<Rightarrow> replica_counts msm" where
  "count_ready env m cs s =
     (case st_NodeRef (m_Status m) of None \<Rightarrow> (Ret cs, s)
      | Some ref \<Rightarrow>
          let answer = en_GetNode env (nreq s) (ref_Name ref); s' = request (GetNode (ref_Name ref)) s;
              nd = (case answer of Inl _ \<Rightarrow> None | Inr n \<Rightarrow> Some n)
          in if nd = None \<and> time_IsZero (m_DeletionTimestamp m) then (Ret cs, s')
             else if IsNodeReady nd
             then mbind (mlift (IsNodeAvailable nd (mss_MinReadySeconds (ms_Spec (sc_machineSet s))) (en_Now env (nreq s')))) (\<lambda>available.
                    mret (cs\<lparr>rc_ready := Suc (rc_ready cs),
                             rc_available := (if available then Suc (rc_available cs) else rc_available cs)\<rparr>)) s'
             else (Ret cs, s'))"

fun count_replicas :: "ms_env \<Rightarrow> machine list \<Rightarrow> replica_counts \<Rightarrow> replica_counts msm" where
  "count_replicas env [] cs = mret cs"
| "count_replicas env (m # ms) cs =
     (\<lambda>s. mbind (count_ready env m
              (if en_Matches env (tp_Labels (mss_Template (ms_Spec (sc_machineSet s)))) (om_Labels (m_Meta m))
               then cs\<lparr>rc_labeled := Suc (rc_labeled cs)\<rparr> else cs))
            (count_replicas env ms) s)"

definition new_status :: "machineset \<Rightarrow> string \<Rightarrow> nat \<Rightarrow> replica_counts \<Rightarrow> machineset_status" where
  "new_status ms selector n cs =
     (ms_Status ms)\<lparr>mst_Selector := selector, mst_Replicas := i32 (int n), mst_FullyLabeledReplicas := i32 (int (rc_labeled cs)),
       mst_ReadyReplicas := i32 (int (rc_ready cs)), mst_AvailableReplicas := i32 (int (rc_available cs))\<rparr>"

definition copy_status :: "machineset \<Rightarrow> machineset_status \<Rightarrow> machineset" where
  "copy_status ms st =
     (let old = ms_Status ms
      in if mst_Replicas old \<noteq> mst_Replicas st \<or> mst_FullyLabeledReplicas old \<noteq> mst_FullyLabeledReplicas st \<or>
            mst_ReadyReplicas old \<noteq> mst_ReadyReplicas st \<or> mst_AvailableReplicas old \<noteq> mst_AvailableReplicas st \<or>
            om_Generation (ms_Meta ms) \<noteq> mst_ObservedGeneration old
         then ms\<lparr>ms_Status := st\<lparr>mst_ObservedGeneration := om_Generation (ms_Meta ms)\<rparr>\<rparr> else ms)"

definition scaling_message :: "string \<Rightarrow> int \<Rightarrow> int \<Rightarrow> string" where
  "scaling_message verb wanted actual =
     verb @ '' MachineSet to '' @ FormatInt wanted @ '' replicas (actual '' @ FormatInt actual @ '')''"

definition resize_conditions :: "int \<Rightarrow> int \<Rightarrow> machineset_status \<Rightarrow> machineset \<Rightarrow> machineset" where
  "resize_conditions now wanted st ms =
     (if mst_Replicas st < wanted
      then set_conditions (\<lambda>cs. conditions_MarkFalse now cs ResizedCondition ''ScalingUp'' ConditionSeverityWarning
             (scaling_message ''Scaling up'' wanted (mst_Replicas st))) ms
      else if mst_Replicas st > wanted
      then set_conditions (\<lambda>cs. conditions_MarkTrue now (conditions_MarkFalse now cs ResizedCondition ''ScalingDown'' ConditionSeverityWarning
             (scaling_message ''Scaling down'' wanted (mst_Replicas st))) MachinesCreatedCondition) ms
      else set_conditions (\<lambda>cs. conditions_MarkTrue now
             (if mst_ReadyReplicas st = mst_Replicas st then conditions_MarkTrue now cs ResizedCondition else cs) MachinesCreatedCondition) ms)"

definition reconcileStatus :: "ms_env \<Rightarrow> unit msm" where
  "reconcileStatus env s =
     (if \<not> sc_adopted s then (Ret (), s)
      else case ms_Replicas (sc_machineSet s) of None \<Rightarrow> (Err (ReplicasNil (ms_Name (sc_machineSet s))), s)
      | Some replicas \<Rightarrow>
        (case en_SelectorString env (mss_Selector (ms_Spec (sc_machineSet s))) of Inl e \<Rightarrow> (Err (ApiError e), s)
         | Inr selector \<Rightarrow>
             mbind (count_replicas env (sc_machines s) \<lparr>rc_labeled = 0, rc_ready = 0, rc_available = 0\<rparr>) (\<lambda>cs s.
               let ms = sc_machineSet s; now = en_Now env (nreq s);
                   st = new_status ms selector (length (sc_machines s)) cs;
                   ms' = resize_conditions now (desired_replicas ms replicas) st (copy_status ms st)
               in (Ret (), put_machineSet (set_conditions (\<lambda>c. conditions_SetAggregate now c MachinesReadyCondition
                      (ConditionGetters (en_Order env (FromMachines (map Some (sc_machines s))))) [AddSourceRef]) ms') s)) s))"

definition shouldRequeueForReplicaCountersRefresh :: "machineset \<Rightarrow> ctrl_result" where
  "shouldRequeueForReplicaCountersRefresh ms =
     (let replicas = ptr_deref (ms_Replicas ms) 0
      in if mss_MinReadySeconds (ms_Spec ms) > 0 \<and> mst_ReadyReplicas (ms_Status ms) = replicas \<and>
            mst_AvailableReplicas (ms_Status ms) \<noteq> replicas
         then result_zero\<lparr>res_RequeueAfter := mss_MinReadySeconds (ms_Spec ms) * 1000000000\<rparr>
         else if mst_ReadyReplicas (ms_Status ms) \<noteq> replicas then result_zero\<lparr>res_RequeueAfter := 15000000000\<rparr>
         else result_zero)"

section \<open>A reconciliation\<close>

definition getOwnerMachineDeployment :: "ms_env \<Rightarrow> machinedeployment msm" where
  "getOwnerMachineDeployment env s =
     (let mdName = map_str (om_Labels (ms_Meta (sc_machineSet s))) MachineDeploymentNameLabel
      in if mdName = [] then (Err (NoOwnerDeployment (ms_Name (sc_machineSet s))), s)
         else ((case en_GetDeployment env (nreq s) mdName of Inl e \<Rightarrow> Err (ApiError e) | Inr md \<Rightarrow> Ret md),
               request (GetDeployment mdName) s))"

text \<open>The phases run all, with their errors collected; a phase after an error does not change the result.\<close>

fun doReconcile :: "ctrl_result \<Rightarrow> ms_error list \<Rightarrow> ctrl_result msm list \<Rightarrow> ctrl_result msm" where
  "doReconcile res errs [] = (if length errs > 0 then mlift (Err (Aggregated errs)) else mret res)"
| "doReconcile res errs (phase # phases) =
     mbind (attempt phase) (\<lambda>r. case r of
         Inl e \<Rightarrow> doReconcile res (errs @ [e]) phases
       | Inr phaseResult \<Rightarrow> doReconcile (if length errs > 0 then res else LowestNonZeroResult res phaseResult) errs phases)"

definition wrapErr :: "string \<Rightarrow> ctrl_result msm \<Rightarrow> ctrl_result msm" where
  "wrapErr msg f = on_error f (\<lambda>_ s. s) msg"

definition alwaysReconcile :: "ms_env \<Rightarrow> ctrl_result msm list" where
  "alwaysReconcile env =
     [wrapErr ''failed to set MachineSet owner and labels'' (reconcileMachineSetOwnerAndLabels env),
      wrapErr ''failed to reconcile infrastructure'' (reconcileInfrastructure env),
      wrapErr ''failed to reconcile bootstrapConfig'' (reconcileBootstrapConfig env),
      wrapErr ''failed to get and adopt Machines for MachineSet'' (getAndAdoptMachinesForMachineSet env)]"

definition reconcile_phases :: "ms_env \<Rightarrow> machineset \<Rightarrow> ctrl_result msm list" where
  "reconcile_phases env ms =
     (if \<not> time_IsZero (om_DeletionTimestamp (ms_Meta ms))
      then alwaysReconcile env @ [wrapErr ''failed to reconcile delete'' (reconcileDelete env)]
      else alwaysReconcile env @
        [wrapErr ''failed to reconcile unhealthy machines'' (reconcileUnhealthyMachines env),
         wrapErr ''failed to sync Machines'' (syncMachines env),
         wrapErr ''failed to sync replicas'' (syncReplicas env)])"

fun is_not_connected :: "ms_env \<Rightarrow> ms_error \<Rightarrow> bool" where
  "is_not_connected env (ApiError e) = en_NotConnected env e"
| "is_not_connected env (Wrapped _ e) = is_not_connected env e"
| "is_not_connected env (Aggregated es) = list_ex (is_not_connected env) es"
| "is_not_connected env _ = False"

text \<open>The body of \<^verbatim>\<open>Reconcile\<close> after the scope is set up.\<close>

definition reconcile_body :: "ms_env \<Rightarrow> ctrl_result msm" where
  "reconcile_body env s =
     mbind (if isDeploymentChild (sc_machineSet s)
            then mbind (getOwnerMachineDeployment env) (\<lambda>md s. (Ret (), s\<lparr>sc_owner := Some md\<rparr>)) else mret ()) (\<lambda>_ s.
       let deleting = \<not> time_IsZero (om_DeletionTimestamp (ms_Meta (sc_machineSet s)))
       in case doReconcile result_zero [] (reconcile_phases env (sc_machineSet s)) s of
            (Err e, s') \<Rightarrow> if \<not> deleting \<and> is_not_connected env e
                           then (Ret (result_zero\<lparr>res_RequeueAfter := 60000000000\<rparr>), s') else (Err e, s')
          | r \<Rightarrow> r) s"

definition patchMachineSet :: "ms_env \<Rightarrow> unit msm" where
  "patchMachineSet env s =
     (let ms = sc_machineSet s;
          ms' = set_conditions (\<lambda>_. conditions_SetSummary (en_Now env (nreq s))
            \<lparr>g_Name = ms_Name ms, g_Kind = ''MachineSet'', g_Conditions = mst_Conditions (ms_Status ms)\<rparr>
            [WithConditions (Some [MachinesCreatedCondition, ResizedCondition, MachinesReadyCondition])]) ms
      in ask (\<lambda>n. en_PatchSet env n ms') (PatchMachineSet ms') (put_machineSet ms' s))"

definition status_env :: "ms_env \<Rightarrow> ms_scope \<Rightarrow> status_lib" where
  "status_env env s = \<lparr>sl_meta = en_meta env, sl_strings = en_Strings env, sl_machines = en_Order env, sl_now = en_Now env (nreq s)\<rparr>"

definition update_status :: "ms_env \<Rightarrow> unit msm" where
  "update_status env s =
     mbind (mlift (updateStatus (status_env env s) (sc_machineSet s) (sc_machines s) (sc_bootstrapObjectNotFound s)
              (sc_infrastructureObjectNotFound s) (sc_adopted s) (sc_preflightMessage s)))
       (\<lambda>ms s. (Ret (), put_machineSet ms s)) s"

text \<open>
  The deferred part: the status is always computed and written, whatever the body returned, and an error
  on the way is added to the one that is returned.
\<close>

definition also_failed :: "ms_error option \<Rightarrow> ms_error + unit \<Rightarrow> ms_error option" where
  "also_failed reterr r =
     (case r of Inr _ \<Rightarrow> reterr
      | Inl e \<Rightarrow> Some (Aggregated (case reterr of None \<Rightarrow> [e] | Some err \<Rightarrow> [err, e])))"

definition reconcile :: "ms_env \<Rightarrow> ctrl_result msm" where
  "reconcile env =
     mbind (attempt (reconcile_body env)) (\<lambda>body.
     mbind (attempt (on_error (reconcileStatus env) (\<lambda>_ s. s) ''failed to update status'')) (\<lambda>status.
     mbind (update_status env) (\<lambda>_.
     mbind (attempt (patchMachineSet env)) (\<lambda>patched s.
       case body of
         Inl e \<Rightarrow> (Err (the (also_failed (also_failed (Some e) status) patched)), s)
       | Inr retres \<Rightarrow>
           (case also_failed (also_failed None status) patched of Some err \<Rightarrow> (Err err, s)
            | None \<Rightarrow>
                (Ret (if time_IsZero (om_DeletionTimestamp (ms_Meta (sc_machineSet s)))
                      then LowestNonZeroResult retres (shouldRequeueForReplicaCountersRefresh (sc_machineSet s)) else retres), s))))))"

end
