(* ===== verification/Mhc_Controller.thy ===== *)
theory Mhc_Controller
  imports Ms_Controller
begin

text \<open>
  The MachineHealthCheck controller: internal/controllers/machinehealthcheck (machinehealthcheck_targets.go,
  machinehealthcheck_controller.go) with util/annotations/helpers.go and util/paused/paused.go. One
  reconciliation lists the Machines that a MachineHealthCheck selects, decides which of them are unhealthy,
  and, unless too many are, marks these for remediation.

  The state of a reconciliation is the MachineHealthCheck and the requests and events so far. A target holds
  a pointer to its Machine, which no other target shares; it is passed along by value, together with the
  Machine as it was when the patch helper was made. The API server, the workload cluster and the clock are
  the fields of \<open>mhc_env\<close>; answers may depend on the number of requests made before. Times and durations are
  numbers of nanoseconds. Where the code only adds the name of an object to the text of an error, the model keeps
  the error.
\<close>

section \<open>Types\<close>

abbreviation PausedAnnotation :: string where "PausedAnnotation \<equiv> ''cluster.x-k8s.io/paused''"
abbreviation MachineSkipRemediationAnnotation :: string where
  "MachineSkipRemediationAnnotation \<equiv> ''cluster.x-k8s.io/skip-remediation''"
abbreviation RemediateMachineAnnotation :: string where
  "RemediateMachineAnnotation \<equiv> ''cluster.x-k8s.io/remediate-machine''"
abbreviation ControlPlaneInitializedCondition :: string where
  "ControlPlaneInitializedCondition \<equiv> ''ControlPlaneInitialized''"
abbreviation InfrastructureReadyCondition :: string where "InfrastructureReadyCondition \<equiv> ''InfrastructureReady''"
abbreviation RemediationAllowedCondition :: string where "RemediationAllowedCondition \<equiv> ''RemediationAllowed''"
abbreviation MachineExternallyRemediatedV1Beta2Condition :: string where
  "MachineExternallyRemediatedV1Beta2Condition \<equiv> ''ExternallyRemediated''"
abbreviation time_Second :: int where "time_Second \<equiv> 1000000000"

record unhealthy_condition =
  uc_Type :: string
  uc_Status :: string
  uc_Timeout :: int

record mhc_spec =
  hs_ClusterName :: string
  hs_Selector :: label_selector
  hs_UnhealthyConditions :: "unhealthy_condition list"
  hs_MaxUnhealthy :: "int_or_string option"
  hs_UnhealthyRange :: "string option"
  hs_NodeStartupTimeout :: "int option"
  hs_RemediationTemplate :: "object_reference option"

record mhc_v1beta2 =
  h2_Conditions :: "meta_condition list"

record mhc_status =
  hst_ExpectedMachines :: int
  hst_CurrentHealthy :: int
  hst_RemediationsAllowed :: int
  hst_ObservedGeneration :: int
  hst_Targets :: "string list"
  hst_Conditions :: "condition list"
  hst_V1Beta2 :: "mhc_v1beta2 option"

record machinehealthcheck =
  hc_Meta :: object_meta
  hc_Spec :: mhc_spec
  hc_Status :: mhc_status

record health_cluster = cluster_view +
  clh_Paused :: bool
  clh_Conditions :: "condition list"

record named_node = node +
  nd_Name :: string

text \<open>\<open>ht_Before\<close> is the Machine that the patch helper of the target compares with.\<close>

record healthCheckTarget =
  ht_Cluster :: health_cluster
  ht_Machine :: machine
  ht_Node :: "named_node option"
  ht_MHC :: machinehealthcheck
  ht_Before :: machine
  ht_nodeMissing :: bool

datatype mhc_error =
    MhcApi string
  | MhcWrapped string mhc_error
  | MhcAggregate "mhc_error list"
  | RangeSyntax string
  | RangeOrder nat nat
  | MaxUnhealthyNil
  | ScaledError string

definition mhc_conditions :: "(condition list option \<Rightarrow> condition list option) \<Rightarrow> machinehealthcheck \<Rightarrow> machinehealthcheck" where
  "mhc_conditions f h =
     (case f (Some (hst_Conditions (hc_Status h))) of None \<Rightarrow> h
      | Some cs \<Rightarrow> h\<lparr>hc_Status := (hc_Status h)\<lparr>hst_Conditions := cs\<rparr>\<rparr>)"

definition mhc_v2 :: "machinehealthcheck \<Rightarrow> v2_object" where
  "mhc_v2 h = \<lparr>v2_Kind = ''MachineHealthCheck'', v2_Name = om_Name (hc_Meta h), v2_Generation = Some (om_Generation (hc_Meta h)),
     v2_Conditions = (case hst_V1Beta2 (hc_Status h) of None \<Rightarrow> [] | Some x \<Rightarrow> h2_Conditions x)\<rparr>"

definition put_mhc_v2 :: "machinehealthcheck \<Rightarrow> v2_object option \<Rightarrow> machinehealthcheck" where
  "put_mhc_v2 h obj =
     (case obj of None \<Rightarrow> h
      | Some x \<Rightarrow> if v2_Conditions x = v2_Conditions (mhc_v2 h) then h
                  else h\<lparr>hc_Status := (hc_Status h)\<lparr>hst_V1Beta2 := Some \<lparr>h2_Conditions = v2_Conditions x\<rparr>\<rparr>\<rparr>)"

section \<open>util/annotations/helpers.go\<close>

definition hasAnnotation :: "object_meta \<Rightarrow> string \<Rightarrow> bool" where
  "hasAnnotation obj annotation \<longleftrightarrow> map_lookup (om_Annotations obj) annotation \<noteq> None"

definition HasPaused :: "object_meta \<Rightarrow> bool" where
  "HasPaused obj = hasAnnotation obj PausedAnnotation"

definition IsPaused :: "health_cluster \<Rightarrow> object_meta \<Rightarrow> bool" where
  "IsPaused cluster obj \<longleftrightarrow> (if clh_Paused cluster then True else HasPaused obj)"

definition HasSkipRemediation :: "object_meta \<Rightarrow> bool" where
  "HasSkipRemediation obj = hasAnnotation obj MachineSkipRemediationAnnotation"

definition HasRemediateMachine :: "object_meta \<Rightarrow> bool" where
  "HasRemediateMachine obj = hasAnnotation obj RemediateMachineAnnotation"

section \<open>Durations as text\<close>

text \<open>
  \<^verbatim>\<open>Duration.String\<close> of package time: hours, minutes and seconds with a fraction, or a single unit below a
  second. \<open>fmt_frac\<close> prints the digits after the point without trailing zeros, and no point if there are none.
\<close>

definition pad_digits :: "nat \<Rightarrow> nat \<Rightarrow> string" where
  "pad_digits prec n = (let ds = format_nat n in replicate (prec - length ds) (CHR ''0'') @ ds)"

definition fmt_frac :: "nat \<Rightarrow> nat \<Rightarrow> string" where
  "fmt_frac prec v =
     (let ds = rev (dropWhile (\<lambda>c. c = CHR ''0'') (rev (pad_digits prec (v mod 10 ^ prec))))
      in if v mod 10 ^ prec = 0 then [] else CHR ''.'' # ds)"

definition duration_abs_String :: "nat \<Rightarrow> string" where
  "duration_abs_String u =
     (if u = 0 then ''0s''
      else if u < 1000 then format_nat u @ ''ns''
      else if u < 1000000 then format_nat (u div 1000) @ fmt_frac 3 u @ [CHR 0xC2, CHR 0xB5, CHR ''s'']
      else if u < 1000000000 then format_nat (u div 1000000) @ fmt_frac 6 u @ ''ms''
      else let s = u div 1000000000; secs = format_nat (s mod 60) @ fmt_frac 9 u @ ''s''
           in if s div 60 = 0 then secs
              else let mins = format_nat (s div 60 mod 60) @ ''m'' @ secs
                   in if s div 3600 = 0 then mins else format_nat (s div 3600) @ ''h'' @ mins)"

definition duration_String :: "int \<Rightarrow> string" where
  "duration_String d = (if d < 0 then ''-'' @ duration_abs_String (nat (- d)) else duration_abs_String (nat d))"

section \<open>machinehealthcheck_targets.go: health of a target\<close>

definition nodeName :: "healthCheckTarget \<Rightarrow> string" where
  "nodeName t = (case ht_Node t of None \<Rightarrow> [] | Some n \<Rightarrow> nd_Name n)"

definition target_string :: "healthCheckTarget \<Rightarrow> string" where
  "target_string t = om_Namespace (hc_Meta (ht_MHC t)) @ ''/'' @ om_Name (hc_Meta (ht_MHC t)) @ ''/'' @
     m_Name (ht_Machine t) @ ''/'' @ nodeName t"

definition getNodeCondition :: "('a node_scheme) \<Rightarrow> string \<Rightarrow> node_condition option" where
  "getNodeCondition n conditionType = find (\<lambda>c. nc_Type c = conditionType) (nd_Conditions n)"

definition minDuration :: "int list \<Rightarrow> int" where
  "minDuration durations =
     (case durations of [] \<Rightarrow> 0 | d # ds \<Rightarrow> foldl (\<lambda>min_d nc. if nc < min_d then nc else min_d) d ds)"

definition mark_unhealthy :: "int \<Rightarrow> string \<Rightarrow> string \<Rightarrow> machine \<Rightarrow> machine" where
  "mark_unhealthy now reason message m =
     machine_conditions (\<lambda>cs. conditions_MarkFalse now cs MachineHealthCheckSucceededCondition reason ConditionSeverityWarning message) m"

definition set_machine_v2 :: "meta_lib \<Rightarrow> int \<Rightarrow> machine \<Rightarrow> string \<Rightarrow> string \<Rightarrow> string \<Rightarrow> string \<Rightarrow> machine" where
  "set_machine_v2 ml now m t status reason message =
     put_machine_v2 m (v2_Set ml now (Some defaultSortLessFunc) (Some (machine_v2 m)) (new_meta_condition t status reason message))"

definition mark_unhealthy_both :: "meta_lib \<Rightarrow> int \<Rightarrow> string \<Rightarrow> string \<Rightarrow> string \<Rightarrow> string \<Rightarrow> machine \<Rightarrow> machine" where
  "mark_unhealthy_both ml now reason message reason2 message2 m =
     set_machine_v2 ml now (mark_unhealthy now reason message m) MachineHealthCheckSucceededV1Beta2Condition ConditionFalse reason2 message2"

text \<open>The latest of several times: a condition counts if it is True.\<close>

definition later_transition :: "condition list \<Rightarrow> string \<Rightarrow> int \<Rightarrow> int" where
  "later_transition cs t comparisonTime =
     (if conditions_IsTrue cs t
      then case conditions_GetLastTransitionTime cs t of None \<Rightarrow> comparisonTime
           | Some x \<Rightarrow> if x > comparisonTime then x else comparisonTime
      else comparisonTime)"

definition comparison_time :: "healthCheckTarget \<Rightarrow> int" where
  "comparison_time t =
     (let cluster = clh_Conditions (ht_Cluster t); m = ht_Machine t
      in later_transition (st_Conditions (m_Status m)) InfrastructureReadyCondition
           (later_transition cluster InfrastructureReadyCondition
             (later_transition cluster ControlPlaneInitializedCondition (m_CreationTimestamp m))))"

text \<open>The loop over the unhealthy conditions: the first one that has lasted too long, and the times of the next checks.\<close>

fun check_conditions :: "int \<Rightarrow> 'a node_scheme \<Rightarrow> unhealthy_condition list \<Rightarrow> int list \<Rightarrow> unhealthy_condition option \<times> int list" where
  "check_conditions now n [] nextCheckTimes = (None, nextCheckTimes)"
| "check_conditions now n (c # cs) nextCheckTimes =
     (case getNodeCondition n (uc_Type c) of None \<Rightarrow> check_conditions now n cs nextCheckTimes
      | Some nodeCondition \<Rightarrow>
          if nc_Status nodeCondition \<noteq> uc_Status c then check_conditions now n cs nextCheckTimes
          else if nc_LastTransitionTime nodeCondition + uc_Timeout c < now then (Some c, nextCheckTimes)
          else let durationUnhealthy = time_Sub now (nc_LastTransitionTime nodeCondition);
                   nextCheck = i64 (i64 (uc_Timeout c - durationUnhealthy) + time_Second)
               in check_conditions now n cs (if nextCheck > 0 then nextCheckTimes @ [nextCheck] else nextCheckTimes))"

definition condition_message :: "string \<Rightarrow> unhealthy_condition \<Rightarrow> string" where
  "condition_message node_word c = ''Condition '' @ uc_Type c @ '' on '' @ node_word @ '' is reporting status '' @ uc_Status c @
     '' for more than '' @ duration_String (uc_Timeout c)"

definition node_startup :: "meta_lib \<Rightarrow> int \<Rightarrow> int \<Rightarrow> healthCheckTarget \<Rightarrow> bool \<times> int \<times> machine" where
  "node_startup ml now timeoutForMachineToHaveNode t =
     (let m = ht_Machine t; message = ''Node failed to report startup in '' @ duration_String timeoutForMachineToHaveNode
      in if timeoutForMachineToHaveNode = 0 then (False, 0, m)
         else if comparison_time t + timeoutForMachineToHaveNode < now
         then (True, 0, mark_unhealthy_both ml now ''NodeStartupTimeout'' message ''NodeStartupTimeout'' message m)
         else (False, i64 (i64 (timeoutForMachineToHaveNode - time_Sub now (comparison_time t)) + time_Second), m))"

definition node_health :: "meta_lib \<Rightarrow> int \<Rightarrow> named_node \<Rightarrow> healthCheckTarget \<Rightarrow> bool \<times> int \<times> machine" where
  "node_health ml now n t =
     (case check_conditions now n (hs_UnhealthyConditions (hc_Spec (ht_MHC t))) [] of
        (Some c, _) \<Rightarrow> (True, 0, mark_unhealthy_both ml now ''UnhealthyNode'' (condition_message ''node'' c)
                         ''UnhealthyNode'' (condition_message ''Node'' c) (ht_Machine t))
      | (None, nextCheckTimes) \<Rightarrow> (False, minDuration nextCheckTimes, ht_Machine t))"

definition needsRemediation :: "meta_lib \<Rightarrow> int \<Rightarrow> int \<Rightarrow> healthCheckTarget \<Rightarrow> (mhc_error, bool \<times> int \<times> machine) go" where
  "needsRemediation ml now timeoutForMachineToHaveNode t =
     (let m = ht_Machine t; cluster = clh_Conditions (ht_Cluster t)
      in if HasRemediateMachine (m_Meta m)
         then Ret (True, 0, mark_unhealthy_both ml now ''HasRemediateMachineAnnotation''
                     ''Marked for remediation via remediate-machine annotation'' ''HasRemediateAnnotation''
                     ''Marked for remediation via cluster.x-k8s.io/remediate-machine annotation'' m)
         else case st_FailureReason (m_Status m) of
           Some r \<Rightarrow> Ret (True, 0, mark_unhealthy now ''MachineHasFailure'' (''FailureReason: '' @ r) m)
         | None \<Rightarrow> (case st_FailureMessage (m_Status m) of
           Some msg \<Rightarrow> Ret (True, 0, mark_unhealthy now ''MachineHasFailure'' (''FailureMessage: '' @ msg) m)
         | None \<Rightarrow>
             if ht_nodeMissing t
             then go_bind (deref (st_NodeRef (m_Status m))) (\<lambda>ref.
                    Ret (True, 0, mark_unhealthy_both ml now ''NodeNotFound'' [] ''NodeDeleted''
                      (''Node '' @ ref_Name ref @ '' has been deleted'') m))
             else if \<not> conditions_IsTrue cluster ControlPlaneInitializedCondition \<and> \<not> IsControlPlaneMachine m then Ret (False, 0, m)
             else if \<not> conditions_IsTrue cluster InfrastructureReadyCondition then Ret (False, 0, m)
             else (case ht_Node t of
                     None \<Rightarrow> Ret (node_startup ml now timeoutForMachineToHaveNode t)
                   | Some n \<Rightarrow> Ret (node_health ml now n t))))"

definition shouldSkipRemediation :: "machine \<Rightarrow> bool \<times> string" where
  "shouldSkipRemediation m =
     (if HasPaused (m_Meta m) then (True, ''machine has \"cluster.x-k8s.io/paused\" annotation'')
      else if HasSkipRemediation (m_Meta m) then (True, ''machine has \"cluster.x-k8s.io/skip-remediation\" annotation'')
      else (False, []))"

section \<open>State and environment of a reconciliation\<close>

datatype get_error = NotFound string | OtherError string

datatype mhc_request =
    ListTargets
  | GetTargetNode string
  | WatchNodes
  | PatchTarget machine bool
  | GetRemediationRequest string
  | GetTemplate object_reference
  | CreateRemediationRequest string bool
  | DeleteRemediationRequest string
  | PatchMHC machinehealthcheck
  | MhcEvent string string

text \<open>\<open>'u\<close> is the type of unstructured objects, which the controller only passes on.\<close>

record 'u mhc_env =
  he_GetMHC :: "nat \<Rightarrow> get_error + machinehealthcheck"
  he_GetCluster :: "nat \<Rightarrow> string \<Rightarrow> string \<Rightarrow> string + health_cluster"
  he_GetClient :: "nat \<Rightarrow> string option"
  he_Watch :: "nat \<Rightarrow> string option"
  he_Selector :: "label_selector \<Rightarrow> string \<Rightarrow> string + (string_map \<Rightarrow> bool)"
  he_List :: "nat \<Rightarrow> (string_map \<Rightarrow> bool) \<Rightarrow> string \<Rightarrow> string + machine list"
  he_NewHelper :: "nat \<Rightarrow> machine \<Rightarrow> string option"
  he_GetNode :: "nat \<Rightarrow> string \<Rightarrow> get_error + named_node"
  he_Patch :: "nat \<Rightarrow> machine \<Rightarrow> machine \<Rightarrow> string option"
  he_GetRequest :: "nat \<Rightarrow> object_reference \<Rightarrow> string \<Rightarrow> get_error + int option"
  he_DeleteRequest :: "nat \<Rightarrow> object_reference \<Rightarrow> get_error option"
  he_GetTemplate :: "nat \<Rightarrow> object_reference \<Rightarrow> string \<Rightarrow> string + 'u"
  he_GenerateTemplate :: "'u \<Rightarrow> object_reference \<Rightarrow> string \<Rightarrow> string \<Rightarrow> owner_reference \<Rightarrow> string + 'u"
  he_Create :: "nat \<Rightarrow> 'u \<Rightarrow> string \<Rightarrow> string option"
  he_NewMHCHelper :: "nat \<Rightarrow> machinehealthcheck \<Rightarrow> string option"
  he_PatchMHC :: "nat \<Rightarrow> machinehealthcheck \<Rightarrow> machinehealthcheck \<Rightarrow> string option"
  he_NotConnected :: "string \<Rightarrow> bool"
  he_Group :: "string \<Rightarrow> string option"
  he_Now :: "nat \<Rightarrow> int"
  he_meta :: meta_lib
  he_ext :: md_ext

record mhc_state =
  hcs_mhc :: machinehealthcheck
  hcs_requests :: "mhc_request list"

type_synonym 'a hcm = "(mhc_state, mhc_error, 'a) gom"

abbreviation hreq :: "mhc_state \<Rightarrow> nat" where "hreq s \<equiv> length (hcs_requests s)"

definition hrec :: "mhc_request \<Rightarrow> mhc_state \<Rightarrow> mhc_state" where
  "hrec r s = s\<lparr>hcs_requests := hcs_requests s @ [r]\<rparr>"

definition on_mhc :: "(machinehealthcheck \<Rightarrow> machinehealthcheck) \<Rightarrow> mhc_state \<Rightarrow> mhc_state" where
  "on_mhc f s = s\<lparr>hcs_mhc := f (hcs_mhc s)\<rparr>"

definition set_mhc_v2 :: "meta_lib \<Rightarrow> int \<Rightarrow> string \<Rightarrow> string \<Rightarrow> string \<Rightarrow> string \<Rightarrow> machinehealthcheck \<Rightarrow> machinehealthcheck" where
  "set_mhc_v2 ml now t status reason message h =
     put_mhc_v2 h (v2_Set ml now (Some defaultSortLessFunc) (Some (mhc_v2 h)) (new_meta_condition t status reason message))"

section \<open>machinehealthcheck_targets.go: the targets\<close>

definition getMachinesFromMHC :: "'u mhc_env \<Rightarrow> machine list hcm" where
  "getMachinesFromMHC env s =
     (let h = hcs_mhc s
      in case he_Selector env (hs_Selector (hc_Spec h)) (hs_ClusterName (hc_Spec h)) of
           Inl e \<Rightarrow> (Err (MhcWrapped ''failed to build selector'' (MhcApi e)), s)
         | Inr selector \<Rightarrow>
             (case he_List env (hreq s) selector (om_Namespace (hc_Meta h)) of
                Inl e \<Rightarrow> (Err (MhcWrapped ''failed to list machines'' (MhcApi e)), hrec ListTargets s)
              | Inr machines \<Rightarrow> (Ret machines, hrec ListTargets s)))"

text \<open>The node of a Machine and whether it is missing; without a client for the workload cluster it is not asked for.\<close>

definition target_node :: "'u mhc_env \<Rightarrow> bool \<Rightarrow> machine \<Rightarrow> (named_node option \<times> bool) hcm" where
  "target_node env clusterClient m s =
     (if \<not> clusterClient then (Ret (None, False), s)
      else case st_NodeRef (m_Status m) of None \<Rightarrow> (Ret (None, False), s)
      | Some ref \<Rightarrow>
          (case he_GetNode env (hreq s) (ref_Name ref) of
             Inr n \<Rightarrow> (Ret (Some n, False), hrec (GetTargetNode (ref_Name ref)) s)
           | Inl (NotFound e) \<Rightarrow> (Ret (None, True), hrec (GetTargetNode (ref_Name ref)) s)
           | Inl (OtherError e) \<Rightarrow> (Err (MhcWrapped ''error getting node'' (MhcApi e)), hrec (GetTargetNode (ref_Name ref)) s)))"

fun targets_loop :: "'u mhc_env \<Rightarrow> bool \<Rightarrow> health_cluster \<Rightarrow> machine list \<Rightarrow> healthCheckTarget list hcm" where
  "targets_loop env clusterClient cluster [] s = (Ret [], s)"
| "targets_loop env clusterClient cluster (m # ms) s =
     (if fst (shouldSkipRemediation m) then targets_loop env clusterClient cluster ms s
      else case he_NewHelper env (hreq s) m of
        Some e \<Rightarrow> (Err (MhcApi e), s)
      | None \<Rightarrow>
          mbind (target_node env clusterClient m) (\<lambda>(n, missing).
          mbind (targets_loop env clusterClient cluster ms) (\<lambda>targets.
            mret (\<lparr>ht_Cluster = cluster, ht_Machine = m, ht_Node = n, ht_MHC = hcs_mhc s, ht_Before = m, ht_nodeMissing = missing\<rparr>
                  # targets))) s)"

definition getTargetsFromMHC :: "'u mhc_env \<Rightarrow> bool \<Rightarrow> health_cluster \<Rightarrow> healthCheckTarget list hcm" where
  "getTargetsFromMHC env clusterClient cluster s =
     (case getMachinesFromMHC env s of
        (Panic, s') \<Rightarrow> (Panic, s')
      | (Err e, s') \<Rightarrow> (Err (MhcWrapped ''error getting machines from MachineHealthCheck'' e), s')
      | (Ret machines, s') \<Rightarrow> targets_loop env clusterClient cluster machines s')"

definition mark_healthy :: "meta_lib \<Rightarrow> int \<Rightarrow> machine \<Rightarrow> machine" where
  "mark_healthy ml now m =
     set_machine_v2 ml now (machine_conditions (\<lambda>cs. conditions_MarkTrue now cs MachineHealthCheckSucceededCondition) m)
       MachineHealthCheckSucceededV1Beta2Condition ConditionTrue ''HealthCheckSucceeded'' []"

text \<open>The healthy targets, the unhealthy ones and the times after which others may become unhealthy.\<close>

fun healthCheckTargets ::
  "'u mhc_env \<Rightarrow> int \<Rightarrow> healthCheckTarget list \<Rightarrow> (healthCheckTarget list \<times> healthCheckTarget list \<times> int list) hcm" where
  "healthCheckTargets env timeoutForMachineToHaveNode [] s = (Ret ([], [], []), s)"
| "healthCheckTargets env timeoutForMachineToHaveNode (t # ts) s =
     mbind (mlift (needsRemediation (he_meta env) (he_Now env (hreq s)) timeoutForMachineToHaveNode t)) (\<lambda>(needs, nextCheck, m) s.
       if needs
       then mbind (healthCheckTargets env timeoutForMachineToHaveNode ts) (\<lambda>(healthy, unhealthy, nextCheckTimes).
              mret (healthy, t\<lparr>ht_Machine := m\<rparr> # unhealthy, nextCheckTimes)) s
       else if nextCheck > 0
       then mbind (healthCheckTargets env timeoutForMachineToHaveNode ts) (\<lambda>(healthy, unhealthy, nextCheckTimes).
              mret (healthy, unhealthy, nextCheck # nextCheckTimes))
              (hrec (MhcEvent ''DetectedUnhealthy'' (''Machine '' @ KRef (om_Namespace (m_Meta m)) (m_Name m) @
                 '' has unhealthy Node '' @ nodeName t)) s)
       else if time_IsZero (m_DeletionTimestamp m) \<and> ht_Node t \<noteq> None
       then mbind (healthCheckTargets env timeoutForMachineToHaveNode ts) (\<lambda>(healthy, unhealthy, nextCheckTimes).
              mret (t\<lparr>ht_Machine := mark_healthy (he_meta env) (he_Now env (hreq s)) m\<rparr> # healthy, unhealthy, nextCheckTimes)) s
       else healthCheckTargets env timeoutForMachineToHaveNode ts s) s"

section \<open>machinehealthcheck_controller.go: short-circuiting\<close>

text \<open>\<^verbatim>\<open>strconv.ParseUint(s, 10, 32)\<close>.\<close>

definition ParseUint32 :: "string \<Rightarrow> nat option" where
  "ParseUint32 t = (case ParseUint10 t of None \<Rightarrow> None | Some n \<Rightarrow> if n < 2 ^ 32 then Some n else None)"

text \<open>Cutting off the brackets panics for a string of fewer than two bytes, the second part if there is no hyphen.\<close>

definition getUnhealthyRange :: "machinehealthcheck \<Rightarrow> (mhc_error, int \<times> int) go" where
  "getUnhealthyRange h =
     go_bind (deref (hs_UnhealthyRange (hc_Spec h))) (\<lambda>r.
       if length r < 2 then Panic
       else case go_split (CHR ''-'') (take (length r - 2) (drop 1 r)) of
              [] \<Rightarrow> Panic
            | p0 # ps \<Rightarrow>
                (case ParseUint32 p0 of None \<Rightarrow> Err (RangeSyntax p0)
                 | Some minVal \<Rightarrow>
                     (case ps of [] \<Rightarrow> Panic
                      | p1 # _ \<Rightarrow>
                          (case ParseUint32 p1 of None \<Rightarrow> Err (RangeSyntax p1)
                           | Some maxVal \<Rightarrow> if maxVal < minVal then Err (RangeOrder maxVal minVal)
                                            else Ret (int minVal, int maxVal)))))"

definition getMaxUnhealthy :: "md_ext \<Rightarrow> machinehealthcheck \<Rightarrow> (mhc_error, int) go" where
  "getMaxUnhealthy ext h =
     (case hs_MaxUnhealthy (hc_Spec h) of None \<Rightarrow> Err MaxUnhealthyNil
      | Some v \<Rightarrow> (case ext_Scaled ext (Some v) (hst_ExpectedMachines (hc_Status h)) False of
                     Inl e \<Rightarrow> Err (ScaledError e) | Inr n \<Rightarrow> Ret n))"

definition unhealthyMachineCount :: "machinehealthcheck \<Rightarrow> int" where
  "unhealthyMachineCount h = i32 (hst_ExpectedMachines (hc_Status h) - hst_CurrentHealthy (hc_Status h))"

definition isAllowedRemediation :: "md_ext \<Rightarrow> machinehealthcheck \<Rightarrow> (mhc_error, bool \<times> int) go" where
  "isAllowedRemediation ext h =
     (if hs_UnhealthyRange (hc_Spec h) \<noteq> None
      then go_bind (getUnhealthyRange h) (\<lambda>(minVal, maxVal).
             Ret (unhealthyMachineCount h \<ge> minVal \<and> unhealthyMachineCount h \<le> maxVal, i32 (maxVal - unhealthyMachineCount h)))
      else go_bind (getMaxUnhealthy ext h) (\<lambda>maxUnhealthy.
             Ret (unhealthyMachineCount h \<le> maxUnhealthy, i32 (maxUnhealthy - unhealthyMachineCount h))))"

section \<open>machinehealthcheck_controller.go: patching the targets\<close>

text \<open>The answer of the patch helper: \<open>None\<close> for success.\<close>

definition patch_target :: "'u mhc_env \<Rightarrow> healthCheckTarget \<Rightarrow> string option hcm" where
  "patch_target env t s =
     (let e = he_Patch env (hreq s) (ht_Before t) (ht_Machine t)
      in (Ret e, hrec (PatchTarget (ht_Machine t) (e = None)) s))"

definition machine_key :: "machine \<Rightarrow> string" where
  "machine_key m = om_Namespace (m_Meta m) @ ''/'' @ m_Name m"

fun patch_all :: "'u mhc_env \<Rightarrow> healthCheckTarget list \<Rightarrow> mhc_error list hcm" where
  "patch_all env [] s = (Ret [], s)"
| "patch_all env (t # ts) s =
     mbind (patch_target env t) (\<lambda>e. mbind (patch_all env ts) (\<lambda>errList.
       mret (case e of None \<Rightarrow> errList
             | Some x \<Rightarrow> MhcWrapped (''failed to patch machine status for machine: '' @ machine_key (ht_Machine t)) (MhcApi x) # errList))) s"

definition remediation_ref :: "object_reference \<Rightarrow> string \<Rightarrow> object_reference" where
  "remediation_ref template machineName =
     empty_reference\<lparr>ref_APIVersion := ref_APIVersion template, ref_Kind := TrimSuffix (ref_Kind template) ''Template'', ref_Name := machineName\<rparr>"

definition getExternalRemediationRequest :: "'u mhc_env \<Rightarrow> object_reference \<Rightarrow> string \<Rightarrow> (get_error + int option) hcm" where
  "getExternalRemediationRequest env template machineName s =
     (Ret (he_GetRequest env (hreq s) (remediation_ref template machineName) (om_Namespace (hc_Meta (hcs_mhc s)))),
      hrec (GetRemediationRequest machineName) s)"

definition externalRemediationRequestExists :: "'u mhc_env \<Rightarrow> object_reference \<Rightarrow> string \<Rightarrow> bool hcm" where
  "externalRemediationRequestExists env template machineName =
     mbind (getExternalRemediationRequest env template machineName) (\<lambda>answer.
       mret (case answer of Inl _ \<Rightarrow> False | Inr _ \<Rightarrow> True))"

text \<open>
  Removing the remediation request of a healthy Machine: the errors, and whether the loop goes on to the patch
  of the Machine.
\<close>

definition clear_request :: "'u mhc_env \<Rightarrow> healthCheckTarget \<Rightarrow> (mhc_error list \<times> bool) hcm" where
  "clear_request env t s =
     (case hs_RemediationTemplate (hc_Spec (hcs_mhc s)) of None \<Rightarrow> (Ret ([], True), s)
      | Some template \<Rightarrow>
          mbind (getExternalRemediationRequest env template (m_Name (ht_Machine t))) (\<lambda>answer s.
            case answer of
              Inl (NotFound _) \<Rightarrow> (Ret ([], False), s)
            | Inl (OtherError e) \<Rightarrow> (Ret ([MhcWrapped ''failed to fetch remediation request'' (MhcApi e)], False), s)
            | Inr deletionTimestamp \<Rightarrow>
                if deletionTimestamp \<noteq> None then (Ret ([], True), s)
                else let s' = hrec (DeleteRemediationRequest (m_Name (ht_Machine t))) s
                     in case he_DeleteRequest env (hreq s) (remediation_ref template (m_Name (ht_Machine t))) of
                          Some (OtherError e) \<Rightarrow> (Ret ([MhcWrapped ''failed to delete'' (MhcApi e)], False), s')
                        | _ \<Rightarrow> (Ret ([], True), s')) s)"

fun patchHealthyTargets :: "'u mhc_env \<Rightarrow> healthCheckTarget list \<Rightarrow> mhc_error list hcm" where
  "patchHealthyTargets env [] s = (Ret [], s)"
| "patchHealthyTargets env (t # ts) s =
     mbind (clear_request env t) (\<lambda>(errs, go_on).
       if \<not> go_on then mbind (patchHealthyTargets env ts) (\<lambda>errList. mret (errs @ errList))
       else mbind (patch_target env t) (\<lambda>e. mbind (patchHealthyTargets env ts) (\<lambda>errList.
              mret (errs @ (case e of None \<Rightarrow> []
                            | Some x \<Rightarrow> [MhcWrapped (''failed to patch healthy machine status for machine: '' @ machine_key (ht_Machine t)) (MhcApi x)])
                         @ errList)))) s"

text \<open>An unhealthy target is either patched or it ends the loop with errors.\<close>

datatype target_step = StopWith "mhc_error list" | PatchWith healthCheckTarget

definition quoted :: "string \<Rightarrow> string" where
  "quoted t = ''\"'' @ t @ ''\"''"

text \<open>The text of the error of \<^verbatim>\<open>external.Get\<close>.\<close>

definition external_Get_error :: "object_reference \<Rightarrow> string \<Rightarrow> string \<Rightarrow> string" where
  "external_Get_error ref ns cause =
     ''failed to retrieve '' @ ref_Kind ref @ '' external object '' @ quoted ns @ ''/'' @ quoted (ref_Name ref) @ '': '' @ cause"

definition mark_mhc :: "int \<Rightarrow> string \<Rightarrow> string \<Rightarrow> string \<Rightarrow> machinehealthcheck \<Rightarrow> machinehealthcheck" where
  "mark_mhc now t reason text =
     mhc_conditions (\<lambda>cs. conditions_MarkFalse now cs t reason ConditionSeverityError (Sprintf0 text))"

definition cloneOwnerRef :: "machine \<Rightarrow> owner_reference" where
  "cloneOwnerRef m = \<lparr>or_APIVersion = clusterv1_version, or_Kind = ''Machine'', or_Name = m_Name m, or_UID = om_UID (m_Meta m), or_Controller = None\<rparr>"

text \<open>
  The conditions that the code sets on the Machine before it returns early are never patched; they are left out.
\<close>

definition external_remediation :: "'u mhc_env \<Rightarrow> object_reference \<Rightarrow> healthCheckTarget \<Rightarrow> target_step hcm" where
  "external_remediation env template t =
     (let m = ht_Machine t; ns = om_Namespace (m_Meta m)
      in mbind (externalRemediationRequestExists env template (m_Name m)) (\<lambda>exists s.
        if exists then (Ret (StopWith []), s)
        else let s1 = hrec (GetTemplate template) s
        in case he_GetTemplate env (hreq s) template ns of
          Inl e \<Rightarrow> (Ret (StopWith [MhcWrapped ''error retrieving remediation template'' (MhcApi (external_Get_error template ns e))]),
                    on_mhc (mark_mhc (he_Now env (hreq s1)) ''ExternalRemediationTemplateAvailable'' ''ExternalRemediationTemplateNotFound''
                      (external_Get_error template ns e)) s1)
        | Inr from_obj \<Rightarrow>
          (case he_GenerateTemplate env from_obj template ns (sp_ClusterName (m_Spec m)) (cloneOwnerRef m) of
            Inl e \<Rightarrow> (Ret (StopWith [MhcWrapped ''failed to create template for remediation request'' (MhcApi e)]), s1)
          | Inr to_obj \<Rightarrow>
            mbind (mlift (deref (conditions_Get (st_Conditions (m_Status m)) MachineHealthCheckSucceededCondition))) (\<lambda>_ s1.
              case he_Create env (hreq s1) to_obj (m_Name m) of
                Some e \<Rightarrow> (Ret (StopWith [MhcWrapped ''error creating remediation request'' (MhcApi e)]),
                    on_mhc (mark_mhc (he_Now env (Suc (hreq s1))) ''ExternalRemediationRequestAvailable'' ''ExternalRemediationRequestCreationFailed'' e)
                      (hrec (CreateRemediationRequest (m_Name m) False) s1))
              | None \<Rightarrow> (Ret (PatchWith (t\<lparr>ht_Machine := set_machine_v2 (he_meta env) (he_Now env (Suc (hreq s1))) m
                             MachineExternallyRemediatedV1Beta2Condition ConditionFalse ''WaitingForRemediation'' []\<rparr>)),
                         hrec (CreateRemediationRequest (m_Name m) True) s1)) s1)))"

definition mark_for_owner :: "meta_lib \<Rightarrow> int \<Rightarrow> machine \<Rightarrow> machine" where
  "mark_for_owner ml now m =
     (let cs = st_Conditions (m_Status m);
          m1 = (if \<not> conditions_Has cs MachineOwnerRemediatedCondition \<or> conditions_IsTrue cs MachineOwnerRemediatedCondition
                then machine_conditions (\<lambda>cs. conditions_MarkFalse now cs MachineOwnerRemediatedCondition ''WaitingForRemediation''
                       ConditionSeverityWarning []) m
                else m)
      in case v2_Get ml (Some (machine_v2 m1)) MachineOwnerRemediatedV1Beta2Condition of
           None \<Rightarrow> set_machine_v2 ml now m1 MachineOwnerRemediatedV1Beta2Condition ConditionFalse ''WaitingForRemediation'' ''Waiting for remediation''
         | Some c \<Rightarrow> if mc_Status c = ConditionTrue
                     then set_machine_v2 ml now m1 MachineOwnerRemediatedV1Beta2Condition ConditionFalse ''WaitingForRemediation''
                            ''Waiting for remediation''
                     else m1)"

definition prepare_unhealthy :: "'u mhc_env \<Rightarrow> health_cluster \<Rightarrow> healthCheckTarget \<Rightarrow> target_step hcm" where
  "prepare_unhealthy env cluster t s =
     (let m = ht_Machine t; condition = deref (conditions_Get (st_Conditions (m_Status m)) MachineHealthCheckSucceededCondition)
      in if IsPaused cluster (m_Meta m) then mbind (mlift condition) (\<lambda>_. mret (PatchWith t)) s
         else case hs_RemediationTemplate (hc_Spec (hcs_mhc s)) of
           Some template \<Rightarrow> external_remediation env template t s
         | None \<Rightarrow> mbind (mlift condition) (\<lambda>_ s. (Ret (PatchWith (t\<lparr>ht_Machine := mark_for_owner (he_meta env) (he_Now env (hreq s)) m\<rparr>)), s)) s)"

fun patchUnhealthyTargets :: "'u mhc_env \<Rightarrow> health_cluster \<Rightarrow> healthCheckTarget list \<Rightarrow> mhc_error list hcm" where
  "patchUnhealthyTargets env cluster [] s = (Ret [], s)"
| "patchUnhealthyTargets env cluster (t # ts) s =
     mbind (prepare_unhealthy env cluster t) (\<lambda>next_step.
       case next_step of
         StopWith errs \<Rightarrow> mret errs
       | PatchWith t' \<Rightarrow>
           mbind (patch_target env t') (\<lambda>e.
             case e of
               Some x \<Rightarrow> mbind (patchUnhealthyTargets env cluster ts) (\<lambda>errList.
                 mret (MhcWrapped (''failed to patch unhealthy machine status for machine: '' @ machine_key (ht_Machine t')) (MhcApi x) # errList))
             | None \<Rightarrow> (\<lambda>s. patchUnhealthyTargets env cluster ts
                 (hrec (MhcEvent ''MachineMarkedUnhealthy'' (''Machine '' @ target_string t' @ '' has been marked as unhealthy'')) s)))) s"

section \<open>machinehealthcheck_controller.go: a reconciliation\<close>

text \<open>The client for the workload cluster is there only if the control plane is initialized.\<close>

definition remote_client :: "'u mhc_env \<Rightarrow> health_cluster \<Rightarrow> bool hcm" where
  "remote_client env cluster s =
     (if \<not> conditions_IsTrue (clh_Conditions cluster) ControlPlaneInitializedCondition then (Ret False, s)
      else case he_GetClient env (hreq s) of
        Some e \<Rightarrow> (Err (MhcApi e), s)
      | None \<Rightarrow> (case he_Watch env (hreq s) of
          Some e \<Rightarrow> (Err (MhcApi e), hrec WatchNodes s)
        | None \<Rightarrow> (Ret True, hrec WatchNodes s)))"

definition own_by_cluster :: "'u mhc_env \<Rightarrow> health_cluster \<Rightarrow> machinehealthcheck \<Rightarrow> machinehealthcheck" where
  "own_by_cluster env cluster h =
     h\<lparr>hc_Meta := (hc_Meta h)\<lparr>om_OwnerReferences := EnsureOwnerRef (he_Group env) (om_OwnerReferences (hc_Meta h))
         \<lparr>or_APIVersion = clusterv1_version, or_Kind = ''Cluster'', or_Name = clv_Name cluster, or_UID = clv_UID cluster, or_Controller = None\<rparr>\<rparr>\<rparr>"

definition set_targets :: "healthCheckTarget list \<Rightarrow> machinehealthcheck \<Rightarrow> machinehealthcheck" where
  "set_targets targets h =
     h\<lparr>hc_Status := (hc_Status h)\<lparr>hst_ExpectedMachines := i32 (int (length targets)),
         hst_Targets := go_sort (<) (map (\<lambda>t. m_Name (ht_Machine t)) targets)\<rparr>\<rparr>"

definition set_healthy :: "healthCheckTarget list \<Rightarrow> machinehealthcheck \<Rightarrow> machinehealthcheck" where
  "set_healthy healthy h = h\<lparr>hc_Status := (hc_Status h)\<lparr>hst_CurrentHealthy := i32 (int (length healthy))\<rparr>\<rparr>"

abbreviation DefaultNodeStartupTimeout :: int where "DefaultNodeStartupTimeout \<equiv> 600 * time_Second"

definition restricted_message :: "machinehealthcheck \<Rightarrow> nat \<Rightarrow> nat \<Rightarrow> string" where
  "restricted_message h totalTargets unhealthy =
     (case hs_UnhealthyRange (hc_Spec h) of
        None \<Rightarrow> ''Remediation is not allowed, the number of not started or unhealthy machines exceeds maxUnhealthy (total: '' @
          format_nat totalTargets @ '', unhealthy: '' @ format_nat unhealthy @ '', maxUnhealthy: '' @
          int_or_string_String (hs_MaxUnhealthy (hc_Spec h)) @ '')''
      | Some r \<Rightarrow> ''Remediation is not allowed, the number of not started or unhealthy machines does not fall within the range (total: '' @
          format_nat totalTargets @ '', unhealthy: '' @ format_nat unhealthy @ '', unhealthyRange: '' @ r @ '')'')"

definition set_allowed :: "meta_lib \<Rightarrow> int \<Rightarrow> int \<Rightarrow> machinehealthcheck \<Rightarrow> machinehealthcheck" where
  "set_allowed ml now remediationCount h =
     set_mhc_v2 ml now RemediationAllowedCondition ConditionTrue ''RemediationAllowed'' []
       (mhc_conditions (\<lambda>cs. conditions_MarkTrue now cs RemediationAllowedCondition)
         (h\<lparr>hc_Status := (hc_Status h)\<lparr>hst_RemediationsAllowed := remediationCount\<rparr>\<rparr>))"

definition set_restricted :: "meta_lib \<Rightarrow> int \<Rightarrow> string \<Rightarrow> machinehealthcheck \<Rightarrow> machinehealthcheck" where
  "set_restricted ml now message h =
     set_mhc_v2 ml now RemediationAllowedCondition ConditionFalse ''TooManyUnhealthy'' message
       (mhc_conditions (\<lambda>cs. conditions_Set now cs (Some \<lparr>c_Type = RemediationAllowedCondition, c_Status = ConditionFalse,
            c_Severity = ConditionSeverityWarning, c_LastTransitionTime = 0, c_Reason = ''TooManyUnhealthy'', c_Message = message\<rparr>))
         (h\<lparr>hc_Status := (hc_Status h)\<lparr>hst_RemediationsAllowed := 0\<rparr>\<rparr>))"

definition restrict_remediation :: "'u mhc_env \<Rightarrow> nat \<Rightarrow> healthCheckTarget list \<Rightarrow> healthCheckTarget list \<Rightarrow> ctrl_result hcm" where
  "restrict_remediation env totalTargets healthy unhealthy s =
     (let message = restricted_message (hcs_mhc s) totalTargets (length unhealthy);
          s1 = on_mhc (set_restricted (he_meta env) (he_Now env (hreq s)) message) s;
          s2 = (if length unhealthy \<noteq> 0 then hrec (MhcEvent ''RemediationRestricted'' message) s1 else s1)
      in mbind (patch_all env (healthy @ unhealthy)) (\<lambda>errList.
           if errList \<noteq> [] then mlift (Err (MhcAggregate errList))
           else mret \<lparr>res_Requeue = True, res_RequeueAfter = 0\<rparr>) s2)"

definition allow_remediation ::
  "'u mhc_env \<Rightarrow> health_cluster \<Rightarrow> int \<Rightarrow> healthCheckTarget list \<Rightarrow> healthCheckTarget list \<Rightarrow> int list \<Rightarrow> ctrl_result hcm" where
  "allow_remediation env cluster remediationCount healthy unhealthy nextCheckTimes s =
     mbind (patchUnhealthyTargets env cluster unhealthy) (\<lambda>errs.
     mbind (patchHealthyTargets env healthy) (\<lambda>errs'.
       if errs @ errs' \<noteq> [] then mlift (Err (MhcAggregate (errs @ errs')))
       else if minDuration nextCheckTimes > 0 then mret \<lparr>res_Requeue = False, res_RequeueAfter = minDuration nextCheckTimes\<rparr>
       else mret result_zero))
     (on_mhc (set_allowed (he_meta env) (he_Now env (hreq s)) remediationCount) s)"

definition check_targets :: "'u mhc_env \<Rightarrow> health_cluster \<Rightarrow> healthCheckTarget list \<Rightarrow> ctrl_result hcm" where
  "check_targets env cluster targets s =
     mbind (healthCheckTargets env (ptr_deref (hs_NodeStartupTimeout (hc_Spec (hcs_mhc s))) DefaultNodeStartupTimeout) targets)
       (\<lambda>(healthy, unhealthy, nextCheckTimes) s.
         let s1 = on_mhc (set_healthy healthy) s
         in case isAllowedRemediation (he_ext env) (hcs_mhc s1) of
              Panic \<Rightarrow> (Panic, s1)
            | Err e \<Rightarrow> (Err (MhcWrapped ''error checking if remediation is allowed'' e), s1)
            | Ret (remediationAllowed, remediationCount) \<Rightarrow>
                if \<not> remediationAllowed then restrict_remediation env (length targets) healthy unhealthy s1
                else allow_remediation env cluster remediationCount healthy unhealthy nextCheckTimes s1)
       (on_mhc (set_targets targets) s)"

definition mhc_reconcile :: "'u mhc_env \<Rightarrow> health_cluster \<Rightarrow> ctrl_result hcm" where
  "mhc_reconcile env cluster s =
     mbind (remote_client env cluster) (\<lambda>clusterClient.
     mbind (getTargetsFromMHC env clusterClient cluster) (check_targets env cluster))
     (on_mhc (own_by_cluster env cluster) s)"

section \<open>util/paused/paused.go\<close>

definition pausedCondition :: "health_cluster \<Rightarrow> machinehealthcheck \<Rightarrow> meta_condition" where
  "pausedCondition cluster h =
     (let messages = (if clh_Paused cluster then [''Cluster spec.paused is set to true''] else []) @
            (if HasPaused (hc_Meta h) then [''MachineHealthCheck has the cluster.x-k8s.io/paused annotation''] else [])
      in if clh_Paused cluster \<or> HasPaused (hc_Meta h)
         then (new_meta_condition PausedV1Beta2Condition ConditionTrue ''Paused'' (go_join '', '' messages))
                \<lparr>mc_ObservedGeneration := om_Generation (hc_Meta h)\<rparr>
         else (new_meta_condition PausedV1Beta2Condition ConditionFalse ''NotPaused'' [])
                \<lparr>mc_ObservedGeneration := om_Generation (hc_Meta h)\<rparr>)"

definition patch_mhc :: "'u mhc_env \<Rightarrow> machinehealthcheck \<Rightarrow> unit hcm" where
  "patch_mhc env before s =
     (case he_PatchMHC env (hreq s) before (hcs_mhc s) of
        None \<Rightarrow> (Ret (), hrec (PatchMHC (hcs_mhc s)) s) | Some e \<Rightarrow> (Err (MhcApi e), hrec (PatchMHC (hcs_mhc s)) s))"

text \<open>Whether the object is paused and whether the condition has changed.\<close>

definition EnsurePausedCondition :: "'u mhc_env \<Rightarrow> health_cluster \<Rightarrow> (bool \<times> bool) hcm" where
  "EnsurePausedCondition env cluster s =
     (let h = hcs_mhc s; newCondition = pausedCondition cluster h; isPaused = (mc_Status newCondition = ConditionTrue);
          change = (case he_NewMHCHelper env (hreq s) h of
              Some e \<Rightarrow> (Err (MhcApi e), s)
            | None \<Rightarrow> mbind (patch_mhc env h) (\<lambda>_. mret (isPaused, True))
                (on_mhc (\<lambda>h. put_mhc_v2 h (v2_Set (he_meta env) (he_Now env (hreq s)) (Some defaultSortLessFunc) (Some (mhc_v2 h)) newCondition)) s))
      in case v2_Get (he_meta env) (Some (mhc_v2 h)) PausedV1Beta2Condition of
           Some oldCondition \<Rightarrow> if v2_HasSameState oldCondition newCondition then (Ret (isPaused, False), s) else change
         | None \<Rightarrow> change)"

section \<open>machinehealthcheck_controller.go: Reconcile\<close>

fun mhc_not_connected :: "(string \<Rightarrow> bool) \<Rightarrow> mhc_error \<Rightarrow> bool" where
  "mhc_not_connected p (MhcApi e) = p e"
| "mhc_not_connected p (MhcWrapped _ e) = mhc_not_connected p e"
| "mhc_not_connected p (MhcAggregate es) = list_ex (mhc_not_connected p) es"
| "mhc_not_connected p _ = False"

definition reconcile_label :: "machinehealthcheck \<Rightarrow> machinehealthcheck" where
  "reconcile_label h = h\<lparr>hc_Meta := (hc_Meta h)\<lparr>om_Labels :=
     Some ((map_make (om_Labels (hc_Meta h)))(ClusterNameLabel \<mapsto> hs_ClusterName (hc_Spec h)))\<rparr>\<rparr>"

text \<open>The deferred patch sets the observed generation unless the reconciliation has returned an error; it also runs when it panics.\<close>

definition deferred_patch :: "'u mhc_env \<Rightarrow> machinehealthcheck \<Rightarrow> (mhc_error, ctrl_result) go \<Rightarrow> ctrl_result hcm" where
  "deferred_patch env before r s =
     (let s1 = (case r of Err _ \<Rightarrow> s
                | _ \<Rightarrow> on_mhc (\<lambda>h. h\<lparr>hc_Status := (hc_Status h)\<lparr>hst_ObservedGeneration := om_Generation (hc_Meta h)\<rparr>\<rparr>) s)
      in case (r, patch_mhc env before s1) of
           (Panic, (_, s')) \<Rightarrow> (Panic, s')
         | (_, (Panic, s')) \<Rightarrow> (Panic, s')
         | (Ret x, (Ret _, s')) \<Rightarrow> (Ret x, s')
         | (Ret x, (Err e, s')) \<Rightarrow> (Err (MhcAggregate [e]), s')
         | (Err e, (Ret _, s')) \<Rightarrow> (Err e, s')
         | (Err e, (Err e', s')) \<Rightarrow> (Err (MhcAggregate [e, e']), s'))"

definition requeue_if_not_connected :: "'u mhc_env \<Rightarrow> ctrl_result hcm \<Rightarrow> ctrl_result hcm" where
  "requeue_if_not_connected env f s =
     (case f s of
        (Err e, s') \<Rightarrow> (if mhc_not_connected (he_NotConnected env) e
                        then Ret \<lparr>res_Requeue = False, res_RequeueAfter = 60 * time_Second\<rparr> else Err e, s')
      | rs \<Rightarrow> rs)"

definition mhc_Reconcile :: "'u mhc_env \<Rightarrow> ctrl_result hcm" where
  "mhc_Reconcile env s =
     (case he_GetMHC env (hreq s) of
        Inl (NotFound _) \<Rightarrow> (Ret result_zero, s)
      | Inl (OtherError e) \<Rightarrow> (Err (MhcApi e), s)
      | Inr h \<Rightarrow>
          (case he_GetCluster env (hreq s) (om_Namespace (hc_Meta h)) (hs_ClusterName (hc_Spec h)) of
             Inl e \<Rightarrow> (Err (MhcApi e), s)
           | Inr cluster \<Rightarrow>
               mbind (EnsurePausedCondition env cluster) (\<lambda>(isPaused, conditionChanged) s.
                 if isPaused \<or> conditionChanged then (Ret result_zero, s)
                 else let before = hcs_mhc s
                 in case he_NewMHCHelper env (hreq s) before of
                   Some e \<Rightarrow> (Err (MhcApi e), s)
                 | None \<Rightarrow>
                     (case requeue_if_not_connected env (mhc_reconcile env cluster) (on_mhc reconcile_label s) of
                        (r, s') \<Rightarrow> deferred_patch env before r s'))
                 (on_mhc (\<lambda>_. h) s)))"

section \<open>Mapping of events\<close>

text \<open>\<^verbatim>\<open>selector\<close> is what the library makes of a label selector: an error, or whether it is empty and which labels it matches.\<close>

definition HasMatchingLabels :: "(label_selector \<Rightarrow> (bool \<times> (string_map \<Rightarrow> bool)) option) \<Rightarrow> label_selector \<Rightarrow> string_map \<Rightarrow> bool" where
  "HasMatchingLabels asSelector matchSelector matchLabels =
     (case asSelector matchSelector of None \<Rightarrow> False
      | Some (is_empty, matches) \<Rightarrow> if is_empty then False else if \<not> matches matchLabels then False else True)"

definition mhc_key :: "machinehealthcheck \<Rightarrow> string \<times> string" where
  "mhc_key h = (om_Namespace (hc_Meta h), om_Name (hc_Meta h))"

text \<open>The argument \<open>mhcs\<close> is the answer to the list request, by namespace and the name of the cluster.\<close>

definition clusterToMachineHealthCheck ::
  "(string \<Rightarrow> string \<Rightarrow> machinehealthcheck list option) \<Rightarrow> health_cluster \<Rightarrow> (string \<times> string) list" where
  "clusterToMachineHealthCheck mhcs c =
     (case mhcs (clv_Namespace c) (clv_Name c) of None \<Rightarrow> [] | Some items \<Rightarrow> map mhc_key items)"

definition machineToMachineHealthCheck ::
  "(label_selector \<Rightarrow> (bool \<times> (string_map \<Rightarrow> bool)) option) \<Rightarrow> (string \<Rightarrow> string \<Rightarrow> machinehealthcheck list option) \<Rightarrow> machine \<Rightarrow>
   (string \<times> string) list" where
  "machineToMachineHealthCheck asSelector mhcs m =
     (case mhcs (om_Namespace (m_Meta m)) (sp_ClusterName (m_Spec m)) of None \<Rightarrow> []
      | Some items \<Rightarrow> map mhc_key (filter (\<lambda>h. HasMatchingLabels asSelector (hs_Selector (hc_Spec h)) (om_Labels (m_Meta m))) items))"

text \<open>\<open>None\<close> for an error, also if not exactly one Machine refers to the node.\<close>

definition getMachineFromNode :: "(string \<Rightarrow> machine list option) \<Rightarrow> string \<Rightarrow> machine option" where
  "getMachineFromNode machineList node_name =
     (case machineList node_name of None \<Rightarrow> None
      | Some ms \<Rightarrow>
          (case filter (\<lambda>m. case st_NodeRef (m_Status m) of None \<Rightarrow> False | Some ref \<Rightarrow> ref_Name ref = node_name) ms of
             [m] \<Rightarrow> Some m | _ \<Rightarrow> None))"

definition nodeToMachineHealthCheck ::
  "(label_selector \<Rightarrow> (bool \<times> (string_map \<Rightarrow> bool)) option) \<Rightarrow> (string \<Rightarrow> string \<Rightarrow> machinehealthcheck list option) \<Rightarrow>
   (string \<Rightarrow> machine list option) \<Rightarrow> string \<Rightarrow> (string \<times> string) list" where
  "nodeToMachineHealthCheck asSelector mhcs machineList node_name =
     (case getMachineFromNode machineList node_name of None \<Rightarrow> [] | Some m \<Rightarrow> machineToMachineHealthCheck asSelector mhcs m)"

end
