(* ===== verification/Mhc_Health.thy ===== *)
theory Mhc_Health
  imports Mhc_Controller
begin

text \<open>
  The verdict of a MachineHealthCheck on one Machine: when it is unhealthy, and when it has to be looked at again.
\<close>

section \<open>The verdict on a target\<close>

definition failed_target :: "healthCheckTarget \<Rightarrow> bool" where
  "failed_target t \<longleftrightarrow> HasRemediateMachine (m_Meta (ht_Machine t)) \<or> st_FailureReason (m_Status (ht_Machine t)) \<noteq> None \<or>
     st_FailureMessage (m_Status (ht_Machine t)) \<noteq> None \<or> ht_nodeMissing t"

definition judged_target :: "healthCheckTarget \<Rightarrow> bool" where
  "judged_target t \<longleftrightarrow> (conditions_IsTrue (clh_Conditions (ht_Cluster t)) ControlPlaneInitializedCondition \<or> IsControlPlaneMachine (ht_Machine t)) \<and>
     conditions_IsTrue (clh_Conditions (ht_Cluster t)) InfrastructureReadyCondition"

text \<open>The times from which the target is overdue, one for each thing that is waited for.\<close>

definition node_deadline :: "'a node_scheme \<Rightarrow> unhealthy_condition \<Rightarrow> int option" where
  "node_deadline n c =
     (case getNodeCondition n (uc_Type c) of None \<Rightarrow> None
      | Some x \<Rightarrow> if nc_Status x = uc_Status c then Some (nc_LastTransitionTime x + uc_Timeout c) else None)"

definition deadlines :: "int \<Rightarrow> healthCheckTarget \<Rightarrow> int list" where
  "deadlines timeout t =
     (case ht_Node t of
        None \<Rightarrow> if timeout = 0 then [] else [comparison_time t + timeout]
      | Some n \<Rightarrow> List.map_filter (node_deadline n) (hs_UnhealthyConditions (hc_Spec (ht_MHC t))))"

definition unhealthy_at :: "int \<Rightarrow> int \<Rightarrow> healthCheckTarget \<Rightarrow> bool" where
  "unhealthy_at timeout now t \<longleftrightarrow> failed_target t \<or> judged_target t \<and> (\<exists>x \<in> set (deadlines timeout t). x < now)"

text \<open>Times and timeouts far from the bounds of an \<^verbatim>\<open>int64\<close> of nanoseconds (about 73 years).\<close>

definition times_ok :: "int \<Rightarrow> int \<Rightarrow> healthCheckTarget \<Rightarrow> bool" where
  "times_ok timeout now t \<longleftrightarrow>
     (case ht_Node t of
        None \<Rightarrow> \<bar>timeout\<bar> < 2 ^ 61 \<and> \<bar>now - comparison_time t\<bar> < 2 ^ 61
      | Some n \<Rightarrow> \<forall>c \<in> set (hs_UnhealthyConditions (hc_Spec (ht_MHC t))). \<bar>uc_Timeout c\<bar> < 2 ^ 61 \<and>
          (\<forall>x. getNodeCondition n (uc_Type c) = Some x \<longrightarrow> \<bar>now - nc_LastTransitionTime x\<bar> < 2 ^ 61))"

lemma next_check_exact:
  assumes "\<bar>timeout\<bar> < 2 ^ 61" "\<bar>now - x\<bar> < 2 ^ 61"
  shows "i64 (i64 (timeout - time_Sub now x) + time_Second) = x + timeout - now + time_Second"
proof -
  have b: "- (2 ^ 61) < timeout" "timeout < 2 ^ 61" "- (2 ^ 61) < now - x" "now - x < 2 ^ 61" using assms by linarith+
  then have "time_Sub now x = now - x" by (simp add: time_Sub_def)
  moreover have "i64 y = y" if "\<bar>y\<bar> < 2 ^ 63" for y using that by (simp add: i64_def)
  then have "i64 (timeout - (now - x)) = timeout - (now - x)" "i64 (timeout - (now - x) + time_Second) = timeout - (now - x) + time_Second"
    using b by simp_all
  ultimately show ?thesis by simp
qed

lemma minDuration_fold: "foldl (\<lambda>m nc. if nc < m then nc else m) d ds = Min (set (d # (ds :: int list)))"
proof (induction ds arbitrary: d)
  case (Cons a ds)
  then show ?case by (cases ds) (auto simp: min_def)
qed simp

lemma minDuration_eq: "minDuration ds = (if ds = [] then 0 else Min (set ds))"
  unfolding minDuration_def by (cases ds) (simp_all add: minDuration_fold del: foldl_Cons)

lemma check_conditions_spec:
  assumes "\<And>c x. c \<in> set cs \<Longrightarrow> getNodeCondition n (uc_Type c) = Some x \<Longrightarrow> \<bar>now - nc_LastTransitionTime x\<bar> < 2 ^ 61"
    and "\<And>c. c \<in> set cs \<Longrightarrow> \<bar>uc_Timeout c\<bar> < 2 ^ 61"
  shows "if \<exists>x \<in> set (List.map_filter (node_deadline n) cs). x < now then \<exists>c. fst (check_conditions now n cs acc) = Some c
    else check_conditions now n cs acc = (None, acc @ map (\<lambda>x. x - now + time_Second) (List.map_filter (node_deadline n) cs))"
  using assms
proof (induction cs arbitrary: acc)
  case Nil
  then show ?case by simp
next
  case (Cons c cs)
  have IH: "if \<exists>x \<in> set (List.map_filter (node_deadline n) cs). x < now then \<exists>c. fst (check_conditions now n cs acc) = Some c
    else check_conditions now n cs acc = (None, acc @ map (\<lambda>x. x - now + time_Second) (List.map_filter (node_deadline n) cs))" for acc
    by (rule Cons.IH) (use Cons.prems in auto)
  show ?case
  proof (cases "getNodeCondition n (uc_Type c)")
    case None
    then have "node_deadline n c = None" by (simp add: node_deadline_def)
    then show ?thesis using None IH by (simp add: map_filter_simps)
  next
    case (Some x)
    have nx: "i64 (i64 (uc_Timeout c - time_Sub now (nc_LastTransitionTime x)) + time_Second) =
        nc_LastTransitionTime x + uc_Timeout c - now + time_Second"
      by (rule next_check_exact) (use Cons.prems(1) [OF _ Some] Cons.prems(2) [of c] in auto)
    show ?thesis
    proof (cases "nc_Status x = uc_Status c \<and> nc_LastTransitionTime x + uc_Timeout c < now")
      case True
      then have "node_deadline n c = Some (nc_LastTransitionTime x + uc_Timeout c)" using Some by (simp add: node_deadline_def)
      then show ?thesis using Some True by (simp add: map_filter_simps)
    next
      case False
      have "node_deadline n c = (if nc_Status x = uc_Status c then Some (nc_LastTransitionTime x + uc_Timeout c) else None)"
        using Some by (simp add: node_deadline_def)
      then show ?thesis using Some False nx IH [of acc] IH [of "acc @ [nc_LastTransitionTime x + uc_Timeout c - now + time_Second]"]
        by (auto simp: map_filter_simps split: if_splits)
    qed
  qed
qed

lemma machine_conditions_frame [simp]:
  "m_Meta (machine_conditions f m) = m_Meta m" "m_Spec (machine_conditions f m) = m_Spec m"
  by (simp_all add: machine_conditions_def split: option.splits)

lemma set_machine_v2_frame [simp]:
  "m_Meta (set_machine_v2 ml now m t st r msg) = m_Meta m" "m_Conditions (set_machine_v2 ml now m t st r msg) = m_Conditions m"
  by (simp_all add: set_machine_v2_def put_machine_v2_def split: option.splits)

lemma MarkFalse_conditions:
  "m_Conditions (machine_conditions (\<lambda>cs. conditions_MarkFalse now cs t r sv msg) m) =
     set_latest now (m_Conditions m) (FalseCondition t r sv msg)"
  by (simp add: machine_conditions_def conditions_MarkFalse_def Set_eq)

lemma MarkTrue_conditions:
  "m_Conditions (machine_conditions (\<lambda>cs. conditions_MarkTrue now cs t) m) = set_latest now (m_Conditions m) (TrueCondition t)"
  by (simp add: machine_conditions_def conditions_MarkTrue_def Set_eq)

text \<open>A Machine after the check: the condition for the health check has been written and nothing else that matters here.\<close>

definition checked :: "string \<Rightarrow> machine \<Rightarrow> machine \<Rightarrow> bool" where
  "checked status m m' \<longleftrightarrow> m_Meta m' = m_Meta m \<and> (wf_conditions (m_Conditions m) \<longrightarrow> wf_conditions (m_Conditions m') \<and>
     (\<exists>c. c_Status c = status \<and> conditions_Get (m_Conditions m') = (conditions_Get (m_Conditions m))(MachineHealthCheckSucceededCondition \<mapsto> c)))"

lemma stamped_status_v1 [simp]: "c_Status (stamped now old c) = c_Status c"
  by (auto simp: stamped_def HasSameState_def split: option.splits)

lemma set_latest_checked:
  assumes "wf_conditions cs"
  shows "wf_conditions (set_latest now cs c)" "\<exists>x. c_Status x = c_Status c \<and> conditions_Get (set_latest now cs c) = (conditions_Get cs)(c_Type c \<mapsto> x)"
  using wf_set_latest [OF assms] Get_set_latest [OF assms, where now = now and c = c] stamped_status_v1 by blast+

lemma mark_checked:
  "checked ConditionFalse m (mark_unhealthy now r msg m)" "checked ConditionFalse m (mark_unhealthy_both ml now r msg r2 msg2 m)"
  "checked ConditionTrue m (mark_healthy ml now m)"
  using set_latest_checked [of "m_Conditions m", where now = now and c = "FalseCondition MachineHealthCheckSucceededCondition r ConditionSeverityWarning msg"]
    set_latest_checked [of "m_Conditions m", where now = now and c = "TrueCondition MachineHealthCheckSucceededCondition"]
  by (auto simp: checked_def mark_unhealthy_def mark_unhealthy_both_def mark_healthy_def MarkFalse_conditions MarkTrue_conditions
      FalseCondition_def TrueCondition_def)

lemma node_health_eq:
  assumes "ht_Node t = Some n" "times_ok timeout now t"
  shows "\<exists>m. node_health ml now n t = (\<exists>x \<in> set (deadlines timeout t). x < now,
      if \<exists>x \<in> set (deadlines timeout t). x < now then 0 else minDuration (map (\<lambda>x. x - now + time_Second) (deadlines timeout t)), m) \<and>
      (if \<exists>x \<in> set (deadlines timeout t). x < now then checked ConditionFalse (ht_Machine t) m else m = ht_Machine t)"
proof -
  have "if \<exists>x \<in> set (deadlines timeout t). x < now
    then \<exists>c. fst (check_conditions now n (hs_UnhealthyConditions (hc_Spec (ht_MHC t))) []) = Some c
    else check_conditions now n (hs_UnhealthyConditions (hc_Spec (ht_MHC t))) [] = (None, [] @ map (\<lambda>x. x - now + time_Second) (deadlines timeout t))"
    unfolding deadlines_def assms(1) option.case
    by (rule check_conditions_spec) (use assms in \<open>auto simp: times_ok_def\<close>)
  then show ?thesis using mark_checked(2)
    by (cases "check_conditions now n (hs_UnhealthyConditions (hc_Spec (ht_MHC t))) []")
      (auto simp: node_health_def split: if_splits)
qed

lemma node_startup_eq:
  assumes "ht_Node t = None" "times_ok timeout now t"
  shows "\<exists>m. node_startup ml now timeout t = (\<exists>x \<in> set (deadlines timeout t). x < now,
      if \<exists>x \<in> set (deadlines timeout t). x < now then 0 else minDuration (map (\<lambda>x. x - now + time_Second) (deadlines timeout t)), m) \<and>
      (if \<exists>x \<in> set (deadlines timeout t). x < now then checked ConditionFalse (ht_Machine t) m else m = ht_Machine t)"
  using assms next_check_exact [of timeout now "comparison_time t"] mark_checked(2)
  by (auto simp: node_startup_def deadlines_def times_ok_def minDuration_def Let_def)

lemma needsRemediation_eq:
  assumes "times_ok timeout now t" "ht_nodeMissing t \<longrightarrow> st_NodeRef (m_Status (ht_Machine t)) \<noteq> None"
  shows "\<exists>m. needsRemediation ml now timeout t = Ret (unhealthy_at timeout now t,
      if unhealthy_at timeout now t \<or> \<not> judged_target t then 0 else minDuration (map (\<lambda>x. x - now + time_Second) (deadlines timeout t)), m) \<and>
      (if unhealthy_at timeout now t then checked ConditionFalse (ht_Machine t) m else m = ht_Machine t)"
proof (cases "failed_target t")
  case True
  then show ?thesis using assms(2) mark_checked(1,2)
    by (auto simp: needsRemediation_def failed_target_def unhealthy_at_def Let_def split: option.splits)
next
  case nf: False
  then have f: "\<not> HasRemediateMachine (m_Meta (ht_Machine t))" "st_FailureReason (m_Status (ht_Machine t)) = None"
    "st_FailureMessage (m_Status (ht_Machine t)) = None" "\<not> ht_nodeMissing t" by (auto simp: failed_target_def)
  show ?thesis
  proof (cases "judged_target t")
    case False
    then show ?thesis using f nf by (auto simp: needsRemediation_def judged_target_def unhealthy_at_def Let_def)
  next
    case True
    then have eq: "needsRemediation ml now timeout t =
        Ret (case ht_Node t of None \<Rightarrow> node_startup ml now timeout t | Some n \<Rightarrow> node_health ml now n t)"
      using f by (auto simp: needsRemediation_def judged_target_def Let_def split: option.splits)
    obtain m where m: "(case ht_Node t of None \<Rightarrow> node_startup ml now timeout t | Some n \<Rightarrow> node_health ml now n t) =
        (\<exists>x \<in> set (deadlines timeout t). x < now,
         if \<exists>x \<in> set (deadlines timeout t). x < now then 0 else minDuration (map (\<lambda>x. x - now + time_Second) (deadlines timeout t)), m)"
        "if \<exists>x \<in> set (deadlines timeout t). x < now then checked ConditionFalse (ht_Machine t) m else m = ht_Machine t"
      using node_health_eq [OF _ assms(1), of _ ml] node_startup_eq [OF _ assms(1), of ml] by (cases "ht_Node t") auto
    show ?thesis unfolding eq m(1) unhealthy_at_def using True nf m(2) by simp
  qed
qed

lemma check_conditions_found:
  "fst (check_conditions now n cs acc) \<noteq> None \<longleftrightarrow> (\<exists>x \<in> set (List.map_filter (node_deadline n) cs). x < now)"
proof (induction cs arbitrary: acc)
  case Nil
  then show ?case by simp
next
  case (Cons c cs)
  show ?case
  proof (cases "getNodeCondition n (uc_Type c)")
    case None
    then have "node_deadline n c = None" by (simp add: node_deadline_def)
    then show ?thesis using None Cons [of acc] by (simp add: map_filter_simps)
  next
    case (Some x)
    then have "node_deadline n c = (if nc_Status x = uc_Status c then Some (nc_LastTransitionTime x + uc_Timeout c) else None)"
      by (simp add: node_deadline_def)
    then show ?thesis using Some Cons by (auto simp: map_filter_simps Let_def)
  qed
qed

text \<open>The verdict itself does not depend on the range of the times.\<close>

lemma needsRemediation_verdict:
  assumes "needsRemediation ml now timeout t = Ret (b, d, m)"
  shows "b = unhealthy_at timeout now t" "if b then checked ConditionFalse (ht_Machine t) m else m = ht_Machine t"
proof -
  have nh: "fst (node_health ml now n t) = (\<exists>x \<in> set (deadlines timeout t). x < now) \<and>
      (if fst (node_health ml now n t) then checked ConditionFalse (ht_Machine t) (snd (snd (node_health ml now n t)))
       else snd (snd (node_health ml now n t)) = ht_Machine t)" if n: "ht_Node t = Some n" for n
    using check_conditions_found [of now n "hs_UnhealthyConditions (hc_Spec (ht_MHC t))" "[]"] n mark_checked(2)
    by (cases "check_conditions now n (hs_UnhealthyConditions (hc_Spec (ht_MHC t))) []")
      (auto simp: node_health_def deadlines_def split: option.splits)
  have ns: "fst (node_startup ml now timeout t) = (\<exists>x \<in> set (deadlines timeout t). x < now) \<and>
      (if fst (node_startup ml now timeout t) then checked ConditionFalse (ht_Machine t) (snd (snd (node_startup ml now timeout t)))
       else snd (snd (node_startup ml now timeout t)) = ht_Machine t)" if "ht_Node t = None"
    using that mark_checked(2) by (auto simp: node_startup_def deadlines_def Let_def)
  have "b = unhealthy_at timeout now t \<and> (if b then checked ConditionFalse (ht_Machine t) m else m = ht_Machine t)"
  proof (cases "failed_target t")
    case True
    then show ?thesis using assms mark_checked(1,2)
      by (cases "st_NodeRef (m_Status (ht_Machine t))"; cases "HasRemediateMachine (m_Meta (ht_Machine t))")
        (auto simp: needsRemediation_def failed_target_def unhealthy_at_def Let_def split: option.splits)
  next
    case nf: False
    then have f: "\<not> HasRemediateMachine (m_Meta (ht_Machine t))" "st_FailureReason (m_Status (ht_Machine t)) = None"
      "st_FailureMessage (m_Status (ht_Machine t)) = None" "\<not> ht_nodeMissing t" by (auto simp: failed_target_def)
    show ?thesis
    proof (cases "judged_target t")
      case False
      then have "needsRemediation ml now timeout t = Ret (False, 0, ht_Machine t)"
        using f by (auto simp: needsRemediation_def judged_target_def Let_def)
      then show ?thesis using False nf assms by (auto simp: unhealthy_at_def)
    next
      case True
      then have "(case ht_Node t of None \<Rightarrow> node_startup ml now timeout t | Some n \<Rightarrow> node_health ml now n t) = (b, d, m)"
        using f assms by (auto simp: needsRemediation_def judged_target_def Let_def split: option.splits)
      then have "b = (\<exists>x \<in> set (deadlines timeout t). x < now) \<and> (if b then checked ConditionFalse (ht_Machine t) m else m = ht_Machine t)"
        using nh ns by (cases "ht_Node t") (metis fst_conv snd_conv option.case)+
      then show ?thesis using True nf by (simp add: unhealthy_at_def)
    qed
  qed
  then show "b = unhealthy_at timeout now t" "if b then checked ConditionFalse (ht_Machine t) m else m = ht_Machine t" by auto
qed

text \<open>C13: the health check of a target is exact in time. It is unhealthy exactly if it has failed (it is marked, reports
  a failure, or its node has gone) or its Cluster is ready and it has missed a deadline: the time to get a node, or the
  timeout of an unhealthy condition of its node. Its condition is then set to False. Otherwise the Machine is not
  changed, and the time of the next check that is returned is right: as long as nothing changes, the target becomes
  unhealthy one second before that check is due, not earlier, and never if there is no next check.\<close>

theorem health_check_exact:
  assumes "times_ok timeout now t" and "ht_nodeMissing t \<longrightarrow> st_NodeRef (m_Status (ht_Machine t)) \<noteq> None"
    and "wf_conditions (m_Conditions (ht_Machine t))"
  shows "\<exists>b d m. needsRemediation ml now timeout t = Ret (b, d, m) \<and> b = unhealthy_at timeout now t \<and>
     (b \<longrightarrow> d = 0 \<and> m_Meta m = m_Meta (ht_Machine t) \<and> conditions_IsFalse (m_Conditions m) MachineHealthCheckSucceededCondition) \<and>
     (\<not> b \<longrightarrow> m = ht_Machine t \<and> (d = 0 \<or> time_Second \<le> d) \<and>
        (\<forall>now' \<ge> now. unhealthy_at timeout now' t \<longleftrightarrow> 0 < d \<and> now + d - time_Second < now'))"
proof -
  let ?b = "unhealthy_at timeout now t" and ?ds = "deadlines timeout t"
  let ?d = "if ?b \<or> \<not> judged_target t then 0 else minDuration (map (\<lambda>x. x - now + time_Second) ?ds)"
  obtain m where m: "needsRemediation ml now timeout t = Ret (?b, ?d, m)"
      "if ?b then checked ConditionFalse (ht_Machine t) m else m = ht_Machine t"
    using needsRemediation_eq [OF assms(1,2)] by blast
  have marked: "m_Meta m = m_Meta (ht_Machine t) \<and> conditions_IsFalse (m_Conditions m) MachineHealthCheckSucceededCondition" if ?b
    using that m(2) assms(3) by (auto simp: checked_def conditions_IsFalse_def)
  have later: "(?d = 0 \<or> time_Second \<le> ?d) \<and> (\<forall>now' \<ge> now. unhealthy_at timeout now' t \<longleftrightarrow> 0 < ?d \<and> now + ?d - time_Second < now')" if nb: "\<not> ?b"
  proof (cases "judged_target t \<and> ?ds \<noteq> []")
    case False
    then show ?thesis using nb by (auto simp: unhealthy_at_def minDuration_eq)
  next
    case True
    have ge: "now \<le> x" if "x \<in> set ?ds" for x using nb True that by (auto simp: unhealthy_at_def)
    have d: "?d = Min (set ?ds) - now + time_Second"
    proof -
      have "Min ((\<lambda>x. x + (time_Second - now)) ` set ?ds) = Min (set ?ds) + (time_Second - now)"
        using True Min_add_commute [of "set ?ds" "\<lambda>x. x" "time_Second - now"] by simp
      then show ?thesis using nb True by (simp add: minDuration_eq algebra_simps)
    qed
    have "now \<le> Min (set ?ds)" using ge True by simp
    moreover have "(\<exists>x \<in> set ?ds. x < now') \<longleftrightarrow> Min (set ?ds) < now'" for now'
      using True by (simp add: Min_less_iff)
    ultimately show ?thesis using nb True unfolding d by (auto simp: unhealthy_at_def)
  qed
  show ?thesis using m marked later by (intro exI [of _ ?b] exI [of _ ?d] exI [of _ m]) auto
qed

section \<open>An example\<close>

text \<open>A MachineHealthCheck that allows one unhealthy Machine; a node is unhealthy if it is not heard of for 300 seconds.\<close>

definition sample_mhc :: machinehealthcheck where
  "sample_mhc = \<lparr>hc_Meta = m_Meta (sample_machine ''mhc'' 1 None None),
     hc_Spec = \<lparr>hs_ClusterName = ''c'', hs_Selector = \<lparr>sel_MatchLabels = None, sel_MatchExpressions = None\<rparr>,
       hs_UnhealthyConditions = [\<lparr>uc_Type = ''Ready'', uc_Status = ''Unknown'', uc_Timeout = 300 * time_Second\<rparr>],
       hs_MaxUnhealthy = Some (IntVal 1), hs_UnhealthyRange = None, hs_NodeStartupTimeout = None, hs_RemediationTemplate = None\<rparr>,
     hc_Status = \<lparr>hst_ExpectedMachines = 0, hst_CurrentHealthy = 0, hst_RemediationsAllowed = 0, hst_ObservedGeneration = 0,
       hst_Targets = [], hst_Conditions = [], hst_V1Beta2 = None\<rparr>\<rparr>"

definition sample_health_cluster :: health_cluster where
  "sample_health_cluster = \<lparr>clv_Name = ''c'', clv_Namespace = ''default'', clv_UID = ''c'', clv_ControlPlaneRef = None, clh_Paused = False,
     clh_Conditions = [TrueCondition ControlPlaneInitializedCondition, TrueCondition InfrastructureReadyCondition]\<rparr>"

definition sample_node :: named_node where
  "sample_node = \<lparr>nd_Conditions = [\<lparr>nc_Type = ''Ready'', nc_Status = ''Unknown'', nc_LastTransitionTime = 0\<rparr>], nd_Name = ''n''\<rparr>"

definition sample_target :: healthCheckTarget where
  "sample_target = \<lparr>ht_Cluster = sample_health_cluster, ht_Machine = sample_machine ''a'' 1 None None, ht_Node = Some sample_node,
     ht_MHC = sample_mhc, ht_Before = sample_machine ''a'' 1 None None, ht_nodeMissing = False\<rparr>"

lemma sample_target_deadlines: "deadlines timeout sample_target = [300 * time_Second]"
  by (simp add: deadlines_def sample_target_def sample_node_def sample_mhc_def node_deadline_def getNodeCondition_def List.map_filter_def)

lemma sample_target_judged: "judged_target sample_target" "\<not> failed_target sample_target"
  by (simp_all add: judged_target_def failed_target_def sample_target_def sample_health_cluster_def sample_machine_def HasRemediateMachine_def
      hasAnnotation_def map_lookup_def conditions_IsTrue_def conditions_Get_def TrueCondition_def)

text \<open>After 100 seconds the node is healthy, and is looked at again when 300 seconds have passed.\<close>

theorem health_check_exact_witness:
  "\<exists>d. needsRemediation sample_meta_lib (100 * time_Second) DefaultNodeStartupTimeout sample_target =
       Ret (False, d, sample_machine ''a'' 1 None None) \<and> time_Second \<le> d \<and> d \<le> 201 * time_Second"
proof -
  let ?t = sample_target and ?now = "100 * time_Second"
  have ok: "times_ok DefaultNodeStartupTimeout ?now ?t" "ht_nodeMissing ?t \<longrightarrow> st_NodeRef (m_Status (ht_Machine ?t)) \<noteq> None"
      "wf_conditions (m_Conditions (ht_Machine ?t))" "ht_Machine ?t = sample_machine ''a'' 1 None None"
    by (simp_all add: times_ok_def sample_target_def sample_node_def sample_mhc_def getNodeCondition_def sample_machine_def wf_conditions_def)
  have un: "unhealthy_at timeout now ?t \<longleftrightarrow> 300 * time_Second < now" for timeout now
    by (simp add: unhealthy_at_def sample_target_deadlines sample_target_judged)
  from health_check_exact [OF ok(1-3), of sample_meta_lib] obtain b d m where
      r: "needsRemediation sample_meta_lib ?now DefaultNodeStartupTimeout ?t = Ret (b, d, m)" and b: "b = (300 * time_Second < ?now)"
      and later: "\<not> b \<longrightarrow> m = ht_Machine ?t \<and> (d = 0 \<or> time_Second \<le> d) \<and>
        (\<forall>now' \<ge> ?now. unhealthy_at DefaultNodeStartupTimeout now' ?t \<longleftrightarrow> 0 < d \<and> ?now + d - time_Second < now')"
    unfolding un by blast
  have nb: "\<not> b" using b by simp
  have "0 < d \<and> ?now + d - time_Second < 300 * time_Second + 1"
    using later nb un [of DefaultNodeStartupTimeout "300 * time_Second + 1"] by auto
  then show ?thesis using r nb later ok(4) by (intro exI [of _ d]) auto
qed

end
