(* ===== verification/Ms_Properties.thy ===== *)
theory Ms_Properties
  imports Ms_Controller
begin

text \<open>
  The properties of the MachineSet controller. What a function may request is a grade: \<open>adds c d\<close> relates
  the states before and after if the new requests hold at most \<open>c\<close> creations and \<open>d\<close> deletions of
  Machines. Grades add up along a sequence of calls, whatever the API server answers.
\<close>

named_theorems adds_intros

fun is_create :: "ms_request \<Rightarrow> bool" where
  "is_create (ApplyMachine None m) = True"
| "is_create _ = False"

fun is_delete :: "ms_request \<Rightarrow> bool" where
  "is_delete (DeleteMachine n) = True"
| "is_delete _ = False"

definition creates :: "ms_request list \<Rightarrow> nat" where
  "creates rs = length (filter is_create rs)"

fun delete_name :: "ms_request \<Rightarrow> string" where
  "delete_name (DeleteMachine n) = n"
| "delete_name _ = []"

definition deleted :: "ms_request list \<Rightarrow> string list" where
  "deleted rs = map delete_name (filter is_delete rs)"

abbreviation deletes :: "ms_request list \<Rightarrow> nat" where "deletes rs \<equiv> length (deleted rs)"

definition adds :: "nat \<Rightarrow> nat \<Rightarrow> ms_scope \<Rightarrow> ms_scope \<Rightarrow> bool" where
  "adds c d s t \<longleftrightarrow> (\<exists>rs. sc_requests t = sc_requests s @ rs \<and> creates rs \<le> c \<and> deletes rs \<le> d)"

lemma creates_simps [simp]: "creates [] = 0" "creates (r # rs) = (if is_create r then Suc (creates rs) else creates rs)"
    "creates (rs @ rs') = creates rs + creates rs'"
  by (simp_all add: creates_def)

lemma deleted_simps [simp]: "deleted [] = []" "deleted (r # rs) = (if is_delete r then delete_name r # deleted rs else deleted rs)"
    "deleted (rs @ rs') = deleted rs @ deleted rs'"
  by (simp_all add: deleted_def)

lemma adds_refl [intro, simp]: "adds c d s s"
  by (auto simp: adds_def)

lemma adds_trans: "adds c d s t \<Longrightarrow> adds c' d' t u \<Longrightarrow> adds (c + c') (d + d') s u"
  unfolding adds_def by (metis add_mono append.assoc creates_simps(3) deleted_simps(3) length_append)

lemma adds_mono: "adds c d s t \<Longrightarrow> c \<le> c' \<Longrightarrow> d \<le> d' \<Longrightarrow> adds c' d' s t"
  unfolding adds_def by (meson order_trans)

lemma adds_request [simp]:
  "adds c d s (request r t) \<longleftrightarrow> (\<exists>rs. sc_requests t @ [r] = sc_requests s @ rs \<and> creates rs \<le> c \<and> deletes rs \<le> d)"
  by (simp add: adds_def request_def)

lemma requests_frame [simp]:
  "sc_requests (update_machine m s) = sc_requests s" "sc_requests (put_machineSet ms s) = sc_requests s"
  "sc_requests (mark_not_created env reason message s) = sc_requests s"
  "sc_requests (replace_machine n m s) = sc_requests s" "sc_requests (request r s) = sc_requests s @ [r]"
  by (simp_all add: update_machine_def put_machineSet_def mark_not_created_def replace_machine_def request_def)

lemma adds_frame: "sc_requests t = sc_requests u \<Longrightarrow> adds c d s t = adds c d s u"
  by (simp add: adds_def)

lemma keeps_adds_bind:
  assumes "keeps (adds c d) m" and "\<And>x. keeps (adds c' d') (f x)"
  shows "keeps (adds (c + c') (d + d')) (mbind m f)"
  unfolding keeps_def
proof
  fix s
  obtain r t where ms: "m s = (r, t)" by fastforce
  have st: "adds c d s t" using assms(1) ms by (rule keepsD)
  show "adds (c + c') (d + d') s (snd (mbind m f s))"
  proof (cases r)
    case (Ret x)
    have "adds c' d' t (snd (f x t))" using assms(2) by (simp add: keeps_def)
    with st show ?thesis using ms Ret by (auto simp: mbind_def intro: adds_trans)
  qed (use st ms in \<open>auto simp: mbind_def intro: adds_mono\<close>)
qed

lemma quiet_bind [adds_intros]:
  "keeps (adds 0 0) m \<Longrightarrow> (\<And>x. keeps (adds 0 0) (f x)) \<Longrightarrow> keeps (adds 0 0) (mbind m f)"
  using keeps_adds_bind [of 0 0 m 0 0 f] by simp

lemma quiet_then: "keeps (adds 0 0) m \<Longrightarrow> (\<And>x. keeps (adds c d) (f x)) \<Longrightarrow> keeps (adds c d) (mbind m f)"
  using keeps_adds_bind [of 0 0 m c d f] by simp

lemma then_quiet: "keeps (adds c d) m \<Longrightarrow> (\<And>x. keeps (adds 0 0) (f x)) \<Longrightarrow> keeps (adds c d) (mbind m f)"
  using keeps_adds_bind [of c d m 0 0 f] by simp

lemma keeps_adds_mono: "keeps (adds c d) m \<Longrightarrow> c \<le> c' \<Longrightarrow> d \<le> d' \<Longrightarrow> keeps (adds c' d') m"
  unfolding keeps_def using adds_mono by blast

lemma keeps_adds_simple [adds_intros]: "keeps (adds c d) (mret x)" "keeps (adds c d) (mlift g)" "keeps (adds c d) (Pair g)"
  by (auto simp: keeps_def)

lemma keeps_attempt [adds_intros]: "keeps R m \<Longrightarrow> keeps R (attempt m)"
  by (auto simp: keeps_def attempt_def split: prod.splits go.splits) (metis snd_conv)+

lemma keeps_on_error [adds_intros]:
  assumes "keeps (adds c d) m" and "\<And>e s. sc_requests (h e s) = sc_requests s"
  shows "keeps (adds c d) (on_error m h msg)"
  unfolding keeps_def
proof
  fix s
  obtain r t where ms: "m s = (r, t)" by fastforce
  have "adds c d s t" using assms(1) ms by (rule keepsD)
  then show "adds c d s (snd (on_error m h msg s))"
    using ms assms(2) by (cases r) (auto simp: on_error_def adds_def)
qed

lemma quiet_ask [adds_intros]: "\<not> is_create r \<Longrightarrow> \<not> is_delete r \<Longrightarrow> keeps (adds 0 0) (ask f r)"
  by (auto simp: keeps_def ask_def split: option.splits)

lemma collect_adds:
  assumes "\<And>x. x \<in> set xs \<Longrightarrow> keeps (adds 0 d) (f x)"
  shows "keeps (adds 0 (length xs * d)) (collect_errors f xs)"
  using assms
proof (induction xs)
  case (Cons x xs)
  have "keeps (adds 0 d) (attempt (f x))" using Cons.prems by (auto intro: adds_intros)
  moreover have "keeps (adds 0 (length xs * d)) (collect_errors f xs)" using Cons by simp
  then have "keeps (adds 0 (length xs * d)) (mbind (collect_errors f xs) (\<lambda>es. mret (case r of Inl e \<Rightarrow> e # es | Inr _ \<Rightarrow> es)))" for r
    by (rule then_quiet) (rule adds_intros)
  ultimately have "keeps (adds (0 + 0) (d + length xs * d)) (collect_errors f (x # xs))"
    unfolding collect_errors.simps by (rule keeps_adds_bind)
  then show ?case by simp
qed (auto intro: adds_intros)

lemma collect_quiet [adds_intros]: "(\<And>x. keeps (adds 0 0) (f x)) \<Longrightarrow> keeps (adds 0 0) (collect_errors f xs)"
  using collect_adds [of xs 0 f] by simp

lemma fail_if_quiet [adds_intros]: "keeps (adds c d) (fail_if msg es)"
  by (auto simp: fail_if_def intro: adds_intros)

section \<open>Grades of the operations\<close>

lemma keeps_split:
  "(\<And>s. R s (snd (m s))) \<Longrightarrow> keeps R m"
  by (simp add: keeps_def)

lemma quiet_leaf [adds_intros]:
  "keeps (adds 0 0) (reconcileMachineSetOwnerAndLabels env)"
  "keeps (adds 0 0) (reconcileExternalTemplateReference env ref)"
  "keeps (adds 0 0) (adoptOrphan env m)"
  "keeps (adds 0 0) (apply_machine env (Some x) m)"
  "keeps (adds 0 0) (clone_object env input)"
  "keeps (adds 0 0) (preflight env)"
  "keeps (adds 0 0) (machine_exists env m)"
  "keeps (adds 0 0) (machine_deleted env m)"
  "keeps (adds 0 0) (getOwnerMachineDeployment env)"
  by (auto simp: keeps_def reconcileMachineSetOwnerAndLabels_def reconcileExternalTemplateReference_def adoptOrphan_def
      apply_machine_def clone_object_def preflight_def machine_exists_def machine_deleted_def getOwnerMachineDeployment_def
      Let_def adds_def split: option.splits sum.splits api_outcome.splits)

lemma quiet_patch_machine [adds_intros]: "keeps (adds 0 0) (patch_machine env m f)"
  by (auto simp: keeps_def patch_machine_def ask_def Let_def adds_def split: option.splits)

lemma quiet_external [adds_intros]:
  "keeps (adds 0 0) (updateExternalObject env ref)" "keeps (adds 0 0) (sync_external env ref ns)"
proof -
  show u: "keeps (adds 0 0) (updateExternalObject env ref)" for ref
    by (auto simp: keeps_def updateExternalObject_def ask_def adds_def split: option.splits)
  show "keeps (adds 0 0) (sync_external env ref ns)"
    unfolding sync_external_def by (intro adds_intros u) simp_all
qed

lemma keeps_apply: "(\<And>s. keeps R (F s)) \<Longrightarrow> keeps R (\<lambda>s. F s s)"
  by (simp add: keeps_def)

lemma keeps_after:
  assumes "keeps (adds c d) m" and "\<And>s. sc_requests (g s) = sc_requests s"
  shows "keeps (adds c d) (\<lambda>s. m (g s))"
  using assms by (auto simp: keeps_def adds_def) metis

lemma quiet_sync_live [adds_intros]: "keeps (adds 0 0) (sync_live_machine env m)"
  unfolding sync_live_machine_def
proof (intro quiet_bind quiet_ask)
  have "keeps (adds 0 0) (mbind (sync_external env ref ns) (\<lambda>_. case c of None \<Rightarrow> mret () | Some r \<Rightarrow> sync_external env r ns))"
    for ref ns c
    by (intro quiet_bind quiet_external) (auto intro!: adds_intros split: option.splits)
  then have "keeps (adds 0 0) (\<lambda>s. mbind (sync_external env ref ns)
      (\<lambda>_. case c of None \<Rightarrow> mret () | Some r \<Rightarrow> sync_external env r ns) (replace_machine n x s))" for ref ns c n x
    by (rule keeps_after) simp
  then have "keeps (adds 0 0) (mbind (apply_machine env (Some m) x) (\<lambda>updated s.
      mbind (sync_external env (sp_InfrastructureRef (m_Spec updated)) (om_Namespace (m_Meta updated)))
        (\<lambda>_. case bs_ConfigRef (sp_Bootstrap (m_Spec updated)) of None \<Rightarrow> mret ()
             | Some ref \<Rightarrow> sync_external env ref (om_Namespace (m_Meta updated)))
        (replace_machine (m_Name m) updated s)))" for x
    by (intro quiet_bind quiet_leaf)
  then show "keeps (adds 0 0) (\<lambda>s. mbind (apply_machine env (Some m)
      (computeDesiredMachine (en_ValidLabel env) (en_GenerateName env (nreq s) (ms_Name (sc_machineSet s) @ ''-'')) (sc_machineSet s) (Some m)))
      (\<lambda>updated s. mbind (sync_external env (sp_InfrastructureRef (m_Spec updated)) (om_Namespace (m_Meta updated)))
        (\<lambda>_. case bs_ConfigRef (sp_Bootstrap (m_Spec updated)) of None \<Rightarrow> mret ()
             | Some ref \<Rightarrow> sync_external env ref (om_Namespace (m_Meta updated)))
        (replace_machine (m_Name m) updated s)) s)"
    by (simp add: keeps_def)
qed simp_all

lemma quiet_sync_machine [adds_intros]: "keeps (adds 0 0) (sync_machine env m)"
proof (rule keeps_split)
  fix s :: ms_scope
  have "keeps (adds 0 0) (mbind (case c of None \<Rightarrow> mret () | Some _ \<Rightarrow> patch_machine env m (set_up_to_date env c)) (\<lambda>_ s.
      case find_machine (m_Name m) s of None \<Rightarrow> (Ret (), s) | Some m' \<Rightarrow> sync_live_machine env m' s))" for c
  proof (intro adds_intros)
    show "keeps (adds 0 0) (\<lambda>s. case find_machine (m_Name m) s of None \<Rightarrow> (Ret (), s) | Some m' \<Rightarrow> sync_live_machine env m' s)"
      using quiet_sync_live by (auto simp: keeps_def split: option.splits)
  qed (auto intro!: adds_intros split: option.splits)
  then show "adds 0 0 s (snd (sync_machine env m s))"
    using quiet_patch_machine by (auto simp: sync_machine_def keeps_def Let_def)
qed

lemma quiet_sync_loop: "keeps (adds 0 0) (sync_loop env ms)"
  by (induction ms) (auto intro!: adds_intros)

lemma quiet_syncMachines [adds_intros]: "keeps (adds 0 0) (syncMachines env)"
proof (rule keeps_split)
  fix s :: ms_scope
  have "keeps (adds 0 0) (mbind (sync_loop env (sc_machines s)) (\<lambda>_. mret result_zero))"
    by (intro adds_intros quiet_sync_loop)
  then show "adds 0 0 s (snd (syncMachines env s))" by (auto simp: syncMachines_def keeps_def)
qed

lemma keeps_after_request:
  assumes "keeps (adds c d) m" and "\<not> is_create r" "\<not> is_delete r"
  shows "keeps (adds c d) (\<lambda>s. m (request r s))"
proof (rule keeps_split)
  fix s :: ms_scope
  have "adds c d (request r s) (snd (m (request r s)))" using assms(1) by (simp add: keeps_def)
  moreover have "adds 0 0 s (request r s)" using assms(2,3) by simp
  ultimately have "adds (0 + c) (0 + d) s (snd (m (request r s)))" by (rule adds_trans [rotated])
  then show "adds c d s (snd (m (request r s)))" by simp
qed

lemma quiet_adopt_machines: "keeps (adds 0 0) (adopt_machines env ms)"
proof (induction ms)
  case (Cons m ms)
  have kept: "keeps (adds 0 0) (mbind (adopt_machines env ms) (\<lambda>rest. mret (x # rest)))" for x
    by (intro adds_intros Cons.IH)
  have failed: "keeps (adds 0 0) (\<lambda>s. adopt_machines env ms (request (Event ''FailedAdopt'' (m_Name m)) s))"
    by (rule keeps_after_request [OF Cons.IH]) simp_all
  have done_: "keeps (adds 0 0) (\<lambda>s. mbind (adopt_machines env ms) (\<lambda>rest. mret (x # rest))
      (request (Event ''SuccessfulAdopt'' (m_Name m)) s))" for x
    by (rule keeps_after_request [OF kept]) simp_all
  have "keeps (adds 0 0) (mbind (attempt (adoptOrphan env m)) (\<lambda>r.
      case r of Inl _ \<Rightarrow> (\<lambda>s. adopt_machines env ms (request (Event ''FailedAdopt'' (m_Name m)) s))
      | Inr m' \<Rightarrow> (\<lambda>s. mbind (adopt_machines env ms) (\<lambda>rest. mret (m' # rest)) (request (Event ''SuccessfulAdopt'' (m_Name m)) s))))"
    by (intro quiet_bind keeps_attempt quiet_leaf) (simp add: failed done_ split: sum.split)
  with kept [of m] Cons.IH show ?case by (simp add: keeps_def)
qed (auto intro: adds_intros)

lemma quiet_getAndAdopt [adds_intros]: "keeps (adds 0 0) (getAndAdoptMachinesForMachineSet env)"
proof (rule keeps_split)
  fix s :: ms_scope
  have "keeps (adds 0 0) (mbind (adopt_machines env ms) (\<lambda>filteredMachines s.
      (Ret result_zero, s\<lparr>sc_machines := filteredMachines, sc_adopted := True\<rparr>)))" for ms
    by (intro quiet_bind quiet_adopt_machines) (simp add: keeps_def adds_def)
  then have "keeps (adds 0 0) (\<lambda>s. mbind (adopt_machines env ms) (\<lambda>filteredMachines s.
      (Ret result_zero, s\<lparr>sc_machines := filteredMachines, sc_adopted := True\<rparr>)) (request (ListMachines n) s))" for ms n
    by (rule keeps_after_request) simp_all
  then show "adds 0 0 s (snd (getAndAdoptMachinesForMachineSet env s))"
    by (auto simp: getAndAdoptMachinesForMachineSet_def Let_def keeps_def split: sum.splits)
qed

lemma quiet_references [adds_intros]:
  "keeps (adds 0 0) (reconcileInfrastructure env)" "keeps (adds 0 0) (reconcileBootstrapConfig env)"
proof -
  have bind: "keeps (adds 0 0) (mbind (reconcileExternalTemplateReference env ref) (\<lambda>(ref, notFound, err) s.
      (G ref err, put_machineSet (H ref s) (K notFound s))))"
    if "\<And>n s. sc_requests (K n s) = sc_requests s" for ref G H K
    using that by (intro quiet_bind quiet_leaf) (auto simp: keeps_def adds_def)
  show "keeps (adds 0 0) (reconcileInfrastructure env)"
    unfolding reconcileInfrastructure_def
    using bind [of "\<lambda>n s. s\<lparr>sc_infrastructureObjectNotFound := n\<rparr>" _ "\<lambda>_ err. case err of Some e \<Rightarrow> Err e | None \<Rightarrow> Ret result_zero"
        "\<lambda>ref s. set_template_spec (\<lambda>t. t\<lparr>sp_InfrastructureRef := ref\<rparr>) (sc_machineSet s)"]
    by (simp add: keeps_def)
  show "keeps (adds 0 0) (reconcileBootstrapConfig env)"
    unfolding reconcileBootstrapConfig_def
    using bind [of "\<lambda>n s. s\<lparr>sc_bootstrapObjectNotFound := n\<rparr>" _ "\<lambda>_ err. case err of Some e \<Rightarrow> Err e | None \<Rightarrow> Ret result_zero"
        "\<lambda>ref s. set_template_spec (\<lambda>t. t\<lparr>sp_Bootstrap := (sp_Bootstrap t)\<lparr>bs_ConfigRef := Some ref\<rparr>\<rparr>) (sc_machineSet s)"]
    by (simp add: keeps_def split: option.splits)
qed

lemma delete_adds [adds_intros]: "keeps (adds 0 (Suc 0)) (delete_machine env b m)"
  by (auto simp: keeps_def delete_machine_def Let_def adds_def split: api_outcome.splits)

lemma scale_down_machine_adds: "keeps (adds 0 (Suc 0)) (scale_down_machine env m)"
  unfolding keeps_def
proof
  fix s :: ms_scope
  obtain r t where d: "delete_machine env False m s = (r, t)" by fastforce
  then have t: "adds 0 (Suc 0) s t" using delete_adds by (rule keepsD [rotated])
  have "adds 0 (Suc 0) s (request (Event e n) t)" for e n
    using adds_trans [OF t, of 0 0 "request (Event e n) t"] by simp
  with t show "adds 0 (Suc 0) s (snd (scale_down_machine env m s))"
    using d by (auto simp: scale_down_machine_def split: go.splits)
qed

lemma delete_owned_adds: "keeps (adds 0 (length ms)) (delete_owned env ms)"
proof (induction ms)
  case (Cons m ms)
  have "keeps (adds 0 (Suc 0)) (if time_IsZero (m_DeletionTimestamp m) then delete_machine env True m else mret ())"
    by (auto intro: adds_intros)
  then have "keeps (adds (0 + 0) (Suc 0 + length ms)) (delete_owned env (m # ms))"
    unfolding delete_owned.simps using Cons.IH by (intro keeps_adds_bind)
  then show ?case by simp
qed (auto intro: adds_intros)

lemma quiet_poll [adds_intros]: "keeps (adds 0 0) f \<Longrightarrow> keeps (adds 0 0) (poll n f)"
  by (induction n) (auto intro!: adds_intros)

lemma quiet_wait [adds_intros]: "(\<And>m. keeps (adds 0 0) (f m)) \<Longrightarrow> keeps (adds 0 0) (wait_for env f ms)"
  by (induction ms) (auto intro!: adds_intros)

lemma quiet_waits [adds_intros]:
  "keeps (adds 0 0) (waitForMachineCreation env ms)" "keeps (adds 0 0) (waitForMachineDeletion env ms)"
  unfolding waitForMachineCreation_def waitForMachineDeletion_def by (intro adds_intros)+

lemma quiet_clone [adds_intros]:
  "keeps (adds 0 0) (clone_bootstrap env m)" "keeps (adds 0 0) (clone_infrastructure env m)"
proof -
  have e: "keeps (adds 0 0) (on_error (clone_object env input) (\<lambda>e. mark_not_created env reason (text_of e)) msg)"
    for input reason text_of msg
    by (intro adds_intros) simp
  have b: "keeps (adds 0 0) (mbind (on_error (clone_object env input) (\<lambda>e. mark_not_created env reason (text_of e)) msg)
      (\<lambda>r. mret (Some r)))" for input reason text_of msg
    by (rule quiet_bind [OF e keeps_adds_simple(1)])
  from b show "keeps (adds 0 0) (clone_bootstrap env m)"
    by (auto simp: keeps_def clone_bootstrap_def Let_def split: option.splits)
  from e show "keeps (adds 0 0) (clone_infrastructure env m)"
    by (auto simp: keeps_def clone_infrastructure_def Let_def)
qed

lemma quiet_mark [simp]: "adds c d s (mark_not_created env reason message t) = adds c d s t"
  by (simp add: adds_def)

lemma creation_failed_quiet: "adds 0 0 s (creation_failed env m infraRef bootstrapRef e s)"
  by (auto simp: creation_failed_def clean_up_def Let_def adds_def split: option.splits)

lemma apply_adds: "keeps (adds (Suc 0) 0) (apply_machine env None m)"
  by (auto simp: keeps_def apply_machine_def Let_def adds_def split: sum.splits)

lemma create_machine_adds: "keeps (adds (Suc 0) 0) (create_machine env)"
proof (rule keeps_split)
  fix s :: ms_scope
  have last_step: "keeps (adds 0 0) (\<lambda>s. case r of Inl e \<Rightarrow> (Ret (Inl e), creation_failed env m i b e s)
      | Inr created \<Rightarrow> (Ret (Inr created), request (Event ''SuccessfulCreate'' (m_Name created)) s))"
    for r :: "ms_error + machine" and m i b
    using creation_failed_quiet by (auto simp: keeps_def split: sum.split)
  have "keeps (adds (Suc 0) 0) (mbind (clone_bootstrap env m) (\<lambda>bootstrapRef. mbind (clone_infrastructure env m) (\<lambda>infraRef.
      mbind (attempt (apply_machine env None (with_refs m infraRef bootstrapRef))) (\<lambda>r s.
        case r of Inl e \<Rightarrow> (Ret (Inl e), creation_failed env m infraRef bootstrapRef e s)
        | Inr created \<Rightarrow> (Ret (Inr created), request (Event ''SuccessfulCreate'' (m_Name created)) s)))))" for m
    by (intro quiet_then [OF quiet_clone(1)] quiet_then [OF quiet_clone(2)]
        then_quiet [OF keeps_attempt [OF apply_adds]] last_step)
  then show "adds (Suc 0) 0 s (snd (create_machine env s))"
    by (simp add: create_machine_def Let_def keeps_def)
qed

lemma create_machines_adds: "keeps (adds n 0) (create_machines env n)"
proof (induction n)
  case (Suc n)
  have "keeps (adds n 0) (mbind (create_machines env n) (\<lambda>(errs, machineList).
      mret (case r of Inl e \<Rightarrow> (e # errs, machineList) | Inr m \<Rightarrow> (errs, m # machineList))))" for r :: "ms_error + machine"
    using Suc.IH by (rule then_quiet) (auto intro: adds_intros)
  with create_machine_adds have "keeps (adds (Suc 0 + n) (0 + 0)) (create_machines env (Suc n))"
    unfolding create_machines.simps by (rule keeps_adds_bind)
  then show ?case by simp
qed (auto intro: adds_intros)

lemma scale_up_adds: "keeps (adds n 0) (scale_up env n)"
proof (rule keeps_split)
  fix s :: ms_scope
  obtain r t where p: "preflight env s = (r, t)" by fastforce
  then have st: "adds 0 0 s t" using quiet_leaf(6) by (rule keepsD [rotated])
  have "keeps (adds n 0) (mbind (create_machines env n) (\<lambda>(errs, machineList).
      if length errs > 0 then mlift (Err (Aggregated errs))
      else mbind (waitForMachineCreation env machineList) (\<lambda>_. mret result_zero)))"
    using create_machines_adds by (rule then_quiet) (auto intro!: adds_intros)
  then have "adds (0 + n) (0 + 0) s (snd (mbind (create_machines env n) (\<lambda>(errs, machineList).
      if length errs > 0 then mlift (Err (Aggregated errs))
      else mbind (waitForMachineCreation env machineList) (\<lambda>_. mret result_zero)) t))"
    using st unfolding keeps_def by (blast intro: adds_trans)
  moreover have "adds n 0 s t" using st by (rule adds_mono) simp_all
  moreover have "adds n 0 s (t\<lparr>sc_preflightMessage := x\<rparr>)" for x
    using \<open>adds n 0 s t\<close> by (simp add: adds_def)
  ultimately show "adds n 0 s (snd (scale_up env n s))"
    using p by (auto simp: scale_up_def split: go.splits)
qed

lemma scale_up_disabled:
  "map_lookup (ms_Annotations (sc_machineSet s)) DisableMachineCreateAnnotation \<noteq> None \<Longrightarrow>
   scale_up env n s = (Ret result_zero, s)"
  by (simp add: scale_up_def)

section \<open>Exact requests\<close>

text \<open>The number of creations and the deletions of a call, as the list of names in their order.\<close>

definition emits :: "nat \<Rightarrow> string list \<Rightarrow> ms_scope \<Rightarrow> ms_scope \<Rightarrow> bool" where
  "emits c ds s t \<longleftrightarrow> (\<exists>rs. sc_requests t = sc_requests s @ rs \<and> creates rs = c \<and> deleted rs = ds)"

lemma emits_quiet: "emits 0 [] s t \<longleftrightarrow> adds 0 0 s t"
  by (simp add: emits_def adds_def)

lemma emits_trans: "emits c ds s t \<Longrightarrow> emits c' ds' t u \<Longrightarrow> emits (c + c') (ds @ ds') s u"
proof -
  assume "emits c ds s t" "emits c' ds' t u"
  then obtain rs rs' where "sc_requests t = sc_requests s @ rs" "creates rs = c" "deleted rs = ds"
      "sc_requests u = sc_requests t @ rs'" "creates rs' = c'" "deleted rs' = ds'"
    unfolding emits_def by blast
  then show ?thesis unfolding emits_def by (intro exI [of _ "rs @ rs'"]) simp
qed

lemma emits_then_quiet: "emits c ds s t \<Longrightarrow> adds 0 0 t u \<Longrightarrow> emits c ds s u"
  using emits_trans [of c ds s t 0 "[]" u] by (simp add: emits_quiet)

lemma quiet_then_emits: "adds 0 0 s t \<Longrightarrow> emits c ds t u \<Longrightarrow> emits c ds s u"
  using emits_trans [of 0 "[]" s t c ds u] by (simp add: emits_quiet)

lemma delete_emits: "delete_machine env b m s = (r, t) \<Longrightarrow> r \<noteq> Panic \<and> emits 0 [m_Name m] s t"
  by (auto simp: delete_machine_def Let_def emits_def split: api_outcome.splits if_splits)

lemma scale_down_machine_emits:
  assumes "scale_down_machine env m s = (r, t)"
  shows "r \<noteq> Panic \<and> emits 0 (if time_IsZero (m_DeletionTimestamp m) then [m_Name m] else []) s t"
proof (cases "time_IsZero (m_DeletionTimestamp m)")
  case True
  obtain r' t' where d: "delete_machine env False m s = (r', t')" by fastforce
  have "emits 0 [m_Name m] s (request (Event e n) t')" for e n
    by (rule emits_then_quiet [of _ _ _ t']) (use delete_emits [OF d] in simp_all)
  then show ?thesis using assms True d delete_emits [OF d] by (auto simp: scale_down_machine_def split: go.splits)
next
  case False
  then show ?thesis using assms by (auto simp: scale_down_machine_def emits_quiet)
qed

lemma collect_emits:
  assumes "\<And>x s r t. f x s = (r, t) \<Longrightarrow> r \<noteq> Panic \<and> emits 0 (ds x) s t" and "collect_errors f xs s = (r, t)"
  shows "\<exists>es. r = Ret es \<and> emits 0 (concat (map ds xs)) s t"
  using assms(2)
proof (induction xs arbitrary: s r t)
  case Nil
  then show ?case by (auto simp: mret_def emits_quiet)
next
  case (Cons x xs)
  obtain r1 s1 where f: "f x s = (r1, s1)" by fastforce
  obtain r2 s2 where c: "collect_errors f xs s1 = (r2, s2)" by fastforce
  have 1: "r1 \<noteq> Panic" "emits 0 (ds x) s s1" using assms(1) [OF f] by blast+
  obtain es where 2: "r2 = Ret es" "emits 0 (concat (map ds xs)) s1 s2" using Cons.IH [OF c] by blast
  have "emits 0 (concat (map ds (x # xs))) s s2" using emits_trans [OF 1(2) 2(2)] by simp
  moreover have "\<exists>es. r = Ret es" "t = s2"
    using Cons.prems f c 1(1) 2(1) by (auto simp: mbind_def attempt_def mret_def split: go.splits)
  ultimately show ?case by blast
qed

lemma scale_down_emits:
  assumes "scale_down env diff s = (r, t)"
  shows "emits 0 (case getDeletePriorityFunc (en_float env) (en_Now env (nreq s)) (sc_machineSet s) of Inl _ \<Rightarrow> []
     | Inr priority \<Rightarrow> map m_Name (filter (\<lambda>m. time_IsZero (m_DeletionTimestamp m))
         (snd (getMachinesToDeletePrioritized (sc_machines s) diff priority)))) s t"
proof (cases "getDeletePriorityFunc (en_float env) (en_Now env (nreq s)) (sc_machineSet s)")
  case (Inl e)
  then show ?thesis using assms by (simp add: scale_down_def emits_quiet)
next
  case (Inr priority)
  obtain sorted_machines del where g: "getMachinesToDeletePrioritized (sc_machines s) diff priority = (sorted_machines, del)"
    by fastforce
  let ?s = "s\<lparr>sc_machines := sorted_machines\<rparr>"
  obtain r1 t1 where c: "collect_errors (scale_down_machine env) del ?s = (r1, t1)" by fastforce
  obtain es where es: "r1 = Ret es"
      and em: "emits 0 (concat (map (\<lambda>m. if time_IsZero (m_DeletionTimestamp m) then [m_Name m] else []) del)) ?s t1"
    using collect_emits [where ds = "\<lambda>m. if time_IsZero (m_DeletionTimestamp m) then [m_Name m] else []", OF _ c]
      scale_down_machine_emits by blast
  have "concat (map (\<lambda>m. if time_IsZero (m_DeletionTimestamp m) then [m_Name m] else []) del) =
      map m_Name (filter (\<lambda>m. time_IsZero (m_DeletionTimestamp m)) del)"
    by (induction del) simp_all
  moreover have "emits c ds ?s u = emits c ds s u" for c ds u by (simp add: emits_def)
  ultimately have 1: "emits 0 (map m_Name (filter (\<lambda>m. time_IsZero (m_DeletionTimestamp m)) del)) s t1" using em by simp
  have "keeps (adds 0 0) (if length es > 0 then mlift (Err (Aggregated es))
      else mbind (waitForMachineDeletion env del) (\<lambda>_. mret result_zero))"
    by (auto intro!: adds_intros)
  then have "adds 0 0 t1 t"
    by (rule keepsD) (use assms Inr g c es in \<open>auto simp: scale_down_def mbind_def\<close>)
  with 1 show ?thesis using Inr g by (simp add: emits_then_quiet)
qed

lemma selected_machines:
  assumes "getMachinesToDeletePrioritized ms diff priority = (ms', del)" "0 \<le> diff"
  shows "length del \<le> nat diff \<and> set del \<subseteq> set ms"
  using assms set_take_subset [of "nat diff" "go_sort (sortableMachines_Less priority) ms"]
  by (auto simp: getMachinesToDeletePrioritized_def Let_def nat_le_iff split: if_splits)

section \<open>Properties\<close>

text \<open>
  C3: whatever the API server answers, one call of \<^verbatim>\<open>syncReplicas\<close> on a MachineSet with \<open>n\<close> Machines and
  \<open>k\<close> wanted replicas creates at most \<open>k - n\<close> Machines, none if the MachineSet carries the annotation that
  disables creation, and deletes at most \<open>n - k\<close>, so that it never overshoots. When it scales down it asks
  to delete, each once and in their order, exactly the Machines that the policy selects and that are not
  being deleted already.
\<close>

theorem syncReplicas_safe:
  assumes "sc_adopted s" "ms_Replicas (sc_machineSet s) = Some k" "syncReplicas env s = (r, t)"
  defines "n \<equiv> int (length (sc_machines s))"
  shows "\<exists>rs. sc_requests t = sc_requests s @ rs \<and> creates rs \<le> nat (k - n) \<and> length (deleted rs) \<le> nat (n - k) \<and>
    (map_lookup (ms_Annotations (sc_machineSet s)) DisableMachineCreateAnnotation \<noteq> None \<longrightarrow> creates rs = 0) \<and>
    deleted rs = (if n \<le> k then [] else
      case getDeletePriorityFunc (en_float env) (en_Now env (length (sc_requests s))) (sc_machineSet s) of Inl _ \<Rightarrow> []
      | Inr priority \<Rightarrow> map m_Name (filter (\<lambda>m. time_IsZero (m_DeletionTimestamp m))
          (snd (getMachinesToDeletePrioritized (sc_machines s) (n - k) priority)))) \<and>
    set (deleted rs) \<subseteq> m_Name ` {m \<in> set (sc_machines s). time_IsZero (m_DeletionTimestamp m)}"
proof (cases "n \<le> k")
  case True
  have "adds (nat (k - n)) 0 s t" "map_lookup (ms_Annotations (sc_machineSet s)) DisableMachineCreateAnnotation \<noteq> None \<Longrightarrow> t = s"
  proof -
    have *: "n < k \<Longrightarrow> scale_up env (nat (k - n)) s = (r, t)" "n = k \<Longrightarrow> t = s"
      using assms(1-3) by (simp_all add: syncReplicas_def n_def)
    then show "adds (nat (k - n)) 0 s t"
      using True keepsD [OF scale_up_adds, of env "nat (k - n)" s r t] by (cases "n = k") auto
    show "map_lookup (ms_Annotations (sc_machineSet s)) DisableMachineCreateAnnotation \<noteq> None \<Longrightarrow> t = s"
      using True * scale_up_disabled [of s env "nat (k - n)"] by (cases "n = k") auto
  qed
  then show ?thesis using True by (auto simp: adds_def)
next
  case False
  then have "scale_down env (n - k) s = (r, t)" using assms(1-3) by (simp add: syncReplicas_def n_def)
  note e = scale_down_emits [OF this]
  show ?thesis
  proof (cases "getDeletePriorityFunc (en_float env) (en_Now env (nreq s)) (sc_machineSet s)")
    case (Inl p)
    then show ?thesis using e False by (auto simp: emits_def)
  next
    case (Inr priority)
    obtain ms' del where g: "getMachinesToDeletePrioritized (sc_machines s) (n - k) priority = (ms', del)" by fastforce
    then have "length del \<le> nat (n - k)" "set del \<subseteq> set (sc_machines s)"
      using selected_machines [OF g] False by simp_all
    moreover have "length (filter (\<lambda>m. time_IsZero (m_DeletionTimestamp m)) del) \<le> length del" by simp
    ultimately have "length (filter (\<lambda>m. time_IsZero (m_DeletionTimestamp m)) del) \<le> nat (n - k)" by linarith
    moreover obtain rs where "sc_requests t = sc_requests s @ rs" "creates rs = 0"
        "deleted rs = map m_Name (filter (\<lambda>m. time_IsZero (m_DeletionTimestamp m)) del)"
      using e Inr g by (auto simp: emits_def)
    ultimately show ?thesis using False Inr g \<open>set del \<subseteq> set (sc_machines s)\<close>
      by (intro exI [of _ rs]) auto
  qed
qed

section \<open>A reachable API server\<close>

text \<open>
  Every write succeeds, and the cache catches up before a poll times out: an applied Machine is found, a
  deleted one is gone or has a deletion timestamp.
\<close>

definition writes_succeed :: "ms_env \<Rightarrow> bool" where
  "writes_succeed env \<longleftrightarrow> (\<forall>n old m. \<exists>r. en_Apply env n old m = Inr r) \<and> (\<forall>n input. \<exists>r. en_Clone env n input = Inr r) \<and>
     (\<forall>n m. en_Delete env n m = Done)"

definition catches_up :: "ms_env \<Rightarrow> bool \<Rightarrow> bool" where
  "catches_up env deleting \<longleftrightarrow> (\<forall>k ns name. \<exists>j < en_Polls env.
     (\<forall>i < j. if deleting then (\<exists>m. en_GetMachine env (k + i) ns name = Inr m \<and> time_IsZero (m_DeletionTimestamp m))
              else en_GetMachine env (k + i) ns name = Inl Gone) \<and>
     (if deleting then (\<forall>m. en_GetMachine env (k + j) ns name = Inr m \<longrightarrow> \<not> time_IsZero (m_DeletionTimestamp m)) \<and>
                       (\<forall>e. en_GetMachine env (k + j) ns name \<noteq> Inl (Failed e))
      else \<exists>m. en_GetMachine env (k + j) ns name = Inr m))"

lemma poll_returns:
  assumes "j < n" "\<And>i. i \<le> j \<Longrightarrow> f ((request r ^^ i) s) = (Ret (i = j), request r ((request r ^^ i) s))"
  shows "\<exists>t. poll n f s = (Ret (), t)"
  using assms
proof (induction n arbitrary: s j)
  case (Suc n)
  have 0: "f s = (Ret (0 = j), request r s)" using Suc.prems(2) [of 0] by simp
  show ?case
  proof (cases j)
    case 0
    then show ?thesis using \<open>f s = _\<close> by (simp add: mbind_def mret_def)
  next
    case (Suc j')
    have "\<exists>t. poll n f (request r s) = (Ret (), t)"
    proof (rule Suc.IH)
      show "j' < n" using Suc Suc.prems(1) by simp
      show "f ((request r ^^ i) (request r s)) = (Ret (i = j'), request r ((request r ^^ i) (request r s)))" if "i \<le> j'" for i
        using Suc.prems(2) [of "Suc i"] Suc that by (simp add: funpow_swap1)
    qed
    with 0 Suc show ?thesis by (simp add: mbind_def)
  qed
qed simp

lemma nreq_requests: "length (sc_requests ((request r ^^ i) s)) = length (sc_requests s) + i"
  by (induction i) simp_all

lemma wait_returns:
  assumes "catches_up env deleting"
  shows "\<exists>t. wait_for env (if deleting then machine_deleted env else machine_exists env) ms s = (Ret (), t)"
proof (induction ms arbitrary: s)
  case (Cons m ms)
  let ?f = "if deleting then machine_deleted env else machine_exists env"
  obtain j where j: "j < en_Polls env"
      "\<forall>i < j. if deleting then (\<exists>x. en_GetMachine env (nreq s + i) (om_Namespace (m_Meta m)) (m_Name m) = Inr x \<and> time_IsZero (m_DeletionTimestamp x))
               else en_GetMachine env (nreq s + i) (om_Namespace (m_Meta m)) (m_Name m) = Inl Gone"
      "if deleting then (\<forall>x. en_GetMachine env (nreq s + j) (om_Namespace (m_Meta m)) (m_Name m) = Inr x \<longrightarrow> \<not> time_IsZero (m_DeletionTimestamp x)) \<and>
                        (\<forall>e. en_GetMachine env (nreq s + j) (om_Namespace (m_Meta m)) (m_Name m) \<noteq> Inl (Failed e))
       else \<exists>x. en_GetMachine env (nreq s + j) (om_Namespace (m_Meta m)) (m_Name m) = Inr x"
    using assms unfolding catches_up_def by blast
  have ask: "?f m ((request (GetMachine (m_Name m)) ^^ i) s) =
      (Ret (i = j), request (GetMachine (m_Name m)) ((request (GetMachine (m_Name m)) ^^ i) s))" if "i \<le> j" for i
    using that j(2) [rule_format, of i] j(3)
    by (cases "i = j") (auto simp: machine_deleted_def machine_exists_def nreq_requests split: sum.splits api_outcome.splits if_splits)
  obtain t where "poll (en_Polls env) (?f m) s = (Ret (), t)"
    using poll_returns [OF j(1) ask] by metis
  then show ?case using Cons.IH [of t] by (simp add: mbind_def)
qed (simp add: mret_def)

lemma waits_return:
  "catches_up env False \<Longrightarrow> \<exists>t. waitForMachineCreation env ms s = (Ret (), t)"
  "catches_up env True \<Longrightarrow> \<exists>t. waitForMachineDeletion env ms s = (Ret (), t)"
  using wait_returns [of env False ms s] wait_returns [of env True ms s]
  by (simp_all add: waitForMachineCreation_def waitForMachineDeletion_def)

lemma clones_return:
  assumes "writes_succeed env"
  shows "\<exists>r t. clone_bootstrap env m s = (Ret r, t)" "\<exists>r t. clone_infrastructure env m s = (Ret r, t)"
proof -
  have c: "\<exists>r t. clone_object env input s = (Ret r, t)" for input s
    using assms by (auto simp: writes_succeed_def clone_object_def Let_def) (metis sum.simps(6))
  show "\<exists>r t. clone_bootstrap env m s = (Ret r, t)"
  proof (cases "bs_ConfigRef (sp_Bootstrap (tp_Spec (mss_Template (ms_Spec (sc_machineSet s)))))")
    case (Some ref)
    then show ?thesis using c [of "clone_for (sc_machineSet s) m ref (m_Name m)" s]
      by (auto simp: clone_bootstrap_def on_error_def mbind_def mret_def)
  qed (simp add: clone_bootstrap_def)
  show "\<exists>r t. clone_infrastructure env m s = (Ret r, t)"
    using c [of _ s] by (simp add: clone_infrastructure_def on_error_def Let_def) (metis (no_types, lifting) go.case(1) case_prod_conv)
qed

lemma create_machine_returns:
  assumes "writes_succeed env"
  shows "\<exists>m t. create_machine env s = (Ret (Inr m), t) \<and> emits 1 [] s t"
proof -
  define m where "m = computeDesiredMachine (en_ValidLabel env) (en_GenerateName env (nreq s) (ms_Name (sc_machineSet s) @ ''-'')) (sc_machineSet s) None"
  obtain b s1 where 1: "clone_bootstrap env m s = (Ret b, s1)" using clones_return(1) [OF assms] by blast
  obtain i s2 where 2: "clone_infrastructure env m s1 = (Ret i, s2)" using clones_return(2) [OF assms] by blast
  obtain r where 3: "en_Apply env (nreq s2) None (with_refs m i b) = Inr r" using assms unfolding writes_succeed_def by blast
  let ?t = "request (Event ''SuccessfulCreate'' (m_Name r)) (request (ApplyMachine None (with_refs m i b)) s2)"
  have "create_machine env s = (Ret (Inr r), ?t)"
    using 1 2 3 by (simp add: create_machine_def m_def [symmetric] mbind_def attempt_def apply_machine_def Let_def)
  moreover have "adds 0 0 s s1" "adds 0 0 s1 s2"
    using keepsD [OF quiet_clone(1) 1] keepsD [OF quiet_clone(2) 2] by blast+
  moreover have "emits 1 [] s2 ?t" by (simp add: emits_def)
  ultimately show ?thesis by (meson quiet_then_emits)
qed

lemma create_machines_return:
  assumes "writes_succeed env"
  shows "\<exists>ms t. create_machines env n s = (Ret ([], ms), t) \<and> emits n [] s t"
proof (induction n arbitrary: s)
  case 0
  then show ?case by (simp add: mret_def emits_quiet)
next
  case (Suc n)
  obtain m s1 where 1: "create_machine env s = (Ret (Inr m), s1)" "emits 1 [] s s1"
    using create_machine_returns [OF assms] by blast
  obtain ms t where 2: "create_machines env n s1 = (Ret ([], ms), t)" "emits n [] s1 t" using Suc.IH by blast
  show ?case using 1(1) 2(1) emits_trans [OF 1(2) 2(2)] by (auto simp: mbind_def mret_def)
qed

lemma delete_returns: "writes_succeed env \<Longrightarrow> \<exists>t. scale_down_machine env m s = (Ret (), t)"
  by (simp add: writes_succeed_def scale_down_machine_def delete_machine_def Let_def)

lemma collect_returns:
  assumes "\<And>x s. \<exists>t. f x s = (Ret (), t)"
  shows "\<exists>t. collect_errors f xs s = (Ret [], t)"
proof (induction xs arbitrary: s)
  case (Cons x xs)
  obtain s1 where 1: "f x s = (Ret (), s1)" using assms by blast
  obtain t where 2: "collect_errors f xs s1 = (Ret [], t)" using Cons.IH by blast
  show ?case using 1 2 by (simp add: mbind_def attempt_def mret_def)
qed (simp add: mret_def)

lemma scale_up_returns:
  assumes "writes_succeed env" "catches_up env False" "preflight env s = (Ret (result_zero, messages), s')"
    and "map_lookup (ms_Annotations (sc_machineSet s)) DisableMachineCreateAnnotation = None"
  shows "\<exists>t. scale_up env n s = (Ret result_zero, t) \<and> emits n [] s t"
proof -
  obtain ms s1 where 1: "create_machines env n s' = (Ret ([], ms), s1)" "emits n [] s' s1"
    using create_machines_return [OF assms(1)] by blast
  obtain t where 2: "waitForMachineCreation env ms s1 = (Ret (), t)" using waits_return(1) [OF assms(2)] by blast
  have "scale_up env n s = (Ret result_zero, t)"
    using assms(3,4) 1(1) 2 by (simp add: scale_up_def mbind_def mret_def result_IsZero_def)
  moreover have "adds 0 0 s s'" using quiet_leaf(6) assms(3) by (rule keepsD)
  moreover have "adds 0 0 s1 t" using quiet_waits(1) 2 by (rule keepsD)
  ultimately show ?thesis using 1(2) by (meson quiet_then_emits emits_then_quiet)
qed

lemma scale_down_returns:
  assumes "writes_succeed env" "catches_up env True"
    and "getDeletePriorityFunc (en_float env) (en_Now env (nreq s)) (sc_machineSet s) = Inr priority"
  shows "\<exists>t. scale_down env diff s = (Ret result_zero, t)"
proof -
  obtain ms' del where g: "getMachinesToDeletePrioritized (sc_machines s) diff priority = (ms', del)" by fastforce
  obtain s1 where 1: "collect_errors (scale_down_machine env) del (s\<lparr>sc_machines := ms'\<rparr>) = (Ret [], s1)"
    using collect_returns delete_returns [OF assms(1)] by metis
  obtain t where 2: "waitForMachineDeletion env del s1 = (Ret (), t)" using waits_return(2) [OF assms(2)] by blast
  show ?thesis using assms(3) g 1 2 by (simp add: scale_down_def mbind_def mret_def)
qed

lemma selected_exactly:
  assumes "getMachinesToDeletePrioritized ms (int (length ms) - k) priority = (ms', del)" "0 \<le> k" "k < int (length ms)"
  shows "int (length del) = int (length ms) - k"
  using assms by (auto simp: getMachinesToDeletePrioritized_def Let_def split: if_splits)

text \<open>
  C37: with an API server that takes the requests and a cache that catches up in time, \<^verbatim>\<open>syncReplicas\<close>
  reaches the wanted size \<open>k\<close> from \<open>n\<close> Machines in one call: it returns without an error or a requeue after exactly \<open>k - n\<close>
  creations, or with \<open>n - k\<close> selected Machines of which all that are not being deleted already are deleted. To grow,
  the MachineSet has to lack the annotation that disables the creation of Machines and the preflight checks have to pass;
  to shrink, its delete policy has to be a known one.
\<close>

theorem syncReplicas_reaches_size:
  assumes "sc_adopted s" "ms_Replicas (sc_machineSet s) = Some k" "0 \<le> k"
    and "writes_succeed env" "catches_up env (k < int (length (sc_machines s)))"
    and "int (length (sc_machines s)) < k \<Longrightarrow> map_lookup (ms_Annotations (sc_machineSet s)) DisableMachineCreateAnnotation = None"
    and "int (length (sc_machines s)) < k \<Longrightarrow> fst (preflight env s) = Ret (result_zero, messages)"
    and "k < int (length (sc_machines s)) \<Longrightarrow>
      getDeletePriorityFunc (en_float env) (en_Now env (length (sc_requests s))) (sc_machineSet s) = Inr priority"
  shows "\<exists>t rs. syncReplicas env s = (Ret result_zero, t) \<and> sc_requests t = sc_requests s @ rs \<and>
    creates rs = nat (k - int (length (sc_machines s))) \<and>
    (\<exists>del. set del \<subseteq> set (sc_machines s) \<and> length del = nat (int (length (sc_machines s)) - k) \<and>
       deleted rs = map m_Name (filter (\<lambda>m. time_IsZero (m_DeletionTimestamp m)) del))"
proof (cases "k < int (length (sc_machines s))")
  case True
  let ?n = "int (length (sc_machines s))"
  obtain ms' del where g: "getMachinesToDeletePrioritized (sc_machines s) (?n - k) priority = (ms', del)" by fastforce
  obtain t where t: "scale_down env (?n - k) s = (Ret result_zero, t)"
    using scale_down_returns assms(4,5) assms(8) [OF True] True by fastforce
  have "set del \<subseteq> set (sc_machines s)" "length del = nat (?n - k)"
    using selected_machines [OF g] selected_exactly [OF g assms(3) True] True by simp_all
  moreover have "emits 0 (map m_Name (filter (\<lambda>m. time_IsZero (m_DeletionTimestamp m)) del)) s t"
    using scale_down_emits [OF t] assms(8) [OF True] g by simp
  moreover have "syncReplicas env s = (Ret result_zero, t)" using assms(1,2) True t by (simp add: syncReplicas_def)
  ultimately show ?thesis using True by (auto simp: emits_def)
next
  case False
  show ?thesis
  proof (cases "k = int (length (sc_machines s))")
    case True
    then show ?thesis using assms(1,2) by (auto simp: syncReplicas_def)
  next
    case more: False
    then have grow: "int (length (sc_machines s)) < k" using False by simp
    obtain s' where p: "preflight env s = (Ret (result_zero, messages), s')" using assms(7) [OF grow] by (cases "preflight env s") simp
    obtain t where "scale_up env (nat (k - int (length (sc_machines s)))) s = (Ret result_zero, t)"
        "emits (nat (k - int (length (sc_machines s)))) [] s t"
      using scale_up_returns [OF assms(4) _ p assms(6) [OF grow]] assms(5) False by fastforce
    then show ?thesis using assms(1,2) False more by (auto simp: syncReplicas_def emits_def)
  qed
qed

definition sample_env :: ms_env where
  "sample_env = \<lparr>
     en_List = (\<lambda>_ _ _. Inr []), en_Adopt = (\<lambda>_ _ m. Inr m), en_NewHelper = (\<lambda>_ _. None), en_Patch = (\<lambda>_ _ _. None),
     en_CleanUpFields = (\<lambda>_ _. None), en_Apply = (\<lambda>_ _ m. Inr m), en_Delete = (\<lambda>_ _. Done),
     en_GetMachine = (\<lambda>_ _ name. Inr ((sample_machine name 1 None None)\<lparr>m_Meta := (m_Meta (sample_machine name 1 None None))\<lparr>
       om_DeletionTimestamp := Some 2\<rparr>\<rparr>)),
     en_GetControlPlane = (\<lambda>_ _ _. Inl ''not found''), en_UpdateReference = (\<lambda>_ r. Inr r), en_GetObject = (\<lambda>_ _ _. Inr []),
     en_PatchObject = (\<lambda>_ _ _. None), en_DropFields = (\<lambda>_ _. None), en_ApplyObject = (\<lambda>_ _ _ _. None),
     en_Clone = (\<lambda>_ i. Inr (ci_TemplateRef i)), en_GetNode = (\<lambda>_ _. Inl ''not found''), en_PatchSet = (\<lambda>_ _. None),
     en_GetDeployment = (\<lambda>_ _. Inl ''not found''), en_GenerateName = (\<lambda>n base. base @ FormatInt (int n)), en_Now = (\<lambda>n. 10 + int n),
     en_Polls = 1, en_SelectorAsMap = (\<lambda>_. Inr None), en_SelectorString = (\<lambda>_. Inr []), en_Matches = (\<lambda>_ _. True),
     en_ValidLabel = (\<lambda>_. True), en_ErrorText = (\<lambda>_. []), en_NotConnected = (\<lambda>_. False), en_PreflightEnabled = False,
     en_DeprecatedNaming = False, en_Order = (\<lambda>ms. ms), en_Strings = (\<lambda>xs. xs), en_Group = (\<lambda>_. None), en_float = sample_float,
     en_semver = sample_lib, en_meta = sample_meta_lib, en_ext = sample_ext\<rparr>"

definition sample_scope :: "machineset \<Rightarrow> machine list \<Rightarrow> ms_scope" where
  "sample_scope ms machines = \<lparr>sc_machineSet = ms, sc_cluster = sample_cluster, sc_machines = machines,
     sc_bootstrapObjectNotFound = False, sc_infrastructureObjectNotFound = False, sc_adopted = True, sc_owner = None,
     sc_preflightMessage = [], sc_time = 10, sc_requests = []\<rparr>"

lemma sample_env_live: "writes_succeed sample_env" "catches_up sample_env b"
  by (auto simp: writes_succeed_def catches_up_def sample_env_def time_IsZero_def)

lemma sample_preflight: "fst (preflight sample_env (sample_scope ms machines)) = Ret (result_zero, [])"
  by (simp add: preflight_def sample_env_def runPreflightChecks_def Let_def)

lemma sample_priority:
  "getDeletePriorityFunc (en_float sample_env) now (sample_set OldestMachineSetDeletePolicy k) = Inr (oldestDeletePriority sample_float now)"
  by (simp add: getDeletePriorityFunc_def sample_env_def sample_set_def)

theorem syncReplicas_reaches_size_witness:
  "\<exists>t rs. syncReplicas sample_env (sample_scope (sample_set OldestMachineSetDeletePolicy 2) []) = (Ret result_zero, t) \<and>
    sc_requests t = rs \<and> creates rs = 2 \<and> deleted rs = []"
proof -
  let ?s = "sample_scope (sample_set OldestMachineSetDeletePolicy 2) []"
  have s: "sc_machineSet ?s = sample_set OldestMachineSetDeletePolicy 2" "sc_adopted ?s" "sc_machines ?s = []" "sc_requests ?s = []"
    by (simp_all add: sample_scope_def)
  then have "ms_Replicas (sc_machineSet ?s) = Some 2"
      "map_lookup (ms_Annotations (sc_machineSet ?s)) DisableMachineCreateAnnotation = None"
    by (simp_all add: sample_set_def map_lookup_def)
  then show ?thesis
    using syncReplicas_reaches_size [OF s(2) _ _ sample_env_live _ sample_preflight, of 2] s sample_priority by simp
qed

theorem syncReplicas_safe_witness:
  "\<exists>r t. syncReplicas sample_env (sample_scope (sample_set OldestMachineSetDeletePolicy 0) [sample_machine ''a'' 1 None None]) = (r, t) \<and>
     deleted (sc_requests t) = [''a''] \<and> creates (sc_requests t) = 0"
proof -
  let ?s = "sample_scope (sample_set OldestMachineSetDeletePolicy 0) [sample_machine ''a'' 1 None None]"
  obtain r t where e: "syncReplicas sample_env ?s = (r, t)" by fastforce
  have "\<exists>rs. sc_requests t = [] @ rs \<and> creates rs \<le> 0 \<and> deleted rs = [''a'']"
    using syncReplicas_safe [OF _ _ e, of 0]
    by (auto simp: sample_scope_def sample_priority getMachinesToDeletePrioritized_def sample_machine_def time_IsZero_def)
      (simp_all add: sample_set_def)
  with e show ?thesis by auto
qed

section \<open>The status of a MachineSet\<close>

definition same_objects :: "ms_scope \<Rightarrow> ms_scope \<Rightarrow> bool" where
  "same_objects s t \<longleftrightarrow> sc_machineSet t = sc_machineSet s \<and> sc_machines t = sc_machines s \<and> sc_adopted t = sc_adopted s"

lemma same_objects_request [simp]: "same_objects s (request r t) = same_objects s t"
  by (simp add: same_objects_def request_def)

lemma same_objects_refl [simp]: "same_objects s s"
  by (simp add: same_objects_def)

lemma count_ready_bounds:
  assumes "count_ready env m cs s = (Ret cs', t)"
  shows "rc_labeled cs' = rc_labeled cs \<and> rc_ready cs' \<le> Suc (rc_ready cs) \<and> rc_ready cs \<le> rc_ready cs' \<and>
    rc_available cs' - rc_available cs \<le> rc_ready cs' - rc_ready cs \<and> rc_available cs \<le> rc_available cs' \<and> same_objects s t"
  using assms by (auto simp: count_ready_def Let_def mbind_def mret_def mlift_def split: option.splits if_splits sum.splits go.splits)

lemma count_replicas_bounds:
  assumes "count_replicas env ms cs s = (Ret cs', t)" "rc_available cs \<le> rc_ready cs"
  shows "rc_labeled cs' \<le> rc_labeled cs + length ms \<and> rc_ready cs' \<le> rc_ready cs + length ms \<and>
    rc_available cs' \<le> rc_ready cs' \<and> same_objects s t"
  using assms
proof (induction ms arbitrary: cs s)
  case (Cons m ms)
  define cs0 where "cs0 = (if en_Matches env (tp_Labels (mss_Template (ms_Spec (sc_machineSet s)))) (om_Labels (m_Meta m))
    then cs\<lparr>rc_labeled := Suc (rc_labeled cs)\<rparr> else cs)"
  obtain r s1 where 1: "count_ready env m cs0 s = (r, s1)" by fastforce
  have *: "mbind (count_ready env m cs0) (count_replicas env ms) s = (Ret cs', t)"
    using Cons.prems(1) by (simp add: cs0_def)
  then obtain cs1 where r: "r = Ret cs1" "count_replicas env ms cs1 s1 = (Ret cs', t)"
    using 1 by (cases r) (simp_all add: mbind_def)
  note b = count_ready_bounds [OF 1 [unfolded r(1)]]
  have c0: "rc_labeled cs0 \<le> Suc (rc_labeled cs)" "rc_ready cs0 = rc_ready cs" "rc_available cs0 = rc_available cs"
    by (simp_all add: cs0_def)
  have "rc_available cs1 \<le> rc_ready cs1" using b c0 Cons.prems(2) by linarith
  from Cons.IH [OF r(2) this] show ?case using b c0 by (auto simp: same_objects_def)
qed (auto simp: mret_def)

lemma set_conditions_frame [simp]:
  "ms_Meta (set_conditions f ms) = ms_Meta ms" "ms_Spec (set_conditions f ms) = ms_Spec ms"
  "mst_Replicas (ms_Status (set_conditions f ms)) = mst_Replicas (ms_Status ms)"
  "mst_FullyLabeledReplicas (ms_Status (set_conditions f ms)) = mst_FullyLabeledReplicas (ms_Status ms)"
  "mst_ReadyReplicas (ms_Status (set_conditions f ms)) = mst_ReadyReplicas (ms_Status ms)"
  "mst_AvailableReplicas (ms_Status (set_conditions f ms)) = mst_AvailableReplicas (ms_Status ms)"
  "mst_ObservedGeneration (ms_Status (set_conditions f ms)) = mst_ObservedGeneration (ms_Status ms)"
  by (simp_all add: set_conditions_def split: option.splits)

lemma resize_frame:
  "\<exists>f. resize_conditions now wanted st ms = set_conditions f ms"
  by (simp add: resize_conditions_def) blast

lemma copy_status_values:
  "mst_Replicas (ms_Status (copy_status ms st)) = mst_Replicas st"
  "mst_FullyLabeledReplicas (ms_Status (copy_status ms st)) = mst_FullyLabeledReplicas st"
  "mst_ReadyReplicas (ms_Status (copy_status ms st)) = mst_ReadyReplicas st"
  "mst_AvailableReplicas (ms_Status (copy_status ms st)) = mst_AvailableReplicas st"
  "mst_ObservedGeneration (ms_Status (copy_status ms st)) = om_Generation (ms_Meta ms)"
  "ms_Meta (copy_status ms st) = ms_Meta ms" "ms_Spec (copy_status ms st) = ms_Spec ms"
  by (simp_all add: copy_status_def Let_def)

lemma reconcileStatus_result:
  assumes "sc_adopted s" "reconcileStatus env s = (Ret (), t)"
  shows "\<exists>cs selector f u. count_replicas env (sc_machines s) \<lparr>rc_labeled = 0, rc_ready = 0, rc_available = 0\<rparr> s = (Ret cs, u) \<and>
    sc_machineSet t = set_conditions f (copy_status (sc_machineSet u) (new_status (sc_machineSet u) selector (length (sc_machines u)) cs))"
proof -
  obtain k where k: "ms_Replicas (sc_machineSet s) = Some k" using assms by (auto simp: reconcileStatus_def split: option.splits)
  obtain selector where sel: "en_SelectorString env (mss_Selector (ms_Spec (sc_machineSet s))) = Inr selector"
    using assms k by (auto simp: reconcileStatus_def split: sum.splits)
  obtain r u where c: "count_replicas env (sc_machines s) \<lparr>rc_labeled = 0, rc_ready = 0, rc_available = 0\<rparr> s = (r, u)" by fastforce
  obtain cs where r: "r = Ret cs" using assms k sel c by (cases r) (simp_all add: reconcileStatus_def mbind_def)
  have comp: "\<exists>h. set_conditions f (set_conditions g ms) = set_conditions h ms" for f g ms
  proof (cases "g (Some (mst_Conditions (ms_Status ms)))")
    case None
    then show ?thesis by (auto simp: set_conditions_def intro: exI [of _ f])
  next
    case (Some cs1)
    then show ?thesis
    proof (cases "f (Some cs1)")
      case None
      then show ?thesis using Some by (intro exI [of _ g]) (simp add: set_conditions_def)
    next
      case (Some cs2)
      then show ?thesis using \<open>g _ = Some cs1\<close> by (intro exI [of _ "\<lambda>_. Some cs2"]) (simp add: set_conditions_def)
    qed
  qed
  define st where "st = new_status (sc_machineSet u) selector (length (sc_machines u)) cs"
  obtain now F where t: "sc_machineSet t = set_conditions F (resize_conditions now (desired_replicas (sc_machineSet u) k) st (copy_status (sc_machineSet u) st))"
    using assms k sel c r by (auto simp: reconcileStatus_def mbind_def Let_def put_machineSet_def st_def)
  obtain g where "resize_conditions now (desired_replicas (sc_machineSet u) k) st (copy_status (sc_machineSet u) st) =
      set_conditions g (copy_status (sc_machineSet u) st)" using resize_frame by blast
  then obtain h where "sc_machineSet t = set_conditions h (copy_status (sc_machineSet u) st)"
    using t comp [of F g] by auto
  then show ?thesis using c r unfolding st_def by blast
qed

text \<open>
  C39: the counters that a reconciliation writes into the status are consistent: the replicas are the
  Machines of the MachineSet, of them at most all are ready and fully labelled, and the available ones are
  among the ready ones. The observed generation is the one that was reconciled; metadata and spec are kept.
\<close>

theorem status_counters_consistent:
  assumes "sc_adopted s" "reconcileStatus env s = (Ret (), t)" "length (sc_machines s) < 2 ^ 31"
  shows "let st = ms_Status (sc_machineSet t) in
    mst_Replicas st = int (length (sc_machines s)) \<and> 0 \<le> mst_AvailableReplicas st \<and> mst_AvailableReplicas st \<le> mst_ReadyReplicas st \<and>
    mst_ReadyReplicas st \<le> mst_Replicas st \<and> 0 \<le> mst_FullyLabeledReplicas st \<and> mst_FullyLabeledReplicas st \<le> mst_Replicas st \<and>
    mst_ObservedGeneration st = om_Generation (ms_Meta (sc_machineSet s)) \<and>
    ms_Meta (sc_machineSet t) = ms_Meta (sc_machineSet s) \<and> ms_Spec (sc_machineSet t) = ms_Spec (sc_machineSet s)"
proof -
  obtain cs selector f u where
      c: "count_replicas env (sc_machines s) \<lparr>rc_labeled = 0, rc_ready = 0, rc_available = 0\<rparr> s = (Ret cs, u)" and
      t: "sc_machineSet t = set_conditions f (copy_status (sc_machineSet u) (new_status (sc_machineSet u) selector (length (sc_machines u)) cs))"
    using reconcileStatus_result [OF assms(1,2)] by blast
  have b: "rc_labeled cs \<le> length (sc_machines s)" "rc_ready cs \<le> length (sc_machines s)" "rc_available cs \<le> rc_ready cs"
      "same_objects s u"
    using count_replicas_bounds [OF c] by simp_all
  have "in_i32 (int (length (sc_machines s)))" "in_i32 (int (rc_labeled cs))" "in_i32 (int (rc_ready cs))" "in_i32 (int (rc_available cs))"
    using b(1-3) assms(3) by (simp_all add: in_i32_def)
  then show ?thesis
    using t b by (simp add: Let_def copy_status_values new_status_def i32_id same_objects_def)
qed

theorem status_counters_consistent_witness:
  "\<exists>t. reconcileStatus sample_env (sample_scope (sample_set OldestMachineSetDeletePolicy 2) [sample_machine ''a'' 1 None None]) = (Ret (), t) \<and>
     mst_Replicas (ms_Status (sc_machineSet t)) = 1 \<and> mst_AvailableReplicas (ms_Status (sc_machineSet t)) \<le> 1"
proof -
  let ?s = "sample_scope (sample_set OldestMachineSetDeletePolicy 2) [sample_machine ''a'' 1 None None]"
  have s: "sc_adopted ?s" "length (sc_machines ?s) = 1" by (simp_all add: sample_scope_def)
  have "\<exists>t. reconcileStatus sample_env ?s = (Ret (), t)"
    by (simp add: reconcileStatus_def sample_scope_def sample_set_def sample_env_def sample_machine_def count_ready_def mbind_def mret_def Let_def)
  then obtain t where t: "reconcileStatus sample_env ?s = (Ret (), t)" by blast
  show ?thesis using status_counters_consistent [OF s(1) t] s(2) t by (auto simp: Let_def)
qed

section \<open>Deleting a MachineSet\<close>

text \<open>
  The relations through which a reconciliation of a MachineSet that is being deleted changes its scope:
  before and in the deferred part (\<open>kept\<close>), and in the deletion itself (\<open>released\<close>).
\<close>

definition creates_nothing :: "ms_scope \<Rightarrow> ms_scope \<Rightarrow> bool" where
  "creates_nothing s t \<longleftrightarrow> (\<exists>rs. sc_requests t = sc_requests s @ rs \<and> creates rs = 0)"

abbreviation finalizers :: "ms_scope \<Rightarrow> string list" where
  "finalizers s \<equiv> om_Finalizers (ms_Meta (sc_machineSet s))"

definition kept :: "ms_scope \<Rightarrow> ms_scope \<Rightarrow> bool" where
  "kept s t \<longleftrightarrow> creates_nothing s t \<and> finalizers t = finalizers s \<and>
     om_DeletionTimestamp (ms_Meta (sc_machineSet t)) = om_DeletionTimestamp (ms_Meta (sc_machineSet s))"

definition released :: "ms_scope \<Rightarrow> ms_scope \<Rightarrow> bool" where
  "released s t \<longleftrightarrow> creates_nothing s t \<and>
     (finalizers t = finalizers s \<or> sc_adopted t \<and> sc_machines t = [])"

definition settled :: "ms_scope \<Rightarrow> ms_scope \<Rightarrow> bool" where
  "settled s t \<longleftrightarrow> kept s t \<and> sc_machines t = sc_machines s \<and> sc_adopted t = sc_adopted s"

lemma creates_nothing_trans: "creates_nothing s t \<Longrightarrow> creates_nothing t u \<Longrightarrow> creates_nothing s u"
  unfolding creates_nothing_def by (metis add.left_neutral append.assoc creates_simps(3))

lemma kept_trans: "kept s t \<Longrightarrow> kept t u \<Longrightarrow> kept s u"
  unfolding kept_def using creates_nothing_trans by metis

lemma settled_trans: "settled s t \<Longrightarrow> settled t u \<Longrightarrow> settled s u"
  unfolding settled_def using kept_trans by metis

lemma kept_released: "kept s t \<Longrightarrow> released t u \<Longrightarrow> released s u"
  unfolding kept_def released_def using creates_nothing_trans by metis

lemma released_settled: "released s t \<Longrightarrow> settled t u \<Longrightarrow> released s u"
  unfolding released_def settled_def kept_def using creates_nothing_trans by metis

lemma deletion_refl [simp]: "creates_nothing s s" "kept s s" "settled s s" "released s s"
  by (simp_all add: creates_nothing_def kept_def settled_def released_def)

lemma quiet_creates_nothing: "adds 0 d s t \<Longrightarrow> creates_nothing s t"
  by (auto simp: creates_nothing_def adds_def)

lemma kept_put: "adds 0 0 s t \<Longrightarrow> sc_machineSet t = sc_machineSet s \<Longrightarrow> kept s t"
  by (simp add: kept_def quiet_creates_nothing)

lemma reference_objects: "reconcileExternalTemplateReference env ref s = (r, t) \<Longrightarrow> sc_machineSet t = sc_machineSet s"
  by (auto simp: reconcileExternalTemplateReference_def Let_def request_def split: if_splits sum.splits api_outcome.splits option.splits)

lemma set_template_spec_meta [simp]: "ms_Meta (set_template_spec f ms) = ms_Meta ms"
  by (simp add: set_template_spec_def)

lemma reference_kept:
  assumes "\<And>n s. sc_machineSet (K n s) = sc_machineSet s \<and> sc_requests (K n s) = sc_requests s"
  shows "keeps kept (mbind (reconcileExternalTemplateReference env ref) (\<lambda>(ref, notFound, err) s.
      (G ref err, put_machineSet (set_template_spec (H ref) (sc_machineSet s)) (K notFound s))))"
proof (rule keeps_split)
  fix s :: ms_scope
  obtain r t where rt: "reconcileExternalTemplateReference env ref s = (r, t)" by fastforce
  then have "adds 0 0 s t" "sc_machineSet t = sc_machineSet s"
    using keepsD [OF quiet_leaf(2) rt] reference_objects [OF rt] by blast+
  moreover from this have "kept s (put_machineSet (set_template_spec (H ref') (sc_machineSet t)) (K n t))" for ref' n
    using assms by (auto simp: kept_def creates_nothing_def put_machineSet_def adds_def)
  ultimately show "kept s (snd (mbind (reconcileExternalTemplateReference env ref) (\<lambda>(ref, notFound, err) s.
      (G ref err, put_machineSet (set_template_spec (H ref) (sc_machineSet s)) (K notFound s))) s))"
    using rt by (cases r) (auto simp: mbind_def kept_put)
qed

lemma always_kept:
  "keeps kept (reconcileMachineSetOwnerAndLabels env)" "keeps kept (reconcileInfrastructure env)"
  "keeps kept (reconcileBootstrapConfig env)"
proof -
  show "keeps kept (reconcileMachineSetOwnerAndLabels env)"
    by (simp add: keeps_def reconcileMachineSetOwnerAndLabels_def Let_def kept_def creates_nothing_def put_machineSet_def adds_def)
  note i = reference_kept [of "\<lambda>n s. s\<lparr>sc_infrastructureObjectNotFound := n\<rparr>"]
  show "keeps kept (reconcileInfrastructure env)"
    using i [where G = "\<lambda>_ err. case err of Some e \<Rightarrow> Err e | None \<Rightarrow> Ret result_zero" and
        H = "\<lambda>ref t. t\<lparr>sp_InfrastructureRef := ref\<rparr>"]
    unfolding keeps_def reconcileInfrastructure_def by simp
  note b = reference_kept [of "\<lambda>n s. s\<lparr>sc_bootstrapObjectNotFound := n\<rparr>"]
  show "keeps kept (reconcileBootstrapConfig env)"
    using b [where G = "\<lambda>_ err. case err of Some e \<Rightarrow> Err e | None \<Rightarrow> Ret result_zero" and
        H = "\<lambda>ref t. t\<lparr>sp_Bootstrap := (sp_Bootstrap t)\<lparr>bs_ConfigRef := Some ref\<rparr>\<rparr>"]
    unfolding keeps_def reconcileBootstrapConfig_def by (simp split: option.splits)
qed

lemma adopt_frame:
  assumes r: "\<And>x s. f (request x s) = f s"
  shows "keeps (\<lambda>s t. f t = f s) (adopt_machines env ms)"
proof (induction ms)
  case (Cons m ms)
  have a: "f (snd (adoptOrphan env m s)) = f s" for s
    by (auto simp: adoptOrphan_def Let_def r split: sum.splits)
  have rest: "f (snd (mbind (adopt_machines env ms) (\<lambda>rest. mret (x # rest)) s)) = f s" for x s
    using Cons.IH by (auto simp: keeps_def mbind_def mret_def split: prod.splits go.splits) (metis snd_conv)+
  show ?case unfolding keeps_def
  proof
    fix s :: ms_scope
    obtain q u where q: "adoptOrphan env m s = (q, u)" by fastforce
    then have "f u = f s" using a [of s] by simp
    then show "f (snd (adopt_machines env (m # ms) s)) = f s"
      using q rest r Cons.IH by (cases q) (auto simp: keeps_def mbind_def [of "attempt _"] attempt_def)
  qed
qed (simp add: keeps_def)

lemmas adopt_objects = adopt_frame [of sc_machineSet, simplified request_def, simplified]
lemmas adopt_adopted = adopt_frame [of sc_adopted, simplified request_def, simplified]

lemma getAndAdopt_kept: "keeps kept (getAndAdoptMachinesForMachineSet env)"
proof (rule keeps_split)
  fix s :: ms_scope
  have "adds 0 0 s (snd (getAndAdoptMachinesForMachineSet env s))" using quiet_getAndAdopt by (simp add: keeps_def)
  moreover have "sc_machineSet (snd (mbind (adopt_machines env ms) (\<lambda>x s. (Ret result_zero, s\<lparr>sc_machines := x, sc_adopted := True\<rparr>)) u)) =
      sc_machineSet u" for ms u
  proof -
    obtain q v where q: "adopt_machines env ms u = (q, v)" by fastforce
    with adopt_objects have "sc_machineSet v = sc_machineSet u" by (rule keepsD)
    with q show ?thesis by (cases q) (simp_all add: mbind_def)
  qed
  then have "sc_machineSet (snd (getAndAdoptMachinesForMachineSet env s)) = sc_machineSet s"
    by (auto simp: getAndAdoptMachinesForMachineSet_def Let_def request_def split: sum.splits)
  ultimately show "kept s (snd (getAndAdoptMachinesForMachineSet env s))" by (rule kept_put)
qed

lemma reconcileDelete_released: "keeps released (reconcileDelete env)"
proof (rule keeps_split)
  fix s :: ms_scope
  obtain r t where d: "delete_owned env (sc_machines s) s = (r, t)" by fastforce
  have "sc_machineSet (snd (delete_machine env b m s)) = sc_machineSet s" for b m s
    by (auto simp: delete_machine_def Let_def request_def split: api_outcome.splits)
  then have "keeps (\<lambda>s t. sc_machineSet t = sc_machineSet s) (delete_owned env ms)" for ms
  proof (induction ms)
    case (Cons m ms)
    show ?case unfolding delete_owned.simps
      by (rule keeps_mbind) (use Cons in \<open>auto simp: keeps_def\<close>)
  qed (simp add: keeps_def)
  then have "sc_machineSet t = sc_machineSet s" using d by (rule keepsD)
  moreover have "creates_nothing s t" using keepsD [OF delete_owned_adds d] by (rule quiet_creates_nothing)
  ultimately have "released s t" by (simp add: released_def)
  then show "released s (snd (reconcileDelete env s))"
    using d by (cases r) (auto simp: reconcileDelete_def Let_def released_def creates_nothing_def put_machineSet_def mbind_def mret_def)
qed

lemma updateStatus_meta: "updateStatus lib ms machines b i a p = Ret ms' \<Longrightarrow> ms_Meta ms' = ms_Meta ms"
proof -
  have p: "ms_Meta (put_machineset_v2 ms x) = ms_Meta ms" for ms x by (simp add: put_machineset_v2_def split: option.splits)
  then have v: "ms_Meta (ms_v2_Set lib ms t x y z) = ms_Meta ms" for ms t x y z by (simp add: ms_v2_Set_def)
  have g: "set_aggregate lib ms machines succeeded source target reason = Ret ms1 \<Longrightarrow> ms_Meta ms1 = ms_Meta ms"
    for ms succeeded source target reason ms1
    by (auto simp: set_aggregate_def v split: if_splits go.splits)
  have rem: "setRemediatingCondition lib ms x y succeeded = Ret ms1 \<Longrightarrow> ms_Meta ms1 = ms_Meta ms" for ms x y succeeded ms1
    by (auto simp: setRemediatingCondition_def v split: if_splits go.splits)
  have up: "setScalingUpCondition lib ms machines b i a p = Ret ms1 \<Longrightarrow> ms_Meta ms1 = ms_Meta ms" for ms ms1
    by (auto simp: setScalingUpCondition_def v Let_def go_bind_Ret_iff split: if_splits option.splits)
  have "ms_Meta (setScalingDownCondition lib ms machines a) = ms_Meta ms" for ms
    by (simp add: setScalingDownCondition_def v Let_def split: option.splits)
  moreover have "ms_Meta (setDeletingCondition lib ms machines a) = ms_Meta ms" for ms
    by (simp add: setDeletingCondition_def v)
  moreover have "ms_Meta (ms_setReplicas lib ms machines a) = ms_Meta ms" by (simp add: ms_setReplicas_def)
  moreover assume "updateStatus lib ms machines b i a p = Ret ms'"
  ultimately show ?thesis
    unfolding updateStatus_def setMachinesReadyCondition_def setMachinesUpToDateCondition_def
    by (auto simp: go_bind_Ret_iff Let_def dest!: g up rem)
qed

lemma count_settled: "keeps (\<lambda>s t. adds 0 0 s t \<and> same_objects s t) (count_replicas env ms cs)"
proof (induction ms arbitrary: cs)
  case (Cons m ms)
  have 1: "adds 0 0 s (snd (count_ready env m cs s)) \<and> same_objects s (snd (count_ready env m cs s))" for s cs
    by (auto simp: count_ready_def Let_def mbind_def mret_def mlift_def split: option.splits if_splits sum.splits go.splits)
  have "keeps (\<lambda>s t. adds 0 0 s t \<and> same_objects s t) (mbind (count_ready env m cs) (count_replicas env ms))" for cs
  proof (rule keeps_mbind)
    fix s t u :: ms_scope
    assume "adds 0 0 s t \<and> same_objects s t" "adds 0 0 t u \<and> same_objects t u"
    then show "adds 0 0 s u \<and> same_objects s u" using adds_trans [of 0 0 s t 0 0 u] by (simp add: same_objects_def)
  qed (use 1 Cons.IH in \<open>simp_all add: keeps_def\<close>)
  then show ?case by (simp add: keeps_def)
qed (simp add: keeps_def)

lemma settled_put: "adds 0 0 s t \<Longrightarrow> same_objects s t \<Longrightarrow> ms_Meta ms = ms_Meta (sc_machineSet s) \<Longrightarrow> settled s (put_machineSet ms t)"
  by (auto simp: settled_def kept_def creates_nothing_def adds_def same_objects_def put_machineSet_def)

lemma settled_same: "adds 0 0 s t \<Longrightarrow> same_objects s t \<Longrightarrow> settled s t"
  by (auto simp: settled_def kept_def creates_nothing_def adds_def same_objects_def)

lemma resize_meta [simp]: "ms_Meta (resize_conditions now wanted st ms) = ms_Meta ms"
  by (simp add: resize_conditions_def)

lemma reconcileStatus_settled: "keeps settled (reconcileStatus env)"
proof (rule keeps_split)
  fix s :: ms_scope
  obtain r t where c: "count_replicas env (sc_machines s) \<lparr>rc_labeled = 0, rc_ready = 0, rc_available = 0\<rparr> s = (r, t)" by fastforce
  then have "adds 0 0 s t" "same_objects s t" using keepsD [OF count_settled] by blast+
  then have "settled s (put_machineSet ms t)" if "ms_Meta ms = ms_Meta (sc_machineSet s)" for ms
    using that by (rule settled_put)
  moreover have "settled s t" "sc_machineSet t = sc_machineSet s"
    using \<open>adds 0 0 s t\<close> \<open>same_objects s t\<close> by (simp_all add: settled_same same_objects_def)
  ultimately show "settled s (snd (reconcileStatus env s))"
    using c by (cases r) (auto simp: reconcileStatus_def mbind_def Let_def copy_status_values split: option.splits sum.splits)
qed

lemma update_status_settled: "keeps settled (update_status env)"
proof (rule keeps_split)
  fix s :: ms_scope
  show "settled s (snd (update_status env s))"
    by (auto simp: update_status_def mbind_def mlift_def settled_put updateStatus_meta split: go.splits)
qed

lemma patchMachineSet_settled: "keeps settled (patchMachineSet env)"
proof (rule keeps_split)
  fix s :: ms_scope
  have "settled s (request r (put_machineSet ms s))" if "\<not> is_create r" "ms_Meta ms = ms_Meta (sc_machineSet s)" for r ms
    using that by (auto simp: settled_def kept_def creates_nothing_def put_machineSet_def request_def)
  then show "settled s (snd (patchMachineSet env s))"
    by (auto simp: patchMachineSet_def ask_def Let_def split: option.splits)
qed

lemma phases_kept:
  assumes "\<And>p. p \<in> set phases \<Longrightarrow> keeps kept p" and "keeps released last_phase"
  shows "keeps released (doReconcile res errs (phases @ [last_phase]))"
  using assms(1)
proof (induction phases arbitrary: res errs)
  case Nil
  have "released s (snd (attempt last_phase s))" for s using keeps_attempt [OF assms(2)] by (simp add: keeps_def)
  then show ?case
    by (auto simp: keeps_def mbind_def mret_def mlift_def split: prod.splits go.splits sum.splits) (metis snd_conv)+
next
  case (Cons p ps)
  have IH: "released t (snd (doReconcile res errs (ps @ [last_phase]) t))" for res errs t
    using Cons by (simp add: keeps_def)
  show ?case
  proof (rule keeps_split)
    fix s :: ms_scope
    obtain r t where pt: "attempt p s = (r, t)" by fastforce
    have "keeps kept p" using Cons.prems by simp
    from keepsD [OF keeps_attempt [OF this] pt] have "kept s t" .
    moreover from this have "released s t" by (rule kept_released) simp
    ultimately show "released s (snd (doReconcile res errs ((p # ps) @ [last_phase]) s))"
      using pt IH by (cases r) (auto simp: mbind_def intro: kept_released split: sum.splits)
  qed
qed

lemma keeps_passed_error: "keeps R m \<Longrightarrow> keeps R (on_error m (\<lambda>_ s. s) msg)"
  by (auto simp: keeps_def on_error_def split: prod.splits go.splits) (metis snd_conv)+

lemma keeps_wrapErr: "keeps R f \<Longrightarrow> keeps R (wrapErr msg f)"
  unfolding wrapErr_def by (rule keeps_passed_error)

lemma reconcile_body_released:
  assumes "\<not> time_IsZero (om_DeletionTimestamp (ms_Meta (sc_machineSet s)))"
  shows "released s (snd (reconcile_body env s))"
proof -
  have phases: "released u (snd (doReconcile result_zero [] (reconcile_phases env ms) u))"
    if "\<not> time_IsZero (om_DeletionTimestamp (ms_Meta ms))" for u ms
  proof -
    have "keeps released (doReconcile result_zero [] (alwaysReconcile env @ [wrapErr ''failed to reconcile delete'' (reconcileDelete env)]))"
      by (rule phases_kept)
        (auto simp: alwaysReconcile_def intro!: keeps_wrapErr always_kept getAndAdopt_kept reconcileDelete_released)
    then show ?thesis using that by (simp add: keeps_def reconcile_phases_def)
  qed
  let ?own = "if isDeploymentChild (sc_machineSet s)
    then mbind (getOwnerMachineDeployment env) (\<lambda>md s. (Ret (), s\<lparr>sc_owner := Some md\<rparr>)) else mret ()"
  obtain r u where own: "?own s = (r, u)" by fastforce
  have "kept s u" "om_DeletionTimestamp (ms_Meta (sc_machineSet u)) = om_DeletionTimestamp (ms_Meta (sc_machineSet s))"
    using own by (auto simp: getOwnerMachineDeployment_def mbind_def mret_def Let_def request_def kept_def creates_nothing_def
        split: if_splits sum.splits)
  then have "released s u" "released s (snd (doReconcile result_zero [] (reconcile_phases env (sc_machineSet u)) u))"
    using phases [of "sc_machineSet u" u] assms by (auto intro: kept_released)
  then show ?thesis
    using own by (cases r) (auto simp: reconcile_body_def mbind_def Let_def split: prod.splits go.splits)
qed

text \<open>
  What the scope says about its Machines comes from a listing. \<open>listed_none\<close>: a request, after the first \<open>j\<close> ones, has listed
  the Machines of the MachineSet's namespace with the selector \<open>sel\<close>, and each of them is controlled by another
  object or is an orphan that could not be adopted.
\<close>

definition unclaimed :: "machineset \<Rightarrow> ms_request list \<Rightarrow> machine \<Rightarrow> bool" where
  "unclaimed ms rs m \<longleftrightarrow> shouldExcludeMachine ms m \<or>
     GetControllerOf (m_Meta m) = None \<and> Event ''FailedAdopt'' (m_Name m) \<in> set rs"

definition listed_none :: "ms_env \<Rightarrow> machineset \<Rightarrow> label_selector \<Rightarrow> nat \<Rightarrow> ms_request list \<Rightarrow> bool" where
  "listed_none env ms sel j rs \<longleftrightarrow>
     (\<exists>k selectorMap machines. j \<le> k \<and> k < length rs \<and> rs ! k = ListMachines (om_Namespace (ms_Meta ms)) \<and>
        en_SelectorAsMap env sel = Inr selectorMap \<and> en_List env k (om_Namespace (ms_Meta ms)) selectorMap = Inr machines \<and>
        (\<forall>m \<in> set machines. unclaimed ms (drop k rs) m))"

lemma unclaimed_mono: "unclaimed ms rs m \<Longrightarrow> set rs \<subseteq> set rs' \<Longrightarrow> unclaimed ms rs' m"
  by (auto simp: unclaimed_def)

lemma listed_none_later: "listed_none env ms sel j rs \<Longrightarrow> listed_none env ms sel j (rs @ qs)"
  unfolding listed_none_def
proof (elim exE conjE)
  fix k selectorMap machines
  assume *: "j \<le> k" "k < length rs" "rs ! k = ListMachines (om_Namespace (ms_Meta ms))"
    "en_SelectorAsMap env sel = Inr selectorMap" "en_List env k (om_Namespace (ms_Meta ms)) selectorMap = Inr machines"
    "\<forall>m \<in> set machines. unclaimed ms (drop k rs) m"
  then have "\<forall>m \<in> set machines. unclaimed ms (drop k (rs @ qs)) m" using unclaimed_mono by fastforce
  with * show "\<exists>k selectorMap machines. j \<le> k \<and> k < length (rs @ qs) \<and> (rs @ qs) ! k = ListMachines (om_Namespace (ms_Meta ms)) \<and>
      en_SelectorAsMap env sel = Inr selectorMap \<and> en_List env k (om_Namespace (ms_Meta ms)) selectorMap = Inr machines \<and>
      (\<forall>m \<in> set machines. unclaimed ms (drop k (rs @ qs)) m)"
    by (intro exI [of _ k] exI [of _ selectorMap] exI [of _ machines]) (simp add: nth_append)
qed

lemma adopt_machines_none:
  assumes "adopt_machines env machines s = (Ret [], t)"
  shows "\<exists>rs. sc_requests t = sc_requests s @ rs \<and> (\<forall>m \<in> set machines. unclaimed (sc_machineSet s) rs m)"
  using assms
proof (induction machines arbitrary: s)
  case Nil
  then show ?case by (simp add: mret_def)
next
  case (Cons m ms)
  show ?case
  proof (cases "shouldExcludeMachine (sc_machineSet s) m")
    case True
    then show ?thesis using Cons.IH [of s] Cons.prems by (auto simp: unclaimed_def)
  next
    case False
    let ?s1 = "request (AdoptMachine (m_Name m)) s"
    let ?s2 = "request (Event ''FailedAdopt'' (m_Name m)) ?s1"
    have orphan: "GetControllerOf (m_Meta m) = None" and run: "adopt_machines env ms ?s2 = (Ret [], t)"
      using Cons.prems False
      by (auto simp: attempt_def adoptOrphan_def mbind_def mret_def Let_def split: if_splits sum.splits go.splits prod.splits)
    obtain rs where rs: "sc_requests t = sc_requests ?s2 @ rs" "\<forall>x \<in> set ms. unclaimed (sc_machineSet ?s2) rs x"
      using Cons.IH [OF run] by blast
    let ?rs = "[AdoptMachine (m_Name m), Event ''FailedAdopt'' (m_Name m)] @ rs"
    have "sc_requests t = sc_requests s @ ?rs" "sc_machineSet ?s2 = sc_machineSet s" using rs(1) by (simp_all add: request_def)
    moreover from this have "\<forall>x \<in> set (m # ms). unclaimed (sc_machineSet s) ?rs x"
      using orphan rs(2) by (auto simp: unclaimed_def)
    ultimately show ?thesis by blast
  qed
qed

text \<open>
  From a scope without Machines on: \<open>fresh\<close> before the listing and \<open>tracked\<close> after it, for a MachineSet \<open>ms\<close> with the selector \<open>sel\<close>.
\<close>

definition same_set :: "machineset \<Rightarrow> label_selector \<Rightarrow> nat \<Rightarrow> ms_scope \<Rightarrow> bool" where
  "same_set ms sel j s \<longleftrightarrow> om_Namespace (ms_Meta (sc_machineSet s)) = om_Namespace (ms_Meta ms) \<and>
     om_UID (ms_Meta (sc_machineSet s)) = om_UID (ms_Meta ms) \<and> mss_Selector (ms_Spec (sc_machineSet s)) = sel \<and> j \<le> nreq s"

definition fresh :: "machineset \<Rightarrow> label_selector \<Rightarrow> nat \<Rightarrow> ms_scope \<Rightarrow> bool" where
  "fresh ms sel j s \<longleftrightarrow> \<not> sc_adopted s \<and> same_set ms sel j s"

definition tracked :: "ms_env \<Rightarrow> machineset \<Rightarrow> label_selector \<Rightarrow> nat \<Rightarrow> ms_scope \<Rightarrow> bool" where
  "tracked env ms sel j s \<longleftrightarrow> (sc_adopted s \<and> sc_machines s = [] \<longrightarrow> listed_none env ms sel j (sc_requests s))"

lemma fresh_tracked: "fresh ms sel j s \<Longrightarrow> tracked env ms sel j s"
  by (simp add: fresh_def tracked_def)

lemma unclaimed_same: "om_UID (ms_Meta ms') = om_UID (ms_Meta ms) \<Longrightarrow> unclaimed ms' rs m = unclaimed ms rs m"
  by (simp add: unclaimed_def shouldExcludeMachine_def split: option.split)

lemma getAndAdopt_tracked:
  assumes "fresh ms sel j s" "getAndAdoptMachinesForMachineSet env s = (r, t)"
  shows "tracked env ms sel j t"
proof (cases "sc_adopted t \<and> sc_machines t = []")
  case True
  let ?ns = "om_Namespace (ms_Meta ms)" and ?s1 = "request (ListMachines (om_Namespace (ms_Meta ms))) s"
  have f: "\<not> sc_adopted s" "om_Namespace (ms_Meta (sc_machineSet s)) = ?ns" "om_UID (ms_Meta (sc_machineSet s)) = om_UID (ms_Meta ms)"
      "mss_Selector (ms_Spec (sc_machineSet s)) = sel" "j \<le> nreq s" using assms(1) by (simp_all add: fresh_def same_set_def)
  obtain selectorMap where sm: "en_SelectorAsMap env sel = Inr selectorMap"
    using assms(2) True f by (cases "en_SelectorAsMap env sel") (auto simp: getAndAdoptMachinesForMachineSet_def)
  obtain machines where ml: "en_List env (nreq s) ?ns selectorMap = Inr machines"
    using assms(2) True f sm by (cases "en_List env (nreq s) ?ns selectorMap") (auto simp: getAndAdoptMachinesForMachineSet_def request_def)
  obtain r' u where a: "adopt_machines env machines ?s1 = (r', u)" by fastforce
  have run: "mbind (adopt_machines env machines) (\<lambda>filteredMachines s. (Ret result_zero, s\<lparr>sc_machines := filteredMachines, sc_adopted := True\<rparr>)) ?s1 = (r, t)"
    using assms(2) f sm ml by (simp add: getAndAdoptMachinesForMachineSet_def)
  have "sc_adopted u = sc_adopted s" using keepsD [OF adopt_adopted a] by (simp add: request_def)
  then have "r' = Ret []" "sc_requests t = sc_requests u" using run a True f(1) by (cases r'; auto simp: mbind_def)+
  note a = a [unfolded this(1)] this(2) and l = sm ml
  obtain rs where rs: "sc_requests u = sc_requests ?s1 @ rs" "\<forall>m \<in> set machines. unclaimed (sc_machineSet ?s1) rs m"
    using adopt_machines_none [OF a(1)] by blast
  have "sc_requests t = sc_requests s @ ListMachines ?ns # rs" using rs(1) a(2) by (simp add: request_def)
  moreover have "\<forall>m \<in> set machines. unclaimed ms (ListMachines ?ns # rs) m"
    using rs(2) unclaimed_same [OF f(3)] unclaimed_mono [of ms rs _ "ListMachines ?ns # rs"] by (auto simp: request_def)
  ultimately have "listed_none env ms sel j (sc_requests t)" unfolding listed_none_def using l f(5)
    by (intro exI [of _ "nreq s"] exI [of _ selectorMap] exI [of _ machines]) simp
  then show ?thesis by (simp add: tracked_def)
qed (auto simp: tracked_def)

lemma tracked_frame:
  assumes "tracked env ms sel j s" "sc_requests t = sc_requests s @ rs" "sc_adopted t = sc_adopted s" "sc_machines t = sc_machines s"
  shows "tracked env ms sel j t"
  using assms listed_none_later by (simp add: tracked_def)

lemma settled_tracked: "settled s t \<Longrightarrow> tracked env ms sel j s \<Longrightarrow> tracked env ms sel j t"
  by (auto simp: settled_def kept_def creates_nothing_def intro: tracked_frame)

lemma reference_adopted: "reconcileExternalTemplateReference env ref s = (r, t) \<Longrightarrow> sc_adopted t = sc_adopted s"
  by (auto simp: reconcileExternalTemplateReference_def Let_def request_def split: if_splits sum.splits api_outcome.splits option.splits)

lemma set_template_spec_selector [simp]: "mss_Selector (ms_Spec (set_template_spec f ms)) = mss_Selector (ms_Spec ms)"
  by (simp add: set_template_spec_def)

lemma reference_fresh:
  assumes "\<And>n s. sc_machineSet (K n s) = sc_machineSet s \<and> sc_requests (K n s) = sc_requests s \<and> sc_adopted (K n s) = sc_adopted s"
    and "fresh ms sel j s"
  shows "fresh ms sel j (snd (mbind (reconcileExternalTemplateReference env ref) (\<lambda>(ref, notFound, err) s.
      (G ref err, put_machineSet (set_template_spec (H ref) (sc_machineSet s)) (K notFound s))) s))"
proof -
  obtain r t where rt: "reconcileExternalTemplateReference env ref s = (r, t)" by fastforce
  obtain rs where "sc_requests t = sc_requests s @ rs" using keepsD [OF quiet_leaf(2) rt] by (auto simp: adds_def)
  then have "fresh ms sel j t" and "fresh ms sel j (put_machineSet (set_template_spec (H ref') (sc_machineSet t)) (K n t))" for ref' n
    using assms reference_objects [OF rt] reference_adopted [OF rt] by (simp_all add: fresh_def same_set_def put_machineSet_def)
  then show ?thesis using rt by (cases r) (auto simp: mbind_def)
qed

lemma always_fresh:
  assumes "fresh ms sel j s"
  shows "fresh ms sel j (snd (reconcileInfrastructure env s))" "fresh ms sel j (snd (reconcileBootstrapConfig env s))"
proof -
  show "fresh ms sel j (snd (reconcileInfrastructure env s))" unfolding reconcileInfrastructure_def
    by (rule reference_fresh [where G = "\<lambda>_ err. case err of Some e \<Rightarrow> Err e | None \<Rightarrow> Ret result_zero"]) (use assms in simp_all)
  show "fresh ms sel j (snd (reconcileBootstrapConfig env s))"
  proof (cases "bs_ConfigRef (sp_Bootstrap (tp_Spec (mss_Template (ms_Spec (sc_machineSet s)))))")
    case (Some ref)
    show ?thesis unfolding reconcileBootstrapConfig_def Some option.case
      by (rule reference_fresh [where G = "\<lambda>_ err. case err of Some e \<Rightarrow> Err e | None \<Rightarrow> Ret result_zero"]) (use assms in simp_all)
  qed (use assms in \<open>simp add: reconcileBootstrapConfig_def\<close>)
qed

lemma reconcileDelete_tracked:
  assumes "tracked env ms sel j s"
  shows "tracked env ms sel j (snd (reconcileDelete env s))"
proof -
  let ?F = "\<lambda>s t. sc_adopted t = sc_adopted s \<and> sc_machines t = sc_machines s"
  have "keeps ?F (delete_machine env b m)" for b m
    by (auto simp: keeps_def delete_machine_def Let_def request_def split: api_outcome.splits)
  then have "keeps ?F (delete_owned env xs)" for xs
  proof (induction xs)
    case (Cons x xs)
    show ?case unfolding delete_owned.simps
      by (rule keeps_mbind) (use Cons in \<open>auto simp: keeps_def\<close>)
  qed (simp add: keeps_def)
  then have "?F s (snd (delete_owned env (sc_machines s) s))" by (simp add: keeps_def)
  moreover have "adds 0 (length (sc_machines s)) s (snd (delete_owned env (sc_machines s) s))" using delete_owned_adds by (simp add: keeps_def)
  ultimately have "tracked env ms sel j (snd (delete_owned env (sc_machines s) s))"
    using tracked_frame [OF assms] by (auto simp: adds_def)
  then show ?thesis using assms
    by (cases "delete_owned env (sc_machines s) s"; cases "fst (delete_owned env (sc_machines s) s)")
      (auto simp: reconcileDelete_def Let_def put_machineSet_def mbind_def mret_def tracked_def)
qed

lemma snd_wrapErr [simp]: "snd (wrapErr msg f s) = snd (f s)"
  by (auto simp: wrapErr_def on_error_def split: prod.splits go.splits)

text \<open>Phases that keep \<open>A\<close>, one that turns it into \<open>B\<close>, and one that keeps \<open>B\<close>, whatever the phases return.\<close>

lemma doReconcile_stages:
  assumes keep: "\<And>p s. p \<in> set ps \<Longrightarrow> A s \<Longrightarrow> A (snd (p s))" and turn: "\<And>s. A s \<Longrightarrow> B (snd (q s))"
    and last: "\<And>s. B s \<Longrightarrow> B (snd (l s))" and AB: "\<And>s. A s \<Longrightarrow> B s" and "A s"
  shows "B (snd (doReconcile res errs (ps @ [q, l]) s))"
  using keep \<open>A s\<close>
proof (induction ps arbitrary: res errs s)
  case Nil
  have end_B: "B (snd (doReconcile res errs [l] u))" if "B u" for res errs u
    using last [OF that] by (cases "l u"; cases "fst (l u)") (auto simp: mbind_def attempt_def mret_def mlift_def)
  show ?case using turn [OF Nil.prems(2)] end_B [of "snd (q s)"]
    by (cases "q s"; cases "fst (q s)") (auto simp: mbind_def [of "attempt q"] attempt_def simp del: doReconcile.simps(2) simp: doReconcile.simps(2) [of _ _ q])
next
  case (Cons p ps)
  have "A (snd (p s))" using Cons.prems by simp
  moreover from this have "B (snd (doReconcile res errs (ps @ [q, l]) (snd (p s))))" for res errs
    using Cons.IH [of "snd (p s)"] Cons.prems(1) by simp
  ultimately show ?case using AB
    by (cases "p s"; cases "fst (p s)") (auto simp: mbind_def [of "attempt p"] attempt_def)
qed

text \<open>The selector that the first phase of a reconciliation gives to the MachineSet.\<close>

definition cluster_selector :: "machineset \<Rightarrow> label_selector" where
  "cluster_selector ms = (mss_Selector (ms_Spec ms))\<lparr>sel_MatchLabels :=
     map_put (sel_MatchLabels (mss_Selector (ms_Spec ms))) ClusterNameLabel (mss_ClusterName (ms_Spec ms))\<rparr>"

lemma owner_phase_fresh:
  assumes "\<not> sc_adopted s" "om_Namespace (ms_Meta (sc_machineSet s)) = om_Namespace (ms_Meta ms)" "om_UID (ms_Meta (sc_machineSet s)) = om_UID (ms_Meta ms)"
    and "j \<le> nreq s" "ms_Spec (sc_machineSet s) = ms_Spec ms"
  shows "fresh ms (cluster_selector ms) j (snd (reconcileMachineSetOwnerAndLabels env s))"
  using assms by (simp add: reconcileMachineSetOwnerAndLabels_def Let_def fresh_def same_set_def put_machineSet_def cluster_selector_def)

lemma reconcile_body_tracked:
  assumes "\<not> time_IsZero (om_DeletionTimestamp (ms_Meta (sc_machineSet s)))" "\<not> sc_adopted s"
  shows "tracked env (sc_machineSet s) (cluster_selector (sc_machineSet s)) (nreq s) (snd (reconcile_body env s))"
proof -
  let ?ms = "sc_machineSet s" let ?T = "tracked env ?ms (cluster_selector ?ms) (nreq s)" and ?F = "fresh ?ms (cluster_selector ?ms) (nreq s)"
  let ?own = "if isDeploymentChild ?ms then mbind (getOwnerMachineDeployment env) (\<lambda>md s. (Ret (), s\<lparr>sc_owner := Some md\<rparr>)) else mret ()"
  obtain r u where own: "?own s = (r, u)" by fastforce
  have u: "sc_machineSet u = ?ms" "\<not> sc_adopted u" "nreq s \<le> nreq u"
    using own assms(2) by (auto simp: getOwnerMachineDeployment_def mbind_def mret_def Let_def request_def split: if_splits sum.splits)
  let ?p = "wrapErr ''failed to set MachineSet owner and labels'' (reconcileMachineSetOwnerAndLabels env)"
  let ?q = "wrapErr ''failed to get and adopt Machines for MachineSet'' (getAndAdoptMachinesForMachineSet env)"
  let ?l = "wrapErr ''failed to reconcile delete'' (reconcileDelete env)"
  let ?ps = "[wrapErr ''failed to reconcile infrastructure'' (reconcileInfrastructure env),
      wrapErr ''failed to reconcile bootstrapConfig'' (reconcileBootstrapConfig env)]"
  obtain v where v: "?p u = (Ret result_zero, v)" "v = snd (reconcileMachineSetOwnerAndLabels env u)"
    by (simp add: wrapErr_def on_error_def reconcileMachineSetOwnerAndLabels_def Let_def)
  have "?F v" unfolding v(2) by (rule owner_phase_fresh) (use u in simp_all)
  then have "?T (snd (doReconcile res errs (?ps @ [?q, ?l]) v))" for res errs
    by (intro doReconcile_stages [where A = ?F and B = ?T])
      (auto simp: always_fresh getAndAdopt_tracked reconcileDelete_tracked fresh_tracked intro: getAndAdopt_tracked [OF _ prod.collapse [symmetric]])
  then have phases: "?T (snd (doReconcile result_zero [] (reconcile_phases env ?ms) u))"
    using v(1) assms(1) by (simp add: reconcile_phases_def alwaysReconcile_def mbind_def [of "attempt ?p"] attempt_def del: doReconcile.simps(2)
      add: doReconcile.simps(2) [of _ _ ?p])
  have "?T u" using u(2) by (simp add: tracked_def)
  then show ?thesis using own phases u(1)
    by (cases r) (auto simp: reconcile_body_def mbind_def Let_def split: prod.splits go.splits)
qed

text \<open>What follows the phases, the status and the patch of the MachineSet, changes neither its metadata nor its Machines.\<close>

lemma reconcile_settles:
  assumes "reconcile env s = (r, t)"
  shows "settled (snd (reconcile_body env s)) t"
proof -
  have deferred: "keeps settled (mbind (attempt (on_error (reconcileStatus env) (\<lambda>_ s. s) ''failed to update status''))
      (\<lambda>status. mbind (update_status env) (\<lambda>_. mbind (attempt (patchMachineSet env)) (F status))))"
    if "\<And>x y s. snd (F x y s) = s" for F :: "ms_error + unit \<Rightarrow> ms_error + unit \<Rightarrow> ctrl_result msm"
  proof -
    have "keeps settled (F x y)" for x y unfolding keeps_def using that by simp
    then show ?thesis
      by (intro keeps_mbind [OF settled_trans] keeps_attempt keeps_passed_error reconcileStatus_settled
          update_status_settled patchMachineSet_settled)
  qed
  obtain b u where b: "attempt (reconcile_body env) s = (b, u)" by fastforce
  then have u: "u = snd (reconcile_body env s)" by (auto simp: attempt_def split: prod.splits go.splits)
  show ?thesis
  proof (cases b)
    case (Ret body)
    define F :: "ms_error + unit \<Rightarrow> ms_error + unit \<Rightarrow> ctrl_result msm" where "F = (\<lambda>status patched s.
      case body of
        Inl e \<Rightarrow> (Err (the (also_failed (also_failed (Some e) status) patched)), s)
      | Inr retres \<Rightarrow>
          (case also_failed (also_failed None status) patched of Some err \<Rightarrow> (Err err, s)
           | None \<Rightarrow>
               (Ret (if time_IsZero (om_DeletionTimestamp (ms_Meta (sc_machineSet s)))
                     then LowestNonZeroResult retres (shouldRequeueForReplicaCountersRefresh (sc_machineSet s)) else retres), s)))"
    have "snd (F x y s) = s" for x y s by (simp add: F_def split: sum.split option.split)
    from keepsD [OF deferred [OF this]] have "settled u t"
      using assms(1) b Ret by (simp add: reconcile_def mbind_def [of "attempt (reconcile_body env)"] F_def)
    then show ?thesis using u by simp
  qed (use assms(1) b u in \<open>simp_all add: reconcile_def mbind_def [of "attempt (reconcile_body env)"]\<close>)
qed

text \<open>
  C36: reconciling a MachineSet that is being deleted, from a scope whose Machines have not been listed yet, never creates a
  Machine. Its finalizer is removed only if a request of this reconciliation has listed the Machines with the
  MachineSet's selector in its namespace, and each of these Machines is controlled by another object or is an orphan that
  could not be adopted; so no Machine that the MachineSet controls was among them.
\<close>

theorem deletion_waits_for_machines:
  assumes "reconcile env s = (r, t)" "\<not> time_IsZero (om_DeletionTimestamp (ms_Meta (sc_machineSet s)))" "\<not> sc_adopted s"
  shows "(\<exists>rs. sc_requests t = sc_requests s @ rs \<and> creates rs = 0) \<and>
    (MachineSetFinalizer \<in> set (om_Finalizers (ms_Meta (sc_machineSet s))) \<and>
     MachineSetFinalizer \<notin> set (om_Finalizers (ms_Meta (sc_machineSet t))) \<longrightarrow>
     sc_adopted t \<and> sc_machines t = [] \<and>
     (\<exists>k selectorMap machines. length (sc_requests s) \<le> k \<and> k < length (sc_requests t) \<and>
        sc_requests t ! k = ListMachines (om_Namespace (ms_Meta (sc_machineSet s))) \<and>
        en_SelectorAsMap env (cluster_selector (sc_machineSet s)) = Inr selectorMap \<and>
        en_List env k (om_Namespace (ms_Meta (sc_machineSet s))) selectorMap = Inr machines \<and>
        (\<forall>m \<in> set machines. shouldExcludeMachine (sc_machineSet s) m \<or>
           GetControllerOf (m_Meta m) = None \<and> Event ''FailedAdopt'' (m_Name m) \<in> set (drop k (sc_requests t)))))"
proof -
  let ?u = "snd (reconcile_body env s)" and ?T = "tracked env (sc_machineSet s) (cluster_selector (sc_machineSet s)) (nreq s)"
  have "released s ?u" "?T ?u" using reconcile_body_released [OF assms(2)] reconcile_body_tracked [OF assms(2,3)] by simp_all
  then have "released s t" "?T t" using reconcile_settles [OF assms(1)] released_settled settled_tracked by blast+
  then show ?thesis unfolding released_def creates_nothing_def tracked_def listed_none_def unclaimed_def by metis
qed

definition deleting_set :: machineset where
  "deleting_set = (let ms = sample_set OldestMachineSetDeletePolicy 2
     in ms\<lparr>ms_Meta := (ms_Meta ms)\<lparr>om_DeletionTimestamp := Some 5, om_Finalizers := [MachineSetFinalizer]\<rparr>\<rparr>)"

definition deleting_scope :: ms_scope where
  "deleting_scope = (sample_scope deleting_set [])\<lparr>sc_adopted := False\<rparr>"

lemma sample_finalizer_removed: "finalizers (snd (reconcile_body sample_env deleting_scope)) = []"
  by (simp add: reconcile_body_def reconcile_phases_def alwaysReconcile_def wrapErr_def on_error_def mbind_def attempt_def mret_def Let_def
      reconcileMachineSetOwnerAndLabels_def reconcileInfrastructure_def reconcileBootstrapConfig_def getAndAdoptMachinesForMachineSet_def
      reconcileDelete_def deleting_scope_def sample_scope_def deleting_set_def sample_set_def sample_env_def time_IsZero_def
      reconcileExternalTemplateReference_def sample_machine_def put_machineSet_def request_def isDeploymentChild_def set_template_spec_def map_lookup_def
      split: if_splits)

theorem deletion_waits_for_machines_witness:
  "\<exists>r t. reconcile sample_env deleting_scope = (r, t) \<and> creates (sc_requests t) = 0 \<and>
     om_Finalizers (ms_Meta (sc_machineSet t)) = [] \<and> ListMachines ''default'' \<in> set (sc_requests t)"
proof -
  obtain r t where e: "reconcile sample_env deleting_scope = (r, t)" by fastforce
  have "\<not> time_IsZero (om_DeletionTimestamp (ms_Meta (sc_machineSet deleting_scope)))" "\<not> sc_adopted deleting_scope"
    by (simp_all add: deleting_scope_def sample_scope_def deleting_set_def Let_def time_IsZero_def)
  moreover have "sc_requests deleting_scope = []" "MachineSetFinalizer \<in> set (om_Finalizers (ms_Meta (sc_machineSet deleting_scope)))"
      "om_Namespace (ms_Meta (sc_machineSet deleting_scope)) = ''default''"
    by (simp_all add: deleting_scope_def sample_scope_def deleting_set_def sample_set_def Let_def)
  moreover have "om_Finalizers (ms_Meta (sc_machineSet t)) = []"
    using reconcile_settles [OF e] sample_finalizer_removed by (simp add: settled_def kept_def)
  ultimately show ?thesis using deletion_waits_for_machines [OF e] e by (auto simp: in_set_conv_nth)
qed

text \<open>
  When cloning the infrastructure object fails, the bootstrap object that was cloned before it is left
  behind: the call returns the error, and no clean-up of the bootstrap object was requested.
\<close>

lemma failed_clone_leaves_bootstrap:
  assumes "bs_ConfigRef (sp_Bootstrap (tp_Spec (mss_Template (ms_Spec (sc_machineSet s))))) = Some ref"
    and "\<And>input. ci_TemplateRef input = ref \<Longrightarrow> en_Clone env (length (sc_requests s)) input = Inr bootstrapRef"
    and "\<And>input. en_Clone env (Suc (length (sc_requests s))) input = Inl e"
  shows "\<exists>t i j. create_machine env s = (Err (Wrapped ''failed to clone infrastructure machine while creating a machine'' (ApiError e)), t) \<and>
    sc_requests t = sc_requests s @ [CloneObject i, CloneObject j] \<and> ci_TemplateRef i = ref"
  using assms
  by (auto simp: create_machine_def clone_bootstrap_def clone_infrastructure_def clone_object_def on_error_def clone_for_def
      mbind_def mret_def Let_def)

end
