(* ===== verification/Ms_Remediation.thy ===== *)
theory Ms_Remediation
  imports Ms_Properties
begin

text \<open>
  What the MachineSet controller does with unhealthy Machines: how many it deletes, which ones, and in
  which order with the patches that announce the deletion.
\<close>

section \<open>Removing obsolete conditions\<close>

definition remediable :: "machine \<Rightarrow> bool" where
  "remediable m \<longleftrightarrow> conditions_IsFalse (m_Conditions m) MachineHealthCheckSucceededCondition \<and>
     conditions_IsFalse (m_Conditions m) MachineOwnerRemediatedCondition \<and> time_IsZero (m_DeletionTimestamp m)"

text \<open>What the clean-up of conditions keeps of a Machine.\<close>

definition cleaned :: "machine \<Rightarrow> machine \<Rightarrow> bool" where
  "cleaned x y \<longleftrightarrow> m_Meta y = m_Meta x \<and> (remediable y \<longleftrightarrow> remediable x) \<and>
     (\<not> time_IsZero (m_DeletionTimestamp x) \<longrightarrow> m_Conditions y = m_Conditions x)"

lemma cleaned_refl [simp]: "cleaned x x"
  by (simp add: cleaned_def)

lemma Delete_other: "t' \<noteq> t \<Longrightarrow> conditions_Delete (Some cs) t = Some cs' \<Longrightarrow> conditions_Get cs' t' = conditions_Get cs t'"
  using Get_delete_latest [of cs t] by (auto simp: conditions_Delete_def delete_latest_unfold)

lemma v2_delete_conditions: "m_Conditions (machine_v2_Delete m t) = m_Conditions m" "m_Meta (machine_v2_Delete m t) = m_Meta m"
  by (simp_all add: machine_v2_Delete_def put_machine_v2_def split: option.splits)

lemma clean_v1:
  assumes "conditions_IsTrue (m_Conditions m) MachineHealthCheckSucceededCondition"
  defines "x \<equiv> machine_conditions (\<lambda>cs. conditions_Delete cs MachineOwnerRemediatedCondition) m"
  shows "m_Meta x = m_Meta m" "\<not> remediable x" "\<not> remediable m"
proof -
  obtain cs where cs: "conditions_Delete (Some (m_Conditions m)) MachineOwnerRemediatedCondition = Some cs"
    by (simp add: conditions_Delete_def)
  have x: "x = m\<lparr>m_Status := (m_Status m)\<lparr>st_Conditions := cs\<rparr>\<rparr>" using cs by (simp add: x_def machine_conditions_def)
  have "conditions_Get cs MachineHealthCheckSucceededCondition = conditions_Get (m_Conditions m) MachineHealthCheckSucceededCondition"
    by (rule Delete_other [OF _ cs]) simp
  then show "m_Meta x = m_Meta m" "\<not> remediable x" "\<not> remediable m"
    using assms(1) by (auto simp: x remediable_def conditions_IsTrue_def conditions_IsFalse_def split: option.splits)
qed

lemma cleanup_cleaned:
  assumes "time_IsZero (m_DeletionTimestamp m)"
    and "c \<Longrightarrow> conditions_IsTrue (m_Conditions m) MachineHealthCheckSucceededCondition"
  shows "cleaned m (let x1 = (if c then machine_conditions (\<lambda>cs. conditions_Delete cs MachineOwnerRemediatedCondition) m else m)
     in if d then machine_v2_Delete x1 t else x1)"
  using assms clean_v1 [of m] v2_delete_conditions
  by (auto simp: cleaned_def Let_def remediable_def)

lemma patch_objects:
  assumes "patch_machine env m f s = (r, t)"
  shows "r \<noteq> Panic \<and> sc_machineSet t = sc_machineSet s \<and> sc_owner t = sc_owner s \<and>
    (sc_machines t = sc_machines s \<or> (\<exists>now. sc_machines t = map (\<lambda>x. if m_Name x = m_Name (f now m) then f now m else x) (sc_machines s)))"
  using assms
  by (auto simp: patch_machine_def ask_def Let_def request_def update_machine_def split: option.splits)

lemma cleanup_step:
  assumes "cleanup_conditions env m s = (r, t)" "m \<in> set L" "distinct (map m_Name L)" "list_all2 cleaned L (sc_machines s)"
  shows "r \<noteq> Panic \<and> sc_machineSet t = sc_machineSet s \<and> sc_owner t = sc_owner s \<and> list_all2 cleaned L (sc_machines t)"
proof -
  define c where "c = (conditions_IsTrue (m_Conditions m) MachineHealthCheckSucceededCondition \<and>
    conditions_IsFalse (m_Conditions m) MachineOwnerRemediatedCondition)"
  define d where "d = (v2_IsTrue (en_meta env) (Some (machine_v2 m)) MachineHealthCheckSucceededV1Beta2Condition \<and>
    v2_IsFalse (en_meta env) (Some (machine_v2 m)) MachineOwnerRemediatedV1Beta2Condition)"
  define f where "f = (\<lambda>(_::int) x. let x1 = (if c then machine_conditions (\<lambda>cs. conditions_Delete cs MachineOwnerRemediatedCondition) x else x)
    in if d then machine_v2_Delete x1 MachineOwnerRemediatedV1Beta2Condition else x1)"
  show ?thesis
  proof (cases "\<not> time_IsZero (m_DeletionTimestamp m) \<or> \<not> (c \<or> d)")
    case True
    then show ?thesis using assms(1,4) by (auto simp: cleanup_conditions_def c_def d_def mret_def)
  next
    case False
    have p: "patch_machine env m f s = (r, t)"
      using assms(1) False unfolding cleanup_conditions_def Let_def [of "_ \<and> _"] c_def [symmetric] d_def [symmetric] f_def by (cases c) simp_all
    have fm: "cleaned m (f now m)" for now
      unfolding f_def by (rule cleanup_cleaned) (use False in \<open>auto simp: c_def\<close>)
    then have name: "m_Name (f now m) = m_Name m" for now by (simp add: cleaned_def)
    have "list_all2 cleaned L (map (\<lambda>x. if m_Name x = m_Name m then f now m else x) (sc_machines s))" for now
    proof (rule list_all2_all_nthI)
      show "length L = length (map (\<lambda>x. if m_Name x = m_Name m then f now m else x) (sc_machines s))"
        using assms(4) by (simp add: list_all2_lengthD)
      fix i assume i: "i < length L"
      then have R: "cleaned (L ! i) (sc_machines s ! i)" using assms(4) by (simp add: list_all2_nthD)
      have len: "length (sc_machines s) = length L" using assms(4) by (simp add: list_all2_lengthD)
      have "L ! i = m" if "m_Name (L ! i) = m_Name m"
        using assms(2,3) i that by (metis distinct_map inj_onD nth_mem)
      then show "cleaned (L ! i) (map (\<lambda>x. if m_Name x = m_Name m then f now m else x) (sc_machines s) ! i)"
        using R fm i len by (auto simp: cleaned_def)
    qed
    then show ?thesis using patch_objects [OF p] assms(4) name by auto
  qed
qed

lemma cleanup_loop:
  assumes "collect_errors (cleanup_conditions env) xs s = (r, t)" "set xs \<subseteq> set L" "distinct (map m_Name L)"
    "list_all2 cleaned L (sc_machines s)"
  shows "(\<exists>es. r = Ret es) \<and> sc_machineSet t = sc_machineSet s \<and> sc_owner t = sc_owner s \<and> list_all2 cleaned L (sc_machines t)"
  using assms
proof (induction xs arbitrary: s r t)
  case (Cons x xs)
  obtain r1 s1 where 1: "cleanup_conditions env x s = (r1, s1)" by fastforce
  obtain r2 s2 where 2: "collect_errors (cleanup_conditions env) xs s1 = (r2, s2)" by fastforce
  have st: "r1 \<noteq> Panic" "sc_machineSet s1 = sc_machineSet s" "sc_owner s1 = sc_owner s" "list_all2 cleaned L (sc_machines s1)"
    using cleanup_step [OF 1] Cons.prems by auto
  have IH: "\<exists>es. r2 = Ret es" "sc_machineSet s2 = sc_machineSet s1" "sc_owner s2 = sc_owner s1" "list_all2 cleaned L (sc_machines s2)"
    using Cons.IH [OF 2] Cons.prems st(4) by auto
  then show ?case using Cons.prems(1) 1 2 st by (auto simp: mbind_def attempt_def mret_def split: go.splits)
qed (auto simp: mret_def)

lemma cleaned_metas:
  assumes "list_all2 cleaned L L'"
  shows "map m_Meta L' = map m_Meta L" "map m_Meta (filter remediable L') = map m_Meta (filter remediable L)" "in_flight L' = in_flight L"
proof -
  show "map m_Meta L' = map m_Meta L" "map m_Meta (filter remediable L') = map m_Meta (filter remediable L)"
    using assms by (induction rule: list_all2_induct) (auto simp: cleaned_def)
  show "in_flight L' = in_flight L"
    using assms by (induction rule: list_all2_induct) (auto simp: cleaned_def in_flight_def)
qed

section \<open>Deleting unhealthy Machines\<close>

lemma FromMachines_distinct: "distinct (map m_Name ms) \<Longrightarrow> FromMachines (map Some ms) = ms"
proof -
  have "foldl (\<lambda>s mo. case mo of None \<Rightarrow> s | Some m \<Rightarrow> put_machine m s) acc (map Some ms) = acc @ ms"
    if "distinct (map m_Name (acc @ ms))" for acc ms
    using that
  proof (induction ms arbitrary: acc)
    case (Cons m ms)
    have "put_machine m acc = acc @ [m]" using Cons.prems put_machine_new [of m acc] by simp
    then show ?case using Cons by simp
  qed simp
  from this [of "[]" ms] show "distinct (map m_Name ms) \<Longrightarrow> FromMachines (map Some ms) = ms"
    by (simp add: FromMachines_def machines_Insert_def)
qed

lemma machines_to_remediate_eq:
  assumes "distinct (map m_Name (sc_machines s))"
  shows "machines_to_remediate env s = en_Order env (filter remediable (sc_machines s))"
proof -
  have "And [IsUnhealthyAndOwnerRemediated, Not HasDeletionTimestamp] (Some m) = remediable m" for m
    by (auto simp: IsUnhealthyAndOwnerRemediated_def HasDeletionTimestamp_def remediable_def)
  then show ?thesis using assms
    by (simp add: machines_to_remediate_def FromMachines_distinct machines_Filter_is_filter del: filter_simps)
qed

lemma quiet_patch_conditions [adds_intros]: "keeps (adds 0 0) (patchMachineConditions env ms c1 c2)"
  unfolding patchMachineConditions_def by (intro adds_intros)

lemma collect_requested:
  assumes "\<And>x s r t. f x s = (r, t) \<Longrightarrow> \<exists>rs. sc_requests t = sc_requests s @ rs \<and> (r = Ret () \<longrightarrow> q x \<in> set rs)"
    and "collect_errors f xs s = (Ret [], t)"
  shows "\<exists>rs. sc_requests t = sc_requests s @ rs \<and> q ` set xs \<subseteq> set rs"
  using assms(2)
proof (induction xs arbitrary: s)
  case (Cons x xs)
  obtain r1 s1 where 1: "f x s = (r1, s1)" by fastforce
  then have 2: "r1 = Ret ()" "collect_errors f xs s1 = (Ret [], t)"
    using Cons.prems by (auto simp: mbind_def attempt_def mret_def split: go.splits prod.splits sum.splits)
  obtain rs1 where "sc_requests s1 = sc_requests s @ rs1" "q x \<in> set rs1" using assms(1) [OF 1] 2(1) by blast
  moreover obtain rs2 where "sc_requests t = sc_requests s1 @ rs2" "q ` set xs \<subseteq> set rs2" using Cons.IH [OF 2(2)] by blast
  ultimately show ?case by (intro exI [of _ "rs1 @ rs2"]) auto
qed (simp add: mret_def)

text \<open>All patches come before the first deletion, and nothing is deleted if one of them fails.\<close>

definition announced :: "machine list \<Rightarrow> ms_request list \<Rightarrow> bool" where
  "announced ms rs \<longleftrightarrow> (\<exists>pre post. rs = pre @ post \<and> deleted pre = [] \<and> (\<forall>m \<in> set ms. PatchMachine (m_Name m) \<in> set pre))"

definition remediates :: "machine list \<Rightarrow> ms_scope \<Rightarrow> ms_scope \<Rightarrow> bool" where
  "remediates ms s t \<longleftrightarrow> (\<exists>rs. sc_requests t = sc_requests s @ rs \<and> creates rs = 0 \<and>
     (deleted rs = [] \<or> deleted rs = map m_Name ms \<and> announced ms rs))"

lemma quiet_remediates: "adds 0 0 s t \<Longrightarrow> remediates ms s t"
  by (auto simp: remediates_def adds_def)

lemma quiet_then_remediates: "adds 0 0 s t \<Longrightarrow> remediates ms t u \<Longrightarrow> remediates ms s u"
proof -
  assume "adds 0 0 s t" "remediates ms t u"
  then obtain rs rs' where "sc_requests t = sc_requests s @ rs" "creates rs = 0" "deleted rs = []"
      and rs': "sc_requests u = sc_requests t @ rs'" "creates rs' = 0" "deleted rs' = [] \<or> deleted rs' = map m_Name ms \<and> announced ms rs'"
    by (auto simp: adds_def remediates_def)
  moreover have "announced ms (rs @ rs')" if ann: "announced ms rs'"
  proof -
    obtain pre post where "rs' = pre @ post" "deleted pre = []" "\<forall>m \<in> set ms. PatchMachine (m_Name m) \<in> set pre"
      using ann by (auto simp: announced_def)
    then show ?thesis using \<open>deleted rs = []\<close> unfolding announced_def by (intro exI [of _ "rs @ pre"] exI [of _ post]) auto
  qed
  ultimately show ?thesis unfolding remediates_def by (intro exI [of _ "rs @ rs'"]) auto
qed

lemma remediate_remediates:
  assumes "remediate env ms s = (r, t)"
  shows "remediates ms s t"
proof -
  let ?patch = "patchMachineConditions env ms (deferred_condition ''MachineDeleted'' ''Machine deletionTimestamp set'')
    (Some (TrueCondition MachineOwnerRemediatedCondition))"
  let ?f = "\<lambda>m. patch_machine env m (set_both env (deferred_condition ''MachineDeleted'' ''Machine deletionTimestamp set'')
    (Some (TrueCondition MachineOwnerRemediatedCondition)))"
  obtain p u where p: "?patch s = (p, u)" by fastforce
  have q: "adds 0 0 s u" using quiet_patch_conditions p by (rule keepsD)
  show ?thesis
  proof (cases p)
    case (Ret x)
    have c: "collect_errors ?f ms s = (Ret [], u)"
      using p Ret by (auto simp: patchMachineConditions_def mbind_def fail_if_def mret_def mlift_def split: prod.splits go.splits if_splits)
    obtain pre where pre: "sc_requests u = sc_requests s @ pre" "(\<lambda>m. PatchMachine (m_Name m)) ` set ms \<subseteq> set pre"
    proof -
      have "\<exists>rs. sc_requests b = sc_requests a @ rs \<and> (v = Ret () \<longrightarrow> PatchMachine (m_Name m) \<in> set rs)"
        if "?f m a = (v, b)" for m a v b
        using that by (auto simp: patch_machine_def ask_def Let_def split: option.splits)
      from collect_requested [of ?f "\<lambda>m. PatchMachine (m_Name m)", OF this c] that show thesis by blast
    qed
    moreover have "deleted pre = []" "creates pre = 0" using q pre(1) by (auto simp: adds_def)
    moreover obtain e v where d: "collect_errors (delete_machine env True) ms u = (e, v)" by fastforce
    then have "emits 0 (concat (map (\<lambda>m. [m_Name m]) ms)) u v"
      using collect_emits [where ds = "\<lambda>m. [m_Name m]", OF _ d] delete_emits by blast
    then obtain post where "sc_requests v = sc_requests u @ post" "creates post = 0" "deleted post = map m_Name ms"
      by (auto simp: emits_def)
    moreover have "t = v"
      using assms p Ret d by (auto simp: remediate_def mbind_def fail_if_def mret_def mlift_def split: go.splits if_splits)
    moreover have "announced ms (pre @ post)" unfolding announced_def
      by (intro exI [of _ pre] exI [of _ post]) (use pre \<open>deleted pre = []\<close> in auto)
    ultimately show ?thesis unfolding remediates_def by (intro exI [of _ "pre @ post"]) auto
  next
    case (Err e)
    then show ?thesis using q assms p by (simp add: remediate_def mbind_def quiet_remediates)
  next
    case Panic
    then show ?thesis using q assms p by (simp add: remediate_def mbind_def quiet_remediates)
  qed
qed

lemma remediate_or_wait_remediates:
  assumes "remediate_or_wait env ms s = (r, t)"
  shows "remediates ms s t"
proof -
  obtain p u where p: "preflight env s = (p, u)" by fastforce
  have su: "adds 0 0 s u" using quiet_leaf(6) p by (rule keepsD)
  have hold: "remediates ms u v" if "mbind (patchMachineConditions env ms c1 c2) (\<lambda>_. mret x) u = (w, v)" for c1 c2 x w v
    using keepsD [OF quiet_bind [OF quiet_patch_conditions keeps_adds_simple(1)] that] by (rule quiet_remediates)
  have "remediates ms u t \<or> t = u"
  proof (cases p)
    case (Ret a)
    obtain x messages where a: "a = (x, messages)" by fastforce
    show ?thesis
    proof (cases "result_IsZero x")
      case True
      obtain w v where w: "remediate env ms u = (w, v)" by fastforce
      then have "t = v" using assms p Ret a True by (cases w) (simp_all add: remediate_or_wait_def Let_def mbind_def mret_def)
      then show ?thesis using remediate_remediates [OF w] by simp
    next
      case False
      then show ?thesis using assms p Ret a hold by (auto simp: remediate_or_wait_def Let_def)
    qed
  next
    case (Err e)
    then show ?thesis using assms p hold by (auto simp: remediate_or_wait_def Let_def)
  next
    case Panic
    then show ?thesis using assms p by (simp add: remediate_or_wait_def Let_def)
  qed
  then show ?thesis using su by (auto intro: quiet_then_remediates quiet_remediates)
qed

interpretation newest: weak_order "\<lambda>a b. m_CreationTimestamp a > m_CreationTimestamp b"
  by unfold_locales auto

lemma newest_first_sorted:
  "sorted_wrt (\<lambda>a b. m_CreationTimestamp b \<le> m_CreationTimestamp a) (newest_first ms)" "mset (newest_first ms) = mset ms"
  using newest.sorted_go_sort [of ms] by (simp_all add: newest_first_def not_less)

text \<open>What is deleted among \<open>ms\<close> when at most \<open>k\<close> may be: the \<open>k\<close> newest or none.\<close>

definition newest_part :: "machine list \<Rightarrow> nat \<Rightarrow> machine list \<Rightarrow> bool" where
  "newest_part ms k del \<longleftrightarrow> length del \<le> k \<and> (\<exists>rest. mset ms = mset del + mset rest \<and>
     (\<forall>a \<in> set del. \<forall>b \<in> set rest. m_CreationTimestamp b \<le> m_CreationTimestamp a))"

lemma newest_part_take: "newest_part ms k (take k (newest_first ms))"
proof -
  have "sorted_wrt (\<lambda>a b. m_CreationTimestamp b \<le> m_CreationTimestamp a) (take k (newest_first ms) @ drop k (newest_first ms))"
    using newest_first_sorted(1) by simp
  then have "\<forall>a \<in> set (take k (newest_first ms)). \<forall>b \<in> set (drop k (newest_first ms)). m_CreationTimestamp b \<le> m_CreationTimestamp a"
    unfolding sorted_wrt_append by blast
  moreover have "mset ms = mset (take k (newest_first ms)) + mset (drop k (newest_first ms))"
    using newest_first_sorted(2) [of ms] by (metis append_take_drop_id mset_append)
  ultimately show ?thesis unfolding newest_part_def by auto
qed

lemma defer_quiet [adds_intros]: "keeps (adds 0 0) (defer_remediation env ms)"
proof (rule keeps_split)
  fix s :: ms_scope
  have "keeps (adds 0 0) (mbind (mlift g) (\<lambda>message. patchMachineConditions env ms (deferred_condition ''RemediationDeferred'' message) None))" for g
    by (intro adds_intros)
  then show "adds 0 0 s (snd (defer_remediation env ms s))" by (simp add: keeps_def defer_remediation_def)
qed

text \<open>The part of the reconciliation after the limit is known.\<close>

lemma limited_remediation:
  assumes "(let maxInFlight = k; sorted_machines = newest_first ms
     in if maxInFlight \<le> 0 then mbind (defer_remediation env ms) (\<lambda>_. mret result_zero)
        else if int (length sorted_machines) > maxInFlight
        then mbind (defer_remediation env (drop (nat maxInFlight) sorted_machines)) (\<lambda>_.
               remediate_or_wait env (take (nat maxInFlight) sorted_machines))
        else remediate_or_wait env sorted_machines) s = (r, t)"
  shows "\<exists>del. newest_part ms (nat k) del \<and> remediates del s t"
proof (cases "k \<le> 0")
  case True
  then have "mbind (defer_remediation env ms) (\<lambda>_. mret result_zero) s = (r, t)" using assms by (simp add: Let_def)
  then have "adds 0 0 s t" by (rule keepsD [rotated]) (intro adds_intros)
  then show ?thesis by (intro exI [of _ "[]"]) (auto simp: newest_part_def quiet_remediates)
next
  case False
  let ?ms = "newest_first ms"
  show ?thesis
  proof (cases "int (length ?ms) > k")
    case True
    obtain d u where d: "defer_remediation env (drop (nat k) ?ms) s = (d, u)" by fastforce
    have su: "adds 0 0 s u" using defer_quiet d by (rule keepsD)
    have "remediates (take (nat k) ?ms) s t"
    proof (cases d)
      case (Ret x)
      then have "remediate_or_wait env (take (nat k) ?ms) u = (r, t)" using assms False True d by (simp add: mbind_def Let_def)
      then show ?thesis using su by (blast intro: quiet_then_remediates remediate_or_wait_remediates)
    qed (use assms False True d su in \<open>auto simp: mbind_def Let_def intro: quiet_remediates\<close>)
    then show ?thesis using newest_part_take by blast
  next
    case Fits: False
    then have "remediate_or_wait env ?ms s = (r, t)" using assms False by (simp add: Let_def)
    then have "remediates ?ms s t" by (rule remediate_or_wait_remediates)
    moreover have "take (nat k) ?ms = ?ms" using Fits by simp
    ultimately show ?thesis using newest_part_take [of ms "nat k"] by metis
  qed
qed

lemma remediation_deletes:
  assumes "sc_adopted s" "reconcileUnhealthyMachines env s = (r, t)"
    and clean: "collect_errors (cleanup_conditions env) (sc_machines s) s = (Ret errs, u)"
  defines "limit \<equiv> (case max_in_flight env u of Ret (Some n) \<Rightarrow> nat (n - int (in_flight (sc_machines u))) | _ \<Rightarrow> 0)"
  shows "\<exists>del. newest_part (machines_to_remediate env u) limit del \<and> remediates del s t"
proof -
  have "keeps (adds 0 0) (cleanup_conditions env m)" for m
    by (auto simp: cleanup_conditions_def Let_def intro: adds_intros)
  then have "keeps (adds 0 0) (collect_errors (cleanup_conditions env) xs)" for xs by (rule collect_quiet)
  from keepsD [OF this clean] have "adds 0 0 s u" .
  have none: "\<exists>del. newest_part (machines_to_remediate env u) limit del \<and> remediates del s t" if "adds 0 0 u t"
    using \<open>adds 0 0 s u\<close> that
    by (intro exI [of _ "[]"]) (auto simp: newest_part_def intro: quiet_then_remediates quiet_remediates)
  show ?thesis
  proof (cases "errs = [] \<and> machines_to_remediate env u \<noteq> []")
    case False
    then have "t = u" using assms(1,2) clean by (auto simp: reconcileUnhealthyMachines_def mbind_def fail_if_def mlift_def mret_def Let_def split: if_splits)
    then show ?thesis using none by simp
  next
    case True
    show ?thesis
    proof (cases "max_in_flight env u")
      case (Ret lim)
      show ?thesis
      proof (cases lim)
        case None
        have "mbind (patchMachineConditions env (machines_to_remediate env u)
            (deferred_condition ''CannotBeRemediated'' ''Machine won't be remediated because it is pending removal due to rollout'') None)
            (\<lambda>_. mret result_zero) u = (r, t)"
          using assms(1,2) clean True Ret None
          by (simp add: reconcileUnhealthyMachines_def mbind_def [of "collect_errors _ _"] mbind_def [of "fail_if _ _"]
              mbind_def [of "mlift _"] fail_if_def mlift_def mret_def [of "()"])
        then have "adds 0 0 u t" by (rule keepsD [rotated]) (intro adds_intros)
        then show ?thesis by (rule none)
      next
        case (Some n)
        have "\<exists>del. newest_part (machines_to_remediate env u) (nat (n - int (in_flight (sc_machines u)))) del \<and> remediates del u t"
          by (rule limited_remediation [of _ _ env u r])
            (use assms(1,2) clean True Ret Some in \<open>simp add: reconcileUnhealthyMachines_def mbind_def [of "collect_errors _ _"]
              mbind_def [of "fail_if _ _"] mbind_def [of "mlift _"] fail_if_def mlift_def mret_def [of "()"] Let_def\<close>)
        then show ?thesis using Ret Some \<open>adds 0 0 s u\<close> by (auto simp: limit_def intro: quiet_then_remediates)
      qed
    qed (use assms(1,2) clean True none in \<open>auto simp: reconcileUnhealthyMachines_def mbind_def [of "collect_errors _ _"]
              mbind_def [of "fail_if _ _"] mbind_def [of "mlift _"] fail_if_def mlift_def mret_def [of "()"] Let_def\<close>)
  qed
qed

lemma max_in_flight_cong:
  "sc_machineSet t = sc_machineSet s \<Longrightarrow> sc_owner t = sc_owner s \<Longrightarrow> max_in_flight env t = max_in_flight env s"
  by (simp add: max_in_flight_def Let_def)

text \<open>The Machines that are deleted and those that are left, by their metadata, which cleaning up the conditions keeps.\<close>

lemma remediation_choice:
  assumes "sc_adopted s" "distinct (map m_Name (sc_machines s))" "\<And>ms. mset (en_Order env ms) = mset ms"
    and "reconcileUnhealthyMachines env s = (r, t)"
  shows "\<exists>del rest. remediates del s t \<and> distinct (map m_Name (del @ rest)) \<and>
     length del \<le> (case max_in_flight env s of Ret (Some n) \<Rightarrow> nat (n - int (in_flight (sc_machines s))) | _ \<Rightarrow> 0) \<and>
     m_Meta ` set (del @ rest) = m_Meta ` {m \<in> set (sc_machines s). remediable m} \<and>
     (\<forall>a \<in> set del. \<forall>b \<in> set rest. m_CreationTimestamp b \<le> m_CreationTimestamp a)"
proof -
  obtain e u where c: "collect_errors (cleanup_conditions env) (sc_machines s) s = (e, u)" by fastforce
  have u: "\<exists>es. e = Ret es" "sc_machineSet u = sc_machineSet s" "sc_owner u = sc_owner s" "list_all2 cleaned (sc_machines s) (sc_machines u)"
    using cleanup_loop [OF c subset_refl assms(2)] by (simp_all add: list_all2_refl)
  note metas = cleaned_metas [OF u(4)]
  have names: "map m_Name (sc_machines u) = map m_Name (sc_machines s)"
    using arg_cong [OF metas(1), of "map om_Name"] by (simp add: comp_def)
  let ?rem = "machines_to_remediate env u"
  have rem: "mset ?rem = mset (filter remediable (sc_machines u))"
    using machines_to_remediate_eq [of u env] names assms(2,3) by simp
  have "mset (map m_Meta ?rem) = mset (map m_Meta (filter remediable (sc_machines s)))"
    using rem metas(2) by (metis mset_map)
  then have remMetas: "m_Meta ` set ?rem = m_Meta ` set (filter remediable (sc_machines s))"
    by (metis list.set_map mset_eq_setD)
  let ?limit = "case max_in_flight env s of Ret (Some n) \<Rightarrow> nat (n - int (in_flight (sc_machines s))) | _ \<Rightarrow> 0"
  obtain es where "e = Ret es" using u(1) by blast
  note deletes = remediation_deletes [OF assms(1,4) c [unfolded this], unfolded max_in_flight_cong [OF u(2,3)] metas(3)]
  obtain del where del: "newest_part ?rem ?limit del" "remediates del s t" using deletes by blast
  obtain rest where rest: "mset ?rem = mset del + mset rest"
      "\<forall>a \<in> set del. \<forall>b \<in> set rest. m_CreationTimestamp b \<le> m_CreationTimestamp a" "length del \<le> ?limit"
    using del(1) by (auto simp: newest_part_def)
  have "mset (map m_Name (del @ rest)) = mset (map m_Name (filter remediable (sc_machines u)))"
    using rest(1) rem by simp
  moreover have "distinct (map m_Name (filter remediable (sc_machines u)))"
    using assms(2) names by (metis distinct_map_filter)
  ultimately have dist: "distinct (map m_Name (del @ rest))" by (metis mset_eq_imp_distinct_iff)
  have sub: "m_Meta ` set (del @ rest) = m_Meta ` {m \<in> set (sc_machines s). remediable m}"
    using remMetas rest(1) by (metis mset_append mset_eq_setD set_filter)
  show ?thesis using del(2) dist rest(2,3) sub by blast
qed

lemma newest_chosen:
  assumes "distinct (map m_Name ms)" "m_Meta ` set (del @ rest) = m_Meta ` {m \<in> set ms. remediable m}"
    and "\<forall>a \<in> set del. \<forall>b \<in> set rest. m_CreationTimestamp b \<le> m_CreationTimestamp a"
    and a: "a \<in> set ms" "m_Name a \<in> m_Name ` set del" and b: "b \<in> set ms" "remediable b" "m_Name b \<notin> m_Name ` set del"
  shows "m_CreationTimestamp b \<le> m_CreationTimestamp a"
proof -
  have inj: "a = b" if "a \<in> set ms" "b \<in> set ms" "m_Name a = m_Name b" for a b
    using assms(1) that by (meson distinct_map inj_onD)
  obtain a' where a': "a' \<in> set del" "m_Name a' = m_Name a" using a(2) by auto
  then obtain a'' where "a'' \<in> set ms" "m_Meta a'' = m_Meta a'" using assms(2) by force
  then have ma: "m_Meta a = m_Meta a'" using inj [of a a''] a(1) a'(2) by simp
  obtain b' where b': "b' \<in> set (del @ rest)" "m_Meta b' = m_Meta b" using assms(2) b(1,2) by force
  have "b' \<notin> set del"
  proof
    assume "b' \<in> set del"
    then have "m_Name b' \<in> m_Name ` set del" by simp
    then show False using b(3) b'(2) by simp
  qed
  then have "b' \<in> set rest" using b'(1) by simp
  then show ?thesis using assms(3) a'(1) b'(2) ma by metis
qed

text \<open>
  C4: one reconciliation remediates at most as many unhealthy Machines as \<^verbatim>\<open>maxInFlight\<close> leaves after the
  remediations in progress, and none if the limit cannot be computed or the MachineSet is not of the
  current revision. It deletes only Machines whose health check failed, that are marked for remediation
  and that are not being deleted, each once, the newest ones; it creates none. Every Machine that it
  deletes was patched before the first deletion.
\<close>

theorem remediation_limited:
  assumes "sc_adopted s" "distinct (map m_Name (sc_machines s))" "\<And>ms. mset (en_Order env ms) = mset ms"
    and "reconcileUnhealthyMachines env s = (r, t)"
  shows "\<exists>rs. sc_requests t = sc_requests s @ rs \<and> creates rs = 0 \<and> distinct (deleted rs) \<and>
    length (deleted rs) \<le> (case max_in_flight env s of Ret (Some n) \<Rightarrow> nat (n - int (in_flight (sc_machines s))) | _ \<Rightarrow> 0) \<and>
    set (deleted rs) \<subseteq> m_Name ` {m \<in> set (sc_machines s). remediable m} \<and>
    (\<exists>pre post. rs = pre @ post \<and> deleted pre = [] \<and> (\<forall>n \<in> set (deleted rs). PatchMachine n \<in> set pre)) \<and>
    (deleted rs \<noteq> [] \<longrightarrow> (\<forall>a \<in> set (sc_machines s). \<forall>b \<in> set (sc_machines s). m_Name a \<in> set (deleted rs) \<longrightarrow> remediable b \<longrightarrow>
       m_Name b \<notin> set (deleted rs) \<longrightarrow> m_CreationTimestamp b \<le> m_CreationTimestamp a))"
proof -
  obtain del rest where del: "remediates del s t" "distinct (map m_Name (del @ rest))"
      "length del \<le> (case max_in_flight env s of Ret (Some n) \<Rightarrow> nat (n - int (in_flight (sc_machines s))) | _ \<Rightarrow> 0)"
      "m_Meta ` set (del @ rest) = m_Meta ` {m \<in> set (sc_machines s). remediable m}"
      "\<forall>a \<in> set del. \<forall>b \<in> set rest. m_CreationTimestamp b \<le> m_CreationTimestamp a"
    using remediation_choice [OF assms] by blast
  obtain rs where rs: "sc_requests t = sc_requests s @ rs" "creates rs = 0"
      "deleted rs = [] \<or> deleted rs = map m_Name del \<and> announced del rs"
    using del(1) by (auto simp: remediates_def)
  show ?thesis
  proof (cases "deleted rs = []")
    case True
    then show ?thesis using rs by (intro exI [of _ rs]) auto
  next
    case False
    then have d: "deleted rs = map m_Name del" "announced del rs" using rs(3) by auto
    note newest = newest_chosen [OF assms(2) del(4,5), folded set_map]
    have "set (deleted rs) \<subseteq> m_Name ` {m \<in> set (sc_machines s). remediable m}"
    proof
      fix n assume "n \<in> set (deleted rs)"
      then obtain m where "m \<in> set del" "n = m_Name m" using d(1) by auto
      then show "n \<in> m_Name ` {m \<in> set (sc_machines s). remediable m}" using del(4) by (force simp: image_iff)
    qed
    moreover have "\<exists>pre post. rs = pre @ post \<and> deleted pre = [] \<and> (\<forall>n \<in> set (deleted rs). PatchMachine n \<in> set pre)"
      using d by (auto simp: announced_def)
    ultimately show ?thesis using rs(1,2) d(1) del(2,3) newest
      by (intro exI [of _ rs]) (auto simp del: set_map)
  qed
qed

definition unhealthy_machine :: "string \<Rightarrow> machine" where
  "unhealthy_machine n = (let m = sample_machine n 1 None None; failed = (\<lambda>t. (TrueCondition t)\<lparr>c_Status := ConditionFalse\<rparr>)
     in m\<lparr>m_Status := (m_Status m)\<lparr>st_Conditions := [failed MachineHealthCheckSucceededCondition, failed MachineOwnerRemediatedCondition]\<rparr>\<rparr>)"

theorem remediation_limited_witness:
  "\<exists>r t. reconcileUnhealthyMachines sample_env (sample_scope (sample_set OldestMachineSetDeletePolicy 1) [unhealthy_machine ''a'']) = (r, t) \<and>
     creates (sc_requests t) = 0 \<and> set (deleted (sc_requests t)) \<subseteq> {''a''}"
proof -
  let ?s = "sample_scope (sample_set OldestMachineSetDeletePolicy 1) [unhealthy_machine ''a'']"
  obtain r t where e: "reconcileUnhealthyMachines sample_env ?s = (r, t)" by fastforce
  have s: "sc_adopted ?s" "distinct (map m_Name (sc_machines ?s))" "m_Name ` set (sc_machines ?s) = {''a''}" "sc_requests ?s = []"
    by (simp_all add: sample_scope_def unhealthy_machine_def sample_machine_def Let_def)
  have "mset (en_Order sample_env ms) = mset ms" for ms by (simp add: sample_env_def)
  from remediation_limited [OF s(1,2) this e] obtain rs where "sc_requests t = rs" "creates rs = 0"
      "set (deleted rs) \<subseteq> m_Name ` {m \<in> set (sc_machines ?s). remediable m}"
    using s(4) by auto
  then show ?thesis using e s(3) by (intro exI [of _ r] exI [of _ t]) auto
qed

end
