(* ===== verification/Mhc_Properties.thy ===== *)
theory Mhc_Properties
  imports Mhc_Health Ms_Remediation
begin

text \<open>
  What a MachineHealthCheck asks for: how remediation is short-circuited, which Machines it marks, and what the
  MachineSet controller then does with them.
\<close>

section \<open>What a reconciliation asks for\<close>

text \<open>The requests that a step adds satisfy a predicate; the spec of the MachineHealthCheck is kept.\<close>

definition only :: "(mhc_request \<Rightarrow> bool) \<Rightarrow> mhc_state \<Rightarrow> mhc_state \<Rightarrow> bool" where
  "only P s s' \<longleftrightarrow> (\<exists>rs. hcs_requests s' = hcs_requests s @ rs \<and> list_all P rs) \<and> hc_Spec (hcs_mhc s') = hc_Spec (hcs_mhc s)"

lemma only_refl [simp, intro]: "only P s s"
  by (simp add: only_def)

lemma only_trans: "only P s t \<Longrightarrow> only P t u \<Longrightarrow> only P s u"
  by (auto simp: only_def)

lemma only_mono: "only P s t \<Longrightarrow> (\<And>r. P r \<Longrightarrow> Q r) \<Longrightarrow> only Q s t"
  unfolding only_def by (meson list.pred_mono_strong)

lemma only_hrec [simp]: "only P s (hrec r s) = P r"
  by (auto simp: only_def hrec_def)

lemma only_hrec_then: "P r \<Longrightarrow> only P (hrec r s) t \<Longrightarrow> only P s t"
  using only_trans only_hrec by blast

lemma spec_frame [simp]:
  "hc_Spec (mhc_conditions f h) = hc_Spec h" "hc_Spec (set_mhc_v2 ml now t st r msg h) = hc_Spec h" "hc_Spec (mark_mhc now t r msg h) = hc_Spec h"
  "hc_Spec (set_targets ts h) = hc_Spec h" "hc_Spec (set_healthy ts h) = hc_Spec h" "hc_Spec (own_by_cluster env cluster h) = hc_Spec h"
  "hc_Spec (set_allowed ml now n h) = hc_Spec h" "hc_Spec (set_restricted ml now msg h) = hc_Spec h"
proof -
  show c: "hc_Spec (mhc_conditions f h) = hc_Spec h" "hc_Spec (set_mhc_v2 ml now t st r msg h) = hc_Spec h" for f h ml now t st r msg
    by (simp_all add: mhc_conditions_def set_mhc_v2_def put_mhc_v2_def split: option.splits)
  then show "hc_Spec (mark_mhc now t r msg h) = hc_Spec h" "hc_Spec (set_targets ts h) = hc_Spec h" "hc_Spec (set_healthy ts h) = hc_Spec h"
    "hc_Spec (own_by_cluster env cluster h) = hc_Spec h" "hc_Spec (set_allowed ml now n h) = hc_Spec h" "hc_Spec (set_restricted ml now msg h) = hc_Spec h"
    by (simp_all add: mark_mhc_def set_targets_def set_healthy_def own_by_cluster_def set_allowed_def set_restricted_def)
qed

lemma on_mhc_frame [simp]:
  "hcs_requests (on_mhc f s) = hcs_requests s" "hcs_mhc (on_mhc f s) = f (hcs_mhc s)"
  by (simp_all add: on_mhc_def)

lemma hrec_frame [simp]: "hcs_requests (hrec r s) = hcs_requests s @ [r]" "hcs_mhc (hrec r s) = hcs_mhc s"
  by (simp_all add: hrec_def)

lemma only_on_mhc [simp]: "hc_Spec (f (hcs_mhc s)) = hc_Spec (hcs_mhc s) \<Longrightarrow> only P s (on_mhc f s)"
  by (simp add: only_def)

lemma only_bind: "keeps (only P) m \<Longrightarrow> (\<And>x. keeps (only P) (f x)) \<Longrightarrow> keeps (only P) (mbind m f)"
  by (rule keeps_mbind) (auto intro: only_trans)

lemma keeps_onlyI: "(\<And>s. only P s (snd (m s))) \<Longrightarrow> keeps (only P) m"
  by (simp add: keeps_def)

lemma keeps_onlyD: "keeps (only P) m \<Longrightarrow> only P s (snd (m s))"
  by (simp add: keeps_def)

definition quiet_request :: "mhc_request \<Rightarrow> bool" where
  "quiet_request r \<longleftrightarrow> (case r of PatchTarget _ _ \<Rightarrow> False | CreateRemediationRequest _ _ \<Rightarrow> False | _ \<Rightarrow> True)"

lemma quiet_request_simps [simp]:
  "quiet_request ListTargets" "quiet_request (GetTargetNode n)" "quiet_request WatchNodes" "\<not> quiet_request (PatchTarget m b)"
  "quiet_request (GetRemediationRequest n)" "quiet_request (GetTemplate ref)" "\<not> quiet_request (CreateRemediationRequest n b)"
  "quiet_request (DeleteRemediationRequest n)" "quiet_request (PatchMHC h)" "quiet_request (MhcEvent a c)"
  by (simp_all add: quiet_request_def)

text \<open>The targets are the listed Machines that are not skipped.\<close>

definition watched :: "machine list \<Rightarrow> machine list" where
  "watched machines = filter (\<lambda>m. \<not> fst (shouldSkipRemediation m)) machines"

definition targets_of :: "health_cluster \<Rightarrow> mhc_spec \<Rightarrow> machine list \<Rightarrow> healthCheckTarget list \<Rightarrow> bool" where
  "targets_of cluster spec machines targets \<longleftrightarrow> map ht_Machine targets = watched machines \<and>
     (\<forall>t \<in> set targets. ht_Cluster t = cluster \<and> ht_Before t = ht_Machine t \<and> hc_Spec (ht_MHC t) = spec)"

text \<open>
  The node of a target is what the workload cluster has answered in this reconciliation: request \<open>k\<close>, the first one being
  \<open>j\<close>, was for the node that the Machine refers to. Without a client for the workload cluster or without a reference
  there is no node, and none is missing.
\<close>

definition node_observed :: "'u mhc_env \<Rightarrow> bool \<Rightarrow> nat \<Rightarrow> mhc_request list \<Rightarrow> healthCheckTarget \<Rightarrow> bool" where
  "node_observed env client j qs t \<longleftrightarrow>
     (case st_NodeRef (m_Status (ht_Machine t)) of
        Some ref \<Rightarrow>
          if \<not> client then ht_Node t = None \<and> \<not> ht_nodeMissing t
          else \<exists>k. j \<le> k \<and> k < length qs \<and> qs ! k = GetTargetNode (ref_Name ref) \<and>
            (case he_GetNode env k (ref_Name ref) of
               Inr n \<Rightarrow> ht_Node t = Some n \<and> \<not> ht_nodeMissing t
             | Inl (NotFound _) \<Rightarrow> ht_Node t = None \<and> ht_nodeMissing t
             | Inl (OtherError _) \<Rightarrow> False)
      | None \<Rightarrow> ht_Node t = None \<and> \<not> ht_nodeMissing t)"

lemma node_observed_later:
  assumes "node_observed env c j qs t" "i \<le> j"
  shows "node_observed env c i (qs @ rs) t"
proof (cases "st_NodeRef (m_Status (ht_Machine t))")
  case (Some ref)
  show ?thesis
  proof (cases c)
    case True
    let ?answered = "\<lambda>k. case he_GetNode env k (ref_Name ref) of Inr n \<Rightarrow> ht_Node t = Some n \<and> \<not> ht_nodeMissing t
       | Inl (NotFound _) \<Rightarrow> ht_Node t = None \<and> ht_nodeMissing t | Inl (OtherError _) \<Rightarrow> False"
    obtain k where "j \<le> k" "k < length qs" "qs ! k = GetTargetNode (ref_Name ref)" "?answered k"
      using assms(1) Some True by (auto simp: node_observed_def)
    then have "i \<le> k \<and> k < length (qs @ rs) \<and> (qs @ rs) ! k = GetTargetNode (ref_Name ref) \<and> ?answered k"
      using assms(2) by (simp add: nth_append)
    then show ?thesis using Some True unfolding node_observed_def by (simp only: option.case if_True not_True_eq_False if_False) blast
  qed (use assms Some in \<open>simp add: node_observed_def\<close>)
qed (use assms in \<open>simp add: node_observed_def\<close>)

lemma only_observed:
  assumes "only P s s'" "node_observed env c j (hcs_requests s) t" "i \<le> j"
  shows "node_observed env c i (hcs_requests s') t"
  using assms node_observed_later by (auto simp: only_def)

lemma only_longer: "only P s s' \<Longrightarrow> hreq s \<le> hreq s'"
  by (auto simp: only_def)

lemma target_node_only: "target_node env c m s = (r, s') \<Longrightarrow> only quiet_request s s'"
  by (auto simp: target_node_def split: if_splits option.splits sum.splits get_error.splits)

lemma target_node_observed:
  assumes "target_node env c m s = (Ret (n, missing), s')"
  shows "node_observed env c (hreq s) (hcs_requests s')
    \<lparr>ht_Cluster = cluster, ht_Machine = m, ht_Node = n, ht_MHC = h, ht_Before = m, ht_nodeMissing = missing\<rparr>"
  using assms
  by (auto simp: target_node_def node_observed_def split: if_splits option.splits sum.splits get_error.splits intro!: exI [of _ "hreq s"])

lemma targets_loop_outcome:
  assumes "targets_loop env c cluster machines s = (r, s')"
  shows "only quiet_request s s' \<and> (\<forall>targets. r = Ret targets \<longrightarrow> targets_of cluster (hc_Spec (hcs_mhc s)) machines targets \<and>
    (\<forall>t \<in> set targets. node_observed env c (hreq s) (hcs_requests s') t))"
  using assms
proof (induction machines arbitrary: s r s')
  case Nil
  then show ?case by (auto simp: targets_of_def watched_def)
next
  case (Cons m ms)
  consider "fst (shouldSkipRemediation m)" | "\<not> fst (shouldSkipRemediation m)" "he_NewHelper env (hreq s) m \<noteq> None"
    | "\<not> fst (shouldSkipRemediation m)" "he_NewHelper env (hreq s) m = None" by blast
  then show ?case
  proof cases
    case 1
    then show ?thesis using Cons by (simp add: targets_of_def watched_def)
  next
    case 2
    then show ?thesis using Cons.prems by auto
  next
    case 3
    obtain r1 s1 where n: "target_node env c m s = (r1, s1)" by fastforce
    have o: "only quiet_request s s1" using target_node_only [OF n] .
    then have sp: "hc_Spec (hcs_mhc s1) = hc_Spec (hcs_mhc s)" by (simp add: only_def)
    show ?thesis
    proof (cases r1)
      case (Ret x)
      obtain nd missing where x: "x = (nd, missing)" by (cases x)
      obtain r2 s2 where l: "targets_loop env c cluster ms s1 = (r2, s2)" by fastforce
      note ih = Cons.IH [OF l]
      let ?t = "\<lparr>ht_Cluster = cluster, ht_Machine = m, ht_Node = nd, ht_MHC = hcs_mhc s, ht_Before = m, ht_nodeMissing = missing\<rparr>"
      have here: "node_observed env c (hreq s) (hcs_requests s2) ?t"
        using only_observed [OF conjunct1 [OF ih]] target_node_observed [OF n [unfolded Ret x]] by blast
      have later: "node_observed env c (hreq s) (hcs_requests s2) t" if "node_observed env c (hreq s1) (hcs_requests s2) t" for t
        using node_observed_later [OF that only_longer [OF o], of "[]"] by simp
      show ?thesis using Cons.prems 3 n Ret l ih sp only_trans [OF o] here later x
        by (cases r2) (auto simp: targets_of_def watched_def)
    qed (use Cons.prems 3 n o in auto)
  qed
qed

lemma getTargets_outcome:
  assumes "getTargetsFromMHC env c cluster s = (r, s')" "\<And>k p ns. he_List env k p ns = Inr machines"
  shows "only quiet_request s s' \<and> (\<forall>targets. r = Ret targets \<longrightarrow> targets_of cluster (hc_Spec (hcs_mhc s)) machines targets \<and>
    (\<forall>t \<in> set targets. node_observed env c (hreq s) (hcs_requests s') t))"
proof (cases "he_Selector env (hs_Selector (hc_Spec (hcs_mhc s))) (hs_ClusterName (hc_Spec (hcs_mhc s)))")
  case (Inl e)
  then show ?thesis using assms(1) by (auto simp: getTargetsFromMHC_def getMachinesFromMHC_def Let_def)
next
  case (Inr p)
  then have "targets_loop env c cluster machines (hrec ListTargets s) = (r, s')"
    using assms by (simp add: getTargetsFromMHC_def getMachinesFromMHC_def Let_def)
  note out = targets_loop_outcome [OF this]
  have "node_observed env c (hreq s) (hcs_requests s') t" if "node_observed env c (Suc (hreq s)) (hcs_requests s') t" for t
    using node_observed_later [OF that, of "hreq s" "[]"] by simp
  then show ?thesis using out only_hrec_then [of quiet_request ListTargets s s'] by simp
qed

text \<open>The outcome of the checks: who is healthy and who is not.\<close>

definition sorted_out ::
  "'u mhc_env \<Rightarrow> nat set \<Rightarrow> int \<Rightarrow> healthCheckTarget list \<Rightarrow> healthCheckTarget list \<Rightarrow> healthCheckTarget list \<Rightarrow> bool" where
  "sorted_out env ks timeout targets healthy unhealthy \<longleftrightarrow> length healthy + length unhealthy \<le> length targets \<and>
     (\<forall>h \<in> set healthy. \<exists>t \<in> set targets. checked ConditionTrue (ht_Machine t) (ht_Machine h)) \<and>
     (\<forall>u \<in> set unhealthy. \<exists>t \<in> set targets. checked ConditionFalse (ht_Machine t) (ht_Machine u) \<and> (\<exists>k \<in> ks. unhealthy_at timeout (he_Now env k) t))"

lemma sorted_out_Cons:
  assumes "sorted_out env ks timeout ts h u"
  shows "sorted_out env ks timeout (t # ts) h u"
    and "checked ConditionTrue (ht_Machine t) m \<Longrightarrow> sorted_out env ks timeout (t # ts) (t\<lparr>ht_Machine := m\<rparr> # h) u"
    and "checked ConditionFalse (ht_Machine t) m \<Longrightarrow> unhealthy_at timeout (he_Now env k) t \<Longrightarrow> k \<in> ks \<Longrightarrow>
      sorted_out env ks timeout (t # ts) h (t\<lparr>ht_Machine := m\<rparr> # u)"
  using assms by (auto simp: sorted_out_def)

lemma sorted_out_mono: "sorted_out env ks timeout ts h u \<Longrightarrow> ks \<subseteq> ks' \<Longrightarrow> sorted_out env ks' timeout ts h u"
  unfolding sorted_out_def by blast

lemma healthCheckTargets_outcome:
  assumes "healthCheckTargets env timeout targets s = (r, s')"
  shows "only quiet_request s s' \<and> (\<forall>h u ds. r = Ret (h, u, ds) \<longrightarrow> sorted_out env {hreq s..hreq s'} timeout targets h u)"
  using assms
proof (induction targets arbitrary: s r s')
  case Nil
  then show ?case by (auto simp: sorted_out_def)
next
  case (Cons t ts)
  show ?case
  proof (cases "needsRemediation (he_meta env) (he_Now env (hreq s)) timeout t")
    case (Ret v)
    obtain b d m where v: "v = (b, d, m)" by (cases v)
    note vd = needsRemediation_verdict [OF Ret [unfolded v]]
    let ?e = "MhcEvent ''DetectedUnhealthy'' (''Machine '' @ KRef (om_Namespace (m_Meta m)) (m_Name m) @ '' has unhealthy Node '' @ nodeName t)"
    have rest: "only quiet_request s0 s1 \<and> (\<forall>h u ds. r1 = Ret (h, u, ds) \<longrightarrow> sorted_out env {hreq s..hreq s1} timeout ts h u) \<and> hreq s0 \<le> hreq s1"
      if l: "healthCheckTargets env timeout ts s0 = (r1, s1)" "hreq s \<le> hreq s0" for s0 r1 s1
      using Cons.IH [OF l(1)] only_longer sorted_out_mono [of env "{hreq s0..hreq s1}" timeout ts _ _ "{hreq s..hreq s1}"] l(2) by fastforce
    obtain r1 s1 where l: "healthCheckTargets env timeout ts s = (r1, s1)" by fastforce
    obtain r2 s2 where l2: "healthCheckTargets env timeout ts (hrec ?e s) = (r2, s2)" by fastforce
    have o2: "only quiet_request s s2" using rest [OF l2] only_hrec_then [of quiet_request ?e s s2] by simp
    consider "b" | "\<not> b" "d > 0" | "\<not> b" "\<not> d > 0" "time_IsZero (m_DeletionTimestamp m) \<and> ht_Node t \<noteq> None"
      | "\<not> b" "\<not> d > 0" "\<not> (time_IsZero (m_DeletionTimestamp m) \<and> ht_Node t \<noteq> None)" by blast
    then show ?thesis
    proof cases
      case 1
      then show ?thesis using Cons.prems Ret v l rest [OF l] vd sorted_out_Cons(3) [where k = "hreq s", of env "{hreq s..hreq s'}" timeout ts]
        by (cases r1) auto
    next
      case 2
      then show ?thesis using Cons.prems Ret v l2 o2 rest [OF l2] sorted_out_Cons(1) [of env "{hreq s..hreq s'}" timeout ts]
        by (cases r2) auto
    next
      case 3
      then have "m = ht_Machine t" using vd by simp
      then show ?thesis using Cons.prems Ret v l rest [OF l] sorted_out_Cons(2) [of env "{hreq s..hreq s'}" timeout ts] 3 mark_checked(3)
        by (cases r1) auto
    next
      case 4
      then have "healthCheckTargets env timeout (t # ts) s = healthCheckTargets env timeout ts s" using Ret v by auto
      then show ?thesis using Cons.prems l rest [OF l] sorted_out_Cons(1) [of env "{hreq s..hreq s'}" timeout ts] by auto
    qed
  qed (use Cons.prems in auto)
qed

section \<open>The patches\<close>

lemma patch_target_only: "patch_target env t s = (r, s') \<Longrightarrow> only (\<lambda>q. \<exists>b. q = PatchTarget (ht_Machine t) b) s s'"
  by (auto simp: patch_target_def Let_def)

lemma patch_all_only: "patch_all env ts s = (r, s') \<Longrightarrow> only (\<lambda>q. \<exists>t \<in> set ts. \<exists>b. q = PatchTarget (ht_Machine t) b) s s'"
proof (induction ts arbitrary: s r s')
  case (Cons t ts)
  let ?P = "\<lambda>q. \<exists>x \<in> set (t # ts). \<exists>b. q = PatchTarget (ht_Machine x) b"
  obtain e s1 where p: "patch_target env t s = (Ret e, s1)" by (auto simp: patch_target_def Let_def)
  obtain r2 s2 where l: "patch_all env ts s1 = (r2, s2)" by fastforce
  have "only ?P s s1" using patch_target_only [OF p] by (rule only_mono) simp
  moreover have "only ?P s1 s2" using Cons.IH [OF l] by (rule only_mono) auto
  moreover have "s' = s2" using Cons.prems p l by (cases r2) auto
  ultimately show ?case using only_trans by blast
qed simp

lemma clear_request_only: "clear_request env t s = (r, s') \<Longrightarrow> only quiet_request s s'"
  by (auto simp: clear_request_def getExternalRemediationRequest_def Let_def only_def split: option.splits sum.splits get_error.splits if_splits)

lemma patchHealthy_only:
  "patchHealthyTargets env ts s = (r, s') \<Longrightarrow> only (\<lambda>q. quiet_request q \<or> (\<exists>t \<in> set ts. \<exists>b. q = PatchTarget (ht_Machine t) b)) s s'"
proof (induction ts arbitrary: s r s')
  case (Cons t ts)
  let ?P = "\<lambda>q. quiet_request q \<or> (\<exists>x \<in> set (t # ts). \<exists>b. q = PatchTarget (ht_Machine x) b)"
  obtain r1 s1 where c: "clear_request env t s = (r1, s1)" by fastforce
  have o1: "only ?P s s1" using clear_request_only [OF c] by (rule only_mono) simp
  have rest: "only ?P s0 s2" if l: "patchHealthyTargets env ts s0 = (r2, s2)" for s0 r2 s2
    using Cons.IH [OF l] by (rule only_mono) auto
  show ?case
  proof (cases r1)
    case (Ret x)
    obtain errs b where x: "x = (errs, b)" by (cases x)
    show ?thesis
    proof (cases b)
      case False
      obtain r2 s2 where l: "patchHealthyTargets env ts s1 = (r2, s2)" by fastforce
      have "s' = s2" using Cons.prems c Ret x False l by (cases r2) auto
      then show ?thesis using only_trans [OF o1] rest [OF l] by simp
    next
      case True
      obtain e s2 where p: "patch_target env t s1 = (Ret e, s2)" by (auto simp: patch_target_def Let_def)
      obtain r3 s3 where l: "patchHealthyTargets env ts s2 = (r3, s3)" by fastforce
      have "s' = s3" using Cons.prems c Ret x True p l by (cases r3) auto
      moreover have "only ?P s1 s2" using patch_target_only [OF p] by (rule only_mono) simp
      ultimately show ?thesis using only_trans [OF only_trans [OF o1] rest [OF l]] by blast
    qed
  qed (use Cons.prems c o1 in auto)
qed simp

text \<open>An unhealthy Machine as it is patched, and what else is asked for on its behalf.\<close>

definition marked :: "bool \<Rightarrow> machine \<Rightarrow> machine \<Rightarrow> bool" where
  "marked may_mark m m' \<longleftrightarrow> m_Meta m' = m_Meta m \<and> (wf_conditions (m_Conditions m) \<longrightarrow>
     conditions_Get (m_Conditions m') MachineHealthCheckSucceededCondition = conditions_Get (m_Conditions m) MachineHealthCheckSucceededCondition \<and>
     (\<not> may_mark \<longrightarrow> conditions_Get (m_Conditions m') MachineOwnerRemediatedCondition = conditions_Get (m_Conditions m) MachineOwnerRemediatedCondition) \<and>
     (conditions_IsFalse (m_Conditions m) MachineOwnerRemediatedCondition \<longrightarrow> conditions_IsFalse (m_Conditions m') MachineOwnerRemediatedCondition))"

lemma marked_refl [simp]: "marked b m m"
  by (simp add: marked_def)

lemma mark_for_owner_marked: "marked True m (mark_for_owner ml now m)"
proof -
  let ?m1 = "machine_conditions (\<lambda>cs. conditions_MarkFalse now cs MachineOwnerRemediatedCondition ''WaitingForRemediation'' ConditionSeverityWarning []) m"
  have "marked True m ?m1" if "\<not> conditions_IsFalse (m_Conditions m) MachineOwnerRemediatedCondition"
    using that set_latest_checked(2) [of "m_Conditions m", where now = now and c = "FalseCondition MachineOwnerRemediatedCondition ''WaitingForRemediation'' ConditionSeverityWarning []"]
    by (auto simp: marked_def MarkFalse_conditions FalseCondition_def)
  moreover have "\<not> conditions_IsFalse (m_Conditions m) MachineOwnerRemediatedCondition"
    if "\<not> conditions_Has (m_Conditions m) MachineOwnerRemediatedCondition \<or> conditions_IsTrue (m_Conditions m) MachineOwnerRemediatedCondition"
    using that by (auto simp: conditions_Has_def conditions_IsTrue_def conditions_IsFalse_def split: option.splits)
  moreover have "marked True m x \<Longrightarrow> marked True m (set_machine_v2 ml now x t st r msg)" for x t st r msg
    by (simp add: marked_def)
  ultimately show ?thesis by (auto simp: mark_for_owner_def Let_def split: option.splits)
qed

definition on_behalf :: "health_cluster \<Rightarrow> healthCheckTarget \<Rightarrow> mhc_request \<Rightarrow> bool" where
  "on_behalf cluster t q \<longleftrightarrow> quiet_request q \<or>
     (\<exists>b. q = CreateRemediationRequest (m_Name (ht_Machine t)) b \<and> \<not> IsPaused cluster (m_Meta (ht_Machine t))) \<or>
     (\<exists>m b. q = PatchTarget m b \<and> marked (\<not> IsPaused cluster (m_Meta (ht_Machine t))) (ht_Machine t) m)"

lemma request_exists_eval [simp]:
  "externalRemediationRequestExists env template n s =
     (Ret (case he_GetRequest env (hreq s) (remediation_ref template n) (om_Namespace (hc_Meta (hcs_mhc s))) of Inl _ \<Rightarrow> False | Inr _ \<Rightarrow> True),
      hrec (GetRemediationRequest n) s)"
  by (simp add: externalRemediationRequestExists_def getExternalRemediationRequest_def mbind_def mret_def)

lemma external_remediation_outcome:
  assumes "external_remediation env template t s = (r, s')" "\<not> IsPaused cluster (m_Meta (ht_Machine t))"
  shows "only (on_behalf cluster t) s s' \<and> (\<forall>t'. r = Ret (PatchWith t') \<longrightarrow> marked True (ht_Machine t) (ht_Machine t'))"
proof -
  let ?m = "ht_Machine t" and ?P = "on_behalf cluster t"
  let ?ns = "om_Namespace (m_Meta ?m)" and ?s1 = "hrec (GetRemediationRequest (m_Name ?m)) s"
  let ?s2 = "hrec (GetTemplate template) ?s1"
  have q: "on_behalf cluster t q" if "quiet_request q" for q using that by (simp add: on_behalf_def)
  have c: "on_behalf cluster t (CreateRemediationRequest (m_Name ?m) b)" for b using assms(2) by (simp add: on_behalf_def)
  have o1: "only ?P s ?s1" by (simp add: q)
  then have o2: "only ?P s ?s2" by (rule only_trans) (simp add: q)
  have om: "only ?P s (on_mhc (mark_mhc now a b x) u)" if "only ?P s u" for now a b x u using only_trans [OF that] by simp
  have o3: "only ?P s (hrec (CreateRemediationRequest (m_Name ?m) b) ?s2)" for b using only_trans [OF o2] c by simp
  have v: "marked True ?m (set_machine_v2 ml now ?m ty st rs msg)" for ml now ty st rs msg by (simp add: marked_def)
  consider x where "he_GetRequest env (hreq s) (remediation_ref template (m_Name ?m)) (om_Namespace (hc_Meta (hcs_mhc s))) = Inr x"
    | x where "he_GetRequest env (hreq s) (remediation_ref template (m_Name ?m)) (om_Namespace (hc_Meta (hcs_mhc s))) = Inl x"
    by (meson obj_sumE)
  then show ?thesis
  proof cases
    case 1
    then show ?thesis using assms(1) o1
      by (auto simp: external_remediation_def Let_def)
  next
    case 2
    have run: "(r, s') = external_remediation env template t s" using assms(1) by simp
    note run = run [unfolded external_remediation_def Let_def, simplified 2, simplified]
    show ?thesis
    proof (cases "he_GetTemplate env (Suc (hreq s)) template ?ns")
      case (Inl e)
      then show ?thesis using run 2 om [OF o2] by auto
    next
      case tm: (Inr f)
      show ?thesis
      proof (cases "he_GenerateTemplate env f template ?ns (sp_ClusterName (m_Spec ?m)) (cloneOwnerRef ?m)")
        case (Inl e)
        then show ?thesis using run 2 tm o2 by auto
      next
        case gt: (Inr g)
        show ?thesis
        proof (cases "conditions_Get (m_Conditions ?m) MachineHealthCheckSucceededCondition")
          case None
          then show ?thesis using run 2 tm gt o2 by auto
        next
          case (Some cd)
          then show ?thesis using run 2 tm gt o3 om [OF o3] v
            by (cases "he_Create env (Suc (Suc (hreq s))) g (m_Name ?m)") auto
        qed
      qed
    qed
  qed
qed

lemma prepare_outcome:
  assumes "prepare_unhealthy env cluster t s = (r, s')"
  shows "only (on_behalf cluster t) s s' \<and>
    (\<forall>t'. r = Ret (PatchWith t') \<longrightarrow> marked (\<not> IsPaused cluster (m_Meta (ht_Machine t))) (ht_Machine t) (ht_Machine t'))"
proof (cases "conditions_Get (m_Conditions (ht_Machine t)) MachineHealthCheckSucceededCondition")
  case None
  then show ?thesis using assms external_remediation_outcome [of env _ t s r s' cluster]
    by (auto simp: prepare_unhealthy_def Let_def split: if_splits option.splits)
next
  case (Some c)
  then show ?thesis using assms external_remediation_outcome [of env _ t s r s' cluster] mark_for_owner_marked
    by (auto simp: prepare_unhealthy_def Let_def split: if_splits option.splits)
qed

lemma patchUnhealthy_only:
  "patchUnhealthyTargets env cluster ts s = (r, s') \<Longrightarrow> only (\<lambda>q. quiet_request q \<or> (\<exists>t \<in> set ts. on_behalf cluster t q)) s s'"
proof (induction ts arbitrary: s r s')
  case (Cons t ts)
  let ?P = "\<lambda>q. quiet_request q \<or> (\<exists>x \<in> set (t # ts). on_behalf cluster x q)"
  obtain r1 s1 where c: "prepare_unhealthy env cluster t s = (r1, s1)" by fastforce
  note po = prepare_outcome [OF c]
  have o1: "only ?P s s1" using conjunct1 [OF po] by (rule only_mono) auto
  have rest: "only ?P s0 s2" if l: "patchUnhealthyTargets env cluster ts s0 = (r2, s2)" for s0 r2 s2
    using Cons.IH [OF l] by (rule only_mono) auto
  show ?case
  proof (cases "\<exists>t'. r1 = Ret (PatchWith t')")
    case False
    then have "s' = s1" using Cons.prems c by (cases r1) (auto split: target_step.splits)
    then show ?thesis using o1 by simp
  next
    case True
    then obtain t' where t': "r1 = Ret (PatchWith t')" by blast
    obtain e s2 where p: "patch_target env t' s1 = (Ret e, s2)" by (auto simp: patch_target_def Let_def)
    have o2: "only ?P s1 s2" using patch_target_only [OF p] by (rule only_mono) (use po t' in \<open>auto simp: on_behalf_def\<close>)
    let ?s2 = "hrec (MhcEvent ''MachineMarkedUnhealthy'' (''Machine '' @ target_string t' @ '' has been marked as unhealthy'')) s2"
    obtain r3 s3 where l: "patchUnhealthyTargets env cluster ts s2 = (r3, s3)" by fastforce
    obtain r4 s4 where l': "patchUnhealthyTargets env cluster ts ?s2 = (r4, s4)" by fastforce
    have o4: "only ?P s2 s4" by (rule only_hrec_then [OF _ rest [OF l']]) simp
    have "s' = s3 \<or> s' = s4" using Cons.prems c t' p l l' by (cases e; cases r3) auto
    then show ?thesis using only_trans [OF only_trans [OF o1 o2]] rest [OF l] o4 by blast
  qed
qed simp

section \<open>Short-circuiting\<close>

text \<open>
  The Machines whose remediation was asked for: those with a new remediation request and those whose condition for
  the owner was changed.
\<close>

definition remediated :: "machine list \<Rightarrow> mhc_request list \<Rightarrow> string set" where
  "remediated machines rs = {n. (\<exists>b. CreateRemediationRequest n b \<in> set rs) \<or>
     (\<exists>m b m0. PatchTarget m b \<in> set rs \<and> m0 \<in> set machines \<and> m_Name m = n \<and> m_Name m0 = n \<and>
        conditions_Get (m_Conditions m) MachineOwnerRemediatedCondition \<noteq> conditions_Get (m_Conditions m0) MachineOwnerRemediatedCondition)}"

text \<open>The greatest number of unhealthy Machines among \<open>n\<close> with which remediation is allowed.\<close>

definition unhealthy_limit :: "md_ext \<Rightarrow> machinehealthcheck \<Rightarrow> int \<Rightarrow> int option" where
  "unhealthy_limit ext h n =
     (if hs_UnhealthyRange (hc_Spec h) \<noteq> None
      then (case getUnhealthyRange h of Ret (minVal, maxVal) \<Rightarrow> Some maxVal | _ \<Rightarrow> None)
      else case hs_MaxUnhealthy (hc_Spec h) of None \<Rightarrow> None
        | Some v \<Rightarrow> (case ext_Scaled ext (Some v) n False of Inl _ \<Rightarrow> None | Inr k \<Rightarrow> Some k))"

lemma allowed_within_limit:
  assumes "isAllowedRemediation ext h = Ret (True, c)"
  shows "\<exists>lim. unhealthy_limit ext h (hst_ExpectedMachines (hc_Status h)) = Some lim \<and> unhealthyMachineCount h \<le> lim"
proof (cases "hs_UnhealthyRange (hc_Spec h) = None")
  case True
  then show ?thesis using assms
    by (auto simp: isAllowedRemediation_def unhealthy_limit_def getMaxUnhealthy_def go_bind_Ret_iff split: option.splits sum.splits)
next
  case False
  then show ?thesis using assms by (auto simp: isAllowedRemediation_def unhealthy_limit_def go_bind_Ret_iff)
qed

lemma unhealthy_limit_cong: "hc_Spec h' = hc_Spec h \<Longrightarrow> unhealthy_limit ext h' n = unhealthy_limit ext h n"
  by (simp add: unhealthy_limit_def getUnhealthyRange_def)

lemma healthCheckTargets_mhc: "hcs_mhc (snd (healthCheckTargets env timeout targets s)) = hcs_mhc s"
proof (induction targets arbitrary: s)
  case (Cons t ts)
  show ?case
  proof (cases "needsRemediation (he_meta env) (he_Now env (hreq s)) timeout t")
    case (Ret v)
    have b3: "hcs_mhc (snd (mbind (healthCheckTargets env timeout ts) (\<lambda>(x, y, z). mret (f x y z)) s1)) = hcs_mhc s1" for f s1
      using Cons [of s1] by (cases "healthCheckTargets env timeout ts s1") (auto simp: mbind_def mret_def split: go.splits)
    show ?thesis using Ret by (cases v) (auto simp: Cons b3)
  qed simp_all
qed simp

text \<open>What holds of the requests of one reconciliation on the listed Machines.\<close>

abbreviation has_client :: "health_cluster \<Rightarrow> bool" where
  "has_client cluster \<equiv> conditions_IsTrue (clh_Conditions cluster) ControlPlaneInitializedCondition"

text \<open>
  A target of a reconciliation whose requests are \<open>qs\<close> from number \<open>j\<close> on: a watched Machine with its node as the workload
  cluster has reported it. It was found unhealthy if it is unhealthy at a time that was read from the clock afterwards.
\<close>

definition found_unhealthy ::
  "'u mhc_env \<Rightarrow> health_cluster \<Rightarrow> machinehealthcheck \<Rightarrow> machine list \<Rightarrow> nat \<Rightarrow> mhc_request list \<Rightarrow> healthCheckTarget \<Rightarrow> bool" where
  "found_unhealthy env cluster h machines j qs t \<longleftrightarrow>
     ht_Machine t \<in> set (watched machines) \<and> ht_Cluster t = cluster \<and> hc_Spec (ht_MHC t) = hc_Spec h \<and>
     \<not> IsPaused cluster (m_Meta (ht_Machine t)) \<and> node_observed env (has_client cluster) j qs t \<and>
     (\<exists>k \<in> {j..length qs}. unhealthy_at (ptr_deref (hs_NodeStartupTimeout (hc_Spec h)) DefaultNodeStartupTimeout) (he_Now env k) t)"

definition short_circuited ::
  "'u mhc_env \<Rightarrow> health_cluster \<Rightarrow> machinehealthcheck \<Rightarrow> machine list \<Rightarrow> nat \<Rightarrow> mhc_request list \<Rightarrow> mhc_request list \<Rightarrow> bool" where
  "short_circuited env cluster h machines j qs rs \<longleftrightarrow> remediated machines rs = {} \<or>
     (\<exists>lim. unhealthy_limit (he_ext env) h (int (length (watched machines))) = Some lim \<and> int (card (remediated machines rs)) \<le> lim) \<and>
     (\<forall>n \<in> remediated machines rs. \<exists>t. m_Name (ht_Machine t) = n \<and> found_unhealthy env cluster h machines j qs t)"

text \<open>The assumptions on the answer to the list request.\<close>

definition listing_ok :: "machine list \<Rightarrow> bool" where
  "listing_ok machines \<longleftrightarrow> distinct (map m_Name machines) \<and> (\<forall>m \<in> set machines. wf_conditions (m_Conditions m)) \<and> length machines < 2147483648"

lemma listing_unique: "listing_ok machines \<Longrightarrow> a \<in> set machines \<Longrightarrow> b \<in> set machines \<Longrightarrow> m_Name a = m_Name b \<Longrightarrow> a = b"
  unfolding listing_ok_def by (meson distinct_map inj_onD)

lemma checked_owner:
  assumes "checked st m m'" "wf_conditions (m_Conditions m)"
  shows "conditions_Get (m_Conditions m') MachineOwnerRemediatedCondition = conditions_Get (m_Conditions m) MachineOwnerRemediatedCondition"
    "wf_conditions (m_Conditions m')" "m_Meta m' = m_Meta m"
  using assms by (auto simp: checked_def)

text \<open>A request is on behalf of unhealthy targets only, or leaves the owner's condition alone.\<close>

definition accounted :: "health_cluster \<Rightarrow> machine list \<Rightarrow> healthCheckTarget list \<Rightarrow> mhc_request \<Rightarrow> bool" where
  "accounted cluster machines unhealthy q \<longleftrightarrow> quiet_request q \<or> (\<exists>u \<in> set unhealthy. on_behalf cluster u q) \<or>
     (\<exists>m b m0. q = PatchTarget m b \<and> m0 \<in> set machines \<and> m_Meta m = m_Meta m0 \<and>
        conditions_Get (m_Conditions m) MachineOwnerRemediatedCondition = conditions_Get (m_Conditions m0) MachineOwnerRemediatedCondition)"

lemma accounted_remediated:
  assumes "list_all (accounted cluster machines unhealthy) rs" "listing_ok machines"
    and "\<And>u. u \<in> set unhealthy \<Longrightarrow> \<exists>m0 \<in> set machines. checked ConditionFalse m0 (ht_Machine u)"
  shows "remediated machines rs \<subseteq> {n. \<exists>u \<in> set unhealthy. m_Name (ht_Machine u) = n \<and> \<not> IsPaused cluster (m_Meta (ht_Machine u))}"
proof
  fix n assume "n \<in> remediated machines rs"
  then consider b where "CreateRemediationRequest n b \<in> set rs"
    | m b m0 where "PatchTarget m b \<in> set rs" "m0 \<in> set machines" "m_Name m = n" "m_Name m0 = n"
        "conditions_Get (m_Conditions m) MachineOwnerRemediatedCondition \<noteq> conditions_Get (m_Conditions m0) MachineOwnerRemediatedCondition"
    by (auto simp: remediated_def)
  then show "n \<in> {n. \<exists>u \<in> set unhealthy. m_Name (ht_Machine u) = n \<and> \<not> IsPaused cluster (m_Meta (ht_Machine u))}"
  proof cases
    case 1
    then have "accounted cluster machines unhealthy (CreateRemediationRequest n b)" using assms(1) by (auto simp: list_all_iff)
    then show ?thesis by (auto simp: accounted_def on_behalf_def)
  next
    case 2
    then have "accounted cluster machines unhealthy (PatchTarget m b)" using assms(1) by (auto simp: list_all_iff)
    moreover have False if "m1 \<in> set machines" "m_Meta m = m_Meta m1"
        "conditions_Get (m_Conditions m) MachineOwnerRemediatedCondition = conditions_Get (m_Conditions m1) MachineOwnerRemediatedCondition" for m1
      using that 2 listing_unique [OF assms(2) that(1) 2(2)] by simp
    ultimately obtain u where u: "u \<in> set unhealthy" "marked (\<not> IsPaused cluster (m_Meta (ht_Machine u))) (ht_Machine u) m"
      by (auto simp: accounted_def on_behalf_def)
    obtain m1 where m1: "m1 \<in> set machines" "checked ConditionFalse m1 (ht_Machine u)" using assms(3) [OF u(1)] by blast
    have wf: "wf_conditions (m_Conditions m1)" using assms(2) m1(1) by (simp add: listing_ok_def)
    note co = checked_owner [OF m1(2) wf]
    have nm: "m_Meta m = m_Meta (ht_Machine u)" using u(2) by (simp add: marked_def)
    then have "m1 = m0" using listing_unique [OF assms(2) m1(1) 2(2)] co(3) 2(3,4) by simp
    then have "\<not> IsPaused cluster (m_Meta (ht_Machine u))" using u(2) co 2(5) by (auto simp: marked_def)
    then show ?thesis using u(1) nm 2(3) by auto
  qed
qed

lemma targets_machine: "targets_of cluster spec machines targets \<Longrightarrow> t \<in> set targets \<Longrightarrow> ht_Machine t \<in> set (watched machines)"
  unfolding targets_of_def by (metis in_set_conv_nth length_map nth_map)

lemma watched_subset: "m \<in> set (watched machines) \<Longrightarrow> m \<in> set machines"
  by (simp add: watched_def)

lemma length_watched: "length (watched machines) \<le> length machines"
  by (simp add: watched_def)

text \<open>The requests after the checks, in both cases.\<close>

lemma patches_accounted:
  assumes "targets_of cluster spec machines targets" "sorted_out env ks timeout targets healthy unhealthy" "listing_ok machines"
  shows "restrict_remediation env n healthy unhealthy s = (r, s') \<Longrightarrow> only (accounted cluster machines []) s s'"
    and "allow_remediation env cluster c healthy unhealthy ds s = (r, s') \<Longrightarrow> only (accounted cluster machines unhealthy) s s'"
proof -
  have same: "accounted cluster machines xs (PatchTarget (ht_Machine t) b)" if tt: "t \<in> set (healthy @ unhealthy)" for t xs b
  proof -
    obtain t0 st where t0: "t0 \<in> set targets" "checked st (ht_Machine t0) (ht_Machine t)" using assms(2) tt by (auto simp: sorted_out_def)
    have "ht_Machine t0 \<in> set machines" using targets_machine [OF assms(1) t0(1)] watched_subset by blast
    then show ?thesis using checked_owner(1,3) [OF t0(2)] assms(3) by (auto simp: accounted_def listing_ok_def)
  qed
  {
    assume run: "restrict_remediation env n healthy unhealthy s = (r, s')"
    define s2 where "s2 = (let message = restricted_message (hcs_mhc s) n (length unhealthy); s1 = on_mhc (set_restricted (he_meta env) (he_Now env (hreq s)) message) s
      in if length unhealthy \<noteq> 0 then hrec (MhcEvent ''RemediationRestricted'' message) s1 else s1)"
    have o: "only (accounted cluster machines []) s s2" by (auto simp: s2_def Let_def only_def accounted_def)
    obtain r3 s3 where p: "patch_all env (healthy @ unhealthy) s2 = (r3, s3)" by fastforce
    have "s' = s3" using run p by (cases r3) (auto simp: restrict_remediation_def s2_def Let_def split: if_splits)
    moreover have "only (accounted cluster machines []) s2 s3" using patch_all_only [OF p] by (rule only_mono) (use same in blast)
    ultimately show "only (accounted cluster machines []) s s'" using only_trans [OF o] by simp
  next
    assume run: "allow_remediation env cluster c healthy unhealthy ds s = (r, s')"
    let ?P = "accounted cluster machines unhealthy" and ?s1 = "on_mhc (set_allowed (he_meta env) (he_Now env (hreq s)) c) s"
    obtain r2 s2 where p: "patchUnhealthyTargets env cluster unhealthy ?s1 = (r2, s2)" by fastforce
    obtain r3 s3 where q: "patchHealthyTargets env healthy s2 = (r3, s3)" by fastforce
    have "only ?P s ?s1" by simp
    moreover have "only ?P ?s1 s2" using patchUnhealthy_only [OF p] by (rule only_mono) (auto simp: accounted_def)
    ultimately have o2: "only ?P s s2" by (rule only_trans)
    have "?P x" if "quiet_request x \<or> (\<exists>t \<in> set healthy. \<exists>b. x = PatchTarget (ht_Machine t) b)" for x
      using that same [of _ unhealthy] by (elim disjE) (simp add: accounted_def, auto)
    then have o3: "only ?P s2 s3" using patchHealthy_only [OF q] by (rule only_mono [rotated])
    have "s' = s2 \<or> s' = s3" using run p q by (cases r2; cases r3) (auto simp: allow_remediation_def split: if_splits)
    then show "only ?P s s'" using o2 only_trans [OF o2 o3] by blast
  }
qed

lemma remediated_quiet: "list_all quiet_request qs \<Longrightarrow> remediated machines (qs @ rs) = remediated machines rs"
  by (auto simp: remediated_def list_all_iff)

lemma only_requests: "only P s s' \<Longrightarrow> \<exists>rs. hcs_requests s' = hcs_requests s @ rs \<and> list_all P rs"
  by (simp add: only_def)

lemma check_targets_outcome:
  assumes "check_targets env cluster targets s = (r, s')" "targets_of cluster (hc_Spec (hcs_mhc s)) machines targets" "listing_ok machines"
    and obs: "\<forall>t \<in> set targets. node_observed env (has_client cluster) j (hcs_requests s) t" and j: "j \<le> hreq s"
  shows "\<exists>rs. hcs_requests s' = hcs_requests s @ rs \<and> short_circuited env cluster (hcs_mhc s) machines j (hcs_requests s') rs"
proof -
  let ?h = "hcs_mhc s" and ?T = "ptr_deref (hs_NodeStartupTimeout (hc_Spec (hcs_mhc s))) DefaultNodeStartupTimeout"
  let ?s0 = "on_mhc (set_targets targets) s"
  obtain r1 s1 where c: "healthCheckTargets env ?T targets ?s0 = (r1, s1)" by fastforce
  note hc = healthCheckTargets_outcome [OF c]
  obtain qs where qs: "hcs_requests s1 = hcs_requests s @ qs" "list_all quiet_request qs"
    using only_requests [OF conjunct1 [OF hc]] by auto
  have mh: "hcs_mhc s1 = set_targets targets ?h" using healthCheckTargets_mhc [of env ?T targets ?s0] c by simp
  have silent: ?thesis if "hcs_requests s' = hcs_requests s1"
    using that qs remediated_quiet [OF qs(2), of machines "[]"] by (auto simp: short_circuited_def remediated_def)
  show ?thesis
  proof (cases r1)
    case (Ret x)
    obtain h u ds where x: "x = (h, u, ds)" by (cases x)
    have so: "sorted_out env {j..hreq s1} ?T targets h u"
      using hc Ret x j sorted_out_mono [of env "{hreq ?s0..hreq s1}" ?T targets h u "{j..hreq s1}"] by auto
    let ?s2 = "on_mhc (set_healthy h) s1"
    let ?h2 = "hcs_mhc ?s2"
    have len: "length targets = length (watched machines)" using assms(2) by (metis targets_of_def length_map)
    have small: "i32 (int (length targets)) = int (length targets)" "i32 (int (length h)) = int (length h)"
        "i32 (int (length targets) - int (length h)) = int (length targets) - int (length h)"
      using so assms(3) len length_watched [of machines] by (auto simp: sorted_out_def listing_ok_def intro!: i32_id simp: in_i32_def)
    have st: "hst_ExpectedMachines (hc_Status ?h2) = int (length (watched machines))" "unhealthyMachineCount ?h2 = int (length targets) - int (length h)"
      "hc_Spec ?h2 = hc_Spec ?h"
      using mh small len by (simp_all add: set_healthy_def set_targets_def unhealthyMachineCount_def)
    have from_list: "\<exists>m0 \<in> set machines. checked ConditionFalse m0 (ht_Machine v)" if v: "v \<in> set u" for v
      using so v targets_machine [OF assms(2)] watched_subset unfolding sorted_out_def by blast
    show ?thesis
    proof (cases "isAllowedRemediation (he_ext env) ?h2")
      case al: (Ret a)
      obtain ok n where a: "a = (ok, n)" by (cases a)
      have ext: "\<exists>rs. hcs_requests s' = hcs_requests s @ qs @ rs \<and> list_all (accounted cluster machines us) rs"
        if "only (accounted cluster machines us) ?s2 s'" for us using only_requests [OF that] qs(1) by auto
      show ?thesis
      proof (cases ok)
        case False
        have "restrict_remediation env (length targets) h u ?s2 = (r, s')" using assms(1) c Ret x al a False by (simp add: check_targets_def Let_def)
        from ext [OF patches_accounted(1) [OF assms(2) so assms(3) this]] obtain rs where
          rs: "hcs_requests s' = hcs_requests s @ qs @ rs" "list_all (accounted cluster machines []) rs" by blast
        have "remediated machines (qs @ rs) = {}" using accounted_remediated [OF rs(2) assms(3)] remediated_quiet [OF qs(2)] by simp
        then show ?thesis using rs(1) by (auto simp: short_circuited_def)
      next
        case True
        have "allow_remediation env cluster n h u ds ?s2 = (r, s')" using assms(1) c Ret x al a True by (simp add: check_targets_def Let_def)
        from ext [OF patches_accounted(2) [OF assms(2) so assms(3) this]] obtain rs where
          rs: "hcs_requests s' = hcs_requests s @ qs @ rs" "list_all (accounted cluster machines u) rs" by blast
        have sub: "remediated machines (qs @ rs) \<subseteq> {n. \<exists>v \<in> set u. m_Name (ht_Machine v) = n \<and> \<not> IsPaused cluster (m_Meta (ht_Machine v))}"
          using accounted_remediated [OF rs(2) assms(3) from_list] remediated_quiet [OF qs(2)] by simp
        also have "\<dots> \<subseteq> (\<lambda>v. m_Name (ht_Machine v)) ` set u" by auto
        finally have "card (remediated machines (qs @ rs)) \<le> card ((\<lambda>v. m_Name (ht_Machine v)) ` set u)" by (intro card_mono) auto
        also have "\<dots> \<le> length u" by (metis card_image_le card_length finite_set le_trans)
        finally have card: "card (remediated machines (qs @ rs)) \<le> length u" .
        obtain lim where lim: "unhealthy_limit (he_ext env) ?h2 (int (length (watched machines))) = Some lim" "int (length targets) - int (length h) \<le> lim"
          using allowed_within_limit [of "he_ext env" ?h2 n] al a True st by auto
        have "int (card (remediated machines (qs @ rs))) \<le> lim" using card so lim(2) by (simp add: sorted_out_def)
        moreover have "\<exists>t. m_Name (ht_Machine t) = x \<and> found_unhealthy env cluster ?h machines j (hcs_requests s') t"
          if xr: "x \<in> remediated machines (qs @ rs)" for x
        proof -
          obtain v where v: "v \<in> set u" "m_Name (ht_Machine v) = x" "\<not> IsPaused cluster (m_Meta (ht_Machine v))" using sub xr by auto
          obtain t where t: "t \<in> set targets" "checked ConditionFalse (ht_Machine t) (ht_Machine v)" "\<exists>k \<in> {j..hreq s1}. unhealthy_at ?T (he_Now env k) t"
            using so v(1) unfolding sorted_out_def by blast
          then have "\<exists>k \<in> {j..hreq s'}. unhealthy_at ?T (he_Now env k) t" using qs(1) rs(1) by auto
          moreover have "m_Meta (ht_Machine v) = m_Meta (ht_Machine t)" using t(2) by (simp add: checked_def)
          moreover have "node_observed env (has_client cluster) j (hcs_requests s') t"
            using node_observed_later [of env "has_client cluster" j "hcs_requests s" t j "qs @ rs"] obs t(1) rs(1) by simp
          ultimately show ?thesis using t(1) v(2,3) targets_machine [OF assms(2) t(1)] assms(2)
            by (intro exI [of _ t]) (auto simp: targets_of_def found_unhealthy_def)
        qed
        ultimately show ?thesis using rs(1) lim(1) unhealthy_limit_cong [OF st(3)] by (auto simp: short_circuited_def)
      qed
    next
      case (Err e)
      then have "hcs_requests s' = hcs_requests s1" using assms(1) c Ret x by (auto simp: check_targets_def Let_def)
      then show ?thesis by (rule silent)
    next
      case Panic
      then have "hcs_requests s' = hcs_requests s1" using assms(1) c Ret x by (auto simp: check_targets_def Let_def)
      then show ?thesis by (rule silent)
    qed
  next
    case (Err e)
    then have "hcs_requests s' = hcs_requests s1" using assms(1) c by (auto simp: check_targets_def)
    then show ?thesis by (rule silent)
  next
    case Panic
    then have "hcs_requests s' = hcs_requests s1" using assms(1) c by (auto simp: check_targets_def)
    then show ?thesis by (rule silent)
  qed
qed

lemma remote_client_only:
  "remote_client env cluster s = (r, s') \<Longrightarrow> only quiet_request s s' \<and> (\<forall>b. r = Ret b \<longrightarrow> b = has_client cluster)"
  by (auto simp: remote_client_def split: if_splits option.splits)

lemma mhc_reconcile_outcome:
  assumes "mhc_reconcile env cluster s = (r, s')" "\<And>k p ns. he_List env k p ns = Inr machines" "listing_ok machines"
  shows "\<exists>rs. hcs_requests s' = hcs_requests s @ rs \<and> short_circuited env cluster (hcs_mhc s) machines (hreq s) (hcs_requests s') rs"
proof -
  let ?s0 = "on_mhc (own_by_cluster env cluster) s"
  have silent: ?thesis if o: "only quiet_request ?s0 s'"
  proof -
    obtain rs where rs: "hcs_requests s' = hcs_requests s @ rs" "list_all quiet_request rs" using only_requests [OF o] by auto
    then have "remediated machines rs = {}" using remediated_quiet [OF rs(2), of machines "[]"] by (simp add: remediated_def)
    then show ?thesis using rs(1) by (auto simp: short_circuited_def)
  qed
  obtain r1 s1 where c: "remote_client env cluster ?s0 = (r1, s1)" by fastforce
  have o1: "only quiet_request ?s0 s1" and client: "\<And>b. r1 = Ret b \<Longrightarrow> b = has_client cluster" using remote_client_only [OF c] by blast+
  show ?thesis
  proof (cases r1)
    case (Ret cc)
    obtain r2 s2 where g: "getTargetsFromMHC env cc cluster s1 = (r2, s2)" by fastforce
    note go = getTargets_outcome [OF g assms(2)]
    have o2: "only quiet_request ?s0 s2" using only_trans [OF o1] go by blast
    show ?thesis
    proof (cases r2)
      case t: (Ret targets)
      have run: "check_targets env cluster targets s2 = (r, s')" using assms(1) c Ret g t by (simp add: mhc_reconcile_def)
      have sp: "hc_Spec (hcs_mhc s2) = hc_Spec (hcs_mhc s)" "hc_Spec (hcs_mhc s1) = hc_Spec (hcs_mhc s)" using o1 o2 by (simp_all add: only_def)
      have "\<forall>t \<in> set targets. node_observed env (has_client cluster) (hreq s) (hcs_requests s2) t"
        using go t client [OF Ret] node_observed_later [of env cc "hreq s1" "hcs_requests s2" _ "hreq s" "[]"] only_longer [OF o1] by auto
      moreover have "hreq s \<le> hreq s2" using only_longer [OF o2] by simp
      ultimately obtain rs where rs: "hcs_requests s' = hcs_requests s2 @ rs" "short_circuited env cluster (hcs_mhc s2) machines (hreq s) (hcs_requests s') rs"
        using check_targets_outcome [OF run _ assms(3), of "hreq s"] go t sp by (metis (lifting))
      obtain qs where qs: "hcs_requests s2 = hcs_requests s @ qs" "list_all quiet_request qs" using only_requests [OF o2] by auto
      have "short_circuited env cluster (hcs_mhc s) machines (hreq s) (hcs_requests s') (qs @ rs)"
        using rs(2) unhealthy_limit_cong [OF sp(1)] remediated_quiet [OF qs(2)] sp(1) by (simp add: short_circuited_def found_unhealthy_def)
      then show ?thesis using rs(1) qs(1) by auto
    qed (use silent o2 assms(1) c Ret g in \<open>auto simp: mhc_reconcile_def\<close>)
  qed (use silent o1 assms(1) c in \<open>auto simp: mhc_reconcile_def\<close>)
qed

text \<open>C12: a reconciliation of a MachineHealthCheck asks for the remediation of no more Machines than
  \<^verbatim>\<open>maxUnhealthy\<close> (or the upper end of \<^verbatim>\<open>unhealthyRange\<close>) allows of those that it watches, and of none if the limit
  cannot be computed, whatever else the API server and the workload cluster answer. Every one of these Machines is
  watched, neither it nor the Cluster is paused, and it is unhealthy at a time read from the clock of this
  reconciliation, with its node being what the workload cluster has answered to a request of this reconciliation (missing
  only if the answer was that it is not found, absent only without a reference to a node or without a client for the
  workload cluster).\<close>

theorem remediation_short_circuit:
  assumes "mhc_reconcile env cluster s = (r, s')" and "\<And>k p ns. he_List env k p ns = Inr machines" and "listing_ok machines"
  shows "\<exists>rs. hcs_requests s' = hcs_requests s @ rs \<and>
     (remediated machines rs = {} \<or>
      (\<exists>lim. unhealthy_limit (he_ext env) (hcs_mhc s) (int (length (watched machines))) = Some lim \<and> int (card (remediated machines rs)) \<le> lim)) \<and>
     (\<forall>n \<in> remediated machines rs. \<exists>t. m_Name (ht_Machine t) = n \<and> ht_Machine t \<in> set (watched machines) \<and> ht_Cluster t = cluster \<and>
        hc_Spec (ht_MHC t) = hc_Spec (hcs_mhc s) \<and> \<not> IsPaused cluster (m_Meta (ht_Machine t)) \<and>
        node_observed env (has_client cluster) (length (hcs_requests s)) (hcs_requests s') t \<and>
        (\<exists>k \<in> {length (hcs_requests s)..length (hcs_requests s')}.
           unhealthy_at (ptr_deref (hs_NodeStartupTimeout (hc_Spec (hcs_mhc s))) DefaultNodeStartupTimeout) (he_Now env k) t))"
proof -
  obtain rs where "hcs_requests s' = hcs_requests s @ rs" "short_circuited env cluster (hcs_mhc s) machines (hreq s) (hcs_requests s') rs"
    using mhc_reconcile_outcome [OF assms] by blast
  then show ?thesis unfolding short_circuited_def found_unhealthy_def by (intro exI [of _ rs]) auto
qed

lemma remediated_finite: "finite (remediated machines rs)"
proof -
  have "remediated machines rs \<subseteq> (\<lambda>q. case q of CreateRemediationRequest n b \<Rightarrow> n | PatchTarget m b \<Rightarrow> m_Name m | _ \<Rightarrow> []) ` set rs"
    by (force simp: remediated_def)
  then show ?thesis by (rule finite_subset) simp
qed

text \<open>
  An external remediation request that exists already for one Machine ends the loop: the unhealthy Machines after it are
  neither patched, nor do they get a request of their own.
\<close>

lemma existing_request_ends_loop:
  assumes "hs_RemediationTemplate (hc_Spec (hcs_mhc s)) = Some template" "\<not> IsPaused cluster (m_Meta (ht_Machine t))"
    and "he_GetRequest env (hreq s) (remediation_ref template (m_Name (ht_Machine t))) (om_Namespace (hc_Meta (hcs_mhc s))) = Inr deletion"
  shows "patchUnhealthyTargets env cluster (t # ts) s = (Ret [], hrec (GetRemediationRequest (m_Name (ht_Machine t))) s)"
  using assms by (simp add: prepare_unhealthy_def external_remediation_def Let_def mbind_def mret_def)

text \<open>
  With a remediation template, the condition of a healthy Machine that never had a remediation request is not patched.
\<close>

lemma healthy_without_request_not_patched:
  assumes "hs_RemediationTemplate (hc_Spec (hcs_mhc s)) = Some template"
    and "he_GetRequest env (hreq s) (remediation_ref template (m_Name (ht_Machine t))) (om_Namespace (hc_Meta (hcs_mhc s))) = Inl (NotFound e)"
  shows "patchHealthyTargets env [t] s = (Ret [], hrec (GetRemediationRequest (m_Name (ht_Machine t))) s)"
  using assms by (simp add: clear_request_def getExternalRemediationRequest_def mbind_def mret_def)

section \<open>Examples\<close>

text \<open>Two Machines, one of which a user has marked; every request succeeds.\<close>

definition sample_marked :: machine where
  "sample_marked = (let m = sample_machine ''a'' 1 None None
     in m\<lparr>m_Meta := (m_Meta m)\<lparr>om_Annotations := Some [RemediateMachineAnnotation \<mapsto> []]\<rparr>\<rparr>)"

definition sample_listing :: "machine list" where
  "sample_listing = [sample_marked, sample_machine ''b'' 1 None None]"

definition sample_henv :: "unit mhc_env" where
  "sample_henv = \<lparr>he_GetMHC = (\<lambda>_. Inr sample_mhc), he_GetCluster = (\<lambda>_ _ _. Inr sample_health_cluster), he_GetClient = (\<lambda>_. None),
     he_Watch = (\<lambda>_. None), he_Selector = (\<lambda>_ _. Inr (\<lambda>_. True)), he_List = (\<lambda>_ _ _. Inr sample_listing), he_NewHelper = (\<lambda>_ _. None),
     he_GetNode = (\<lambda>_ _. Inr sample_node), he_Patch = (\<lambda>_ _ _. None), he_GetRequest = (\<lambda>_ _ _. Inr None), he_DeleteRequest = (\<lambda>_ _. None),
     he_GetTemplate = (\<lambda>_ _ _. Inr ()), he_GenerateTemplate = (\<lambda>_ _ _ _ _. Inr ()), he_Create = (\<lambda>_ _ _. None), he_NewMHCHelper = (\<lambda>_ _. None),
     he_PatchMHC = (\<lambda>_ _ _. None), he_NotConnected = (\<lambda>_. False), he_Group = (\<lambda>_. None), he_Now = (\<lambda>n. 10 + int n),
     he_meta = sample_meta_lib, he_ext = sample_ext\<rparr>"

definition sample_mhc_state :: mhc_state where
  "sample_mhc_state = \<lparr>hcs_mhc = sample_mhc, hcs_requests = []\<rparr>"

lemma sample_listing_ok: "listing_ok sample_listing" "\<forall>m \<in> set sample_listing. conditions_Get (m_Conditions m) t = None"
  by (simp_all add: listing_ok_def sample_listing_def sample_marked_def sample_machine_def wf_conditions_def conditions_Get_def)

lemma sample_henv_list: "he_List sample_henv k p ns = Inr sample_listing"
  by (simp add: sample_henv_def)

lemma sample_limit: "unhealthy_limit (he_ext sample_henv) sample_mhc n = Some 1"
  by (simp add: unhealthy_limit_def sample_henv_def sample_mhc_def sample_ext_def)

theorem remediation_short_circuit_witness:
  "\<exists>r s'. mhc_reconcile sample_henv sample_health_cluster sample_mhc_state = (r, s') \<and> card (remediated sample_listing (hcs_requests s')) \<le> 1"
proof -
  obtain r s' where e: "mhc_reconcile sample_henv sample_health_cluster sample_mhc_state = (r, s')" by fastforce
  have s: "hcs_requests sample_mhc_state = []" "hcs_mhc sample_mhc_state = sample_mhc" by (simp_all add: sample_mhc_state_def)
  from remediation_short_circuit [OF e sample_henv_list sample_listing_ok(1)] have "remediated sample_listing (hcs_requests s') = {} \<or>
      int (card (remediated sample_listing (hcs_requests s'))) \<le> 1"
    unfolding s sample_limit by auto
  then show ?thesis using e by auto
qed

end
