(* ===== verification/Kcp_Etcd.thy ===== *)
theory Kcp_Etcd
  imports Mhc_Controller
begin

text \<open>
  The etcd cluster of a kubeadm control plane as its controller uses it: controlplane/kubeadm/internal
  (etcd_client_generator.go, etcd/etcd.go, etcd/util/util.go, workload_cluster_etcd.go and
  getControlPlaneNodes of workload_cluster.go), with the types of controlplane/kubeadm/api/v1beta1.

  The state of a reconciliation is the control plane of internal/control_plane.go and the list of the requests
  made so far, to the API server, to the workload cluster and to etcd. Machines are pointers that are shared;
  as for MachineSets, a pointer is the name of the Machine. The answers to the requests are the fields of
  \<open>kcp_env\<close> and may depend on the number of requests made before. Contents of kubeadm configurations that the code
  only passes on have the type \<open>'u\<close>. Where the code only adds the name of an object to the text of an error, the
  model keeps the error.
\<close>

section \<open>API types\<close>

record 'u cluster_configuration =
  cc_EtcdExternal :: "'u option"
  cc_FeatureGates :: "(string \<rightharpoonup> bool) option"
  cc_Other :: "'u option"

record 'u kubeadm_config_spec =
  kc_ClusterConfiguration :: "'u cluster_configuration option"
  kc_InitConfiguration :: "'u option"
  kc_JoinConfiguration :: "'u option"
  kc_Other :: "'u option"

record kcp_machine_template =
  kt_Labels :: string_map
  kt_Annotations :: string_map
  kt_InfrastructureRef :: object_reference
  kt_NodeDrainTimeout :: "int option"
  kt_NodeVolumeDetachTimeout :: "int option"
  kt_NodeDeletionTimeout :: "int option"

record kcp_rolling_update =
  kru_MaxSurge :: "int_or_string option"

record kcp_rollout_strategy =
  kro_Type :: string
  kro_RollingUpdate :: "kcp_rolling_update option"

record kcp_remediation_strategy =
  krs_MaxRetry :: "int option"
  krs_RetryPeriod :: int
  krs_MinHealthyPeriod :: "int option"

text \<open>\<open>ks_RolloutBefore\<close> is a pointer to a struct with a pointer, \<open>ks_MachineNamingStrategy\<close> one to a struct with the template.\<close>

record 'u kcp_spec =
  ks_Replicas :: "int option"
  ks_Version :: string
  ks_MachineTemplate :: kcp_machine_template
  ks_KubeadmConfigSpec :: "'u kubeadm_config_spec"
  ks_RolloutBefore :: "int option option"
  ks_RolloutAfter :: "int option"
  ks_RolloutStrategy :: "kcp_rollout_strategy option"
  ks_RemediationStrategy :: "kcp_remediation_strategy option"
  ks_MachineNamingStrategy :: "string option"

record last_remediation_status =
  lr_Machine :: string
  lr_Timestamp :: "int option"
  lr_RetryCount :: int

record kcp_v1beta2 =
  k2_Conditions :: "meta_condition list"
  k2_ReadyReplicas :: "int option"
  k2_AvailableReplicas :: "int option"
  k2_UpToDateReplicas :: "int option"

record kcp_status =
  kst_Selector :: string
  kst_Replicas :: int
  kst_Version :: "string option"
  kst_UpdatedReplicas :: int
  kst_ReadyReplicas :: int
  kst_UnavailableReplicas :: int
  kst_Initialized :: bool
  kst_Ready :: bool
  kst_FailureReason :: string
  kst_FailureMessage :: "string option"
  kst_ObservedGeneration :: int
  kst_Conditions :: "condition list"
  kst_LastRemediation :: "last_remediation_status option"
  kst_V1Beta2 :: "kcp_v1beta2 option"

record 'u kubeadm_control_plane =
  kcp_Meta :: object_meta
  kcp_Spec :: "'u kcp_spec"
  kcp_Status :: kcp_status

record kcp_cluster = cluster_view +
  kcl_FailureDomains :: failure_domains

text \<open>What tracks a remediation in an annotation; a timestamp is \<open>None\<close> if it is zero.\<close>

record remediation_data =
  rd_Machine :: string
  rd_Timestamp :: "int option"
  rd_RetryCount :: int

section \<open>etcd/etcd.go and etcd/util/util.go: types\<close>

record etcd_member =
  em_ClusterID :: "64 word"
  em_ID :: "64 word"
  em_Name :: string
  em_PeerURLs :: "string list"
  em_ClientURLs :: "string list"
  em_IsLearner :: bool
  em_Alarms :: "int list"

record member_alarm =
  ma_MemberID :: "64 word"
  ma_Type :: int

text \<open>The member of the etcd library.\<close>

record pb_member =
  pb_ID :: "64 word"
  pb_Name :: string
  pb_PeerURLs :: "string list"
  pb_ClientURLs :: "string list"
  pb_IsLearner :: bool

record etcd_client =
  ec_Endpoint :: string
  ec_LeaderID :: "64 word"

definition pbMemberToMember :: "pb_member \<Rightarrow> etcd_member" where
  "pbMemberToMember m = \<lparr>em_ClusterID = 0, em_ID = pb_ID m, em_Name = pb_Name m, em_PeerURLs = pb_PeerURLs m,
     em_ClientURLs = pb_ClientURLs m, em_IsLearner = pb_IsLearner m, em_Alarms = []\<rparr>"

definition MemberForName :: "etcd_member list \<Rightarrow> string \<Rightarrow> etcd_member option" where
  "MemberForName members name = find (\<lambda>m. em_Name m = name) members"

definition MemberNames :: "etcd_member list \<Rightarrow> string list" where
  "MemberNames members = map em_Name members"

definition MemberEqual :: "etcd_member list \<Rightarrow> etcd_member list \<Rightarrow> bool" where
  "MemberEqual members1 members2 \<longleftrightarrow> set (MemberNames members1) = set (MemberNames members2)"

section \<open>State and environment\<close>

datatype kcp_error =
    KcpApi string
  | KcpMessage string
  | KcpWrapped string kcp_error
  | KcpAggregate "kcp_error list"
  | EtcdNodeConnection
  | ControlPlaneMinNodes
  | KcpVersion version_error

text \<open>A request and whether it has succeeded.\<close>

datatype kcp_request =
    GetWorkloadCluster bool
  | ListNodes string bool
  | DialEtcd string bool
  | ListEtcdMembers string bool
  | ListEtcdAlarms string bool
  | MoveEtcdLeader string "64 word" bool
  | RemoveEtcdMember string "64 word" bool
  | PatchControlPlaneMachine machine bool
  | DeleteControlPlaneMachine string bool
  | CloneInfraMachine clone_input bool
  | CreateKubeadmConfig string bool
  | CreateControlPlaneMachine machine bool
  | DeleteGenerated object_reference bool
  | ReconcileWorkload string bool
  | KcpEvent string string

record preflight_results =
  pr_HasDeletingMachine :: bool
  pr_ControlPlaneComponentsNotHealthy :: bool
  pr_EtcdClusterNotHealthy :: bool

text \<open>
  \<open>kp_outdated\<close> holds the names of the Machines that are not up to date, \<open>kp_workload\<close> whether the client of the
  workload cluster has been created.
\<close>

record 'u kcp_state =
  kp_KCP :: "'u kubeadm_control_plane"
  kp_Cluster :: kcp_cluster
  kp_Machines :: machines
  kp_outdated :: "string list"
  kp_PreflightCheckResults :: preflight_results
  kp_workload :: bool
  kp_requests :: "kcp_request list"

record 'u kcp_env =
  ke_GetWorkloadCluster :: "nat \<Rightarrow> string + unit"
  ke_Nodes :: "nat \<Rightarrow> string \<Rightarrow> string + string list"
  ke_Dial :: "nat \<Rightarrow> string \<Rightarrow> string + 64 word"
  ke_MemberList :: "nat \<Rightarrow> string \<Rightarrow> string + 64 word \<times> pb_member list"
  ke_AlarmList :: "nat \<Rightarrow> string \<Rightarrow> string + member_alarm list"
  ke_MoveLeader :: "nat \<Rightarrow> string \<Rightarrow> 64 word \<Rightarrow> string + unit"
  ke_MemberRemove :: "nat \<Rightarrow> string \<Rightarrow> 64 word \<Rightarrow> string + unit"
  ke_NewHelper :: "nat \<Rightarrow> machine \<Rightarrow> string option"
  ke_Patch :: "nat \<Rightarrow> machine \<Rightarrow> machine \<Rightarrow> string + unit"
  ke_Delete :: "nat \<Rightarrow> machine \<Rightarrow> api_outcome"
  ke_Clone :: "nat \<Rightarrow> clone_input \<Rightarrow> string + object_reference"
  ke_CreateConfig :: "nat \<Rightarrow> object_meta \<Rightarrow> 'u kubeadm_config_spec \<Rightarrow> string + string"
  ke_ApplyMachine :: "nat \<Rightarrow> machine \<Rightarrow> string + unit"
  ke_DeleteObject :: "nat \<Rightarrow> object_reference \<Rightarrow> api_outcome"
  ke_Workload :: "nat \<Rightarrow> string \<Rightarrow> string + unit"
  ke_GenerateName :: "nat \<Rightarrow> string \<Rightarrow> string \<Rightarrow> string \<Rightarrow> string + string"
  ke_GenerateInfraName :: "nat \<Rightarrow> string \<Rightarrow> string"
  ke_DeprecatedNaming :: bool
  ke_MarshalConfig :: "'u cluster_configuration option \<Rightarrow> string + string"
  ke_Marshal :: "remediation_data \<Rightarrow> string + string"
  ke_Unmarshal :: "string \<Rightarrow> string + remediation_data"
  ke_ErrorText :: "kcp_error \<Rightarrow> string"
  ke_IntValue :: "int_or_string \<Rightarrow> int"
  ke_Now :: "nat \<Rightarrow> int"
  ke_Order :: "machines \<Rightarrow> machines"
  ke_Range :: "string list \<Rightarrow> string list"
  ke_ValidLabel :: "string \<Rightarrow> bool"
  ke_semver :: semver_lib
  ke_meta :: meta_lib

type_synonym ('u, 'a) kcm = "('u kcp_state, kcp_error, 'a) gom"

abbreviation kreq :: "'u kcp_state \<Rightarrow> nat" where "kreq s \<equiv> length (kp_requests s)"

definition krec :: "kcp_request \<Rightarrow> 'u kcp_state \<Rightarrow> 'u kcp_state" where
  "krec q s = s\<lparr>kp_requests := kp_requests s @ [q]\<rparr>"

definition kask :: "(nat \<Rightarrow> string + 'a) \<Rightarrow> (bool \<Rightarrow> kcp_request) \<Rightarrow> ('u, 'a) kcm" where
  "kask f q s = (case f (kreq s) of Inl e \<Rightarrow> (Err (KcpApi e), krec (q False) s) | Inr x \<Rightarrow> (Ret x, krec (q True) s))"

definition kwrap :: "string \<Rightarrow> ('u, 'a) kcm \<Rightarrow> ('u, 'a) kcm" where
  "kwrap msg m s = (case m s of (Err e, s') \<Rightarrow> (Err (KcpWrapped msg e), s') | rs \<Rightarrow> rs)"

text \<open>A call whose error the caller looks at.\<close>

definition kattempt :: "('u, 'a) kcm \<Rightarrow> ('u, kcp_error + 'a) kcm" where
  "kattempt m s = (case m s of (Ret x, s') \<Rightarrow> (Ret (Inr x), s') | (Err e, s') \<Rightarrow> (Ret (Inl e), s') | (Panic, s') \<Rightarrow> (Panic, s'))"

section \<open>etcd/etcd.go: requests\<close>

definition etcd_Alarms :: "'u kcp_env \<Rightarrow> etcd_client \<Rightarrow> ('u, member_alarm list) kcm" where
  "etcd_Alarms env c =
     kwrap ''failed to get alarms for etcd cluster'' (kask (\<lambda>n. ke_AlarmList env n (ec_Endpoint c)) (ListEtcdAlarms (ec_Endpoint c)))"

definition etcd_Members :: "'u kcp_env \<Rightarrow> etcd_client \<Rightarrow> ('u, etcd_member list) kcm" where
  "etcd_Members env c =
     mbind (kwrap ''failed to get list of members for etcd cluster''
         (kask (\<lambda>n. ke_MemberList env n (ec_Endpoint c)) (ListEtcdMembers (ec_Endpoint c)))) (\<lambda>(clusterID, members).
     mbind (etcd_Alarms env c) (\<lambda>alarms.
       mret (map (\<lambda>m. (pbMemberToMember m)\<lparr>em_ClusterID := clusterID,
                em_Alarms := map ma_Type (filter (\<lambda>a. ma_MemberID a = pb_ID m) alarms)\<rparr>) members)))"

definition etcd_MoveLeader :: "'u kcp_env \<Rightarrow> etcd_client \<Rightarrow> 64 word \<Rightarrow> ('u, unit) kcm" where
  "etcd_MoveLeader env c newLeaderID =
     kwrap ''failed to move etcd leader'' (kask (\<lambda>n. ke_MoveLeader env n (ec_Endpoint c) newLeaderID) (MoveEtcdLeader (ec_Endpoint c) newLeaderID))"

definition etcd_RemoveMember :: "'u kcp_env \<Rightarrow> etcd_client \<Rightarrow> 64 word \<Rightarrow> ('u, unit) kcm" where
  "etcd_RemoveMember env c i =
     kwrap ''failed to remove member'' (kask (\<lambda>n. ke_MemberRemove env n (ec_Endpoint c) i) (RemoveEtcdMember (ec_Endpoint c) i))"

section \<open>etcd_client_generator.go\<close>

definition staticPodName :: "string \<Rightarrow> string \<Rightarrow> string" where
  "staticPodName component node_name = component @ ''-'' @ node_name"

text \<open>A connection asks the etcd member for the leader that it knows.\<close>

definition createClient :: "'u kcp_env \<Rightarrow> string \<Rightarrow> ('u, etcd_client) kcm" where
  "createClient env endpoint =
     mbind (kask (\<lambda>n. ke_Dial env n endpoint) (DialEtcd endpoint)) (\<lambda>leader. mret \<lparr>ec_Endpoint = endpoint, ec_LeaderID = leader\<rparr>)"

fun first_available :: "'u kcp_env \<Rightarrow> string list \<Rightarrow> kcp_error list \<Rightarrow> ('u, etcd_client) kcm" where
  "first_available env [] errs = mlift (Err (KcpWrapped ''could not establish a connection to any etcd node'' (KcpAggregate errs)))"
| "first_available env (name # names) errs =
     mbind (kattempt (createClient env (staticPodName ''etcd'' name))) (\<lambda>r.
       case r of Inr client \<Rightarrow> mret client | Inl e \<Rightarrow> first_available env names (errs @ [e]))"

definition forFirstAvailableNode :: "'u kcp_env \<Rightarrow> string list \<Rightarrow> ('u, etcd_client) kcm" where
  "forFirstAvailableNode env nodeNames =
     (if nodeNames = [] then mlift (Err (KcpMessage ''invalid argument: forLeader can't be called with an empty list of nodes''))
      else first_available env nodeNames [])"

fun is_node_connection :: "kcp_error \<Rightarrow> bool" where
  "is_node_connection EtcdNodeConnection = True"
| "is_node_connection (KcpWrapped _ e) = is_node_connection e"
| "is_node_connection (KcpAggregate es) = list_ex is_node_connection es"
| "is_node_connection _ = False"

definition getLeaderClient :: "'u kcp_env \<Rightarrow> string \<Rightarrow> string list \<Rightarrow> ('u, etcd_client) kcm" where
  "getLeaderClient env node_name allNodes =
     (let broken = (\<lambda>e. mlift (Err (KcpAggregate [e, EtcdNodeConnection])))
      in mbind (kattempt (forFirstAvailableNode env [node_name])) (\<lambda>r.
         case r of Inl e \<Rightarrow> broken e
         | Inr client \<Rightarrow>
             mbind (kattempt (etcd_Members env client)) (\<lambda>r.
               case r of Inl e \<Rightarrow> broken e
               | Inr members \<Rightarrow>
                   (case find (\<lambda>m. em_ID m = ec_LeaderID client) members of
                      None \<Rightarrow> mlift (Err (KcpMessage ''etcd leader is reported, but we couldn't find any matching member''))
                    | Some leaderMember \<Rightarrow>
                        if em_Name leaderMember \<notin> set allNodes
                        then mlift (Err (KcpMessage ''etcd leader is reported, but we couldn't find a corresponding Node in the cluster''))
                        else forFirstAvailableNode env [em_Name leaderMember]))))"

fun leader_loop :: "'u kcp_env \<Rightarrow> string list \<Rightarrow> string list \<Rightarrow> kcp_error list \<Rightarrow> ('u, etcd_client) kcm" where
  "leader_loop env nodes [] errs = mlift (Err (KcpWrapped ''could not establish a connection to the etcd leader'' (KcpAggregate errs)))"
| "leader_loop env nodes (node_name # names) errs =
     mbind (kattempt (getLeaderClient env node_name nodes)) (\<lambda>r.
       case r of Inr client \<Rightarrow> mret client
       | Inl e \<Rightarrow> if is_node_connection e then leader_loop env nodes names (errs @ [e]) else mlift (Err e))"

definition forLeader :: "'u kcp_env \<Rightarrow> string list \<Rightarrow> ('u, etcd_client) kcm" where
  "forLeader env nodeNames =
     (if nodeNames = [] then mlift (Err (KcpMessage ''invalid argument: forLeader can't be called with an empty list of nodes''))
      else leader_loop env nodeNames nodeNames [])"

section \<open>workload_cluster.go and workload_cluster_etcd.go\<close>

definition add_nodes :: "string list \<Rightarrow> string list \<Rightarrow> string list" where
  "add_nodes known items = foldl (\<lambda>acc n. if n \<in> set acc then acc else acc @ [n]) known items"

definition getControlPlaneNodes :: "'u kcp_env \<Rightarrow> ('u, string list) kcm" where
  "getControlPlaneNodes env =
     (let list_nodes = (\<lambda>label. kask (\<lambda>n. ke_Nodes env n label) (ListNodes label))
      in mbind (list_nodes ''node-role.kubernetes.io/master'') (\<lambda>old.
         mbind (list_nodes ''node-role.kubernetes.io/control-plane'') (\<lambda>new.
           mret (add_nodes (add_nodes [] old) new))))"

text \<open>The members as the leader reports them, and the client connected to it.\<close>

definition leader_members :: "'u kcp_env \<Rightarrow> ('u, etcd_client \<times> etcd_member list) kcm" where
  "leader_members env =
     mbind (kwrap ''failed to list control plane nodes'' (getControlPlaneNodes env)) (\<lambda>nodeNames.
     mbind (kwrap ''failed to create etcd client'' (forLeader env nodeNames)) (\<lambda>etcdClient.
     mbind (kwrap ''failed to list etcd members using etcd client'' (etcd_Members env etcdClient)) (\<lambda>members.
       mret (etcdClient, members))))"

definition EtcdMembers :: "'u kcp_env \<Rightarrow> ('u, string list) kcm" where
  "EtcdMembers env = mbind (leader_members env) (\<lambda>(_, members). mret (MemberNames members))"

definition ForwardEtcdLeadership :: "'u kcp_env \<Rightarrow> machine option \<Rightarrow> machine option \<Rightarrow> ('u, unit) kcm" where
  "ForwardEtcdLeadership env machine_opt leaderCandidate =
     (case machine_opt of None \<Rightarrow> mret ()
      | Some m \<Rightarrow>
          (case st_NodeRef (m_Status m) of None \<Rightarrow> mret ()
           | Some ref \<Rightarrow>
               (case leaderCandidate of None \<Rightarrow> mlift (Err (KcpMessage ''leader candidate cannot be nil''))
                | Some cand \<Rightarrow>
                    (case st_NodeRef (m_Status cand) of None \<Rightarrow> mlift (Err (KcpMessage ''leader has no node reference''))
                     | Some candidateRef \<Rightarrow>
                         mbind (leader_members env) (\<lambda>(etcdClient, members).
                           case MemberForName members (ref_Name ref) of None \<Rightarrow> mret ()
                           | Some currentMember \<Rightarrow>
                               if em_ID currentMember \<noteq> ec_LeaderID etcdClient then mret ()
                               else (case MemberForName members (ref_Name candidateRef) of
                                       None \<Rightarrow> mlift (Err (KcpMessage (''failed to get etcd member from node '' @ quoted (ref_Name candidateRef))))
                                     | Some nextLeader \<Rightarrow>
                                         kwrap ''failed to move leader'' (etcd_MoveLeader env etcdClient (em_ID nextLeader))))))))"

definition removeMemberForNode :: "'u kcp_env \<Rightarrow> string \<Rightarrow> ('u, unit) kcm" where
  "removeMemberForNode env name =
     mbind (getControlPlaneNodes env) (\<lambda>controlPlaneNodes.
       if length controlPlaneNodes < 2 then mlift (Err ControlPlaneMinNodes)
       else mbind (kwrap ''failed to create etcd client'' (forFirstAvailableNode env (filter (\<lambda>n. n \<noteq> name) controlPlaneNodes))) (\<lambda>etcdClient.
         mbind (kwrap ''failed to list etcd members using etcd client'' (etcd_Members env etcdClient)) (\<lambda>members.
           case MemberForName members name of None \<Rightarrow> mret ()
           | Some member \<Rightarrow> kwrap ''failed to remove member from etcd'' (etcd_RemoveMember env etcdClient (em_ID member)))))"

definition RemoveEtcdMemberForMachine :: "'u kcp_env \<Rightarrow> machine option \<Rightarrow> ('u, unit) kcm" where
  "RemoveEtcdMemberForMachine env machine_opt =
     (case machine_opt of None \<Rightarrow> mret ()
      | Some m \<Rightarrow> (case st_NodeRef (m_Status m) of None \<Rightarrow> mret () | Some ref \<Rightarrow> removeMemberForNode env (ref_Name ref)))"

text \<open>The members that have a name but no node are removed with best effort.\<close>

fun remove_stale :: "'u kcp_env \<Rightarrow> string list \<Rightarrow> etcd_member list \<Rightarrow> ('u, string list \<times> kcp_error list) kcm" where
  "remove_stale env nodeNames [] = mret ([], [])"
| "remove_stale env nodeNames (m # ms) =
     (if em_Name m = [] \<or> em_Name m \<in> set nodeNames then remove_stale env nodeNames ms
      else mbind (kattempt (removeMemberForNode env (em_Name m))) (\<lambda>r.
           mbind (remove_stale env nodeNames ms) (\<lambda>(removedMembers, errs).
             mret (em_Name m # removedMembers, (case r of Inl e \<Rightarrow> e # errs | Inr _ \<Rightarrow> errs)))))"

definition reconcileEtcdMember :: "'u kcp_env \<Rightarrow> string list \<Rightarrow> string \<Rightarrow> ('u, string list \<times> kcp_error list) kcm" where
  "reconcileEtcdMember env nodeNames node_name =
     mbind (kattempt (forFirstAvailableNode env [node_name])) (\<lambda>r.
       case r of Inl _ \<Rightarrow> mret ([], [])
       | Inr etcdClient \<Rightarrow>
           mbind (kattempt (etcd_Members env etcdClient)) (\<lambda>r.
             case r of Inl _ \<Rightarrow> mret ([], []) | Inr members \<Rightarrow> remove_stale env nodeNames members))"

fun reconcile_members_loop :: "'u kcp_env \<Rightarrow> string list \<Rightarrow> string list \<Rightarrow> ('u, string list \<times> kcp_error list) kcm" where
  "reconcile_members_loop env nodeNames [] = mret ([], [])"
| "reconcile_members_loop env nodeNames (node_name # names) =
     mbind (reconcileEtcdMember env nodeNames node_name) (\<lambda>(removedMembers, errs).
     mbind (reconcile_members_loop env nodeNames names) (\<lambda>(allRemovedMembers, allErrs).
       mret (removedMembers @ allRemovedMembers, errs @ allErrs)))"

definition ReconcileEtcdMembers :: "'u kcp_env \<Rightarrow> string list \<Rightarrow> ('u, string list) kcm" where
  "ReconcileEtcdMembers env nodeNames =
     mbind (reconcile_members_loop env nodeNames nodeNames) (\<lambda>(allRemovedMembers, allErrs).
       if allErrs \<noteq> [] then mlift (Err (KcpAggregate allErrs)) else mret allRemovedMembers)"

end
