(* ===== verification/Kcp_Controller.thy ===== *)
theory Kcp_Controller
  imports Kcp_Etcd
begin

text \<open>
  The controller of kubeadm control planes: controlplane/kubeadm/internal (control_plane.go, cluster_labels.go,
  DefaultFeatureGates of workload_cluster.go) and internal/controllers (remediation.go, scale.go, upgrade.go, the
  creation of Machines in helpers.go, and of controller.go the handling of etcd members and hooks and the order of
  the operations that change Machines).

  Conditions and Machines are read as the earlier phases of a reconciliation have left them. Objects of the workload
  cluster that an upgrade reconciles (roles, config maps of kubeadm and of the kubelet) are one request each. The Machines
  that are not up to date are found by their names among the Machines of the control plane; the source keeps the
  objects as they were read at the start, of which the synchronisation of Machines may have replaced some by newer ones.
\<close>

abbreviation RemediationInProgressAnnotation :: string where
  "RemediationInProgressAnnotation \<equiv> ''controlplane.cluster.x-k8s.io/remediation-in-progress''"
abbreviation RemediationForAnnotation :: string where
  "RemediationForAnnotation \<equiv> ''controlplane.cluster.x-k8s.io/remediation-for''"
abbreviation KubeadmClusterConfigurationAnnotation :: string where
  "KubeadmClusterConfigurationAnnotation \<equiv> ''controlplane.cluster.x-k8s.io/kubeadm-cluster-configuration''"
abbreviation PreTerminateDeleteHookAnnotationPrefix :: string where
  "PreTerminateDeleteHookAnnotationPrefix \<equiv> ''pre-terminate.delete.hook.machine.cluster.x-k8s.io''"
abbreviation PreTerminateHookCleanupAnnotation :: string where
  "PreTerminateHookCleanupAnnotation \<equiv> ''pre-terminate.delete.hook.machine.cluster.x-k8s.io/kcp-cleanup''"
abbreviation EtcdClusterHealthyCondition :: string where "EtcdClusterHealthyCondition \<equiv> ''EtcdClusterHealthy''"
abbreviation MachinesSpecUpToDateCondition :: string where "MachinesSpecUpToDateCondition \<equiv> ''MachinesSpecUpToDate''"
abbreviation PreTerminateDeleteHookSucceededCondition :: string where
  "PreTerminateDeleteHookSucceededCondition \<equiv> ''PreTerminateDeleteHookSucceeded''"
abbreviation controlplanev1_version :: string where "controlplanev1_version \<equiv> ''controlplane.cluster.x-k8s.io/v1beta1''"
abbreviation bootstrapv1_version :: string where "bootstrapv1_version \<equiv> ''bootstrap.cluster.x-k8s.io/v1beta1''"
abbreviation requeue_now :: ctrl_result where "requeue_now \<equiv> \<lparr>res_Requeue = True, res_RequeueAfter = 0\<rparr>"
abbreviation deleteRequeueAfter :: ctrl_result where
  "deleteRequeueAfter \<equiv> \<lparr>res_Requeue = False, res_RequeueAfter = 30 * time_Second\<rparr>"
abbreviation preflightFailedRequeueAfter :: ctrl_result where
  "preflightFailedRequeueAfter \<equiv> \<lparr>res_Requeue = False, res_RequeueAfter = 15 * time_Second\<rparr>"

section \<open>The state\<close>

definition on_machine :: "string \<Rightarrow> (machine \<Rightarrow> machine) \<Rightarrow> 'u kcp_state \<Rightarrow> 'u kcp_state" where
  "on_machine name f s = s\<lparr>kp_Machines := map (\<lambda>x. if m_Name x = name then f x else x) (kp_Machines s)\<rparr>"

definition on_kcp :: "('u kubeadm_control_plane \<Rightarrow> 'u kubeadm_control_plane) \<Rightarrow> 'u kcp_state \<Rightarrow> 'u kcp_state" where
  "on_kcp f s = s\<lparr>kp_KCP := f (kp_KCP s)\<rparr>"

definition kcp_conditions :: "(condition list option \<Rightarrow> condition list option) \<Rightarrow> 'u kubeadm_control_plane \<Rightarrow> 'u kubeadm_control_plane" where
  "kcp_conditions f k =
     (case f (Some (kst_Conditions (kcp_Status k))) of None \<Rightarrow> k
      | Some cs \<Rightarrow> k\<lparr>kcp_Status := (kcp_Status k)\<lparr>kst_Conditions := cs\<rparr>\<rparr>)"

abbreviation kcp_Annotations :: "'u kubeadm_control_plane \<Rightarrow> string_map" where
  "kcp_Annotations k \<equiv> om_Annotations (kcp_Meta k)"

definition with_kcp_annotations :: "string_map \<Rightarrow> 'u kubeadm_control_plane \<Rightarrow> 'u kubeadm_control_plane" where
  "with_kcp_annotations a k = k\<lparr>kcp_Meta := (kcp_Meta k)\<lparr>om_Annotations := a\<rparr>\<rparr>"

text \<open>\<open>desired\<close> lists the entries of the map in the order in which they are ranged over.\<close>

definition AddAnnotations :: "string_map \<Rightarrow> (string \<times> string) list \<Rightarrow> string_map \<times> bool" where
  "AddAnnotations annotations desired =
     (if desired = [] then (annotations, False)
      else let (a, hasChanged) = foldl (\<lambda>(a, changed) (k, v). if a k = Some v then (a, changed) else (a(k \<mapsto> v), True))
                 (map_make annotations, False) desired
           in (Some a, hasChanged))"

section \<open>control_plane.go\<close>

definition kcp_FailureDomains :: "'u kcp_state \<Rightarrow> failure_domains" where
  "kcp_FailureDomains s = kcl_FailureDomains (kp_Cluster s)"

definition HasDeletingMachine :: "'u kcp_state \<Rightarrow> bool" where
  "HasDeletingMachine s \<longleftrightarrow> length (machines_Filter [HasDeletionTimestamp] (kp_Machines s)) > 0"

definition DeletingMachines :: "'u kcp_state \<Rightarrow> machines" where
  "DeletingMachines s = machines_Filter [HasDeletionTimestamp] (kp_Machines s)"

definition machinesNotUptoDate :: "'u kcp_state \<Rightarrow> machines" where
  "machinesNotUptoDate s = filter (\<lambda>m. m_Name m \<in> set (kp_outdated s)) (kp_Machines s)"

definition MachinesNeedingRollout :: "'u kcp_state \<Rightarrow> machines" where
  "MachinesNeedingRollout s = machines_Filter [Not HasDeletionTimestamp] (machinesNotUptoDate s)"

definition UpToDateMachines :: "'u kcp_state \<Rightarrow> machines" where
  "UpToDateMachines s = machines_Difference (kp_Machines s) (machinesNotUptoDate s)"

definition IsEtcdManaged :: "'u kcp_state \<Rightarrow> bool" where
  "IsEtcdManaged s \<longleftrightarrow>
     (case kc_ClusterConfiguration (ks_KubeadmConfigSpec (kcp_Spec (kp_KCP s))) of
        None \<Rightarrow> True | Some c \<Rightarrow> cc_EtcdExternal c = None)"

definition UnhealthyMachinesWithUnhealthyControlPlaneComponents :: "'u kcp_state \<Rightarrow> machines \<Rightarrow> machines" where
  "UnhealthyMachinesWithUnhealthyControlPlaneComponents s machines =
     machines_Filter [HasUnhealthyControlPlaneComponents (IsEtcdManaged s)] machines"

definition UnhealthyMachines :: "'u kcp_state \<Rightarrow> machines" where
  "UnhealthyMachines s = machines_Filter [IsUnhealthy] (kp_Machines s)"

definition HealthyMachines :: "'u kcp_state \<Rightarrow> machines" where
  "HealthyMachines s = machines_Filter [Not IsUnhealthy] (kp_Machines s)"

definition MachinesToBeRemediatedByKCP :: "'u kcp_state \<Rightarrow> machines" where
  "MachinesToBeRemediatedByKCP s = machines_Filter [IsUnhealthyAndOwnerRemediated] (kp_Machines s)"

definition HasHealthyMachineStillProvisioning :: "'u kcp_state \<Rightarrow> bool" where
  "HasHealthyMachineStillProvisioning s \<longleftrightarrow> length (machines_Filter [Not HasNode] (HealthyMachines s)) > 0"

definition MachineWithDeleteAnnotation :: "machines \<Rightarrow> machines" where
  "MachineWithDeleteAnnotation machines = machines_Filter [HasAnnotationKey DeleteMachineAnnotation] machines"

definition FailureDomainWithMostMachines :: "'u kcp_env \<Rightarrow> 'u kcp_state \<Rightarrow> machines \<Rightarrow> string option" where
  "FailureDomainWithMostMachines env s machines =
     (let notInFailureDomains = machines_Filter [Not (InFailureDomains (fd_GetIDs (FilterControlPlane (kcp_FailureDomains s))))] machines
      in if length notInFailureDomains > 0
         then (case Oldest notInFailureDomains of None \<Rightarrow> None | Some m \<Rightarrow> m_FailureDomain m)
         else PickMost (ke_Range env) (FilterControlPlane (kcp_FailureDomains s)) (kp_Machines s) machines)"

definition MachineInFailureDomainWithMostMachines :: "'u kcp_env \<Rightarrow> 'u kcp_state \<Rightarrow> machines \<Rightarrow> (kcp_error, machine) go" where
  "MachineInFailureDomainWithMostMachines env s machines =
     (let fd = FailureDomainWithMostMachines env s machines
      in case Oldest (machines_Filter [InFailureDomains [fd]] machines) of
           None \<Rightarrow> Err (KcpMessage ''failed to pick control plane Machine to mark for deletion'')
         | Some machineToMark \<Rightarrow> Ret machineToMark)"

definition NextFailureDomainForScaleUp :: "'u kcp_env \<Rightarrow> 'u kcp_state \<Rightarrow> string option" where
  "NextFailureDomainForScaleUp env s =
     (if length (FilterControlPlane (kcp_FailureDomains s)) = 0 then None
      else PickFewest (ke_Range env) (FilterControlPlane (kcp_FailureDomains s))
             (machines_Filter [Not HasDeletionTimestamp] (UpToDateMachines s)))"

definition InitialControlPlaneConfig :: "'u kcp_state \<Rightarrow> 'u kubeadm_config_spec" where
  "InitialControlPlaneConfig s = (ks_KubeadmConfigSpec (kcp_Spec (kp_KCP s)))\<lparr>kc_JoinConfiguration := None\<rparr>"

definition JoinControlPlaneConfig :: "'u kcp_state \<Rightarrow> 'u kubeadm_config_spec" where
  "JoinControlPlaneConfig s = (ks_KubeadmConfigSpec (kcp_Spec (kp_KCP s)))\<lparr>kc_InitConfiguration := None\<rparr>"

definition kcp_GetWorkloadCluster :: "'u kcp_env \<Rightarrow> ('u, unit) kcm" where
  "kcp_GetWorkloadCluster env s =
     (if kp_workload s then (Ret (), s)
      else mbind (kask (ke_GetWorkloadCluster env) GetWorkloadCluster) (\<lambda>_ s. (Ret (), s\<lparr>kp_workload := True\<rparr>)) s)"

section \<open>workload_cluster.go: feature gates\<close>

definition DefaultFeatureGates :: "semver_lib \<Rightarrow> semver \<Rightarrow> 'u kubeadm_config_spec \<Rightarrow> 'u kubeadm_config_spec" where
  "DefaultFeatureGates lib v spec =
     (if lib_Compare lib v (sv_of 1 31 0) < 0 then spec
      else let c = (case kc_ClusterConfiguration spec of None \<Rightarrow> \<lparr>cc_EtcdExternal = None, cc_FeatureGates = None, cc_Other = None\<rparr> | Some c \<Rightarrow> c);
               gates = map_make (cc_FeatureGates c)
           in spec\<lparr>kc_ClusterConfiguration := Some (c\<lparr>cc_FeatureGates :=
                Some (if gates ''ControlPlaneKubeletLocalMode'' = None then gates(''ControlPlaneKubeletLocalMode'' \<mapsto> True) else gates)\<rparr>)\<rparr>)"

section \<open>remediation.go\<close>

text \<open>Both conditions that tell whether the owner has remediated a Machine are set to False.\<close>

definition not_remediated ::
  "meta_lib \<Rightarrow> int \<Rightarrow> string \<Rightarrow> string \<Rightarrow> string \<Rightarrow> string \<Rightarrow> string \<Rightarrow> machine \<Rightarrow> machine" where
  "not_remediated ml now reason severity message reason2 message2 m =
     set_machine_v2 ml now
       (machine_conditions (\<lambda>cs. conditions_MarkFalse now cs MachineOwnerRemediatedCondition reason severity message) m)
       MachineOwnerRemediatedV1Beta2Condition ConditionFalse reason2 message2"

definition hold_remediation ::
  "'u kcp_env \<Rightarrow> string \<Rightarrow> string \<Rightarrow> string \<Rightarrow> string \<Rightarrow> string \<Rightarrow> string \<Rightarrow> 'u kcp_state \<Rightarrow> 'u kcp_state" where
  "hold_remediation env name reason severity message reason2 message2 s =
     on_machine name (not_remediated (ke_meta env) (ke_Now env (kreq s)) reason severity message reason2 message2) s"

definition wait_remediation :: "'u kcp_env \<Rightarrow> string \<Rightarrow> string \<Rightarrow> string \<Rightarrow> string \<Rightarrow> 'u kcp_state \<Rightarrow> 'u kcp_state" where
  "wait_remediation env name message reason2 message2 =
     hold_remediation env name ''WaitingForRemediation'' ConditionSeverityWarning message reason2 message2"

text \<open>The text of the error is used as a format string.\<close>

definition fail_remediation :: "'u kcp_env \<Rightarrow> string \<Rightarrow> kcp_error \<Rightarrow> 'u kcp_state \<Rightarrow> 'u kcp_state" where
  "fail_remediation env name e =
     hold_remediation env name ''RemediationFailed'' ConditionSeverityError (Sprintf0 (ke_ErrorText env e)) ''InternalError''
       ''Please check controller logs for errors''"

definition patch_control_plane_machine :: "'u kcp_env \<Rightarrow> machine \<Rightarrow> machine \<Rightarrow> ('u, unit) kcm" where
  "patch_control_plane_machine env original m = kask (\<lambda>n. ke_Patch env n original m) (PatchControlPlaneMachine m)"

text \<open>Removing the condition from a Machine that is healthy again.\<close>

definition kcp_cleanup :: "'u kcp_env \<Rightarrow> machine \<Rightarrow> ('u, unit) kcm" where
  "kcp_cleanup env m s =
     (let shouldCleanup = (conditions_IsTrue (m_Conditions m) MachineHealthCheckSucceededCondition \<and>
            conditions_IsFalse (m_Conditions m) MachineOwnerRemediatedCondition);
          shouldCleanupV1Beta2 = (v2_IsTrue (ke_meta env) (Some (machine_v2 m)) MachineHealthCheckSucceededV1Beta2Condition \<and>
            v2_IsFalse (ke_meta env) (Some (machine_v2 m)) MachineOwnerRemediatedV1Beta2Condition)
      in if \<not> time_IsZero (m_DeletionTimestamp m) \<or> \<not> (shouldCleanup \<or> shouldCleanupV1Beta2) then (Ret (), s)
         else case ke_NewHelper env (kreq s) m of Some e \<Rightarrow> (Err (KcpApi e), s)
         | None \<Rightarrow>
             let m1 = (if shouldCleanup then machine_conditions (\<lambda>cs. conditions_Delete cs MachineOwnerRemediatedCondition) m else m);
                 m2 = (if shouldCleanupV1Beta2 then machine_v2_Delete m1 MachineOwnerRemediatedV1Beta2Condition else m1)
             in patch_control_plane_machine env m m2 (on_machine (m_Name m) (\<lambda>_. m2) s))"

fun kcp_collect :: "('a \<Rightarrow> ('u, unit) kcm) \<Rightarrow> 'a list \<Rightarrow> ('u, kcp_error list) kcm" where
  "kcp_collect f [] = mret []"
| "kcp_collect f (x # xs) =
     mbind (kattempt (f x)) (\<lambda>r. mbind (kcp_collect f xs) (\<lambda>es. mret (case r of Inl e \<Rightarrow> e # es | Inr _ \<Rightarrow> es)))"

definition getMachineToBeRemediated :: "machines \<Rightarrow> machine option" where
  "getMachineToBeRemediated unhealthyMachines =
     (case Oldest (machines_Filter [Not HasNode] unhealthyMachines) of Some m \<Rightarrow> Some m | None \<Rightarrow> Oldest unhealthyMachines)"

definition RemediationDataFromAnnotation :: "'u kcp_env \<Rightarrow> string \<Rightarrow> (kcp_error, remediation_data) go" where
  "RemediationDataFromAnnotation env value =
     (case ke_Unmarshal env value of Inl e \<Rightarrow> Err (KcpWrapped ''failed to unmarshal value'' (KcpApi e)) | Inr d \<Rightarrow> Ret d)"

definition RemediationData_Marshal :: "'u kcp_env \<Rightarrow> remediation_data \<Rightarrow> (kcp_error, string) go" where
  "RemediationData_Marshal env d =
     (case ke_Marshal env d of Inl e \<Rightarrow> Err (KcpWrapped ''failed to marshal value'' (KcpApi e)) | Inr v \<Rightarrow> Ret v)"

definition ToStatus :: "remediation_data \<Rightarrow> last_remediation_status" where
  "ToStatus r = \<lparr>lr_Machine = rd_Machine r, lr_Timestamp = rd_Timestamp r, lr_RetryCount = i32 (rd_RetryCount r)\<rparr>"

abbreviation DefaultMinHealthyPeriod :: int where "DefaultMinHealthyPeriod \<equiv> 3600 * time_Second"

definition minHealthyPeriod :: "'u kcp_state \<Rightarrow> int" where
  "minHealthyPeriod s =
     (case ks_RemediationStrategy (kcp_Spec (kp_KCP s)) of None \<Rightarrow> DefaultMinHealthyPeriod
      | Some r \<Rightarrow> ptr_deref (krs_MinHealthyPeriod r) DefaultMinHealthyPeriod)"

definition retryPeriod :: "'u kcp_state \<Rightarrow> int" where
  "retryPeriod s = (case ks_RemediationStrategy (kcp_Spec (kp_KCP s)) of None \<Rightarrow> 0 | Some r \<Rightarrow> krs_RetryPeriod r)"

definition maxRetry :: "'u kcp_state \<Rightarrow> int option" where
  "maxRetry s = (case ks_RemediationStrategy (kcp_Spec (kp_KCP s)) of None \<Rightarrow> None | Some r \<Rightarrow> krs_MaxRetry r)"

definition lastRemediationTime :: "int \<Rightarrow> 'u kcp_state \<Rightarrow> remediation_data \<Rightarrow> int" where
  "lastRemediationTime reconciliationTime s d =
     (case rd_Timestamp d of Some t \<Rightarrow> t
      | None \<Rightarrow> reconciliationTime + i64 (- 2 * max (minHealthyPeriod s) (retryPeriod s)))"

text \<open>The data of the remediation, and whether the limits allow it.\<close>

definition checkRetryLimits :: "'u kcp_env \<Rightarrow> machine \<Rightarrow> int \<Rightarrow> ('u, remediation_data \<times> bool) kcm" where
  "checkRetryLimits env m reconciliationTime s =
     (let d = \<lparr>rd_Machine = m_Name m, rd_Timestamp = Some reconciliationTime, rd_RetryCount = 0\<rparr>
      in case map_lookup (m_Annotations m) RemediationForAnnotation of
        None \<Rightarrow> (Ret (d, True), s)
      | Some value \<Rightarrow>
          mbind (mlift (RemediationDataFromAnnotation env value)) (\<lambda>lastRemediationData s.
            let t = lastRemediationTime reconciliationTime s lastRemediationData;
                d' = d\<lparr>rd_RetryCount := rd_RetryCount lastRemediationData\<rparr>
            in if \<not> t + minHealthyPeriod s > reconciliationTime then (Ret (d, True), s)
               else if t + retryPeriod s > reconciliationTime
               then let message = ''KCP can't remediate this machine because the operation already failed in the latest '' @
                          duration_String (retryPeriod s) @ '' (RetryPeriod)''
                    in (Ret (d', False), wait_remediation env (m_Name m) message ''RemediationDeferred'' message s)
               else case maxRetry s of
                 Some n \<Rightarrow>
                   if rd_RetryCount d' \<ge> n
                   then let message = ''KCP can't remediate this machine because the operation already failed '' @ FormatInt n @ '' times (MaxRetry)''
                        in (Ret (d', False), wait_remediation env (m_Name m) message ''CannotBeRemediated'' message s)
                   else (Ret (d'\<lparr>rd_RetryCount := i64 (rd_RetryCount d' + 1)\<rparr>, True), s)
               | None \<Rightarrow> (Ret (d'\<lparr>rd_RetryCount := i64 (rd_RetryCount d' + 1)\<rparr>, True), s)) s)"

definition on_node :: "string \<Rightarrow> machine \<Rightarrow> bool" where
  "on_node node_name m \<longleftrightarrow> (case st_NodeRef (m_Status m) of None \<Rightarrow> False | Some ref \<Rightarrow> ref_Name ref = node_name)"

text \<open>The members that are left without the one on the Machine, and those of them that are not healthy.\<close>

definition member_healthy :: "machine list \<Rightarrow> string \<Rightarrow> bool" where
  "member_healthy ms etcdMember \<longleftrightarrow>
     (case find (on_node etcdMember) ms of None \<Rightarrow> False
      | Some m \<Rightarrow> conditions_IsTrue (m_Conditions m) MachineEtcdMemberHealthyCondition)"

definition target_members :: "machine \<Rightarrow> string list \<Rightarrow> string list" where
  "target_members machineToBeRemediated etcdMembers = filter (\<lambda>e. \<not> on_node e machineToBeRemediated) etcdMembers"

definition canSafelyRemoveEtcdMember :: "'u kcp_env \<Rightarrow> machine \<Rightarrow> ('u, bool) kcm" where
  "canSafelyRemoveEtcdMember env machineToBeRemediated =
     mbind (kwrap ''failed to get client for workload cluster'' (kcp_GetWorkloadCluster env)) (\<lambda>_.
     mbind (kwrap ''failed to get etcdStatus for workload cluster'' (EtcdMembers env)) (\<lambda>etcdMembers s.
       let target = target_members machineToBeRemediated etcdMembers;
           targetTotalMembers = length target;
           targetUnhealthyMembers = length (filter (\<lambda>e. \<not> member_healthy (ke_Order env (kp_Machines s)) e) target);
           targetQuorum = targetTotalMembers div 2 + 1
       in (Ret (int targetTotalMembers - int targetUnhealthyMembers \<ge> int targetQuorum), s)))"

text \<open>The checks of an initialized control plane: \<open>False\<close> if the Machine is not remediated now.\<close>

definition remediation_checks :: "'u kcp_env \<Rightarrow> machine \<Rightarrow> ('u, bool) kcm" where
  "remediation_checks env m s =
     (if length (kp_Machines s) \<le> 1
      then let message = ''KCP can't remediate if current replicas are less or equal to 1''
           in (Ret False, wait_remediation env (m_Name m) message ''CannotBeRemediated'' message s)
      else if HasHealthyMachineStillProvisioning s
      then (Ret False, wait_remediation env (m_Name m)
              ''KCP waiting for control plane machine provisioning to complete before triggering remediation'' ''RemediationDeferred''
              ''KCP waiting for control plane Machine provisioning to complete before triggering remediation'' s)
      else if HasDeletingMachine s
      then (Ret False, wait_remediation env (m_Name m)
              ''KCP waiting for control plane machine deletion to complete before triggering remediation'' ''RemediationDeferred''
              ''KCP waiting for control plane Machine deletion to complete before triggering remediation'' s)
      else if \<not> IsEtcdManaged s then (Ret True, s)
      else case canSafelyRemoveEtcdMember env m s of
        (Panic, s') \<Rightarrow> (Panic, s')
      | (Err e, s') \<Rightarrow> (Err e, fail_remediation env (m_Name m) e s')
      | (Ret canSafelyRemediate, s') \<Rightarrow>
          if canSafelyRemediate then (Ret True, s')
          else (Ret False, wait_remediation env (m_Name m)
                  ''KCP can't remediate this machine because this could result in etcd loosing quorum'' ''CannotBeRemediated''
                  ''KCP can't remediate this Machine because this could result in etcd loosing quorum'' s'))"

definition forward_for_remediation :: "'u kcp_env \<Rightarrow> machine \<Rightarrow> ('u, bool) kcm" where
  "forward_for_remediation env m =
     mbind (kwrap ''failed to create client to workload cluster'' (kcp_GetWorkloadCluster env)) (\<lambda>_ s.
       if \<not> IsEtcdManaged s then (Ret True, s)
       else case Newest (HealthyMachines s) of
         None \<Rightarrow> (Ret False, hold_remediation env (m_Name m) ''RemediationFailed'' ConditionSeverityWarning
             ''A control plane machine needs remediation, but there is no healthy machine to forward etcd leadership to. Skipping remediation''
             ''CannotBeRemediated'' ''KCP can't remediate this Machine because there is no healthy Machine to forward etcd leadership to'' s)
       | Some etcdLeaderCandidate \<Rightarrow>
           (case ForwardEtcdLeadership env (Some m) (Some etcdLeaderCandidate) s of
              (Panic, s') \<Rightarrow> (Panic, s')
            | (Err e, s') \<Rightarrow> (Err e, fail_remediation env (m_Name m) e s')
            | (Ret _, s') \<Rightarrow> (Ret True, s')))"

text \<open>Deleting a Machine that has gone already is an error here.\<close>

definition delete_control_plane_machine :: "'u kcp_env \<Rightarrow> machine \<Rightarrow> ('u, bool) kcm" where
  "delete_control_plane_machine env m s =
     (case ke_Delete env (kreq s) m of
        Done \<Rightarrow> (Ret True, krec (DeleteControlPlaneMachine (m_Name m) True) s)
      | Gone \<Rightarrow> (Ret False, krec (DeleteControlPlaneMachine (m_Name m) False) s)
      | Failed e \<Rightarrow> (Err (KcpApi e), krec (DeleteControlPlaneMachine (m_Name m) False) s))"

definition delete_for_remediation :: "'u kcp_env \<Rightarrow> machine \<Rightarrow> remediation_data \<Rightarrow> ('u, ctrl_result) kcm" where
  "delete_for_remediation env m d s =
     (let failed = (\<lambda>e s'. (Err (KcpWrapped ''failed to delete unhealthy machine'' e), fail_remediation env (m_Name m) e s'))
      in case delete_control_plane_machine env m s of
        (Panic, s') \<Rightarrow> (Panic, s')
      | (Err e, s') \<Rightarrow> failed e s'
      | (Ret found, s') \<Rightarrow>
          if \<not> found then failed (KcpApi ''not found'') s'
          else mbind (mlift (RemediationData_Marshal env d)) (\<lambda>value s.
                 (Ret requeue_now, on_kcp (\<lambda>k. with_kcp_annotations
                    (fst (AddAnnotations (kcp_Annotations k) [(RemediationInProgressAnnotation, value)])) k) s))
               (hold_remediation env (m_Name m) ''RemediationInProgress'' ConditionSeverityWarning [] ''MachineDeleted''
                  ''Machine deletionTimestamp set'' s'))"

definition remediate_machine :: "'u kcp_env \<Rightarrow> machine \<Rightarrow> int \<Rightarrow> ('u, ctrl_result) kcm" where
  "remediate_machine env m reconciliationTime =
     mbind (checkRetryLimits env m reconciliationTime) (\<lambda>(remediationInProgressData, canRemediate) s.
       if \<not> canRemediate then (Ret result_zero, s)
       else if \<not> kst_Initialized (kcp_Status (kp_KCP s)) then delete_for_remediation env m remediationInProgressData s
       else mbind (remediation_checks env m) (\<lambda>go_on.
              if \<not> go_on then mret result_zero
              else mbind (forward_for_remediation env m) (\<lambda>go_on.
                if \<not> go_on then mret result_zero else delete_for_remediation env m remediationInProgressData)) s)"

text \<open>The deferred patch of the Machine; \<open>original\<close> is the Machine that the patch helper compares with.\<close>

definition patch_after_remediation :: "'u kcp_env \<Rightarrow> machine \<Rightarrow> ('u, 'a) kcm \<Rightarrow> ('u, 'a) kcm" where
  "patch_after_remediation env original f s =
     (case f s of (r, s1) \<Rightarrow>
        let m = (case find (\<lambda>x. m_Name x = m_Name original) (kp_Machines s1) of None \<Rightarrow> original | Some x \<Rightarrow> x)
        in case (r, patch_control_plane_machine env original m s1) of
             (Ret _, (Err e, s2)) \<Rightarrow> (Err (KcpWrapped ''failed to patch control plane Machine'' e), s2)
           | (_, (_, s2)) \<Rightarrow> (r, s2))"

text \<open>Whether another remediation is in progress; a stale annotation is removed.\<close>

definition remediation_in_progress :: "'u kcp_env \<Rightarrow> ('u, bool) kcm" where
  "remediation_in_progress env s =
     (case map_lookup (kcp_Annotations (kp_KCP s)) RemediationInProgressAnnotation of None \<Rightarrow> (Ret False, s)
      | Some v \<Rightarrow>
          mbind (mlift (RemediationDataFromAnnotation env v)) (\<lambda>remediationData s.
            if list_ex (\<lambda>m. case rd_Timestamp remediationData of None \<Rightarrow> True | Some t \<Rightarrow> m_CreationTimestamp m > t) (kp_Machines s)
            then (Ret False, on_kcp (\<lambda>k. with_kcp_annotations (map_del (kcp_Annotations k) RemediationInProgressAnnotation) k) s)
            else (Ret True, s)) s)"

definition kcp_reconcileUnhealthyMachines :: "'u kcp_env \<Rightarrow> ('u, ctrl_result) kcm" where
  "kcp_reconcileUnhealthyMachines env s =
     (let reconciliationTime = ke_Now env (kreq s)
      in mbind (kcp_collect (kcp_cleanup env) (ke_Order env (kp_Machines s))) (\<lambda>errList s.
        if errList \<noteq> [] then (Err (KcpAggregate errList), s)
        else case getMachineToBeRemediated (MachinesToBeRemediatedByKCP s) of
          None \<Rightarrow> (Ret result_zero, s)
        | Some m \<Rightarrow>
            if \<not> time_IsZero (m_DeletionTimestamp m) then (Ret result_zero, s)
            else mbind (remediation_in_progress env) (\<lambda>in_progress s.
              if in_progress then (Ret result_zero, s)
              else case ke_NewHelper env (kreq s) m of
                Some e \<Rightarrow> (Err (KcpApi e), s)
              | None \<Rightarrow> patch_after_remediation env m (remediate_machine env m reconciliationTime) s) s) s)"

section \<open>helpers.go: creating a Machine\<close>

definition ControlPlaneMachineLabelsForCluster :: "(string \<Rightarrow> bool) \<Rightarrow> 'u kubeadm_control_plane \<Rightarrow> string \<Rightarrow> string_map" where
  "ControlPlaneMachineLabelsForCluster valid k clusterName =
     Some ((map_make (kt_Labels (ks_MachineTemplate (kcp_Spec k))))
       (ClusterNameLabel \<mapsto> clusterName, MachineControlPlaneLabel \<mapsto> [],
        ''cluster.x-k8s.io/control-plane-name'' \<mapsto> MustFormatValue valid (om_Name (kcp_Meta k))))"

definition mandatoryMachineReadinessGates :: "string list" where
  "mandatoryMachineReadinessGates =
     [''APIServerPodHealthy'', ''ControllerManagerPodHealthy'', ''SchedulerPodHealthy'', ''EtcdPodHealthy'', ''EtcdMemberHealthy'']"

definition ensureMandatoryReadinessGates :: "machine \<Rightarrow> machine" where
  "ensureMandatoryReadinessGates m =
     m\<lparr>m_Spec := (m_Spec m)\<lparr>sp_ReadinessGates :=
       Some (case sp_ReadinessGates (m_Spec m) of None \<Rightarrow> mandatoryMachineReadinessGates
             | Some gates \<Rightarrow> foldl (\<lambda>gs want. if want \<in> set gs then gs else gs @ [want]) gates mandatoryMachineReadinessGates)\<rparr>\<rparr>"

definition kcp_owner :: "'u kubeadm_control_plane \<Rightarrow> owner_reference" where
  "kcp_owner k = \<lparr>or_APIVersion = controlplanev1_version, or_Kind = ''KubeadmControlPlane'', or_Name = om_Name (kcp_Meta k),
     or_UID = om_UID (kcp_Meta k), or_Controller = None\<rparr>"

definition zero_machine_spec :: machine_spec where
  "zero_machine_spec = \<lparr>sp_ClusterName = [], sp_Bootstrap = \<lparr>bs_ConfigRef = None, bs_DataSecretName = None\<rparr>,
     sp_InfrastructureRef = empty_reference, sp_Version = None, sp_ProviderID = None, sp_FailureDomain = None,
     sp_ReadinessGates = None, sp_NodeDrainTimeout = None, sp_NodeVolumeDetachTimeout = None, sp_NodeDeletionTimeout = None\<rparr>"

fun strings_Contains :: "string \<Rightarrow> string \<Rightarrow> bool" where
  "strings_Contains [] sub = (sub = [])"
| "strings_Contains (c # t) sub = (HasPrefix (c # t) sub \<or> strings_Contains t sub)"

text \<open>The name, the version and the annotations of a new Machine.\<close>

definition new_machine_identity ::
  "'u kcp_env \<Rightarrow> 'u kubeadm_control_plane \<Rightarrow> string \<Rightarrow> nat \<Rightarrow> (kcp_error, string \<times> string \<times> string option \<times> (string \<rightharpoonup> string)) go" where
  "new_machine_identity env k clusterName n =
     (let custom = (case ks_MachineNamingStrategy (kcp_Spec k) of None \<Rightarrow> None | Some t \<Rightarrow> if t = [] then None else Some t);
          template = ptr_deref custom ''{{ .kubeadmControlPlane.name }}-{{ .random }}''
      in if custom \<noteq> None \<and> \<not> strings_Contains template ''{{ .random }}''
         then Err (KcpMessage ''cannot generate KCP machine name: {{ .random }} is missing in machineNamingStrategy.template'')
         else case ke_GenerateName env n template clusterName (om_Name (kcp_Meta k)) of
           Inl e \<Rightarrow> Err (KcpWrapped ''failed to generate name for KCP Machine'' (KcpApi e))
         | Inr name \<Rightarrow>
             (case ke_MarshalConfig env (kc_ClusterConfiguration (ks_KubeadmConfigSpec (kcp_Spec k))) of
                Inl e \<Rightarrow> Err (KcpWrapped ''failed to marshal cluster configuration'' (KcpApi e))
              | Inr config \<Rightarrow>
                  Ret (name, [], Some (ks_Version (kcp_Spec k)),
                    let a = [KubeadmClusterConfigurationAnnotation \<mapsto> config]
                    in case map_lookup (kcp_Annotations k) RemediationInProgressAnnotation of None \<Rightarrow> a
                       | Some remediationData \<Rightarrow> a(RemediationForAnnotation \<mapsto> remediationData))))"

definition existing_machine_identity :: "machine \<Rightarrow> string \<times> string \<times> string option \<times> (string \<rightharpoonup> string)" where
  "existing_machine_identity m =
     (let keep = (\<lambda>key a. case map_lookup (m_Annotations m) key of None \<Rightarrow> a | Some v \<Rightarrow> a(key \<mapsto> v))
      in (m_Name m, om_UID (m_Meta m), sp_Version (m_Spec m),
          keep RemediationForAnnotation (keep KubeadmClusterConfigurationAnnotation Map.empty)))"

definition kcp_computeDesiredMachine ::
  "'u kcp_env \<Rightarrow> 'u kubeadm_control_plane \<Rightarrow> string \<Rightarrow> string option \<Rightarrow> nat \<Rightarrow> machine option \<Rightarrow> (kcp_error, machine) go" where
  "kcp_computeDesiredMachine env k clusterName failureDomain n existingMachine =
     go_bind (case existingMachine of None \<Rightarrow> new_machine_identity env k clusterName n | Some m \<Rightarrow> Ret (existing_machine_identity m))
       (\<lambda>(name, uid, version, annotations).
         let template = ks_MachineTemplate (kcp_Spec k);
             spec = zero_machine_spec\<lparr>sp_ClusterName := clusterName, sp_Version := version, sp_FailureDomain := failureDomain,
               sp_NodeDrainTimeout := kt_NodeDrainTimeout template, sp_NodeDeletionTimeout := kt_NodeDeletionTimeout template,
               sp_NodeVolumeDetachTimeout := kt_NodeVolumeDetachTimeout template\<rparr>;
             spec' = (case existingMachine of None \<Rightarrow> spec
               | Some m \<Rightarrow> spec\<lparr>sp_InfrastructureRef := sp_InfrastructureRef (m_Spec m),
                   sp_Bootstrap := (sp_Bootstrap spec)\<lparr>bs_ConfigRef := bs_ConfigRef (sp_Bootstrap (m_Spec m))\<rparr>,
                   sp_ReadinessGates := sp_ReadinessGates (m_Spec m)\<rparr>)
         in Ret (ensureMandatoryReadinessGates
              \<lparr>m_Meta = \<lparr>om_Name = name, om_Namespace = om_Namespace (kcp_Meta k), om_UID = uid,
                 om_Labels = ControlPlaneMachineLabelsForCluster (ke_ValidLabel env) k clusterName,
                 om_Annotations = Some (map_make (kt_Annotations template) ++ annotations(PreTerminateHookCleanupAnnotation \<mapsto> [])),
                 om_CreationTimestamp = 0, om_DeletionTimestamp = None, om_Generation = 0, om_Finalizers = [],
                 om_OwnerReferences = [(kcp_owner k)\<lparr>or_Controller := Some True\<rparr>]\<rparr>,
               m_Spec = spec', m_Status = zero_machine_status\<rparr>))"

definition not_created :: "'u kcp_env \<Rightarrow> string \<Rightarrow> kcp_error \<Rightarrow> 'u kcp_state \<Rightarrow> 'u kcp_state" where
  "not_created env reason e s =
     on_kcp (kcp_conditions (\<lambda>cs. conditions_MarkFalse (ke_Now env (kreq s)) cs MachinesCreatedCondition reason ConditionSeverityError
       (Sprintf0 (ke_ErrorText env e)))) s"

definition generateKubeadmConfig :: "'u kcp_env \<Rightarrow> 'u kubeadm_config_spec \<Rightarrow> string \<Rightarrow> ('u, object_reference) kcm" where
  "generateKubeadmConfig env spec name s =
     (let k = kp_KCP s;
          meta = \<lparr>om_Name = name, om_Namespace = om_Namespace (kcp_Meta k), om_UID = [],
            om_Labels = ControlPlaneMachineLabelsForCluster (ke_ValidLabel env) k (clv_Name (kp_Cluster s)),
            om_Annotations = kt_Annotations (ks_MachineTemplate (kcp_Spec k)), om_CreationTimestamp = 0, om_DeletionTimestamp = None,
            om_Generation = 0, om_Finalizers = [], om_OwnerReferences = [kcp_owner k]\<rparr>
      in mbind (kwrap ''Failed to create bootstrap configuration'' (kask (\<lambda>n. ke_CreateConfig env n meta spec) (CreateKubeadmConfig name))) (\<lambda>uid.
           mret (empty_reference\<lparr>ref_APIVersion := bootstrapv1_version, ref_Kind := ''KubeadmConfig'', ref_Name := name,
             ref_Namespace := om_Namespace (kcp_Meta k), ref_UID := uid\<rparr>)) s)"

definition delete_generated :: "'u kcp_env \<Rightarrow> object_reference \<Rightarrow> ('u, unit) kcm" where
  "delete_generated env ref =
     kwrap ''failed to cleanup generated resources after error''
       (kask (\<lambda>n. case ke_DeleteObject env n ref of Failed e \<Rightarrow> Inl e | _ \<Rightarrow> Inr ()) (DeleteGenerated ref))"

definition cleanupFromGeneration :: "'u kcp_env \<Rightarrow> object_reference option list \<Rightarrow> ('u, unit) kcm" where
  "cleanupFromGeneration env remoteRefs =
     mbind (kcp_collect (delete_generated env) (List.map_filter id remoteRefs)) (\<lambda>errs.
       if errs \<noteq> [] then mlift (Err (KcpAggregate errs)) else mret ())"

text \<open>The annotation that tracks a remediation is removed once the Machine is there.\<close>

definition createMachine :: "'u kcp_env \<Rightarrow> machine \<Rightarrow> ('u, unit) kcm" where
  "createMachine env m =
     mbind (kwrap ''failed to create Machine'' (kask (\<lambda>n. ke_ApplyMachine env n m) (CreateControlPlaneMachine m))) (\<lambda>_ s.
       (Ret (), on_kcp (\<lambda>k. with_kcp_annotations (map_del (kcp_Annotations k) RemediationInProgressAnnotation) k) s))"

definition clone_infra :: "'u kcp_env \<Rightarrow> machine \<Rightarrow> ('u, object_reference) kcm" where
  "clone_infra env m s =
     (let k = kp_KCP s; template = ks_MachineTemplate (kcp_Spec k);
          name = (if ke_DeprecatedNaming env then ke_GenerateInfraName env (kreq s) (ref_Name (kt_InfrastructureRef template) @ ''-'') else m_Name m);
          i = \<lparr>ci_TemplateRef = kt_InfrastructureRef template, ci_Namespace = om_Namespace (kcp_Meta k), ci_Name = name,
            ci_ClusterName = clv_Name (kp_Cluster s),
            ci_Labels = ControlPlaneMachineLabelsForCluster (ke_ValidLabel env) k (clv_Name (kp_Cluster s)),
            ci_Annotations = kt_Annotations template, ci_OwnerRef = kcp_owner k\<rparr>
      in kask (\<lambda>n. ke_Clone env n i) (CloneInfraMachine i) s)"

text \<open>The bootstrap configuration and the Machine; what was generated is removed after an error.\<close>

definition generate_machine :: "'u kcp_env \<Rightarrow> 'u kubeadm_config_spec \<Rightarrow> machine \<Rightarrow> object_reference \<Rightarrow> ('u, unit) kcm" where
  "generate_machine env bootstrapSpec m infraRef =
     (let clean = (\<lambda>e bootstrapRef. mbind (kattempt (cleanupFromGeneration env [Some infraRef, bootstrapRef])) (\<lambda>r.
            mlift (Err (KcpAggregate (e # (case r of Inl e' \<Rightarrow> [KcpWrapped ''failed to cleanup generated resources'' e'] | Inr _ \<Rightarrow> []))))))
      in mbind (kattempt (generateKubeadmConfig env bootstrapSpec (m_Name m))) (\<lambda>r s.
           case r of Inl e \<Rightarrow> clean (KcpWrapped ''failed to generate bootstrap config'' e) None (not_created env ''BootstrapTemplateCloningFailed'' e s)
           | Inr bootstrapRef \<Rightarrow>
               mbind (kattempt (createMachine env (with_refs m infraRef (Some bootstrapRef)))) (\<lambda>r s.
                 case r of Inl e \<Rightarrow> clean (KcpWrapped ''failed to create Machine'' e) (Some bootstrapRef) (not_created env ''MachineGenerationFailed'' e s)
                 | Inr _ \<Rightarrow> (Ret (), s)) s))"

definition cloneConfigsAndGenerateMachine :: "'u kcp_env \<Rightarrow> 'u kubeadm_config_spec \<Rightarrow> string option \<Rightarrow> ('u, unit) kcm" where
  "cloneConfigsAndGenerateMachine env bootstrapSpec failureDomain s =
     mbind (kwrap ''failed to create Machine: failed to compute desired Machine''
         (mlift (kcp_computeDesiredMachine env (kp_KCP s) (clv_Name (kp_Cluster s)) failureDomain (kreq s) None))) (\<lambda>m.
     mbind (kattempt (clone_infra env m)) (\<lambda>r s.
       case r of
         Inl e \<Rightarrow> (Err (KcpWrapped ''failed to clone infrastructure template'' e), not_created env ''InfrastructureTemplateCloningFailed'' e s)
       | Inr infraRef \<Rightarrow> generate_machine env bootstrapSpec m infraRef s)) s"

section \<open>scale.go\<close>

definition create_control_plane_machine :: "'u kcp_env \<Rightarrow> ('u kcp_state \<Rightarrow> 'u kubeadm_config_spec) \<Rightarrow> string \<Rightarrow> string \<Rightarrow> ('u, ctrl_result) kcm" where
  "create_control_plane_machine env config reason what s =
     (case ParseMajorMinorPatchTolerant (ks_Version (kcp_Spec (kp_KCP s))) of
        Panic \<Rightarrow> (Panic, s)
      | Err e \<Rightarrow> (Err (KcpWrapped ''failed to parse kubernetes version'' (KcpVersion e)), s)
      | Ret v \<Rightarrow>
          (case cloneConfigsAndGenerateMachine env (DefaultFeatureGates (ke_semver env) v (config s)) (NextFailureDomainForScaleUp env s) s of
             (Panic, s') \<Rightarrow> (Panic, s')
           | (Err e, s') \<Rightarrow> (Err e, krec (KcpEvent reason (what @ ke_ErrorText env e)) s')
           | (Ret _, s') \<Rightarrow> (Ret requeue_now, s')))"

definition cluster_KObj :: "'u kcp_state \<Rightarrow> string" where
  "cluster_KObj s = KRef (clv_Namespace (kp_Cluster s)) (clv_Name (kp_Cluster s))"

definition initializeControlPlane :: "'u kcp_env \<Rightarrow> ('u, ctrl_result) kcm" where
  "initializeControlPlane env s =
     create_control_plane_machine env InitialControlPlaneConfig ''FailedInitialization''
       (''Failed to create initial control plane Machine for cluster '' @ cluster_KObj s @ '' control plane: '') s"

definition preflightCheckCondition :: "string \<Rightarrow> machine \<Rightarrow> string \<Rightarrow> string option" where
  "preflightCheckCondition kind m t =
     (case conditions_Get (m_Conditions m) t of
        None \<Rightarrow> Some (kind @ '' '' @ m_Name m @ '' does not have '' @ t @ '' condition'')
      | Some c \<Rightarrow>
          if c_Status c = ConditionFalse
          then Some (kind @ '' '' @ m_Name m @ '' reports '' @ t @ '' condition is false ('' @ c_Severity c @ '', '' @ c_Message c @ '')'')
          else if c_Status c = ConditionUnknown
          then Some (kind @ '' '' @ m_Name m @ '' reports '' @ t @ '' condition is unknown ('' @ c_Message c @ '')'')
          else None)"

definition machine_health_conditions :: "bool \<Rightarrow> string list" where
  "machine_health_conditions etcdManaged =
     [MachineAPIServerPodHealthyCondition, MachineControllerManagerPodHealthyCondition, MachineSchedulerPodHealthyCondition] @
     (if etcdManaged then [MachineEtcdPodHealthyCondition, MachineEtcdMemberHealthyCondition] else [])"

text \<open>The errors of one Machine, and the results of the checks after it.\<close>

definition check_machine :: "bool \<Rightarrow> machine \<Rightarrow> string list \<times> preflight_results \<Rightarrow> string list \<times> preflight_results" where
  "check_machine etcdManaged m acc =
     (case acc of (errs, pr) \<Rightarrow>
        case st_NodeRef (m_Status m) of
          None \<Rightarrow> (errs @ [''Machine '' @ m_Name m @ '' does not have a corresponding Node yet (Machine.status.nodeRef not set)''],
                   pr\<lparr>pr_ControlPlaneComponentsNotHealthy := True,
                      pr_EtcdClusterNotHealthy := (if etcdManaged then True else pr_EtcdClusterNotHealthy pr)\<rparr>)
        | Some _ \<Rightarrow>
            foldl (\<lambda>(errs, pr) t.
              case preflightCheckCondition ''Machine'' m t of None \<Rightarrow> (errs, pr)
              | Some e \<Rightarrow> (errs @ [e],
                  if t = MachineEtcdMemberHealthyCondition then pr\<lparr>pr_EtcdClusterNotHealthy := True\<rparr>
                  else pr\<lparr>pr_ControlPlaneComponentsNotHealthy := True\<rparr>))
              (errs, pr) (machine_health_conditions etcdManaged))"

definition preflightChecks :: "'u kcp_env \<Rightarrow> string list \<Rightarrow> ('u, ctrl_result) kcm" where
  "preflightChecks env excludeFor s =
     (if length (kp_Machines s) = 0 then (Ret result_zero, s)
      else if HasDeletingMachine s
      then (Ret deleteRequeueAfter, s\<lparr>kp_PreflightCheckResults := (kp_PreflightCheckResults s)\<lparr>pr_HasDeletingMachine := True\<rparr>\<rparr>)
      else let (machineErrors, pr) = fold (check_machine (IsEtcdManaged s))
                 (filter (\<lambda>m. m_Name m \<notin> set excludeFor) (ke_Order env (kp_Machines s))) ([], kp_PreflightCheckResults s);
               s1 = s\<lparr>kp_PreflightCheckResults := pr\<rparr>
           in if machineErrors \<noteq> []
              then (Ret preflightFailedRequeueAfter, krec (KcpEvent ''ControlPlaneUnhealthy''
                     (''Waiting for control plane to pass preflight checks to continue reconciliation: '' @
                      ke_ErrorText env (KcpAggregate (map KcpMessage machineErrors)))) s1)
              else (Ret result_zero, s1))"

text \<open>The event of a failed creation is kept without the name of the cluster, which its format string garbles.\<close>

definition scaleUpControlPlane :: "'u kcp_env \<Rightarrow> ('u, ctrl_result) kcm" where
  "scaleUpControlPlane env =
     mbind (preflightChecks env []) (\<lambda>result s.
       if \<not> result_IsZero result then (Ret result, s)
       else create_control_plane_machine env JoinControlPlaneConfig ''FailedScaleUp''
              ''Failed to create additional control plane Machine: '' s)"

definition selectMachineForScaleDown :: "'u kcp_env \<Rightarrow> 'u kcp_state \<Rightarrow> machines \<Rightarrow> (kcp_error, machine) go" where
  "selectMachineForScaleDown env s outdatedMachines =
     MachineInFailureDomainWithMostMachines env s
       (if length (MachineWithDeleteAnnotation outdatedMachines) > 0 then MachineWithDeleteAnnotation outdatedMachines
        else if length (MachineWithDeleteAnnotation (kp_Machines s)) > 0 then MachineWithDeleteAnnotation (kp_Machines s)
        else if length (UnhealthyMachinesWithUnhealthyControlPlaneComponents s outdatedMachines) > 0
        then UnhealthyMachinesWithUnhealthyControlPlaneComponents s outdatedMachines
        else if length outdatedMachines > 0 then outdatedMachines
        else kp_Machines s)"

definition delete_for_scale_down :: "'u kcp_env \<Rightarrow> machine \<Rightarrow> ('u, ctrl_result) kcm" where
  "delete_for_scale_down env m s =
     (case delete_control_plane_machine env m s of
        (Panic, s') \<Rightarrow> (Panic, s')
      | (Err e, s') \<Rightarrow> (Err e, krec (KcpEvent ''FailedScaleDown''
           (''Failed to delete control plane Machine '' @ m_Name m @ '' for cluster '' @ cluster_KObj s' @ '' control plane: '' @ ke_ErrorText env e)) s')
      | (Ret _, s') \<Rightarrow> (Ret requeue_now, s'))"

definition scaleDownControlPlane :: "'u kcp_env \<Rightarrow> machines \<Rightarrow> ('u, ctrl_result) kcm" where
  "scaleDownControlPlane env outdatedMachines s =
     mbind (kwrap ''failed to select machine for scale down'' (mlift (selectMachineForScaleDown env s outdatedMachines))) (\<lambda>machineToDelete.
     mbind (preflightChecks env [m_Name machineToDelete]) (\<lambda>result.
       if \<not> result_IsZero result then mret result
       else mbind (kwrap ''failed to create client to workload cluster'' (kcp_GetWorkloadCluster env)) (\<lambda>_ s.
         mbind (if IsEtcdManaged s then ForwardEtcdLeadership env (Some machineToDelete) (Newest (kp_Machines s)) else mret ())
           (\<lambda>_. delete_for_scale_down env machineToDelete) s))) s"

section \<open>upgrade.go\<close>

definition reconcile_workload :: "'u kcp_env \<Rightarrow> string \<Rightarrow> ('u, unit) kcm" where
  "reconcile_workload env what = kask (\<lambda>n. ke_Workload env n what) (ReconcileWorkload what)"

text \<open>The objects of the workload cluster, in the order in which they are brought up to date.\<close>

definition update_workload :: "'u kcp_env \<Rightarrow> 'u kcp_spec \<Rightarrow> ('u, unit) kcm" where
  "update_workload env spec =
     mbind (kwrap ''failed to reconcile the remote kubelet RBAC role'' (reconcile_workload env ''ReconcileKubeletRBACRole'')) (\<lambda>_.
     mbind (kwrap ''failed to reconcile the remote kubelet RBAC binding'' (reconcile_workload env ''ReconcileKubeletRBACBinding'')) (\<lambda>_.
     mbind (kwrap ''failed to set role and role binding for kubeadm'' (reconcile_workload env ''AllowBootstrapTokensToGetNodes'')) (\<lambda>_.
     mbind (kwrap ''failed to set cluster-admin ClusterRoleBinding for kubeadm'' (reconcile_workload env ''AllowClusterAdminPermissions'')) (\<lambda>_.
     mbind (mlift (if kc_ClusterConfiguration (ks_KubeadmConfigSpec spec) = None then Ret ()
                   else (case ParseMajorMinorPatchTolerant (ks_Version spec) of Panic \<Rightarrow> Panic
                         | Err e \<Rightarrow> Err (KcpWrapped ''failed to parse kubernetes version'' (KcpVersion e)) | Ret _ \<Rightarrow> Ret ()))) (\<lambda>_.
     mbind (reconcile_workload env ''UpdateClusterConfiguration'') (\<lambda>_.
       kwrap ''failed to upgrade kubelet config map'' (reconcile_workload env ''UpdateKubeletConfigMap'')))))))"

definition upgrade_workload :: "'u kcp_env \<Rightarrow> ('u, unit) kcm" where
  "upgrade_workload env =
     mbind (kcp_GetWorkloadCluster env) (\<lambda>_ s.
       case lib_ParseTolerant (ke_semver env) (ks_Version (kcp_Spec (kp_KCP s))) of
         Inl e \<Rightarrow> (Err (KcpWrapped ''failed to parse kubernetes version'' (KcpApi e)), s)
       | Inr _ \<Rightarrow> update_workload env (kcp_Spec (kp_KCP s)) s)"

definition upgradeControlPlane :: "'u kcp_env \<Rightarrow> machines \<Rightarrow> ('u, ctrl_result) kcm" where
  "upgradeControlPlane env machinesRequireUpgrade s =
     (case ks_RolloutStrategy (kcp_Spec (kp_KCP s)) of
        None \<Rightarrow> (Err (KcpMessage ''rolloutStrategy is not set''), s)
      | Some strategy \<Rightarrow>
          (case kro_RollingUpdate strategy of
             None \<Rightarrow> (Err (KcpMessage ''rolloutStrategy is not set''), s)
           | Some rollingUpdate \<Rightarrow>
               mbind (upgrade_workload env) (\<lambda>_.
                 if kro_Type strategy \<noteq> ''RollingUpdate'' then mret result_zero
                 else mbind (mlift (deref (ks_Replicas (kcp_Spec (kp_KCP s))))) (\<lambda>replicas.
                   mbind (mlift (deref (kru_MaxSurge rollingUpdate))) (\<lambda>maxSurge s.
                     let maxNodes = i32 (replicas + i32 (ke_IntValue env maxSurge))
                     in if i32 (int (length (kp_Machines s))) < maxNodes then scaleUpControlPlane env s
                        else scaleDownControlPlane env machinesRequireUpgrade s))) s))"

section \<open>controller.go: etcd members and hooks\<close>

fun collect_nodes :: "machine list \<Rightarrow> string list option" where
  "collect_nodes [] = Some []"
| "collect_nodes (m # ms) =
     (case st_NodeRef (m_Status m) of None \<Rightarrow> None | Some ref \<Rightarrow> map_option ((#) (ref_Name ref)) (collect_nodes ms))"

definition reconcileEtcdMembers :: "'u kcp_env \<Rightarrow> ('u, unit) kcm" where
  "reconcileEtcdMembers env s =
     (if \<not> IsEtcdManaged s then (Ret (), s)
      else if length (kp_Machines s) = 0 then (Ret (), s)
      else case collect_nodes (ke_Order env (kp_Machines s)) of
        None \<Rightarrow> (Ret (), s)
      | Some nodeNames \<Rightarrow>
          if conditions_IsTrue (kst_Conditions (kcp_Status (kp_KCP s))) EtcdClusterHealthyCondition then (Ret (), s)
          else mbind (kwrap ''cannot get remote client to workload cluster'' (kcp_GetWorkloadCluster env)) (\<lambda>_.
               mbind (kwrap ''failed attempt to reconcile etcd members'' (ReconcileEtcdMembers env nodeNames)) (\<lambda>_. mret ())) s)"

definition machineHasOtherPreTerminateHooks :: "machine \<Rightarrow> bool" where
  "machineHasOtherPreTerminateHooks m \<longleftrightarrow>
     (\<exists>k. map_lookup (m_Annotations m) k \<noteq> None \<and> HasPrefix k PreTerminateDeleteHookAnnotationPrefix \<and> k \<noteq> PreTerminateHookCleanupAnnotation)"

definition without_hook :: "machine \<Rightarrow> machine" where
  "without_hook m = m\<lparr>m_Meta := (m_Meta m)\<lparr>om_Annotations := map_del (m_Annotations m) PreTerminateHookCleanupAnnotation\<rparr>\<rparr>"

definition removePreTerminateHookAnnotationFromMachine :: "'u kcp_env \<Rightarrow> machine \<Rightarrow> ('u, unit) kcm" where
  "removePreTerminateHookAnnotationFromMachine env m s =
     (if map_lookup (m_Annotations m) PreTerminateHookCleanupAnnotation = None then (Ret (), s)
      else kwrap ''failed to remove pre-terminate hook from control plane Machine''
             (patch_control_plane_machine env m (without_hook m)) (on_machine (m_Name m) without_hook s))"

text \<open>Moving the leadership away and removing the member of a Machine that is about to terminate.\<close>

definition leave_etcd :: "'u kcp_env \<Rightarrow> machine \<Rightarrow> ('u, unit) kcm" where
  "leave_etcd env m s =
     (if \<not> (length (kp_Machines s) > 1 \<and> IsEtcdManaged s) then (Ret (), s)
      else mbind (kwrap ''failed to remove etcd member for deleting Machine: failed to create client to workload cluster'' (kcp_GetWorkloadCluster env)) (\<lambda>_ s.
        mbind (case Newest (machines_Filter [Not HasDeletionTimestamp] (kp_Machines s)) of
                 None \<Rightarrow> mret ()
               | Some etcdLeaderCandidate \<Rightarrow>
                   kwrap ''failed to move leadership to candidate Machine'' (ForwardEtcdLeadership env (Some m) (Some etcdLeaderCandidate)))
          (\<lambda>_. kwrap ''failed to remove etcd member for deleting Machine'' (RemoveEtcdMemberForMachine env (Some m))) s) s)"

definition hook_awaited :: "machine \<Rightarrow> bool" where
  "hook_awaited m \<longleftrightarrow>
     (case conditions_Get (m_Conditions m) PreTerminateDeleteHookSucceededCondition of None \<Rightarrow> False
      | Some c \<Rightarrow> c_Status c = ConditionFalse \<and> c_Reason c = ''WaitingExternalHook'')"

definition reconcilePreTerminateHook :: "'u kcp_env \<Rightarrow> ('u, ctrl_result) kcm" where
  "reconcilePreTerminateHook env s =
     (if \<not> HasDeletingMachine s then (Ret result_zero, s)
      else if list_ex (\<lambda>m. map_lookup (m_Annotations m) PreTerminateHookCleanupAnnotation = None) (DeletingMachines s)
      then (Ret deleteRequeueAfter, s)
      else mbind (mlift (deref (OldestDeletionTimestamp (DeletingMachines s)))) (\<lambda>deletingMachine s.
        case lib_ParseTolerant (ke_semver env) (ks_Version (kcp_Spec (kp_KCP s))) of
          Inl e \<Rightarrow> (Err (KcpWrapped ''failed to parse Kubernetes version'' (KcpApi e)), s)
        | Inr parsedVersion \<Rightarrow>
            if version_Compare (ke_semver env) parsedVersion (sv_of 1 31 0) [WithoutPreReleases] \<ge> 0 \<and> machineHasOtherPreTerminateHooks deletingMachine
            then (Ret deleteRequeueAfter, s)
            else if \<not> hook_awaited deletingMachine then (Ret deleteRequeueAfter, s)
            else mbind (leave_etcd env deletingMachine) (\<lambda>_.
                 mbind (removePreTerminateHookAnnotationFromMachine env deletingMachine) (\<lambda>_. mret deleteRequeueAfter)) s) s)"

section \<open>controller.go: the order of the operations\<close>

text \<open>The part of reconcile that follows the update of the conditions, up to the point where all Machines are as desired.\<close>

definition scale_control_plane :: "'u kcp_env \<Rightarrow> ('u, ctrl_result) kcm" where
  "scale_control_plane env s =
     mbind (mlift (deref (ks_Replicas (kcp_Spec (kp_KCP s))))) (\<lambda>desiredReplicas s.
       let numMachines = int (length (kp_Machines s))
       in if numMachines < desiredReplicas \<and> numMachines = 0
          then initializeControlPlane env (on_kcp (kcp_conditions (\<lambda>cs. conditions_MarkFalse (ke_Now env (kreq s)) cs ''Available''
                 ''WaitingForKubeadmInit'' ConditionSeverityInfo [])) s)
          else if numMachines < desiredReplicas \<and> numMachines > 0 then scaleUpControlPlane env s
          else if numMachines > desiredReplicas then scaleDownControlPlane env [] s
          else (Ret result_zero, s)) s"

definition roll_out :: "'u kcp_env \<Rightarrow> ('u, ctrl_result) kcm" where
  "roll_out env s =
     (let machinesNeedingRollout = MachinesNeedingRollout s; now = ke_Now env (kreq s)
      in if length machinesNeedingRollout > 0
         then upgradeControlPlane env machinesNeedingRollout
                (on_kcp (kcp_conditions (\<lambda>cs. conditions_MarkFalse now cs MachinesSpecUpToDateCondition ''RollingUpdateInProgress'' ConditionSeverityWarning
                   (''Rolling '' @ format_nat (length machinesNeedingRollout) @ '' replicas with outdated spec ('' @
                    FormatInt (int (length (kp_Machines s)) - int (length machinesNeedingRollout)) @ '' replicas up to date)''))) s)
         else scale_control_plane env
                (if conditions_Has (kst_Conditions (kcp_Status (kp_KCP s))) MachinesSpecUpToDateCondition
                 then on_kcp (kcp_conditions (\<lambda>cs. conditions_MarkTrue now cs MachinesSpecUpToDateCondition)) s else s))"

definition reconcile_control_plane :: "'u kcp_env \<Rightarrow> ('u, ctrl_result) kcm" where
  "reconcile_control_plane env =
     mbind (reconcileEtcdMembers env) (\<lambda>_.
     mbind (reconcilePreTerminateHook env) (\<lambda>result.
       if \<not> result_IsZero result then mret result
       else mbind (kcp_reconcileUnhealthyMachines env) (\<lambda>result.
         if \<not> result_IsZero result then mret result else roll_out env)))"

end
