(* ===== verification/Request_Log.thy ===== *)
theory Request_Log
  imports Go_Prelude
begin

text \<open>
  Controllers that write down the requests they make: what a step adds to the log of requests, and what it keeps of
  the rest of the state. The locale is the interface that a state with a log has to offer; its lemmas compose along
  the steps of a reconciliation.
\<close>

definition logged :: "('s \<Rightarrow> 'r list) \<Rightarrow> ('s \<Rightarrow> 's \<Rightarrow> bool) \<Rightarrow> ('r \<Rightarrow> bool) \<Rightarrow> 's \<Rightarrow> 's \<Rightarrow> bool" where
  "logged log same P s t \<longleftrightarrow> same s t \<and> (\<exists>rs. log t = log s @ rs \<and> list_all P rs)"

locale request_log =
  fixes log :: "'s \<Rightarrow> 'r list" and same :: "'s \<Rightarrow> 's \<Rightarrow> bool"
  assumes same_refl: "same s s"
    and same_trans: "same s t \<Longrightarrow> same t u \<Longrightarrow> same s u"
begin

lemma refl: "logged log same P s s"
  by (simp add: logged_def same_refl)

lemma trans: "logged log same P s t \<Longrightarrow> logged log same P t u \<Longrightarrow> logged log same P s u"
  unfolding logged_def by (auto intro: same_trans)

lemma mono: "logged log same P s t \<Longrightarrow> (\<And>q. P q \<Longrightarrow> Q q) \<Longrightarrow> logged log same Q s t"
  unfolding logged_def by (auto simp: list_all_iff)

lemma entries: "logged log same P s t \<Longrightarrow> \<exists>rs. log t = log s @ rs \<and> list_all P rs"
  by (simp add: logged_def)

lemma longer: "logged log same P s t \<Longrightarrow> length (log s) \<le> length (log t)"
  by (auto simp: logged_def)

lemma returns: "keeps (logged log same P) (mret x)" "keeps (logged log same P) (mlift r)"
  by (simp_all add: keeps_def refl mret_def mlift_def)

lemma bind: "keeps (logged log same P) m \<Longrightarrow> (\<And>x. keeps (logged log same P) (f x)) \<Longrightarrow> keeps (logged log same P) (mbind m f)"
  by (rule keeps_mbind) (rule trans)

lemma after: "logged log same P s t \<Longrightarrow> keeps (logged log same P) m \<Longrightarrow> m t = (r, u) \<Longrightarrow> logged log same P s u"
  by (rule trans, assumption, rule keepsD)

end

end
