(* ===== verification/Kcp_Safety.thy ===== *)
theory Kcp_Safety
  imports Kcp_Controller Request_Log Mhc_Health Ms_Remediation
begin

text \<open>
  What the controller of a kubeadm control plane does to the etcd cluster and to the Machines: which members it
  removes, and that a remediation leaves etcd with a healthy majority.
\<close>

section \<open>Requests to etcd\<close>

definition same_objects :: "'u kcp_state \<Rightarrow> 'u kcp_state \<Rightarrow> bool" where
  "same_objects s t \<longleftrightarrow> kp_KCP t = kp_KCP s \<and> kp_Cluster t = kp_Cluster s \<and> kp_Machines t = kp_Machines s \<and>
     kp_outdated t = kp_outdated s \<and> kp_PreflightCheckResults t = kp_PreflightCheckResults s"

interpretation klog: request_log kp_requests same_objects
  by unfold_locales (simp_all add: same_objects_def)

abbreviation asks :: "(kcp_request \<Rightarrow> bool) \<Rightarrow> 'u kcp_state \<Rightarrow> 'u kcp_state \<Rightarrow> bool" where
  "asks \<equiv> logged kp_requests same_objects"

definition reads :: "kcp_request \<Rightarrow> bool" where
  "reads q \<longleftrightarrow> (case q of GetWorkloadCluster _ \<Rightarrow> True | ListNodes _ _ \<Rightarrow> True | DialEtcd _ _ \<Rightarrow> True
     | ListEtcdMembers _ _ \<Rightarrow> True | ListEtcdAlarms _ _ \<Rightarrow> True | _ \<Rightarrow> False)"

lemma reads_simps [simp]:
  "reads (GetWorkloadCluster b)" "reads (ListNodes l b)" "reads (DialEtcd e b)" "reads (ListEtcdMembers e b)" "reads (ListEtcdAlarms e b)"
  "\<not> reads (MoveEtcdLeader e i b)" "\<not> reads (RemoveEtcdMember e i b)" "\<not> reads (PatchControlPlaneMachine m b)"
  "\<not> reads (DeleteControlPlaneMachine n b)" "\<not> reads (CreateControlPlaneMachine m b)"
  by (simp_all add: reads_def)

lemma asks_krec [simp]: "asks P s (krec q s) = P q"
  by (auto simp: logged_def krec_def same_objects_def)

lemma asks_trans: "asks P s t \<Longrightarrow> asks P t u \<Longrightarrow> asks P s u"
  by (rule klog.trans)

lemma keeps_kask: "(\<And>b. P (q b)) \<Longrightarrow> keeps (asks P) (kask f q)"
  by (auto simp: keeps_def kask_def split: sum.splits)

lemma keeps_kwrap: "keeps R m \<Longrightarrow> keeps R (kwrap msg m)"
  by (auto simp: keeps_def kwrap_def split: prod.splits go.splits) (metis snd_conv)+

lemma keeps_kattempt: "keeps R m \<Longrightarrow> keeps R (kattempt m)"
  by (auto simp: keeps_def kattempt_def split: prod.splits go.splits) (metis snd_conv)+

lemmas keeps_asks = klog.returns klog.bind keeps_kask keeps_kwrap keeps_kattempt

lemma keeps_reads_members: "(\<And>q. reads q \<Longrightarrow> P q) \<Longrightarrow> keeps (asks P) (etcd_Members env c)"
  unfolding etcd_Members_def etcd_Alarms_def by (intro keeps_asks) (auto intro!: keeps_asks split: prod.splits)

lemma keeps_reads_first: "(\<And>q. reads q \<Longrightarrow> P q) \<Longrightarrow> keeps (asks P) (first_available env names errs)"
  by (induction names arbitrary: errs) (auto intro!: keeps_asks simp: createClient_def split: sum.splits)

lemma keeps_reads_available: "(\<And>q. reads q \<Longrightarrow> P q) \<Longrightarrow> keeps (asks P) (forFirstAvailableNode env names)"
  by (simp add: forFirstAvailableNode_def keeps_reads_first klog.returns)

lemma keeps_reads_leader_client: "(\<And>q. reads q \<Longrightarrow> P q) \<Longrightarrow> keeps (asks P) (getLeaderClient env n nodes)"
  unfolding getLeaderClient_def Let_def
  by (intro keeps_asks keeps_reads_available)
    (auto intro!: keeps_asks keeps_reads_available keeps_reads_members split: sum.splits option.splits)

lemma keeps_reads_leader_loop: "(\<And>q. reads q \<Longrightarrow> P q) \<Longrightarrow> keeps (asks P) (leader_loop env nodes names errs)"
  by (induction names arbitrary: errs) (auto intro!: keeps_asks keeps_reads_leader_client split: sum.splits)

lemma keeps_reads_leader_members: "(\<And>q. reads q \<Longrightarrow> P q) \<Longrightarrow> keeps (asks P) (leader_members env)"
  unfolding leader_members_def getControlPlaneNodes_def forLeader_def Let_def
  by (intro keeps_asks) (auto intro!: keeps_asks keeps_reads_leader_loop keeps_reads_members)

lemma keeps_reads_nodes: "(\<And>q. reads q \<Longrightarrow> P q) \<Longrightarrow> keeps (asks P) (getControlPlaneNodes env)"
  unfolding getControlPlaneNodes_def Let_def by (intro keeps_asks) auto

lemma keeps_workload: "(\<And>q. reads q \<Longrightarrow> P q) \<Longrightarrow> keeps (asks P) (kcp_GetWorkloadCluster env)"
proof -
  assume P: "\<And>q. reads q \<Longrightarrow> P q"
  have "asks P s (snd (kcp_GetWorkloadCluster env s))" for s
    using P by (auto simp: kcp_GetWorkloadCluster_def mbind_def kask_def krec_def logged_def same_objects_def split: sum.splits)
  then show ?thesis by (simp add: keeps_def)
qed

lemma keeps_etcd_members: "(\<And>q. reads q \<Longrightarrow> P q) \<Longrightarrow> keeps (asks P) (EtcdMembers env)"
  unfolding EtcdMembers_def by (intro keeps_asks keeps_reads_leader_members) (auto intro!: keeps_asks split: prod.splits)

lemma keeps_forward:
  assumes "\<And>q. reads q \<Longrightarrow> P q" "\<And>e i b. P (MoveEtcdLeader e i b)"
  shows "keeps (asks P) (ForwardEtcdLeadership env m c)"
  unfolding ForwardEtcdLeadership_def etcd_MoveLeader_def
  by (auto intro!: keeps_asks keeps_reads_leader_members assms split: option.splits prod.splits)

section \<open>What the members of etcd are\<close>

text \<open>An answer of etcd to a request for its members, at or after the given number of requests.\<close>

definition reported :: "'u kcp_env \<Rightarrow> nat \<Rightarrow> string \<Rightarrow> pb_member list \<Rightarrow> bool" where
  "reported env k ep pbs \<longleftrightarrow> (\<exists>j \<ge> k. \<exists>cid. ke_MemberList env j ep = Inr (cid, pbs))"

lemma reported_later: "reported env j ep pbs \<Longrightarrow> k \<le> j \<Longrightarrow> reported env k ep pbs"
  unfolding reported_def by (meson order_trans)

lemma etcd_Members_Ret:
  assumes "etcd_Members env c s = (Ret ms, t)"
  shows "\<exists>pbs. reported env (kreq s) (ec_Endpoint c) pbs \<and> map em_Name ms = map pb_Name pbs \<and> map em_ID ms = map pb_ID pbs"
proof -
  obtain cid pbs where "ke_MemberList env (kreq s) (ec_Endpoint c) = Inr (cid, pbs)"
      and "map em_Name ms = map pb_Name pbs" "map em_ID ms = map pb_ID pbs"
    using assms
    by (auto simp: etcd_Members_def mbind_Ret_iff kwrap_def kask_def mret_def pbMemberToMember_def comp_def
        split: sum.splits prod.splits go.splits)
  then show ?thesis unfolding reported_def by (metis order_refl)
qed

lemma kwrap_Ret [simp]: "kwrap msg m s = (Ret x, t) \<longleftrightarrow> m s = (Ret x, t)"
  by (auto simp: kwrap_def split: prod.splits go.splits)

lemma leader_members_Ret:
  assumes "leader_members env s = (Ret (c, ms), t)"
  shows "\<exists>pbs. reported env (kreq s) (ec_Endpoint c) pbs \<and> map em_Name ms = map pb_Name pbs \<and> map em_ID ms = map pb_ID pbs"
proof -
  obtain names u v where u: "getControlPlaneNodes env s = (Ret names, u)" and v: "forLeader env names u = (Ret c, v)"
      and m: "etcd_Members env c v = (Ret ms, t)"
    using assms by (auto simp: leader_members_def mbind_Ret_iff mret_def)
  have "kreq s \<le> kreq u" using klog.longer [OF keepsD [OF keeps_reads_nodes [of "\<lambda>_. True"] u]] by simp
  moreover have "keeps (asks (\<lambda>_. True)) (forLeader env names)"
    by (simp add: forLeader_def keeps_reads_leader_loop klog.returns)
  then have "asks (\<lambda>_. True) u v" using v by (rule keepsD)
  then have "kreq u \<le> kreq v" by (rule klog.longer)
  ultimately show ?thesis using etcd_Members_Ret [OF m] reported_later by (meson order_trans)
qed

lemma EtcdMembers_Ret:
  assumes "EtcdMembers env s = (Ret names, t)"
  shows "\<exists>ep pbs. reported env (kreq s) ep pbs \<and> names = map pb_Name pbs"
  using assms leader_members_Ret [of env s] by (auto simp: EtcdMembers_def mbind_Ret_iff mret_def MemberNames_def) (metis (no_types))

section \<open>Cleaning up conditions\<close>

text \<open>What the cleanup leaves of a Machine: all but the conditions about the owner's remediation.\<close>

definition tidy :: "machine \<Rightarrow> machine \<Rightarrow> bool" where
  "tidy x y \<longleftrightarrow> m_Meta y = m_Meta x \<and> st_NodeRef (m_Status y) = st_NodeRef (m_Status x) \<and>
     (\<forall>c. c \<noteq> MachineOwnerRemediatedCondition \<longrightarrow> conditions_Get (m_Conditions y) c = conditions_Get (m_Conditions x) c) \<and>
     conditions_Get (m_Conditions y) MachineOwnerRemediatedCondition \<in> {None, conditions_Get (m_Conditions x) MachineOwnerRemediatedCondition}"

lemma tidy_refl [simp]: "tidy x x"
  by (simp add: tidy_def)

lemma tidy_delete:
  "tidy x (machine_conditions (\<lambda>cs. conditions_Delete cs MachineOwnerRemediatedCondition) x)"
  using Get_delete_latest [of "m_Conditions x" MachineOwnerRemediatedCondition]
  by (simp add: tidy_def machine_conditions_def conditions_Delete_def delete_latest_unfold)

lemma tidy_v2_Delete: "tidy x y \<Longrightarrow> tidy x (machine_v2_Delete y t)"
  by (simp add: tidy_def machine_v2_Delete_def put_machine_v2_def split: option.splits)

lemma tidy_same:
  assumes "tidy x y"
  shows "m_Name y = m_Name x" "m_DeletionTimestamp y = m_DeletionTimestamp x" "m_Annotations y = m_Annotations x"
    and "HasDeletionTimestamp (Some y) = HasDeletionTimestamp (Some x)" "HasNode (Some y) = HasNode (Some x)"
    and "IsUnhealthy (Some y) = IsUnhealthy (Some x)" "on_node e y = on_node e x"
    and "conditions_IsTrue (m_Conditions y) MachineEtcdMemberHealthyCondition = conditions_IsTrue (m_Conditions x) MachineEtcdMemberHealthyCondition"
    and "IsUnhealthyAndOwnerRemediated (Some y) \<Longrightarrow> IsUnhealthyAndOwnerRemediated (Some x)"
  using assms
  by (auto simp: tidy_def HasDeletionTimestamp_def HasNode_def IsUnhealthy_def IsUnhealthyAndOwnerRemediated_def on_node_def
      conditions_IsTrue_def conditions_IsFalse_def dest: sym split: option.splits)

definition tidied :: "'u kcp_state \<Rightarrow> 'u kcp_state \<Rightarrow> bool" where
  "tidied s t \<longleftrightarrow> kp_KCP t = kp_KCP s \<and> kp_Cluster t = kp_Cluster s \<and> kp_outdated t = kp_outdated s \<and>
     list_all2 tidy (kp_Machines s) (kp_Machines t) \<and>
     (\<exists>rs. kp_requests t = kp_requests s @ rs \<and> list_all (\<lambda>q. \<exists>m ok. q = PatchControlPlaneMachine m ok) rs)"

lemma replace_tidy:
  assumes "list_all2 tidy xs ys" "distinct (map m_Name xs)" "x \<in> set xs" "tidy x y"
  shows "list_all2 tidy xs (map (\<lambda>z. if m_Name z = m_Name x then y else z) ys)"
  using assms(1-3)
proof (induction xs ys rule: list_all2_induct)
  case (Cons a as b bs)
  have "a = x \<or> m_Name a \<noteq> m_Name x" using Cons.prems by force
  then have "tidy a (if m_Name b = m_Name x then y else b)" using Cons.hyps(1) assms(4) tidy_same(1) [OF Cons.hyps(1)] by auto
  moreover have "list_all2 tidy as (map (\<lambda>z. if m_Name z = m_Name x then y else z) bs)"
  proof (cases "x \<in> set as")
    case True
    then show ?thesis using Cons by simp
  next
    case False
    then have "x = a" using Cons.prems by simp
    then have "m_Name x \<notin> set (map m_Name as)" using Cons.prems by simp
    moreover have "map m_Name bs = map m_Name as"
      using Cons.hyps(2) by (induction as bs rule: list_all2_induct) (simp_all add: tidy_same)
    ultimately have "map (\<lambda>z. if m_Name z = m_Name x then y else z) bs = bs" by (intro map_idI) (metis image_eqI list.set_map)
    then show ?thesis using Cons.hyps(2) by simp
  qed
  ultimately show ?case by simp
qed simp

lemma kcp_cleanup_tidied:
  assumes "kcp_cleanup env m u = (r, t)" "tidied s u" "distinct (map m_Name (kp_Machines s))" "m \<in> set (kp_Machines s)"
  shows "tidied s t"
proof -
  define m1 where "m1 b = (if b then machine_conditions (\<lambda>cs. conditions_Delete cs MachineOwnerRemediatedCondition) m else m)" for b
  define m2 where "m2 b b' = (if b' then machine_v2_Delete (m1 b) MachineOwnerRemediatedV1Beta2Condition else m1 b)" for b b'
  have c: "tidy m (m2 b b')" for b b' by (simp add: m1_def m2_def tidy_delete tidy_v2_Delete)
  have p: "tidied s t" if "patch_control_plane_machine env m (m2 b b') (on_machine (m_Name m) (\<lambda>_. m2 b b') u) = (r, t)" for b b'
    using that assms(2) replace_tidy [OF _ assms(3,4) c]
    by (auto simp: tidied_def patch_control_plane_machine_def kask_def krec_def on_machine_def split: sum.splits)
  show ?thesis
    using assms(1,2) p unfolding kcp_cleanup_def Let_def m1_def [symmetric] m2_def [symmetric]
    by (simp split: if_split_asm option.splits)
qed

lemma kcp_collect_cleanup_tidied:
  assumes "kcp_collect (kcp_cleanup env) ms u = (r, t)" "tidied s u" "distinct (map m_Name (kp_Machines s))" "set ms \<subseteq> set (kp_Machines s)"
  shows "tidied s t"
  using assms
proof (induction ms arbitrary: u r t)
  case (Cons m ms)
  obtain r1 u1 where u1: "kcp_cleanup env m u = (r1, u1)" by (cases "kcp_cleanup env m u")
  then have "tidied s u1" using kcp_cleanup_tidied Cons.prems by fastforce
  moreover obtain r2 u2 where u2: "kcp_collect (kcp_cleanup env) ms u1 = (r2, u2)" by (cases "kcp_collect (kcp_cleanup env) ms u1")
  ultimately have "tidied s u2" using Cons by simp
  then show ?case using Cons.prems(1) u1 u2 \<open>tidied s u1\<close>
    by (auto simp: mbind_def kattempt_def mret_def split: go.splits)
qed (simp add: mret_def)

lemma tidied_refl: "tidied s s"
  by (simp add: tidied_def list_all2_same)

lemma tidied_Machines:
  assumes "tidied s t" "distinct (map m_Name (kp_Machines s))"
  shows "distinct (map m_Name (kp_Machines t))" "length (kp_Machines t) = length (kp_Machines s)"
    and "y \<in> set (kp_Machines t) \<Longrightarrow> \<exists>x \<in> set (kp_Machines s). tidy x y"
    and "x \<in> set (kp_Machines s) \<Longrightarrow> \<exists>y \<in> set (kp_Machines t). tidy x y"
proof -
  have l: "list_all2 tidy (kp_Machines s) (kp_Machines t)" using assms(1) by (simp add: tidied_def)
  then have "map m_Name (kp_Machines t) = map m_Name (kp_Machines s)"
    by (induction rule: list_all2_induct) (simp_all add: tidy_same)
  then show "distinct (map m_Name (kp_Machines t))" using assms(2) by metis
  show "length (kp_Machines t) = length (kp_Machines s)" using l by (simp add: list_all2_lengthD)
  show "y \<in> set (kp_Machines t) \<Longrightarrow> \<exists>x \<in> set (kp_Machines s). tidy x y"
    and "x \<in> set (kp_Machines s) \<Longrightarrow> \<exists>y \<in> set (kp_Machines t). tidy x y"
    using l by (metis in_set_conv_nth list_all2_conv_all_nth)+
qed

section \<open>Remediation and the quorum of etcd\<close>

text \<open>The steps of a remediation change conditions and annotations, but not what is desired nor how many Machines there are.\<close>

definition same_shape :: "'u kcp_state \<Rightarrow> 'u kcp_state \<Rightarrow> bool" where
  "same_shape s t \<longleftrightarrow> length (kp_Machines t) = length (kp_Machines s) \<and> kcp_Spec (kp_KCP t) = kcp_Spec (kp_KCP s)"

interpretation rlog: request_log kp_requests same_shape
  by unfold_locales (simp_all add: same_shape_def)

abbreviation kcp_adds :: "(kcp_request \<Rightarrow> bool) \<Rightarrow> 'u kcp_state \<Rightarrow> 'u kcp_state \<Rightarrow> bool" where
  "kcp_adds \<equiv> logged kp_requests same_shape"

lemma asks_adds: "asks P s t \<Longrightarrow> kcp_adds P s t"
  by (auto simp: logged_def same_objects_def same_shape_def)

lemma keeps_adds: "keeps (asks P) m \<Longrightarrow> m s = (r, t) \<Longrightarrow> kcp_adds P s t"
  by (rule asks_adds, rule keepsD)

lemma adds_same_log: "kp_requests t = kp_requests s \<Longrightarrow> same_shape s t \<Longrightarrow> kcp_adds P s t"
  by (auto simp: logged_def)

lemma adds_then: "kcp_adds P s t \<Longrightarrow> kp_requests u = kp_requests t \<Longrightarrow> same_shape t u \<Longrightarrow> kcp_adds P s u"
  by (auto simp: logged_def same_shape_def)

lemma log_frames [simp]:
  "kp_requests (on_machine n f s) = kp_requests s" "kp_requests (on_kcp g s) = kp_requests s"
  "kp_requests (hold_remediation env n a b c d e s) = kp_requests s"
  "kp_requests (wait_remediation env n c d e s) = kp_requests s" "kp_requests (fail_remediation env n err s) = kp_requests s"
  "kp_KCP (on_machine n f s) = kp_KCP s" "kp_Machines (on_kcp g s) = kp_Machines s" "kp_Cluster (on_kcp g s) = kp_Cluster s"
  "kp_KCP (on_kcp g s) = g (kp_KCP s)"
  by (simp_all add: on_machine_def on_kcp_def hold_remediation_def wait_remediation_def fail_remediation_def)

lemma kcp_Spec_frames [simp]: "kcp_Spec (with_kcp_annotations x k) = kcp_Spec k" "kcp_Spec (kcp_conditions f k) = kcp_Spec k"
  by (simp_all add: with_kcp_annotations_def kcp_conditions_def split: option.splits)

lemma shape_frames [simp]:
  "same_shape s (on_machine n f t) = same_shape s t" "same_shape s (hold_remediation env n a b c d e t) = same_shape s t"
  "same_shape s (wait_remediation env n c d e t) = same_shape s t" "same_shape s (fail_remediation env n err t) = same_shape s t"
  "(\<And>k. kcp_Spec (g k) = kcp_Spec k) \<Longrightarrow> same_shape s (on_kcp g t) = same_shape s t"
  "same_shape s (krec q t) = same_shape s t" "same_shape s s"
  by (simp_all add: same_shape_def on_machine_def on_kcp_def hold_remediation_def wait_remediation_def fail_remediation_def krec_def)

lemma adds_frames [simp]:
  "kcp_adds P s (on_machine n f t) = kcp_adds P s t"
  "(\<And>k. kcp_Spec (g k) = kcp_Spec k) \<Longrightarrow> kcp_adds P s (on_kcp g t) = kcp_adds P s t"
  "kcp_adds P s (hold_remediation env n a b c d e t) = kcp_adds P s t"
  "kcp_adds P s (wait_remediation env n c d e t) = kcp_adds P s t" "kcp_adds P s (fail_remediation env n err t) = kcp_adds P s t"
  by (simp_all add: logged_def)

text \<open>The requests that create or delete a Machine.\<close>

fun changes_machines :: "kcp_request \<Rightarrow> bool" where
  "changes_machines (DeleteControlPlaneMachine _ _) = True"
| "changes_machines (CreateControlPlaneMachine _ _) = True"
| "changes_machines _ = False"

lemma reads_not_changes: "reads q \<Longrightarrow> \<not> changes_machines q"
  by (cases q) (simp_all add: reads_def)

text \<open>The members left without that of a Machine, of which a Machine says that they are healthy.\<close>

definition healthy_member :: "machines \<Rightarrow> string \<Rightarrow> bool" where
  "healthy_member ms e \<longleftrightarrow> list_ex (\<lambda>x. on_node e x \<and> conditions_IsTrue (m_Conditions x) MachineEtcdMemberHealthyCondition) ms"

definition survivors :: "machines \<Rightarrow> machine \<Rightarrow> string list \<Rightarrow> string list" where
  "survivors ms m etcdMembers = filter (healthy_member ms) (target_members m etcdMembers)"

definition majority :: "string list \<Rightarrow> string set \<Rightarrow> bool" where
  "majority members Q \<longleftrightarrow> Q \<subseteq> set members \<and> length members < 2 * card Q"

lemma one_member: "distinct members \<Longrightarrow> length (filter (\<lambda>e. on_node e m) members) \<le> 1"
proof (induction members)
  case (Cons a xs)
  have "filter (\<lambda>e. on_node e m) xs = []" if "on_node a m"
    using that Cons.prems by (auto simp: on_node_def filter_empty_conv split: option.splits)
  then show ?case using Cons by auto
qed simp

text \<open>A majority of the members that are left meets every majority of the members before one was removed.\<close>

lemma majority_after_removal:
  assumes "distinct members" "majority (target_members m members) H" "majority members Q"
  shows "H \<inter> Q \<noteq> {}"
proof
  assume "H \<inter> Q = {}"
  let ?T = "target_members m members"
  have "length (filter (\<lambda>e. on_node e m) members) \<le> 1" using assms(1) by (rule one_member)
  moreover have "length (filter (\<lambda>e. on_node e m) members) + length ?T = length members"
    by (simp add: target_members_def sum_length_filter_compl)
  ultimately have T: "length members \<le> length ?T + 1" by simp
  have "H \<union> Q \<subseteq> set members" using assms(2,3) by (auto simp: majority_def target_members_def)
  then have "card (H \<union> Q) \<le> length members" by (metis List.finite_set assms(1) card_mono distinct_card)
  moreover have "card (H \<union> Q) = card H + card Q"
    using \<open>H \<inter> Q = {}\<close> assms(2,3) by (intro card_Un_disjoint) (auto simp: majority_def intro: finite_subset)
  ultimately show False using T assms(2,3) by (simp add: majority_def)
qed

lemma survivors_majority:
  assumes "distinct members" "length (target_members m members) < 2 * length (survivors ms m members)"
  shows "majority (target_members m members) (set (survivors ms m members))"
proof -
  have "distinct (survivors ms m members)" using assms(1) by (simp add: survivors_def target_members_def)
  then have "card (set (survivors ms m members)) = length (survivors ms m members)" by (rule distinct_card)
  then show ?thesis using assms(2) by (auto simp: majority_def survivors_def)
qed

lemma length_filter_mono: "(\<And>x. P x \<Longrightarrow> Q x) \<Longrightarrow> length (filter P xs) \<le> length (filter Q xs)"
  by (induction xs) (auto simp: le_SucI)

lemma canSafely_Ret:
  assumes "canSafelyRemoveEtcdMember env m s = (Ret True, t)" "\<And>ms. set (ke_Order env ms) = set ms"
  shows "asks reads s t"
    and "\<exists>ep pbs. reported env (kreq s) ep pbs \<and>
      length (target_members m (map pb_Name pbs)) < 2 * length (survivors (kp_Machines s) m (map pb_Name pbs))"
proof -
  obtain u names where u: "kcp_GetWorkloadCluster env s = (Ret (), u)" and t: "EtcdMembers env u = (Ret names, t)"
      and q: "int (length (target_members m names)) -
        int (length (filter (\<lambda>e. \<not> member_healthy (ke_Order env (kp_Machines t)) e) (target_members m names)))
        \<ge> int (length (target_members m names) div 2 + 1)"
    using assms(1) by (auto simp: canSafelyRemoveEtcdMember_def mbind_Ret_iff Let_def)
  have su: "asks reads s u" using keepsD [OF keeps_workload u] by simp
  have ut: "asks reads u t" using keepsD [OF keeps_etcd_members t] by simp
  show st: "asks reads s t" using su ut by (rule klog.trans)
  then have ms: "kp_Machines t = kp_Machines s" by (simp add: logged_def same_objects_def)
  have "kreq s \<le> kreq u" using su by (rule klog.longer)
  then obtain ep pbs where r: "reported env (kreq s) ep pbs" and n: "names = map pb_Name pbs"
    using EtcdMembers_Ret [OF t] reported_later by blast
  let ?T = "target_members m names" and ?h = "member_healthy (ke_Order env (kp_Machines t))"
  have "length (filter ?h ?T) + length (filter (\<lambda>e. \<not> ?h e) ?T) = length ?T" by (rule sum_length_filter_compl)
  then have "length ?T < 2 * length (filter ?h ?T)" using q by simp
  moreover have "?h e \<Longrightarrow> healthy_member (kp_Machines s) e" for e
    using assms(2) [of "kp_Machines t"] ms
    by (auto simp: member_healthy_def healthy_member_def list_ex_iff find_Some_iff split: option.splits)
  then have "length (filter ?h ?T) \<le> length (survivors (kp_Machines s) m names)"
    unfolding survivors_def by (rule length_filter_mono)
  ultimately show "\<exists>ep pbs. reported env (kreq s) ep pbs \<and>
      length (target_members m (map pb_Name pbs)) < 2 * length (survivors (kp_Machines s) m (map pb_Name pbs))"
    using r n by (intro exI [of _ ep] exI [of _ pbs]) simp
qed

lemma keeps_canSafely: "keeps (asks reads) (canSafelyRemoveEtcdMember env m)"
  unfolding canSafelyRemoveEtcdMember_def Let_def
  by (intro klog.bind keeps_kwrap keeps_workload keeps_etcd_members) (auto simp: keeps_def klog.refl)

lemma checks_adds: "remediation_checks env m s = (r, t) \<Longrightarrow> kcp_adds reads s t"
  using keeps_adds [OF keeps_canSafely, of env m s]
  by (auto simp: remediation_checks_def Let_def intro: adds_same_log adds_then split: if_splits prod.splits go.splits)

lemma checks_Ret:
  assumes "remediation_checks env m s = (Ret True, t)" "\<And>ms. set (ke_Order env ms) = set ms"
  shows "asks reads s t \<and> 1 < length (kp_Machines s) \<and> \<not> HasHealthyMachineStillProvisioning s \<and> \<not> HasDeletingMachine s \<and>
    (IsEtcdManaged s \<longrightarrow> (\<exists>ep pbs. reported env (kreq s) ep pbs \<and>
      length (target_members m (map pb_Name pbs)) < 2 * length (survivors (kp_Machines s) m (map pb_Name pbs))))"
  using assms(1) canSafely_Ret [OF _ assms(2), of m s]
  by (auto simp: remediation_checks_def Let_def klog.refl split: if_splits prod.splits go.splits)

lemma forward_adds:
  assumes "forward_for_remediation env m s = (r, t)"
  shows "kcp_adds (\<lambda>q. \<not> changes_machines q) s t"
proof -
  obtain r1 u where u: "kcp_GetWorkloadCluster env s = (r1, u)" by (cases "kcp_GetWorkloadCluster env s")
  have su: "kcp_adds (\<lambda>q. \<not> changes_machines q) s u" by (rule keeps_adds [OF keeps_workload u]) (rule reads_not_changes)
  show ?thesis
  proof (cases r1)
    case (Ret x)
    have "kcp_adds (\<lambda>q. \<not> changes_machines q) u v" if "ForwardEtcdLeadership env a b u = (r2, v)" for a b r2 v
      by (rule keeps_adds [OF keeps_forward that]) (simp_all add: reads_not_changes)
    then have "kcp_adds (\<lambda>q. \<not> changes_machines q) u t"
      using assms u Ret by (auto simp: forward_for_remediation_def mbind_def kwrap_def
          intro: adds_same_log adds_then rlog.refl split: if_splits option.splits prod.splits go.splits)
    then show ?thesis using su by (rule rlog.trans [rotated])
  qed (use assms u su in \<open>auto simp: forward_for_remediation_def mbind_def kwrap_def\<close>)
qed

lemma delete_for_remediation_log:
  "delete_for_remediation env m d s = (r, t) \<Longrightarrow>
     (\<exists>ok. kp_requests t = kp_requests s @ [DeleteControlPlaneMachine (m_Name m) ok]) \<and> (\<forall>x. r = Ret x \<longrightarrow> x = requeue_now)"
  by (auto simp: delete_for_remediation_def delete_control_plane_machine_def Let_def mbind_def mlift_def krec_def
      split: api_outcome.splits go.splits if_splits)

lemma checkRetryLimits_log: "checkRetryLimits env m now s = (r, t) \<Longrightarrow> kp_requests t = kp_requests s \<and> same_shape s t"
  by (auto simp: checkRetryLimits_def Let_def mbind_def mlift_def split: option.splits go.splits if_splits)

lemma checkRetryLimits_True: "checkRetryLimits env m now s = (Ret (d, True), t) \<Longrightarrow> t = s"
  by (auto simp: checkRetryLimits_def Let_def mbind_def mlift_def split: option.splits go.splits if_splits)

text \<open>The Machine is deleted last, if at all, and then the checks of an initialized control plane have passed.\<close>

lemma remediate_machine_log:
  assumes "remediate_machine env m now s = (r, t)" "\<And>ms. set (ke_Order env ms) = set ms"
  shows "kcp_adds (\<lambda>q. \<not> changes_machines q) s t \<or>
    (\<exists>u ok. kcp_adds (\<lambda>q. \<not> changes_machines q) s u \<and> kp_requests t = kp_requests u @ [DeleteControlPlaneMachine (m_Name m) ok] \<and>
       (\<forall>x. r = Ret x \<longrightarrow> x = requeue_now) \<and> (kst_Initialized (kcp_Status (kp_KCP s)) \<longrightarrow> (\<exists>v. remediation_checks env m s = (Ret True, v))))"
proof (cases "\<exists>d. checkRetryLimits env m now s = (Ret (d, True), s)")
  case False
  obtain r1 u where u: "checkRetryLimits env m now s = (r1, u)" by (cases "checkRetryLimits env m now s")
  then have "kcp_adds (\<lambda>q. \<not> changes_machines q) s u" using checkRetryLimits_log [OF u] by (simp add: adds_same_log)
  moreover have "r1 \<noteq> Ret (d, True)" for d using u False checkRetryLimits_True [of env m now s d u] by auto
  then have "t = u" using assms(1) u
    by (auto simp: remediate_machine_def mbind_def split: go.splits if_splits)
  ultimately show ?thesis by simp
next
  case True
  then obtain d where d: "checkRetryLimits env m now s = (Ret (d, True), s)" by blast
  show ?thesis
  proof (cases "kst_Initialized (kcp_Status (kp_KCP s))")
    case False
    then have "delete_for_remediation env m d s = (r, t)" using assms(1) d by (simp add: remediate_machine_def)
    then show ?thesis using delete_for_remediation_log [of env m d s r t] False rlog.refl by blast
  next
    case init: True
    obtain r1 u where u: "remediation_checks env m s = (r1, u)" by (cases "remediation_checks env m s")
    have su: "kcp_adds (\<lambda>q. \<not> changes_machines q) s u" by (rule rlog.mono [OF checks_adds [OF u]]) (rule reads_not_changes)
    show ?thesis
    proof (cases "r1 = Ret True")
      case False
      then have "t = u" using assms(1) d init u by (cases r1) (auto simp: remediate_machine_def mret_def)
      then show ?thesis using su by simp
    next
      case True
      obtain r2 v where v: "forward_for_remediation env m u = (r2, v)" by (cases "forward_for_remediation env m u")
      have sv: "kcp_adds (\<lambda>q. \<not> changes_machines q) s v" using su forward_adds [OF v] by (rule rlog.trans)
      have t: "(case r2 of Ret b \<Rightarrow> if \<not> b then (Ret result_zero, v) else delete_for_remediation env m d v
          | Err e \<Rightarrow> (Err e, v) | Panic \<Rightarrow> (Panic, v)) = (r, t)"
        using assms(1) d init u True v by (cases r2) (auto simp: remediate_machine_def mret_def)
      show ?thesis
      proof (cases "r2 = Ret True")
        case False
        then have "t = v" using t by (cases r2) auto
        then show ?thesis using sv by simp
      next
        case fwd: True
        then have "delete_for_remediation env m d v = (r, t)" using t by simp
        then have "(\<exists>ok. kp_requests t = kp_requests v @ [DeleteControlPlaneMachine (m_Name m) ok]) \<and> (\<forall>x. r = Ret x \<longrightarrow> x = requeue_now)"
          by (rule delete_for_remediation_log)
        then show ?thesis using sv u True by blast
      qed
    qed
  qed
qed

lemma remediation_in_progress_frame:
  assumes "remediation_in_progress env s = (r, t)"
  shows "same_shape s t" "kp_Machines t = kp_Machines s" "kcp_Spec (kp_KCP t) = kcp_Spec (kp_KCP s)" "kcp_Status (kp_KCP t) = kcp_Status (kp_KCP s)"
    and "kp_requests t = kp_requests s" "kp_Cluster t = kp_Cluster s" "kp_outdated t = kp_outdated s"
  using assms by (auto simp: remediation_in_progress_def mbind_def mlift_def on_kcp_def with_kcp_annotations_def same_shape_def
      split: option.splits go.splits if_splits)

lemma patch_after_log:
  assumes "patch_after_remediation env m f s = (r, t)" "f s = (r1, u)"
  shows "(\<exists>m' ok. kp_requests t = kp_requests u @ [PatchControlPlaneMachine m' ok]) \<and> same_shape u t \<and> (\<forall>x. r = Ret x \<longrightarrow> r1 = Ret x)"
  using assms by (cases r1) (auto simp: patch_after_remediation_def Let_def patch_control_plane_machine_def kask_def krec_def same_shape_def
      split: sum.splits)

lemma Filter_subset: "set (machines_Filter fs ms) \<subseteq> {m \<in> set ms. And fs (Some m)}" if "distinct (map m_Name ms)"
  using that by (auto simp: machines_Filter_is_filter)

lemma getMachineToBeRemediated_in:
  assumes "getMachineToBeRemediated ms = Some m" "distinct (map m_Name ms)"
  shows "m \<in> set ms"
  using assms Filter_subset [OF assms(2)]
  by (auto simp: getMachineToBeRemediated_def dest!: Oldest_least(1) split: option.splits)

lemma tidied_adds: "tidied s t \<Longrightarrow> kcp_adds (\<lambda>q. \<not> changes_machines q) s t"
  unfolding tidied_def logged_def same_shape_def by (fastforce simp: list_all_iff dest: list_all2_lengthD)

text \<open>The Machine that a reconciliation may delete, and the state in which this has been decided.\<close>

definition remediation_of :: "'u kcp_env \<Rightarrow> 'u kcp_state \<Rightarrow> 'u kcp_state \<Rightarrow> machine \<Rightarrow> bool" where
  "remediation_of env s s1 m \<longleftrightarrow> m \<in> set (kp_Machines s1) \<and> IsUnhealthyAndOwnerRemediated (Some m) \<and> time_IsZero (m_DeletionTimestamp m) \<and>
     (\<exists>s0. tidied s s0 \<and> kp_Machines s1 = kp_Machines s0) \<and> kcp_Spec (kp_KCP s1) = kcp_Spec (kp_KCP s) \<and>
     kcp_Status (kp_KCP s1) = kcp_Status (kp_KCP s) \<and> kreq s \<le> kreq s1"

lemma reconcile_unhealthy_log:
  assumes run: "kcp_reconcileUnhealthyMachines env s = (r, t)"
    and names: "distinct (map m_Name (kp_Machines s))" and order: "\<And>ms. set (ke_Order env ms) = set ms"
  shows "kcp_adds (\<lambda>q. \<not> changes_machines q) s t \<or>
    (\<exists>s1 m u ok m' ok'. remediation_of env s s1 m \<and> kcp_adds (\<lambda>q. \<not> changes_machines q) s u \<and>
       kp_requests t = kp_requests u @ [DeleteControlPlaneMachine (m_Name m) ok, PatchControlPlaneMachine m' ok'] \<and>
       (\<forall>x. r = Ret x \<longrightarrow> x = requeue_now) \<and> (kst_Initialized (kcp_Status (kp_KCP s)) \<longrightarrow> (\<exists>v. remediation_checks env m s1 = (Ret True, v))))"
    (is "?no t \<or> ?one t")
proof -
  obtain r0 s0 where c: "kcp_collect (kcp_cleanup env) (ke_Order env (kp_Machines s)) s = (r0, s0)"
    by (cases "kcp_collect (kcp_cleanup env) (ke_Order env (kp_Machines s)) s")
  have t0: "tidied s s0" using c tidied_refl names order by (rule_tac kcp_collect_cleanup_tidied) auto
  have no0: "?no s0" using t0 by (rule tidied_adds)
  define now where "now = ke_Now env (kreq s)"
  consider (stop) "t = s0" | (m) m where "getMachineToBeRemediated (MachinesToBeRemediatedByKCP s0) = Some m" "time_IsZero (m_DeletionTimestamp m)"
      "mbind (remediation_in_progress env) (\<lambda>in_progress s.
              if in_progress then (Ret result_zero, s)
              else case ke_NewHelper env (kreq s) m of
                Some e \<Rightarrow> (Err (KcpApi e), s)
              | None \<Rightarrow> patch_after_remediation env m (remediate_machine env m now) s) s0 = (r, t)"
    using run c unfolding kcp_reconcileUnhealthyMachines_def Let_def now_def [symmetric]
    by (cases r0) (auto split: option.splits if_splits)
  then show ?thesis
  proof cases
    case m
    obtain r1 s1 where p: "remediation_in_progress env s0 = (r1, s1)" by (cases "remediation_in_progress env s0")
    note fr = remediation_in_progress_frame [OF p]
    have "distinct (map m_Name (kp_Machines s0))" using tidied_Machines [OF t0 names] by simp
    then have "m \<in> set (kp_Machines s0) \<and> IsUnhealthyAndOwnerRemediated (Some m)"
      using getMachineToBeRemediated_in [OF m(1)] by (auto simp: MachinesToBeRemediatedByKCP_def machines_Filter_is_filter distinct_map_filter)
    then have rem: "remediation_of env s s1 m"
      using t0 m(2) fr rlog.longer [OF no0] by (auto simp: remediation_of_def tidied_def)
    have no1: "?no s1" using no0 fr(5,1) by (rule adds_then)
    consider "t = s1" | "patch_after_remediation env m (remediate_machine env m now) s1 = (r, t)"
      using m(3) p by (cases r1) (auto split: if_splits option.splits)
    then show ?thesis
    proof cases
      case 2
      obtain r2 u where u: "remediate_machine env m now s1 = (r2, u)" by (cases "remediate_machine env m now s1")
      obtain m' ok' where t: "kp_requests t = kp_requests u @ [PatchControlPlaneMachine m' ok']" "same_shape u t" "\<And>x. r = Ret x \<Longrightarrow> r2 = Ret x"
        using patch_after_log [OF 2 u] by blast
      show ?thesis using remediate_machine_log [OF u order]
      proof
        assume "kcp_adds (\<lambda>q. \<not> changes_machines q) s1 u"
        then have "?no u" by (rule rlog.trans [OF no1])
        then have "?no t" using t by (auto simp: logged_def same_shape_def)
        then show ?thesis ..
      next
        assume "\<exists>v ok. kcp_adds (\<lambda>q. \<not> changes_machines q) s1 v \<and> kp_requests u = kp_requests v @ [DeleteControlPlaneMachine (m_Name m) ok] \<and>
          (\<forall>x. r2 = Ret x \<longrightarrow> x = requeue_now) \<and> (kst_Initialized (kcp_Status (kp_KCP s1)) \<longrightarrow> (\<exists>w. remediation_checks env m s1 = (Ret True, w)))"
        then obtain v ok where v: "kcp_adds (\<lambda>q. \<not> changes_machines q) s1 v" "kp_requests u = kp_requests v @ [DeleteControlPlaneMachine (m_Name m) ok]"
            "\<forall>x. r2 = Ret x \<longrightarrow> x = requeue_now" "kst_Initialized (kcp_Status (kp_KCP s1)) \<longrightarrow> (\<exists>w. remediation_checks env m s1 = (Ret True, w))" by blast
        have "?no v" using no1 v(1) by (rule rlog.trans)
        moreover have "kcp_Status (kp_KCP s1) = kcp_Status (kp_KCP s)" using rem by (simp add: remediation_of_def)
        ultimately have "?one t" using rem v(2,3,4) t by (intro exI [of _ s1] exI [of _ m] exI [of _ v] exI [of _ ok] exI [of _ m'] exI [of _ ok']) simp
        then show ?thesis ..
      qed
    qed (use no1 in simp)
  qed (use no0 in simp)
qed

lemma remediation_of_Machines:
  assumes "remediation_of env s s1 m" "distinct (map m_Name (kp_Machines s))"
  shows "\<exists>x \<in> set (kp_Machines s). m_Name x = m_Name m \<and> IsUnhealthyAndOwnerRemediated (Some x) \<and> time_IsZero (m_DeletionTimestamp x) \<and>
      target_members x = target_members m"
    and "length (kp_Machines s1) = length (kp_Machines s)" "HasDeletingMachine s1 = HasDeletingMachine s"
    and "HasHealthyMachineStillProvisioning s1 = HasHealthyMachineStillProvisioning s"
    and "healthy_member (kp_Machines s1) = healthy_member (kp_Machines s)" "IsEtcdManaged s1 = IsEtcdManaged s"
proof -
  obtain s0 where t0: "tidied s s0" and ms: "kp_Machines s1 = kp_Machines s0" and m: "m \<in> set (kp_Machines s0)" "IsUnhealthyAndOwnerRemediated (Some m)"
      "time_IsZero (m_DeletionTimestamp m)" and k: "kcp_Spec (kp_KCP s1) = kcp_Spec (kp_KCP s)"
    using assms(1) by (auto simp: remediation_of_def)
  note T = tidied_Machines [OF t0 assms(2)]
  obtain x where x: "x \<in> set (kp_Machines s)" "tidy x m" using T(3) m(1) by blast
  then show "\<exists>x \<in> set (kp_Machines s). m_Name x = m_Name m \<and> IsUnhealthyAndOwnerRemediated (Some x) \<and> time_IsZero (m_DeletionTimestamp x) \<and>
      target_members x = target_members m"
    using m tidy_same [OF x(2)] by (intro bexI [of _ x]) (auto simp: target_members_def fun_eq_iff)
  show "length (kp_Machines s1) = length (kp_Machines s)" using T(2) ms by simp
  have mem: "(\<exists>y \<in> set (kp_Machines s0). P y) \<longleftrightarrow> (\<exists>x \<in> set (kp_Machines s). P x)" if "\<And>x y. tidy x y \<Longrightarrow> P y = P x" for P
    using T(3,4) that by meson
  show "HasDeletingMachine s1 = HasDeletingMachine s"
    using mem [of "\<lambda>y. HasDeletionTimestamp (Some y)"] tidy_same(4) T(1) assms(2) ms
    by (simp add: HasDeletingMachine_def machines_Filter_is_filter filter_empty_conv)
  show "HasHealthyMachineStillProvisioning s1 = HasHealthyMachineStillProvisioning s"
    using mem [of "\<lambda>y. \<not> IsUnhealthy (Some y) \<and> \<not> HasNode (Some y)"] tidy_same(5,6) T(1) assms(2) ms
    by (simp add: HasHealthyMachineStillProvisioning_def HealthyMachines_def machines_Filter_is_filter distinct_map_filter filter_empty_conv)
  show "healthy_member (kp_Machines s1) = healthy_member (kp_Machines s)"
    using mem [of "\<lambda>y. on_node e y \<and> conditions_IsTrue (m_Conditions y) MachineEtcdMemberHealthyCondition" for e] tidy_same(7,8) ms
    by (simp add: healthy_member_def list_ex_iff fun_eq_iff)
  show "IsEtcdManaged s1 = IsEtcdManaged s" using k by (simp add: IsEtcdManaged_def)
qed

section \<open>A control plane with three Machines\<close>

definition cp_machine :: "string \<Rightarrow> int \<Rightarrow> string \<Rightarrow> condition list \<Rightarrow> machine" where
  "cp_machine name created node cs =
     (let m = sample_machine name created None (Some ''v1.31.0'')
      in m\<lparr>m_Status := (m_Status m)\<lparr>st_NodeRef := Some (empty_reference\<lparr>ref_Name := node\<rparr>), st_Conditions := cs\<rparr>\<rparr>)"

definition cp_pb :: "64 word \<Rightarrow> string \<Rightarrow> pb_member" where
  "cp_pb i name = \<lparr>pb_ID = i, pb_Name = name, pb_PeerURLs = [], pb_ClientURLs = [], pb_IsLearner = False\<rparr>"

definition sample_kcp_env :: "nat kcp_env" where
  "sample_kcp_env = \<lparr>ke_GetWorkloadCluster = (\<lambda>_. Inr ()), ke_Nodes = (\<lambda>_ l. Inr (if l = ''node-role.kubernetes.io/control-plane'' then [''n1'', ''n2'', ''n3''] else [])),
     ke_Dial = (\<lambda>_ _. Inr 1), ke_MemberList = (\<lambda>_ _. Inr (7, [cp_pb 1 ''n1'', cp_pb 2 ''n2'', cp_pb 3 ''n3''])), ke_AlarmList = (\<lambda>_ _. Inr []),
     ke_MoveLeader = (\<lambda>_ _ _. Inr ()), ke_MemberRemove = (\<lambda>_ _ _. Inr ()), ke_NewHelper = (\<lambda>_ _. None), ke_Patch = (\<lambda>_ _ _. Inr ()),
     ke_Delete = (\<lambda>_ _. Done), ke_Clone = (\<lambda>_ i. Inr (empty_reference\<lparr>ref_Name := ci_Name i\<rparr>)), ke_CreateConfig = (\<lambda>_ _ _. Inr ''uid''),
     ke_ApplyMachine = (\<lambda>_ _. Inr ()), ke_DeleteObject = (\<lambda>_ _. Done), ke_Workload = (\<lambda>_ _. Inr ()), ke_GenerateName = (\<lambda>_ _ _ n. Inr (n @ ''-x'')),
     ke_GenerateInfraName = (\<lambda>_ n. n), ke_DeprecatedNaming = False, ke_MarshalConfig = (\<lambda>_. Inr []),
     ke_Marshal = (\<lambda>_. Inr []), ke_Unmarshal = (\<lambda>_. Inl []), ke_ErrorText = (\<lambda>_. []), ke_IntValue = (\<lambda>v. case v of IntVal i \<Rightarrow> i | StrVal _ \<Rightarrow> 0),
     ke_Now = (\<lambda>n. 100 + int n), ke_Order = (\<lambda>ms. ms), ke_Range = (\<lambda>xs. xs), ke_ValidLabel = (\<lambda>_. True), ke_semver = sample_lib\<lparr>lib_ParseTolerant := (\<lambda>_. Inr (sv_of 1 31 0))\<rparr>, ke_meta = sample_meta_lib\<rparr>"

definition sample_kcp :: "nat kubeadm_control_plane" where
  "sample_kcp = \<lparr>kcp_Meta = m_Meta (sample_machine ''cp'' 1 None None),
     kcp_Spec = \<lparr>ks_Replicas = Some 3, ks_Version = ''v1.31.0'',
       ks_MachineTemplate = \<lparr>kt_Labels = None, kt_Annotations = None, kt_InfrastructureRef = empty_reference, kt_NodeDrainTimeout = None,
         kt_NodeVolumeDetachTimeout = None, kt_NodeDeletionTimeout = None\<rparr>,
       ks_KubeadmConfigSpec = \<lparr>kc_ClusterConfiguration = None, kc_InitConfiguration = None, kc_JoinConfiguration = None, kc_Other = None\<rparr>,
       ks_RolloutBefore = None, ks_RolloutAfter = None,
       ks_RolloutStrategy = Some \<lparr>kro_Type = ''RollingUpdate'', kro_RollingUpdate = Some \<lparr>kru_MaxSurge = Some (IntVal 1)\<rparr>\<rparr>,
       ks_RemediationStrategy = Some \<lparr>krs_MaxRetry = Some 2, krs_RetryPeriod = 0, krs_MinHealthyPeriod = None\<rparr>, ks_MachineNamingStrategy = None\<rparr>,
     kcp_Status = \<lparr>kst_Selector = [], kst_Replicas = 3, kst_Version = None, kst_UpdatedReplicas = 3, kst_ReadyReplicas = 2, kst_UnavailableReplicas = 1,
       kst_Initialized = True, kst_Ready = True, kst_FailureReason = [], kst_FailureMessage = None, kst_ObservedGeneration = 1, kst_Conditions = [],
       kst_LastRemediation = None, kst_V1Beta2 = None\<rparr>\<rparr>"

definition sample_unhealthy :: machine where
  "sample_unhealthy = cp_machine ''m3'' 3 ''n3''
     [FalseCondition MachineHealthCheckSucceededCondition [] [] [], FalseCondition MachineOwnerRemediatedCondition [] [] []]"

definition sample_kcp_state :: "machine \<Rightarrow> nat kcp_state" where
  "sample_kcp_state m =
     \<lparr>kp_KCP = sample_kcp,
      kp_Cluster = \<lparr>clv_Name = ''c'', clv_Namespace = ''default'', clv_UID = ''c'', clv_ControlPlaneRef = None, kcl_FailureDomains = []\<rparr>,
      kp_Machines = [cp_machine ''m1'' 1 ''n1'' [TrueCondition MachineEtcdMemberHealthyCondition],
        cp_machine ''m2'' 2 ''n2'' [TrueCondition MachineEtcdMemberHealthyCondition], m],
      kp_outdated = [], kp_PreflightCheckResults = \<lparr>pr_HasDeletingMachine = False, pr_ControlPlaneComponentsNotHealthy = False, pr_EtcdClusterNotHealthy = False\<rparr>,
      kp_workload = False, kp_requests = []\<rparr>"

section \<open>Properties\<close>

abbreviation new_requests :: "'u kcp_state \<Rightarrow> 'u kcp_state \<Rightarrow> kcp_request list" where
  "new_requests s t \<equiv> drop (kreq s) (kp_requests t)"

lemma adds_new: "kcp_adds P s t \<Longrightarrow> list_all P (new_requests s t)"
  by (auto simp: logged_def)

lemma adds_new_then: "kcp_adds P s u \<Longrightarrow> kp_requests t = kp_requests u @ qs \<Longrightarrow> \<exists>rs. new_requests s t = rs @ qs \<and> list_all P rs"
  by (auto simp: logged_def)

text \<open>
  C6: A reconciliation of unhealthy Machines deletes at most one Machine, and only one that a health check has found
  unhealthy, that its owner is to remediate and that is not being deleted. If the control plane is initialized,
  then there are at least two Machines, none of them is being deleted and every healthy one has a node. If moreover
  etcd runs on the Machines, then of the members that etcd reports those that are left and healthy are more than
  half of those that are left, so that they meet every majority of the members before the deletion.
\<close>

theorem remediation_keeps_quorum:
  assumes run: "kcp_reconcileUnhealthyMachines env s = (r, t)"
    and names: "distinct (map m_Name (kp_Machines s))" and order: "\<And>ms. set (ke_Order env ms) = set ms"
    and deleted: "DeleteControlPlaneMachine name ok \<in> set (new_requests s t)"
  shows "length (filter changes_machines (new_requests s t)) = 1 \<and>
    (\<exists>m \<in> set (kp_Machines s). m_Name m = name \<and> IsUnhealthyAndOwnerRemediated (Some m) \<and> time_IsZero (m_DeletionTimestamp m) \<and>
      (kst_Initialized (kcp_Status (kp_KCP s)) \<longrightarrow>
        1 < length (kp_Machines s) \<and> \<not> HasDeletingMachine s \<and> \<not> HasHealthyMachineStillProvisioning s \<and>
        (IsEtcdManaged s \<longrightarrow> (\<exists>ep pbs. reported env (kreq s) ep pbs \<and>
          length (target_members m (map pb_Name pbs)) < 2 * length (survivors (kp_Machines s) m (map pb_Name pbs)) \<and>
          (distinct (map pb_Name pbs) \<longrightarrow> (\<forall>Q. majority (map pb_Name pbs) Q \<longrightarrow> set (survivors (kp_Machines s) m (map pb_Name pbs)) \<inter> Q \<noteq> {}))))))"
proof -
  have "\<not> kcp_adds (\<lambda>q. \<not> changes_machines q) s t" using adds_new deleted by (fastforce simp: list_all_iff)
  then obtain s1 m u ok m' ok' where rem: "remediation_of env s s1 m" and u: "kcp_adds (\<lambda>q. \<not> changes_machines q) s u"
      and t: "kp_requests t = kp_requests u @ [DeleteControlPlaneMachine (m_Name m) ok, PatchControlPlaneMachine m' ok']"
      and checks: "kst_Initialized (kcp_Status (kp_KCP s)) \<Longrightarrow> \<exists>v. remediation_checks env m s1 = (Ret True, v)"
    using reconcile_unhealthy_log [OF run names order] by blast
  obtain rs where rs: "new_requests s t = rs @ [DeleteControlPlaneMachine (m_Name m) ok, PatchControlPlaneMachine m' ok']"
      and no: "list_all (\<lambda>q. \<not> changes_machines q) rs" using adds_new_then [OF u t] by blast
  have "length (filter changes_machines (new_requests s t)) = 1" "name = m_Name m"
    using rs no deleted by (auto simp: list_all_iff filter_empty_conv)
  note M = remediation_of_Machines [OF rem names]
  obtain x where x: "x \<in> set (kp_Machines s)" "m_Name x = m_Name m" "IsUnhealthyAndOwnerRemediated (Some x)" "time_IsZero (m_DeletionTimestamp x)"
      "target_members x = target_members m" using M(1) by blast
  have sv: "survivors (kp_Machines s1) m = survivors (kp_Machines s) x" using M(5) x(5) by (intro ext) (simp add: survivors_def)
  have "1 < length (kp_Machines s) \<and> \<not> HasDeletingMachine s \<and> \<not> HasHealthyMachineStillProvisioning s \<and>
      (IsEtcdManaged s \<longrightarrow> (\<exists>ep pbs. reported env (kreq s) ep pbs \<and>
        length (target_members x (map pb_Name pbs)) < 2 * length (survivors (kp_Machines s) x (map pb_Name pbs))))"
    if "kst_Initialized (kcp_Status (kp_KCP s))"
  proof -
    obtain v where "remediation_checks env m s1 = (Ret True, v)" using checks [OF \<open>kst_Initialized _\<close>] by blast
    moreover have "kreq s \<le> kreq s1" using rem by (simp add: remediation_of_def)
    ultimately show ?thesis using checks_Ret [OF _ order, of m s1 v] M x(5) sv reported_later by metis
  qed
  then show ?thesis
    using \<open>length _ = 1\<close> \<open>name = m_Name m\<close> x majority_after_removal survivors_majority by (metis (no_types, lifting))
qed

fun deletion_of :: "string \<Rightarrow> kcp_request \<Rightarrow> bool" where
  "deletion_of name (DeleteControlPlaneMachine n _) = (n = name)"
| "deletion_of name _ = False"

lemma deletion_of_iff: "deletion_of name q \<longleftrightarrow> (\<exists>ok. q = DeleteControlPlaneMachine name ok)"
  by (cases q) auto

lemma sample_order: "set (ke_Order sample_kcp_env ms) = set ms"
  by (simp add: sample_kcp_env_def)

lemma sample_names: "distinct (map m_Name (kp_Machines (sample_kcp_state m))) \<longleftrightarrow> m_Name m \<noteq> ''m1'' \<and> m_Name m \<noteq> ''m2''"
  by (auto simp: sample_kcp_state_def cp_machine_def sample_machine_def Let_def)

lemma sample_deletes_m3:
  "list_ex (deletion_of ''m3'') (new_requests (sample_kcp_state sample_unhealthy) (snd (kcp_reconcileUnhealthyMachines sample_kcp_env (sample_kcp_state sample_unhealthy))))"
  by code_simp

theorem remediation_keeps_quorum_witness:
  "\<exists>r t. kcp_reconcileUnhealthyMachines sample_kcp_env (sample_kcp_state sample_unhealthy) = (r, t) \<and>
     length (filter changes_machines (new_requests (sample_kcp_state sample_unhealthy) t)) = 1 \<and>
     (\<exists>ep pbs. reported sample_kcp_env 0 ep pbs)"
proof -
  let ?s = "sample_kcp_state sample_unhealthy"
  obtain r t where run: "kcp_reconcileUnhealthyMachines sample_kcp_env ?s = (r, t)" by fastforce
  have n: "distinct (map m_Name (kp_Machines ?s))" by (simp add: sample_names sample_unhealthy_def cp_machine_def sample_machine_def Let_def)
  obtain ok where d: "DeleteControlPlaneMachine ''m3'' ok \<in> set (new_requests ?s t)"
    using sample_deletes_m3 run by (auto simp: list_ex_iff deletion_of_iff)
  have "kst_Initialized (kcp_Status (kp_KCP ?s))" "IsEtcdManaged ?s" "kreq ?s = 0"
    by (simp_all add: sample_kcp_state_def sample_kcp_def IsEtcdManaged_def)
  then show ?thesis
    using remediation_keeps_quorum [OF run n sample_order d] run by (intro exI [of _ r] exI [of _ t]) auto
qed

end
