(* ===== verification/Kcp_Members.thy ===== *)
theory Kcp_Members
  imports Kcp_Safety
begin

text \<open>
  The members that the controller of a kubeadm control plane removes from etcd: stale ones, and the member of a
  Machine that is about to terminate before its hook is removed.
\<close>

section \<open>Removing members of etcd\<close>

text \<open>A request to remove a member with the given name, among the members that etcd has reported.\<close>

definition removal :: "'u kcp_env \<Rightarrow> nat \<Rightarrow> string \<Rightarrow> bool \<Rightarrow> kcp_request \<Rightarrow> bool" where
  "removal env k name ok q \<longleftrightarrow> (\<exists>ep i pbs pb. q = RemoveEtcdMember ep i ok \<and> reported env k ep pbs \<and> pb \<in> set pbs \<and> pb_Name pb = name \<and> pb_ID pb = i)"

lemma removal_later: "removal env j name ok q \<Longrightarrow> k \<le> j \<Longrightarrow> removal env k name ok q"
  unfolding removal_def using reported_later by blast

lemma removal_not_reads: "removal env k name ok q \<Longrightarrow> \<not> reads q"
  by (auto simp: removal_def)

lemma MemberForName_reported:
  assumes "MemberForName ms name = Some mem" "map em_Name ms = map pb_Name pbs" "map em_ID ms = map pb_ID pbs"
  shows "\<exists>pb \<in> set pbs. pb_Name pb = name \<and> pb_ID pb = em_ID mem"
proof -
  obtain i where i: "i < length ms" "ms ! i = mem" "em_Name mem = name"
    using assms(1) by (auto simp: MemberForName_def find_Some_iff)
  have "length ms = length pbs" using assms(2) by (metis length_map)
  then have "pb_Name (pbs ! i) = name" "pb_ID (pbs ! i) = em_ID mem"
    using i assms(2,3) by (metis nth_map)+
  then show ?thesis using i \<open>length ms = length pbs\<close> by (metis nth_mem)
qed

lemma MemberForName_None: "MemberForName ms name = None \<longleftrightarrow> name \<notin> set (map em_Name ms)"
  by (auto simp: MemberForName_def find_None_iff)

lemma removeMemberForNode_log:
  assumes "removeMemberForNode env name s = (r, t)"
  shows "asks reads s t \<and> (r = Ret () \<longrightarrow> (\<exists>ep pbs. reported env (kreq s) ep pbs \<and> name \<notin> set (map pb_Name pbs))) \<or>
    (\<exists>u q ok. asks reads s u \<and> t = krec q u \<and> removal env (kreq s) name ok q \<and> (r = Ret () \<longrightarrow> ok))"
proof -
  obtain r1 u1 where 1: "getControlPlaneNodes env s = (r1, u1)" by (cases "getControlPlaneNodes env s")
  have s1: "asks reads s u1" by (rule keepsD [OF keeps_reads_nodes 1])
  show ?thesis
  proof (cases "\<exists>nodes. r1 = Ret nodes \<and> \<not> length nodes < 2")
    case False
    then have "t = u1 \<and> r \<noteq> Ret ()" using assms 1 by (cases r1) (auto simp: removeMemberForNode_def mlift_def)
    then show ?thesis using s1 by simp
  next
    case True
    then obtain nodes where n: "r1 = Ret nodes" "\<not> length nodes < 2" by blast
    obtain r2 u2 where 2: "forFirstAvailableNode env (filter (\<lambda>n. n \<noteq> name) nodes) u1 = (r2, u2)"
      by (cases "forFirstAvailableNode env (filter (\<lambda>n. n \<noteq> name) nodes) u1")
    have s2: "asks reads s u2" using s1 by (rule klog.trans) (rule keepsD [OF keeps_reads_available 2])
    show ?thesis
    proof (cases r2)
      case (Ret c)
      obtain r3 u3 where 3: "etcd_Members env c u2 = (r3, u3)" by (cases "etcd_Members env c u2")
      have s3: "asks reads s u3" using s2 by (rule klog.trans) (rule keepsD [OF keeps_reads_members 3])
      show ?thesis
      proof (cases r3)
        case ms: (Ret ms)
        have "kreq s \<le> kreq u2" using s2 by (rule klog.longer)
        then obtain pbs where pbs: "reported env (kreq s) (ec_Endpoint c) pbs" "map em_Name ms = map pb_Name pbs" "map em_ID ms = map pb_ID pbs"
          using etcd_Members_Ret [of env c u2 ms u3] 3 ms reported_later by blast
        show ?thesis
        proof (cases "MemberForName ms name")
          case None
          then have "t = u3" using assms 1 n 2 Ret 3 ms by (simp add: removeMemberForNode_def kwrap_def mret_def)
          then show ?thesis using s3 pbs None by (auto simp: MemberForName_None)
        next
          case (Some mem)
          then have "\<exists>ok. t = krec (RemoveEtcdMember (ec_Endpoint c) (em_ID mem) ok) u3 \<and> (r = Ret () \<longrightarrow> ok)"
            using assms 1 n 2 Ret 3 ms
            by (auto simp: removeMemberForNode_def kwrap_def etcd_RemoveMember_def kask_def split: sum.splits)
          moreover have "removal env (kreq s) name ok (RemoveEtcdMember (ec_Endpoint c) (em_ID mem) ok)" for ok
            using MemberForName_reported [OF Some pbs(2,3)] pbs(1) by (auto simp: removal_def)
          ultimately show ?thesis using s3 by blast
        qed
      qed (use assms 1 n 2 Ret 3 s3 in \<open>auto simp: removeMemberForNode_def kwrap_def\<close>)
    qed (use assms 1 n 2 s2 in \<open>auto simp: removeMemberForNode_def kwrap_def\<close>)
  qed
qed

definition stale_removal :: "'u kcp_env \<Rightarrow> string list \<Rightarrow> nat \<Rightarrow> kcp_request \<Rightarrow> bool" where
  "stale_removal env nodeNames k q \<longleftrightarrow> reads q \<or> (\<exists>name ok. name \<noteq> [] \<and> name \<notin> set nodeNames \<and> removal env k name ok q)"

lemma stale_removal_later: "stale_removal env ns j q \<Longrightarrow> k \<le> j \<Longrightarrow> stale_removal env ns k q"
  unfolding stale_removal_def using removal_later by blast

lemma asks_stale_later: "asks (stale_removal env ns (kreq u)) u t \<Longrightarrow> asks (stale_removal env ns (kreq s)) s u \<Longrightarrow> asks (stale_removal env ns (kreq s)) s t"
  by (rule klog.trans, assumption) (auto intro: klog.mono stale_removal_later dest: klog.longer)

lemma asks_reads_stale: "asks reads s t \<Longrightarrow> asks (stale_removal env ns (kreq s)) s t"
  by (rule klog.mono, assumption) (simp add: stale_removal_def)

text \<open>Steps that only remove stale members compose.\<close>

definition prunes :: "'u kcp_env \<Rightarrow> string list \<Rightarrow> 'u kcp_state \<Rightarrow> 'u kcp_state \<Rightarrow> bool" where
  "prunes env ns s t \<longleftrightarrow> asks (stale_removal env ns (kreq s)) s t"

lemma prunes_trans: "prunes env ns s t \<Longrightarrow> prunes env ns t u \<Longrightarrow> prunes env ns s u"
  unfolding prunes_def by (rule asks_stale_later)

lemma keeps_reads_prunes: "keeps (asks reads) m \<Longrightarrow> keeps (prunes env ns) m"
  by (auto simp: keeps_def prunes_def intro: asks_reads_stale)

lemma keeps_prunes_bind: "keeps (prunes env ns) m \<Longrightarrow> (\<And>x. keeps (prunes env ns) (f x)) \<Longrightarrow> keeps (prunes env ns) (mbind m f)"
  by (rule keeps_mbind) (rule prunes_trans)

lemma removeMember_prunes:
  assumes "name \<noteq> []" "name \<notin> set ns"
  shows "keeps (prunes env ns) (removeMemberForNode env name)"
  unfolding keeps_def
proof
  fix s
  obtain r t where run: "removeMemberForNode env name s = (r, t)" by (cases "removeMemberForNode env name s")
  have "asks reads s u \<Longrightarrow> removal env (kreq s) name ok q \<Longrightarrow> prunes env ns s (krec q u)" for u q ok
  proof -
    assume "asks reads s u" "removal env (kreq s) name ok q"
    then have "stale_removal env ns (kreq s) q" using assms unfolding stale_removal_def by blast
    then show ?thesis unfolding prunes_def by (intro klog.trans [OF asks_reads_stale [OF \<open>asks reads s u\<close>]]) simp
  qed
  then show "prunes env ns s (snd (removeMemberForNode env name s))"
    using removeMemberForNode_log [OF run] run asks_reads_stale by (auto simp: prunes_def)
qed

lemma keeps_prunes_ret: "keeps (prunes env ns) (mret x)"
  by (rule keeps_reads_prunes) (rule klog.returns)

lemma remove_stale_prunes: "keeps (prunes env ns) (remove_stale env ns ms)"
proof (induction ms)
  case (Cons m ms)
  then show ?case
    by (auto intro!: keeps_prunes_bind [OF keeps_kattempt [OF removeMember_prunes]] keeps_prunes_bind [OF Cons] keeps_prunes_ret)
qed (simp only: remove_stale.simps reconcile_members_loop.simps keeps_prunes_ret)

lemma reconcileEtcdMember_prunes: "keeps (prunes env ns) (reconcileEtcdMember env ns n)"
  unfolding reconcileEtcdMember_def
proof (rule keeps_prunes_bind)
  show "keeps (prunes env ns) (kattempt (forFirstAvailableNode env [n]))"
    by (intro keeps_reads_prunes keeps_kattempt keeps_reads_available)
  have members: "keeps (prunes env ns) (kattempt (etcd_Members env c))" for c
    by (intro keeps_reads_prunes keeps_kattempt keeps_reads_members)
  show "keeps (prunes env ns) (case r of Inl _ \<Rightarrow> mret ([], []) | Inr etcdClient \<Rightarrow>
      mbind (kattempt (etcd_Members env etcdClient)) (\<lambda>r. case r of Inl _ \<Rightarrow> mret ([], []) | Inr members \<Rightarrow> remove_stale env ns members))" for r
    by (cases r) (auto intro!: keeps_prunes_bind [OF members] remove_stale_prunes keeps_prunes_ret split: sum.splits)
qed

lemma members_loop_prunes: "keeps (prunes env ns) (reconcile_members_loop env ns names)"
proof (induction names)
  case (Cons n names)
  then show ?case
    by (auto intro!: keeps_prunes_bind [OF reconcileEtcdMember_prunes] keeps_prunes_bind [OF Cons] keeps_prunes_ret)
qed (simp only: remove_stale.simps reconcile_members_loop.simps keeps_prunes_ret)

lemma ReconcileEtcdMembers_prunes: "keeps (prunes env ns) (ReconcileEtcdMembers env ns)"
  unfolding ReconcileEtcdMembers_def
  by (intro keeps_prunes_bind members_loop_prunes) (auto intro!: keeps_reads_prunes klog.returns)

lemma collect_nodes_Some:
  "collect_nodes ms = Some ns \<Longrightarrow> (\<forall>m \<in> set ms. HasNode (Some m)) \<and> (\<forall>n. n \<in> set ns \<longleftrightarrow> (\<exists>m \<in> set ms. on_node n m))"
proof (induction ms arbitrary: ns)
  case (Cons m ms)
  then show ?case by (fastforce simp: HasNode_def on_node_def split: option.splits)
qed simp

lemma reconcileEtcdMembers_log:
  assumes "reconcileEtcdMembers env s = (r, t)" "\<And>ms. set (ke_Order env ms) = set ms"
  shows "asks (\<lambda>_. False) s t \<or>
    IsEtcdManaged s \<and> \<not> conditions_IsTrue (kst_Conditions (kcp_Status (kp_KCP s))) EtcdClusterHealthyCondition \<and>
    (\<exists>ns. prunes env ns s t \<and> (\<forall>m \<in> set (kp_Machines s). HasNode (Some m)) \<and> (\<forall>n. n \<in> set ns \<longleftrightarrow> (\<exists>m \<in> set (kp_Machines s). on_node n m)))"
proof (cases "t = s")
  case False
  then obtain ns where c: "collect_nodes (ke_Order env (kp_Machines s)) = Some ns" and g: "IsEtcdManaged s"
      "\<not> conditions_IsTrue (kst_Conditions (kcp_Status (kp_KCP s))) EtcdClusterHealthyCondition"
      and run: "mbind (kwrap ''cannot get remote client to workload cluster'' (kcp_GetWorkloadCluster env)) (\<lambda>_.
               mbind (kwrap ''failed attempt to reconcile etcd members'' (ReconcileEtcdMembers env ns)) (\<lambda>_. mret ())) s = (r, t)"
    using assms(1) by (auto simp: reconcileEtcdMembers_def split: if_splits option.splits)
  have "prunes env ns s t" using run
    by (rule keepsD [rotated]) (intro keeps_prunes_bind keeps_kwrap ReconcileEtcdMembers_prunes keeps_reads_prunes keeps_workload klog.returns; simp)
  then show ?thesis using g collect_nodes_Some [OF c] assms(2) [of "kp_Machines s"] by (intro disjI2 conjI exI [of _ ns]) auto
qed (simp add: klog.refl)

text \<open>
  C9: Reconciling the members of etcd changes no object and removes a member only if etcd runs on the Machines, is not
  known to be healthy and every Machine has a node. The member has been reported by etcd with a name, and this is
  the name of no node of a Machine: no member of a Machine is ever removed.
\<close>

theorem only_stale_members_removed:
  assumes run: "reconcileEtcdMembers env s = (r, t)" and order: "\<And>ms. set (ke_Order env ms) = set ms"
    and removed: "RemoveEtcdMember ep i ok \<in> set (new_requests s t)"
  shows "same_objects s t \<and> IsEtcdManaged s \<and>
    \<not> conditions_IsTrue (kst_Conditions (kcp_Status (kp_KCP s))) EtcdClusterHealthyCondition \<and>
    (\<forall>m \<in> set (kp_Machines s). HasNode (Some m)) \<and>
    (\<exists>pbs pb. reported env (kreq s) ep pbs \<and> pb \<in> set pbs \<and> pb_ID pb = i \<and> pb_Name pb \<noteq> [] \<and>
       (\<forall>m \<in> set (kp_Machines s). \<not> on_node (pb_Name pb) m))"
proof -
  have "\<not> asks (\<lambda>_. False) s t" using removed by (auto simp: logged_def list_all_iff)
  then obtain ns where ns: "prunes env ns s t" "\<And>n. n \<in> set ns \<longleftrightarrow> (\<exists>m \<in> set (kp_Machines s). on_node n m)"
      and g: "IsEtcdManaged s" "\<not> conditions_IsTrue (kst_Conditions (kcp_Status (kp_KCP s))) EtcdClusterHealthyCondition"
        "\<forall>m \<in> set (kp_Machines s). HasNode (Some m)"
    using reconcileEtcdMembers_log [OF run order] by blast
  have "stale_removal env ns (kreq s) (RemoveEtcdMember ep i ok)"
    using ns(1) removed by (auto simp: prunes_def logged_def list_all_iff)
  then obtain pbs pb where "reported env (kreq s) ep pbs" "pb \<in> set pbs" "pb_ID pb = i" "pb_Name pb \<noteq> []" "pb_Name pb \<notin> set ns"
    by (auto simp: stale_removal_def removal_def)
  moreover have "same_objects s t" using ns(1) by (simp add: prunes_def logged_def)
  ultimately show ?thesis using g ns(2) by blast
qed

fun removal_request :: "64 word \<Rightarrow> kcp_request \<Rightarrow> bool" where
  "removal_request i (RemoveEtcdMember _ j _) = (j = i)"
| "removal_request i _ = False"

lemma removal_request_iff: "removal_request i q \<longleftrightarrow> (\<exists>ep ok. q = RemoveEtcdMember ep i ok)"
  by (cases q) auto

text \<open>One Machine is left on \<open>n1\<close>, and the member \<open>n3\<close> of a Machine that has gone.\<close>

definition sample_stale_env :: "nat kcp_env" where
  "sample_stale_env = sample_kcp_env\<lparr>ke_MemberList := (\<lambda>_ _. Inr (7, [cp_pb 1 ''n1'', cp_pb 3 ''n3'']))\<rparr>"

definition sample_stale_state :: "nat kcp_state" where
  "sample_stale_state = (sample_kcp_state sample_unhealthy)\<lparr>kp_Machines := [cp_machine ''m1'' 1 ''n1'' []]\<rparr>"

lemma sample_removes_n3:
  "list_ex (removal_request 3) (new_requests sample_stale_state (snd (reconcileEtcdMembers sample_stale_env sample_stale_state)))"
  by code_simp

theorem only_stale_members_removed_witness:
  "\<exists>r t ep pbs pb. reconcileEtcdMembers sample_stale_env sample_stale_state = (r, t) \<and>
     reported sample_stale_env 0 ep pbs \<and> pb \<in> set pbs \<and> pb_ID pb = 3 \<and>
     (\<forall>m \<in> set (kp_Machines sample_stale_state). \<not> on_node (pb_Name pb) m)"
proof -
  obtain r t where run: "reconcileEtcdMembers sample_stale_env sample_stale_state = (r, t)" by fastforce
  obtain ep ok where "RemoveEtcdMember ep 3 ok \<in> set (new_requests sample_stale_state t)"
    using sample_removes_n3 run by (auto simp: list_ex_iff removal_request_iff)
  moreover have "kreq sample_stale_state = 0" by (simp add: sample_stale_state_def sample_kcp_state_def)
  moreover have "set (ke_Order sample_stale_env ms) = set ms" for ms by (simp add: sample_stale_env_def sample_order)
  ultimately show ?thesis using only_stale_members_removed [OF run] run by metis
qed

section \<open>The hook of a Machine that terminates\<close>

fun patches_machine :: "kcp_request \<Rightarrow> bool" where
  "patches_machine (PatchControlPlaneMachine _ _) = True"
| "patches_machine _ = False"

text \<open>Reading from the workload cluster, or a request to etcd.\<close>

definition etcd_request :: "kcp_request \<Rightarrow> bool" where
  "etcd_request q \<longleftrightarrow> reads q \<or> (\<exists>ep i ok. q = MoveEtcdLeader ep i ok \<or> q = RemoveEtcdMember ep i ok)"

lemma etcd_request_neither: "etcd_request q \<Longrightarrow> \<not> patches_machine q" "etcd_request q \<Longrightarrow> \<not> changes_machines q"
  by (cases q; simp add: etcd_request_def reads_def)+

lemma reads_etcd_request: "reads q \<Longrightarrow> etcd_request q"
  by (simp add: etcd_request_def)

text \<open>Etcd has been asked with success to remove the member on a node, or has reported members without one on this node.\<close>

definition left_etcd :: "'u kcp_env \<Rightarrow> nat \<Rightarrow> string \<Rightarrow> kcp_request list \<Rightarrow> bool" where
  "left_etcd env k node rs \<longleftrightarrow>
     (\<exists>q \<in> set rs. removal env k node True q) \<or> (\<exists>ep pbs. reported env k ep pbs \<and> node \<notin> set (map pb_Name pbs))"

lemma left_etcd_later: "left_etcd env j node rs \<Longrightarrow> k \<le> j \<Longrightarrow> set rs \<subseteq> set rs' \<Longrightarrow> left_etcd env k node rs'"
  unfolding left_etcd_def using removal_later reported_later by blast

lemma RemoveEtcdMemberForMachine_log:
  assumes "RemoveEtcdMemberForMachine env (Some m) s = (r, t)"
  shows "asks etcd_request s t \<and>
    (\<forall>ref. r = Ret () \<and> st_NodeRef (m_Status m) = Some ref \<longrightarrow> left_etcd env (kreq s) (ref_Name ref) (new_requests s t))"
proof (cases "st_NodeRef (m_Status m)")
  case None
  then show ?thesis using assms by (simp add: RemoveEtcdMemberForMachine_def mret_def klog.refl)
next
  case (Some ref)
  then have run: "removeMemberForNode env (ref_Name ref) s = (r, t)" using assms by (simp add: RemoveEtcdMemberForMachine_def)
  have mono: "asks etcd_request s u" if "asks reads s u" for u
    using that by (rule klog.mono) (rule reads_etcd_request)
  show ?thesis using removeMemberForNode_log [OF run]
  proof
    assume "asks reads s t \<and> (r = Ret () \<longrightarrow> (\<exists>ep pbs. reported env (kreq s) ep pbs \<and> ref_Name ref \<notin> set (map pb_Name pbs)))"
    then show ?thesis using Some mono by (auto simp: left_etcd_def)
  next
    assume "\<exists>u q ok. asks reads s u \<and> t = krec q u \<and> removal env (kreq s) (ref_Name ref) ok q \<and> (r = Ret () \<longrightarrow> ok)"
    then obtain u q ok where u: "asks reads s u" and t: "t = krec q u" and q: "removal env (kreq s) (ref_Name ref) ok q" and ok: "r = Ret () \<longrightarrow> ok" by blast
    have "asks etcd_request s t" unfolding t
      by (rule klog.trans [OF mono [OF u]]) (use q in \<open>auto simp: removal_def etcd_request_def\<close>)
    moreover have "q \<in> set (new_requests s t)" using u by (auto simp: t krec_def logged_def)
    ultimately show ?thesis using q ok Some by (auto simp: left_etcd_def)
  qed
qed

lemma leave_etcd_log:
  assumes "leave_etcd env m s = (r, t)"
  shows "asks etcd_request s t \<and>
    (\<forall>ref. r = Ret () \<and> 1 < length (kp_Machines s) \<and> IsEtcdManaged s \<and> st_NodeRef (m_Status m) = Some ref \<longrightarrow>
       left_etcd env (kreq s) (ref_Name ref) (new_requests s t))"
proof (cases "1 < length (kp_Machines s) \<and> IsEtcdManaged s")
  case False
  then show ?thesis using assms by (auto simp: leave_etcd_def klog.refl)
next
  case True
  define forward where "forward u = (case Newest (machines_Filter [Not HasDeletionTimestamp] (kp_Machines u)) of None \<Rightarrow> mret ()
      | Some c \<Rightarrow> kwrap ''failed to move leadership to candidate Machine'' (ForwardEtcdLeadership env (Some m) (Some c)))" for u :: "'a kcp_state"
  obtain r1 u where u: "kcp_GetWorkloadCluster env s = (r1, u)" by (cases "kcp_GetWorkloadCluster env s")
  have su: "asks etcd_request s u" by (rule keepsD [OF keeps_workload u]) (rule reads_etcd_request)
  obtain r2 v where v: "forward u u = (r2, v)" by (cases "forward u u")
  have fw: "keeps (asks etcd_request) (forward u)"
    unfolding forward_def by (cases "Newest (machines_Filter [Not HasDeletionTimestamp] (kp_Machines u))")
      (simp_all add: klog.returns keeps_kwrap keeps_forward etcd_request_def)
  have sv: "asks etcd_request s v" using su fw v by (rule klog.after)
  obtain r3 w where w: "RemoveEtcdMemberForMachine env (Some m) v = (r3, w)" by (cases "RemoveEtcdMemberForMachine env (Some m) v")
  note R = RemoveEtcdMemberForMachine_log [OF w]
  have sw: "asks etcd_request s w" using sv conjunct1 [OF R] by (rule klog.trans)
  have run: "mbind (kwrap ''failed to remove etcd member for deleting Machine: failed to create client to workload cluster'' (kcp_GetWorkloadCluster env)) (\<lambda>_ s.
      mbind (forward s) (\<lambda>_. kwrap ''failed to remove etcd member for deleting Machine'' (RemoveEtcdMemberForMachine env (Some m))) s) s = (r, t)"
    using assms True unfolding leave_etcd_def forward_def by simp
  consider "t = u" "r \<noteq> Ret ()" | "t = v" "r \<noteq> Ret ()" | "t = w" "r = Ret () \<longrightarrow> r3 = Ret ()"
    using run u v w by (cases r1; cases r2; cases r3) (auto simp: kwrap_def)
  then show ?thesis
  proof cases
    case 3
    have "set (new_requests v w) \<subseteq> set (new_requests s w)" "kreq s \<le> kreq v"
      using klog.longer [OF sv] by (simp_all add: set_drop_subset_set_drop)
    then show ?thesis using 3 sw conjunct2 [OF R] left_etcd_later [of env "kreq v" _ "new_requests v w" "kreq s" "new_requests s w"] by blast
  qed (use su sv in auto)
qed


definition sample_terminating :: machine where
  "sample_terminating =
     (let m = cp_machine ''m3'' 3 ''n3'' [FalseCondition PreTerminateDeleteHookSucceededCondition ''WaitingExternalHook'' [] []]
      in m\<lparr>m_Meta := (m_Meta m)\<lparr>om_DeletionTimestamp := Some 50, om_Annotations := Some [PreTerminateHookCleanupAnnotation \<mapsto> []]\<rparr>\<rparr>)"

lemma sample_leaves_etcd: "fst (leave_etcd sample_kcp_env sample_terminating (sample_kcp_state sample_terminating)) = Ret ()"
  by code_simp

lemma sample_deleting: "DeletingMachines (sample_kcp_state sample_terminating) = [sample_terminating]"
proof -
  have "distinct (map m_Name (kp_Machines (sample_kcp_state sample_terminating)))"
    by (simp add: sample_names sample_terminating_def cp_machine_def sample_machine_def Let_def)
  then show ?thesis
    by (simp add: DeletingMachines_def machines_Filter_is_filter HasDeletionTimestamp_def time_IsZero_def sample_kcp_state_def
        sample_terminating_def cp_machine_def sample_machine_def Let_def)
qed

lemma sample_terminating_hooks:
  "map_lookup (m_Annotations sample_terminating) k = (if k = PreTerminateHookCleanupAnnotation then Some [] else None)"
  "hook_awaited sample_terminating" "\<not> machineHasOtherPreTerminateHooks sample_terminating"
  by (simp_all add: sample_terminating_def cp_machine_def sample_machine_def Let_def map_lookup_def hook_awaited_def conditions_Get_def
      FalseCondition_def machineHasOtherPreTerminateHooks_def)

lemma sample_hook_run:
  "\<exists>t. reconcilePreTerminateHook sample_kcp_env (sample_kcp_state sample_terminating) = (Ret deleteRequeueAfter, t) \<and>
     PatchControlPlaneMachine (without_hook sample_terminating) True \<in> set (kp_requests t)"
proof -
  let ?s = "sample_kcp_state sample_terminating"
  obtain u where u: "leave_etcd sample_kcp_env sample_terminating ?s = (Ret (), u)" using sample_leaves_etcd by (metis prod.collapse)
  have "HasDeletingMachine ?s" using sample_deleting by (simp add: HasDeletingMachine_def DeletingMachines_def)
  moreover have "\<exists>v. lib_ParseTolerant (ke_semver sample_kcp_env) (ks_Version (kcp_Spec (kp_KCP ?s))) = Inr v"
    by (simp add: sample_kcp_env_def)
  moreover have "OldestDeletionTimestamp [sample_terminating] = Some sample_terminating"
    by (simp add: OldestDeletionTimestamp_def SortedByDeletionTimestamp_def go_sort_def)
  moreover obtain t where p: "removePreTerminateHookAnnotationFromMachine sample_kcp_env sample_terminating u = (Ret (), t)"
      and t: "PatchControlPlaneMachine (without_hook sample_terminating) True \<in> set (kp_requests t)"
    using sample_terminating_hooks(1)
    by (simp add: removePreTerminateHookAnnotationFromMachine_def kwrap_def patch_control_plane_machine_def kask_def krec_def
        sample_kcp_env_def)
  ultimately have "reconcilePreTerminateHook sample_kcp_env ?s = (Ret deleteRequeueAfter, t)"
    using u sample_deleting sample_terminating_hooks
    by (auto simp: reconcilePreTerminateHook_def mlift_def deref_def mret_def)
  then show ?thesis using t by blast
qed


end
