(* ===== verification/Kcp_Scaling.thy ===== *)
theory Kcp_Scaling
  imports Kcp_Members
begin

text \<open>
  Scaling and rolling out a kubeadm control plane: what the preflight checks guarantee, that a reconciliation
  creates or deletes at most one Machine, and how often a remediation is retried.
\<close>

section \<open>Preflight checks\<close>

text \<open>A Machine that does not hold back an operation: it has a node, and each health condition is there and not known to be bad.\<close>

definition ready_machine :: "bool \<Rightarrow> machine \<Rightarrow> bool" where
  "ready_machine etcdManaged m \<longleftrightarrow> HasNode (Some m) \<and>
     (\<forall>t \<in> set (machine_health_conditions etcdManaged). \<exists>c. conditions_Get (m_Conditions m) t = Some c \<and>
        c_Status c \<noteq> ConditionFalse \<and> c_Status c \<noteq> ConditionUnknown)"

lemma check_conditions_errors:
  "fst (foldl (\<lambda>(errs, pr) t.
     case preflightCheckCondition kind m t of None \<Rightarrow> (errs, pr)
     | Some e \<Rightarrow> (errs @ [e], if t = MachineEtcdMemberHealthyCondition then pr\<lparr>pr_EtcdClusterNotHealthy := True\<rparr>
                             else pr\<lparr>pr_ControlPlaneComponentsNotHealthy := True\<rparr>)) (errs, pr) ts) =
   errs @ List.map_filter (preflightCheckCondition kind m) ts"
  by (induction ts arbitrary: errs pr) (auto simp: List.map_filter_simps split: option.splits)

definition machine_errors :: "bool \<Rightarrow> machine \<Rightarrow> string list" where
  "machine_errors etcdManaged m = fst (check_machine etcdManaged m ([], \<lparr>pr_HasDeletingMachine = False,
     pr_ControlPlaneComponentsNotHealthy = False, pr_EtcdClusterNotHealthy = False\<rparr>))"

lemma check_machine_errors: "fst (check_machine b m acc) = fst acc @ machine_errors b m"
  by (cases acc) (simp add: check_machine_def machine_errors_def check_conditions_errors split: option.splits)

lemma preflight_condition_None:
  "preflightCheckCondition kind m t = None \<longleftrightarrow>
     (\<exists>c. conditions_Get (m_Conditions m) t = Some c \<and> c_Status c \<noteq> ConditionFalse \<and> c_Status c \<noteq> ConditionUnknown)"
  by (auto simp: preflightCheckCondition_def split: option.splits)

lemma map_filter_Nil: "List.map_filter f xs = [] \<longleftrightarrow> (\<forall>x \<in> set xs. f x = None)"
  by (induction xs) (auto simp: List.map_filter_simps split: option.splits)

lemma machine_errors_Nil: "machine_errors b m = [] \<longleftrightarrow> ready_machine b m"
  by (simp add: machine_errors_def check_machine_def check_conditions_errors ready_machine_def HasNode_def map_filter_Nil
      preflight_condition_None split: option.splits)

lemma check_machines_errors: "fst (fold (check_machine b) ms acc) = fst acc @ concat (map (machine_errors b) ms)"
  by (induction ms arbitrary: acc) (simp_all add: check_machine_errors)

lemma preflight_passes:
  assumes "preflightChecks env ex s = (Ret res, t)" "\<And>ms. set (ke_Order env ms) = set ms"
  shows "result_IsZero res \<longleftrightarrow> kp_Machines s = [] \<or>
    (\<not> HasDeletingMachine s \<and> (\<forall>m \<in> set (kp_Machines s). m_Name m \<notin> set ex \<longrightarrow> ready_machine (IsEtcdManaged s) m))"
proof -
  let ?ms = "filter (\<lambda>m. m_Name m \<notin> set ex) (ke_Order env (kp_Machines s))"
  obtain errs pr where f: "fold (check_machine (IsEtcdManaged s)) ?ms ([], kp_PreflightCheckResults s) = (errs, pr)" by fastforce
  then have "errs = concat (map (machine_errors (IsEtcdManaged s)) ?ms)"
    using check_machines_errors [of "IsEtcdManaged s" ?ms "([], kp_PreflightCheckResults s)"] by simp
  then have "errs = [] \<longleftrightarrow> (\<forall>m \<in> set (kp_Machines s). m_Name m \<notin> set ex \<longrightarrow> ready_machine (IsEtcdManaged s) m)"
    using assms(2) [of "kp_Machines s"] by (auto simp: machine_errors_Nil)
  then show ?thesis using assms(1) f
    by (auto simp: preflightChecks_def result_IsZero_def Let_def split: if_splits)
qed

lemma preflight_state:
  assumes "preflightChecks env ex s = (r, t)"
  shows "kp_KCP t = kp_KCP s" "kp_Cluster t = kp_Cluster s" "kp_Machines t = kp_Machines s" "kp_outdated t = kp_outdated s"
    and "kcp_adds (\<lambda>q. \<not> changes_machines q) s t"
  using assms by (auto simp: preflightChecks_def Let_def krec_def logged_def same_shape_def split: if_splits prod.splits)

section \<open>Scaling down\<close>

lemma delete_for_scale_down_log:
  "delete_for_scale_down env m s = (r, t) \<Longrightarrow>
     \<exists>ok es. kp_requests t = kp_requests s @ DeleteControlPlaneMachine (m_Name m) ok # es \<and> list_all (\<lambda>q. \<not> changes_machines q) es \<and> same_shape s t"
  by (auto simp: delete_for_scale_down_def delete_control_plane_machine_def krec_def same_shape_def split: api_outcome.splits)

lemma scale_down_log:
  assumes "scaleDownControlPlane env outdated s = (r, t)" "\<And>ms. set (ke_Order env ms) = set ms"
  shows "kcp_adds (\<lambda>q. \<not> changes_machines q) s t \<or>
    (\<exists>m u ok es. selectMachineForScaleDown env s outdated = Ret m \<and> kcp_adds (\<lambda>q. \<not> changes_machines q) s u \<and>
       kp_requests t = kp_requests u @ DeleteControlPlaneMachine (m_Name m) ok # es \<and> list_all (\<lambda>q. \<not> changes_machines q) es \<and> same_shape u t \<and>
       (kp_Machines s = [] \<or> \<not> HasDeletingMachine s \<and> (\<forall>x \<in> set (kp_Machines s). m_Name x \<noteq> m_Name m \<longrightarrow> ready_machine (IsEtcdManaged s) x)))"
proof (cases "selectMachineForScaleDown env s outdated")
  case (Ret m)
  obtain r1 u1 where 1: "preflightChecks env [m_Name m] s = (r1, u1)" by (cases "preflightChecks env [m_Name m] s")
  note s1 = preflight_state(5) [OF 1]
  show ?thesis
  proof (cases "\<exists>res. r1 = Ret res \<and> result_IsZero res")
    case False
    then have "t = u1" using assms(1) Ret 1 by (cases r1) (auto simp: scaleDownControlPlane_def kwrap_def mlift_def mret_def)
    then show ?thesis using s1 by simp
  next
    case True
    then obtain res where res: "r1 = Ret res" "result_IsZero res" by blast
    have guard: "kp_Machines s = [] \<or> \<not> HasDeletingMachine s \<and> (\<forall>x \<in> set (kp_Machines s). m_Name x \<noteq> m_Name m \<longrightarrow> ready_machine (IsEtcdManaged s) x)"
      using preflight_passes [OF _ assms(2), of "[m_Name m]" s res u1] 1 res by simp
    obtain r2 u2 where 2: "kcp_GetWorkloadCluster env u1 = (r2, u2)" by (cases "kcp_GetWorkloadCluster env u1")
    have "kcp_adds (\<lambda>q. \<not> changes_machines q) u1 u2" by (rule keeps_adds [OF keeps_workload 2]) (rule reads_not_changes)
    with s1 have s2: "kcp_adds (\<lambda>q. \<not> changes_machines q) s u2" by (rule rlog.trans)
    define forward where "forward u = (if IsEtcdManaged u then ForwardEtcdLeadership env (Some m) (Newest (kp_Machines u)) else mret ())" for u :: "'a kcp_state"
    have fw: "keeps (asks (\<lambda>q. \<not> changes_machines q)) (forward u2)"
      by (simp add: forward_def klog.returns keeps_forward reads_not_changes)
    obtain r3 u3 where 3: "forward u2 u2 = (r3, u3)" by (cases "forward u2 u2")
    have "kcp_adds (\<lambda>q. \<not> changes_machines q) u2 u3" using fw 3 by (rule keeps_adds)
    with s2 have s3: "kcp_adds (\<lambda>q. \<not> changes_machines q) s u3" by (rule rlog.trans)
    have run: "mbind (kwrap ''failed to create client to workload cluster'' (kcp_GetWorkloadCluster env)) (\<lambda>_ s.
        mbind (forward s) (\<lambda>_. delete_for_scale_down env m) s) u1 = (r, t)"
      using assms(1) Ret 1 res unfolding scaleDownControlPlane_def forward_def by (simp add: kwrap_def mlift_def)
    consider "t = u2" | "t = u3" | "delete_for_scale_down env m u3 = (r, t)"
      using run 2 3 by (cases r2; cases r3) (auto simp: kwrap_def)
    then show ?thesis
    proof cases
      case 3
      then show ?thesis using delete_for_scale_down_log [OF 3] s3 Ret guard by blast
    qed (use s2 s3 in auto)
  qed
qed (use assms(1) in \<open>auto simp: scaleDownControlPlane_def kwrap_def mlift_def rlog.refl\<close>)

section \<open>Creating a Machine\<close>

text \<open>At most \<open>n\<close> of the new requests create or delete a Machine.\<close>

definition few :: "nat \<Rightarrow> 'u kcp_state \<Rightarrow> 'u kcp_state \<Rightarrow> bool" where
  "few n s t \<longleftrightarrow> same_shape s t \<and> (\<exists>rs. kp_requests t = kp_requests s @ rs \<and> length (filter changes_machines rs) \<le> n)"

lemma few_none: "kcp_adds (\<lambda>q. \<not> changes_machines q) s t \<Longrightarrow> few 0 s t"
  by (auto simp: few_def logged_def list_all_iff filter_empty_conv)

lemma few_trans: "few i s t \<Longrightarrow> few j t u \<Longrightarrow> i + j \<le> n \<Longrightarrow> few n s u"
  by (auto simp: few_def same_shape_def)

lemma few_mono: "few i s t \<Longrightarrow> i \<le> n \<Longrightarrow> few n s t"
  by (auto simp: few_def)

lemma few_refl [simp]: "few n s s"
  by (simp add: few_def)

lemma few_event: "few n s t \<Longrightarrow> few n s (krec (KcpEvent a b) t)"
  by (auto simp: few_def krec_def same_shape_def)

lemma few_frame: "few n s t \<Longrightarrow> kp_requests u = kp_requests t \<Longrightarrow> same_shape t u \<Longrightarrow> few n s u"
  by (auto simp: few_def same_shape_def)

lemma few_new: "few n s t \<Longrightarrow> length (filter changes_machines (new_requests s t)) \<le> n"
  by (auto simp: few_def)

lemma few_log: "few n s t \<Longrightarrow> kcp_adds (\<lambda>_. True) s t"
  by (auto simp: few_def logged_def list_all_iff)

lemma keeps_collect: "(\<And>x. keeps (asks P) (f x)) \<Longrightarrow> keeps (asks P) (kcp_collect f xs)"
proof (induction xs)
  case (Cons x xs)
  then show ?case by (auto intro!: keeps_asks)
qed (simp only: kcp_collect.simps klog.returns)

lemma keeps_cleanup: "keeps (asks (\<lambda>q. \<not> changes_machines q)) (cleanupFromGeneration env refs)"
  unfolding cleanupFromGeneration_def
  by (intro klog.bind keeps_collect) (auto simp: delete_generated_def intro!: keeps_asks)

lemma keeps_clean:
  "keeps (asks (\<lambda>q. \<not> changes_machines q)) (mbind (kattempt (cleanupFromGeneration env refs)) (\<lambda>r. mlift (Err (f r))))"
  by (intro keeps_asks keeps_cleanup)

lemma clone_infra_asks: "clone_infra env m s = (r, t) \<Longrightarrow> asks (\<lambda>q. \<not> changes_machines q) s t"
  by (auto simp: clone_infra_def Let_def kask_def split: sum.splits)

lemma generateKubeadmConfig_asks: "generateKubeadmConfig env spec name s = (r, t) \<Longrightarrow> asks (\<lambda>q. \<not> changes_machines q) s t"
  by (auto simp: generateKubeadmConfig_def Let_def mbind_def kwrap_def kask_def mret_def split: sum.splits)

lemma createMachine_few:
  "createMachine env m s = (r, t) \<Longrightarrow> few 1 s t"
  by (auto simp: createMachine_def mbind_def kwrap_def kask_def krec_def few_def same_shape_def on_kcp_def with_kcp_annotations_def split: sum.splits)

lemma not_created_frame: "kp_requests (not_created env reason e s) = kp_requests s" "same_shape s (not_created env reason e s)"
  by (simp_all add: not_created_def)

lemma kattempt_iff: "kattempt m s = (r, t) \<longleftrightarrow> (\<exists>r'. m s = (r', t) \<and> r = (case r' of Ret x \<Rightarrow> Ret (Inr x) | Err e \<Rightarrow> Ret (Inl e) | Panic \<Rightarrow> Panic))"
  by (auto simp: kattempt_def split: prod.splits go.splits)

lemma generate_machine_few:
  assumes "generate_machine env spec m ref s = (r, t)"
  shows "few 1 s t"
proof -
  have clean: "few n s u" if "few n s v"
      "mbind (kattempt (cleanupFromGeneration env refs)) (\<lambda>r. mlift (Err (f r))) (not_created env reason e v) = (r', u)" for n refs f reason e v r' u
    using few_trans [OF few_frame [OF that(1) not_created_frame] few_none [OF keeps_adds [OF keeps_clean that(2)]]] by simp
  obtain r1 u1 where 1: "generateKubeadmConfig env spec (m_Name m) s = (r1, u1)" by (cases "generateKubeadmConfig env spec (m_Name m) s")
  have s1: "few 0 s u1" by (rule few_none) (rule asks_adds [OF generateKubeadmConfig_asks [OF 1]])
  show ?thesis
  proof (cases r1)
    case (Ret bootstrapRef)
    obtain r2 u2 where 2: "createMachine env (with_refs m ref (Some bootstrapRef)) u1 = (r2, u2)"
      by (cases "createMachine env (with_refs m ref (Some bootstrapRef)) u1")
    have s2: "few 1 s u2" using few_trans [OF s1 createMachine_few [OF 2]] by simp
    show ?thesis
      using assms 1 Ret 2 s2 clean [OF s2] by (cases r2) (auto simp: generate_machine_def Let_def kattempt_def)
  next
    case (Err e)
    then show ?thesis using assms 1 clean [OF few_mono [OF s1]] by (auto simp: generate_machine_def Let_def kattempt_def)
  qed (use assms 1 few_mono [OF s1] in \<open>auto simp: generate_machine_def Let_def kattempt_def\<close>)
qed

lemma cloneConfigs_few:
  assumes "cloneConfigsAndGenerateMachine env spec fd s = (r, t)"
  shows "few 1 s t"
proof (cases "kcp_computeDesiredMachine env (kp_KCP s) (clv_Name (kp_Cluster s)) fd (kreq s) None")
  case (Ret m)
  obtain r1 u1 where 1: "clone_infra env m s = (r1, u1)" by (cases "clone_infra env m s")
  have s1: "few 0 s u1" by (rule few_none) (rule asks_adds [OF clone_infra_asks [OF 1]])
  show ?thesis
  proof (cases r1)
    case ref: (Ret ref)
    then have "generate_machine env spec m ref u1 = (r, t)"
      using assms Ret 1 by (simp add: cloneConfigsAndGenerateMachine_def kwrap_def mlift_def kattempt_def)
    then show ?thesis using few_trans [OF s1 generate_machine_few] by simp
  next
    case (Err e)
    then show ?thesis using assms Ret 1 few_frame [OF few_mono [OF s1] not_created_frame]
      by (auto simp: cloneConfigsAndGenerateMachine_def kwrap_def mlift_def kattempt_def)
  qed (use assms Ret 1 few_mono [OF s1] in \<open>auto simp: cloneConfigsAndGenerateMachine_def kwrap_def mlift_def kattempt_def\<close>)
qed (use assms in \<open>auto simp: cloneConfigsAndGenerateMachine_def kwrap_def mlift_def few_def\<close>)

lemma create_few:
  assumes "create_control_plane_machine env config reason what s = (r, t)"
  shows "few 1 s t"
  using assms cloneConfigs_few [of env _ "NextFailureDomainForScaleUp env s" s]
  by (auto simp: create_control_plane_machine_def intro: few_event split: go.splits prod.splits)

lemma scale_up_few:
  assumes "scaleUpControlPlane env s = (r, t)"
  shows "few 1 s t"
proof -
  obtain r1 u where u: "preflightChecks env [] s = (r1, u)" by (cases "preflightChecks env [] s")
  have s1: "few 0 s u" by (rule few_none) (rule preflight_state(5) [OF u])
  have "t = u \<or> (\<exists>config reason what. create_control_plane_machine env config reason what u = (r, t))"
    using assms u by (cases r1) (auto simp: scaleUpControlPlane_def split: if_splits)
  then show ?thesis using few_mono [OF s1, of 1] few_trans [OF s1 create_few] by auto
qed

section \<open>One operation at a time\<close>

lemma keeps_reconcile_workload: "keeps (asks (\<lambda>q. \<not> changes_machines q)) (reconcile_workload env what)"
  by (simp add: reconcile_workload_def keeps_kask)

lemma keeps_upgrade_workload: "keeps (asks (\<lambda>q. \<not> changes_machines q)) (upgrade_workload env)"
proof -
  have "keeps (asks (\<lambda>q. \<not> changes_machines q)) (update_workload env spec)" for spec
    unfolding update_workload_def by (intro keeps_asks keeps_reconcile_workload)
  then show ?thesis
    unfolding upgrade_workload_def
    by (intro klog.bind keeps_workload reads_not_changes) (auto simp: keeps_def klog.refl split: sum.splits)
qed

text \<open>There is room for another Machine: fewer Machines than desired, or fewer than a rollout may have at a time.\<close>

definition room_for_machine :: "'u kcp_env \<Rightarrow> 'u kcp_state \<Rightarrow> bool" where
  "room_for_machine env s \<longleftrightarrow> (\<exists>replicas. ks_Replicas (kcp_Spec (kp_KCP s)) = Some replicas \<and>
     (int (length (kp_Machines s)) < replicas \<or>
      (\<exists>strategy rollingUpdate maxSurge. ks_RolloutStrategy (kcp_Spec (kp_KCP s)) = Some strategy \<and> kro_RollingUpdate strategy = Some rollingUpdate \<and>
         kru_MaxSurge rollingUpdate = Some maxSurge \<and> i32 (int (length (kp_Machines s))) < i32 (replicas + i32 (ke_IntValue env maxSurge)))))"

fun creates_machine :: "kcp_request \<Rightarrow> bool" where
  "creates_machine (CreateControlPlaneMachine _ _) = True"
| "creates_machine _ = False"

lemma creates_changes: "creates_machine q \<Longrightarrow> changes_machines q"
  by (cases q) simp_all

text \<open>One change of the Machines, and a new Machine only if there is room for it.\<close>

definition one_change :: "'u kcp_env \<Rightarrow> 'u kcp_state \<Rightarrow> 'u kcp_state \<Rightarrow> bool" where
  "one_change env s t \<longleftrightarrow> few 1 s t \<and> kcp_adds (\<lambda>q. creates_machine q \<longrightarrow> room_for_machine env s) s t"

lemma one_change_room: "few 1 s t \<Longrightarrow> room_for_machine env s \<Longrightarrow> one_change env s t"
  by (auto simp: one_change_def few_def logged_def list_all_iff)

lemma one_change_none: "kcp_adds (\<lambda>q. \<not> changes_machines q) s t \<Longrightarrow> one_change env s t"
  unfolding one_change_def using creates_changes by (auto intro: few_mono [OF few_none] rlog.mono)

lemma room_shape: "same_shape s t \<Longrightarrow> room_for_machine env t = room_for_machine env s"
  by (simp add: same_shape_def room_for_machine_def)

lemma one_change_after:
  assumes "kcp_adds (\<lambda>q. \<not> changes_machines q) s t" "one_change env t u"
  shows "one_change env s u"
proof -
  have "same_shape s t" using assms(1) by (simp add: logged_def)
  then have "kcp_adds (\<lambda>q. creates_machine q \<longrightarrow> room_for_machine env s) t u"
    using assms(2) room_shape [of s t env] by (simp add: one_change_def)
  moreover have "kcp_adds (\<lambda>q. creates_machine q \<longrightarrow> room_for_machine env s) s t"
    using assms(1) creates_changes by (auto intro: rlog.mono)
  ultimately show ?thesis
    unfolding one_change_def using rlog.trans few_trans [OF few_none [OF assms(1)], of 1 u] assms(2) by (auto simp: one_change_def)
qed

lemma scale_down_one_change:
  assumes "scaleDownControlPlane env outdated s = (r, t)" "\<And>ms. set (ke_Order env ms) = set ms"
  shows "one_change env s t"
  using scale_down_log [OF assms]
proof
  assume "\<exists>m u ok es. selectMachineForScaleDown env s outdated = Ret m \<and> kcp_adds (\<lambda>q. \<not> changes_machines q) s u \<and>
       kp_requests t = kp_requests u @ DeleteControlPlaneMachine (m_Name m) ok # es \<and> list_all (\<lambda>q. \<not> changes_machines q) es \<and> same_shape u t \<and>
       (kp_Machines s = [] \<or> \<not> HasDeletingMachine s \<and> (\<forall>x \<in> set (kp_Machines s). m_Name x \<noteq> m_Name m \<longrightarrow> ready_machine (IsEtcdManaged s) x))"
  then obtain m u ok es where u: "kcp_adds (\<lambda>q. \<not> changes_machines q) s u"
      "kp_requests t = kp_requests u @ DeleteControlPlaneMachine (m_Name m) ok # es" "list_all (\<lambda>q. \<not> changes_machines q) es" "same_shape u t" by blast
  have "filter changes_machines es = []" using u(3) by (simp add: list_all_iff filter_empty_conv)
  then have "one_change env u t"
    using u(2-4) creates_changes by (auto simp: one_change_def few_def logged_def list_all_iff)
  with u(1) show ?thesis by (rule one_change_after)
qed (rule one_change_none)

lemma scale_one_change:
  assumes "scale_control_plane env s = (r, t)" "\<And>ms. set (ke_Order env ms) = set ms"
  shows "one_change env s t"
proof (cases "ks_Replicas (kcp_Spec (kp_KCP s))")
  case None
  then show ?thesis using assms(1) by (auto simp: scale_control_plane_def mlift_def deref_def intro: one_change_none rlog.refl)
next
  case (Some n)
  show ?thesis
  proof (cases "int (length (kp_Machines s)) < n")
    case True
    then have room: "room_for_machine env s" using Some by (auto simp: room_for_machine_def)
    let ?s = "on_kcp (kcp_conditions (\<lambda>cs. conditions_MarkFalse (ke_Now env (kreq s)) cs ''Available'' ''WaitingForKubeadmInit'' ConditionSeverityInfo [])) s"
    have "few 0 s ?s" by (rule few_none) (simp add: rlog.refl)
    moreover have "initializeControlPlane env ?s = (r, t) \<or> scaleUpControlPlane env s = (r, t)"
      using assms(1) Some True by (cases "length (kp_Machines s) = 0") (auto simp: scale_control_plane_def mlift_def deref_def Let_def)
    ultimately have "few 1 s t"
      using scale_up_few few_trans [OF _ create_few] by (fastforce simp: initializeControlPlane_def)
    then show ?thesis using room by (rule one_change_room)
  next
    case False
    then show ?thesis using assms(1) Some scale_down_one_change [OF _ assms(2)]
      by (auto simp: scale_control_plane_def mlift_def deref_def Let_def intro: one_change_none rlog.refl split: if_splits)
  qed
qed

lemma upgrade_one_change:
  assumes "upgradeControlPlane env outdated s = (r, t)" "\<And>ms. set (ke_Order env ms) = set ms"
  shows "one_change env s t"
proof -
  obtain r1 u where u: "upgrade_workload env s = (r1, u)" by (cases "upgrade_workload env s")
  have su: "kcp_adds (\<lambda>q. \<not> changes_machines q) s u" by (rule keeps_adds [OF keeps_upgrade_workload u])
  then have "same_shape s u" by (simp add: logged_def)
  then consider "t = s" | "t = u" | "room_for_machine env u" "scaleUpControlPlane env u = (r, t)" | "scaleDownControlPlane env outdated u = (r, t)"
    using assms(1) u
    by (cases r1) (auto simp: upgradeControlPlane_def mlift_def mret_def deref_def Let_def room_for_machine_def same_shape_def
        split: option.splits if_splits)
  then show ?thesis
  proof cases
    case 3
    then show ?thesis using one_change_after [OF su one_change_room [OF scale_up_few]] by blast
  next
    case 4
    then show ?thesis using one_change_after [OF su scale_down_one_change] assms(2) by blast
  qed (use one_change_none [OF su] one_change_none [OF rlog.refl] in auto)
qed

lemma roll_out_one_change:
  assumes "roll_out env s = (r, t)" "\<And>ms. set (ke_Order env ms) = set ms"
  shows "one_change env s t"
proof -
  have on: "kcp_adds (\<lambda>q. \<not> changes_machines q) s (on_kcp (kcp_conditions f) s)" for f by (simp add: rlog.refl)
  consider f where "upgradeControlPlane env (MachinesNeedingRollout s) (on_kcp (kcp_conditions f) s) = (r, t)"
    | f where "scale_control_plane env (on_kcp (kcp_conditions f) s) = (r, t)" | "scale_control_plane env s = (r, t)"
    using assms(1) unfolding roll_out_def Let_def by (simp only: split: if_split_asm)
  then show ?thesis
  proof cases
    case 1
    then show ?thesis using upgrade_one_change [OF _ assms(2)] one_change_after [OF on] by blast
  next
    case 2
    then show ?thesis using scale_one_change [OF _ assms(2)] one_change_after [OF on] by blast
  next
    case 3
    then show ?thesis using assms(2) by (rule scale_one_change)
  qed
qed

section \<open>Properties\<close>

lemma reconcile_unhealthy_one_change:
  assumes "kcp_reconcileUnhealthyMachines env s = (r, t)" "distinct (map m_Name (kp_Machines s))" "\<And>ms. set (ke_Order env ms) = set ms"
  shows "(\<exists>rs. kp_requests t = kp_requests s @ rs \<and> length (filter changes_machines rs) \<le> 1 \<and> list_all (\<lambda>q. \<not> creates_machine q) rs) \<and>
    ((\<exists>res. r = Ret res \<and> result_IsZero res) \<longrightarrow> kcp_adds (\<lambda>q. \<not> changes_machines q) s t)"
  using reconcile_unhealthy_log [OF assms]
proof
  assume "kcp_adds (\<lambda>q. \<not> changes_machines q) s t"
  moreover from this obtain rs where "kp_requests t = kp_requests s @ rs" "list_all (\<lambda>q. \<not> changes_machines q) rs" by (auto simp: logged_def)
  ultimately show ?thesis using creates_changes by (auto simp: list_all_iff filter_empty_conv intro!: exI [of _ rs])
next
  assume "\<exists>s1 m u ok m' ok'. remediation_of env s s1 m \<and> kcp_adds (\<lambda>q. \<not> changes_machines q) s u \<and>
       kp_requests t = kp_requests u @ [DeleteControlPlaneMachine (m_Name m) ok, PatchControlPlaneMachine m' ok'] \<and>
       (\<forall>x. r = Ret x \<longrightarrow> x = requeue_now) \<and>
       (kst_Initialized (kcp_Status (kp_KCP s)) \<longrightarrow> (\<exists>v. remediation_checks env m s1 = (Ret True, v)))"
  then obtain m u ok m' ok' where u: "kcp_adds (\<lambda>q. \<not> changes_machines q) s u"
      "kp_requests t = kp_requests u @ [DeleteControlPlaneMachine (m_Name m) ok, PatchControlPlaneMachine m' ok']"
      and r: "\<forall>x. r = Ret x \<longrightarrow> x = requeue_now" by blast
  obtain rs where rs: "kp_requests t = kp_requests s @ rs @ [DeleteControlPlaneMachine (m_Name m) ok, PatchControlPlaneMachine m' ok']"
      and no: "list_all (\<lambda>q. \<not> changes_machines q) rs" using u by (auto simp: logged_def)
  have "filter changes_machines rs = []" "list_all (\<lambda>q. \<not> creates_machine q) rs"
    using no creates_changes by (auto simp: list_all_iff filter_empty_conv)
  then show ?thesis using rs r
    by (intro conjI exI [of _ "rs @ [DeleteControlPlaneMachine (m_Name m) ok, PatchControlPlaneMachine m' ok']"]) (auto simp: result_IsZero_def)
qed

lemma hook_without_deleting: "\<not> HasDeletingMachine s \<Longrightarrow> reconcilePreTerminateHook env s = (Ret result_zero, s)"
  by (simp add: reconcilePreTerminateHook_def)

lemma hook_quiet:
  assumes "reconcilePreTerminateHook env s = (r, t)"
  shows "\<exists>rs. kp_requests t = kp_requests s @ rs \<and> list_all (\<lambda>q. \<not> changes_machines q) rs" "HasDeletingMachine s \<Longrightarrow> r = Ret res \<Longrightarrow> \<not> result_IsZero res"
proof -
  consider "t = s" | m where "mbind (leave_etcd env m) (\<lambda>_. mbind (removePreTerminateHookAnnotationFromMachine env m) (\<lambda>_. mret deleteRequeueAfter)) s = (r, t)"
    using assms by (auto simp: reconcilePreTerminateHook_def mbind_def [of "mlift _"] mlift_def deref_def split: if_splits option.splits sum.splits)
  then show "\<exists>rs. kp_requests t = kp_requests s @ rs \<and> list_all (\<lambda>q. \<not> changes_machines q) rs"
  proof cases
    case 2
    obtain r1 u where u: "leave_etcd env m s = (r1, u)" by (cases "leave_etcd env m s")
    obtain rs where rs: "kp_requests u = kp_requests s @ rs" "list_all (\<lambda>q. \<not> changes_machines q) rs"
      using klog.entries [OF conjunct1 [OF leave_etcd_log [OF u]]] etcd_request_neither(2) by (auto simp: list_all_iff)
    obtain r2 v where v: "removePreTerminateHookAnnotationFromMachine env m u = (r2, v)"
      by (cases "removePreTerminateHookAnnotationFromMachine env m u")
    then have "\<exists>qs. kp_requests v = kp_requests u @ qs \<and> list_all (\<lambda>q. \<not> changes_machines q) qs"
      by (auto simp: removePreTerminateHookAnnotationFromMachine_def patch_control_plane_machine_def kwrap_def kask_def krec_def
          split: if_splits sum.splits)
    moreover have "t = u \<or> t = v" using 2 u v by (cases r1; cases r2) (auto simp: mret_def)
    ultimately show ?thesis using rs by auto
  qed simp
  show "HasDeletingMachine s \<Longrightarrow> r = Ret res \<Longrightarrow> \<not> result_IsZero res"
    using assms by (auto simp: reconcilePreTerminateHook_def mbind_Ret_iff mret_def result_IsZero_def split: if_splits sum.splits)
qed

lemma reconcileEtcdMembers_quiet:
  assumes "reconcileEtcdMembers env s = (r, t)" "\<And>ms. set (ke_Order env ms) = set ms"
  shows "asks (\<lambda>q. \<not> changes_machines q) s t"
proof -
  have "stale_removal env ns k q \<Longrightarrow> \<not> changes_machines q" for ns k q
    by (auto simp: stale_removal_def removal_def dest: reads_not_changes)
  then show ?thesis using reconcileEtcdMembers_log [OF assms] unfolding prunes_def by (auto intro: klog.mono)
qed

lemma new_requests_append:
  "kcp_adds P s t \<Longrightarrow> kp_requests u = kp_requests t @ rs \<Longrightarrow> new_requests s u = new_requests s t @ new_requests t u"
  by (auto simp: logged_def)

text \<open>
  C7: A reconciliation of a kubeadm control plane, from the members of etcd over hooks and remediation to rollout and
  scaling, creates or deletes at most one Machine, and none while a Machine is being deleted. A Machine is only created
  if there are fewer Machines than desired or fewer than the surge of a rollout allows.
\<close>

theorem one_operation_at_a_time:
  assumes run: "reconcile_control_plane env s = (r, t)"
    and names: "distinct (map m_Name (kp_Machines s))" and order: "\<And>ms. set (ke_Order env ms) = set ms"
  shows "length (filter changes_machines (new_requests s t)) \<le> (if HasDeletingMachine s then 0 else 1) \<and>
    (\<forall>m ok. CreateControlPlaneMachine m ok \<in> set (new_requests s t) \<longrightarrow> room_for_machine env s)"
proof -
  obtain r1 u where u: "reconcileEtcdMembers env s = (r1, u)" by (cases "reconcileEtcdMembers env s")
  have q1: "asks (\<lambda>q. \<not> changes_machines q) s u" using u order by (rule reconcileEtcdMembers_quiet)
  then have ms: "kp_Machines u = kp_Machines s" and su: "kcp_adds (\<lambda>q. \<not> changes_machines q) s u"
    by (simp add: logged_def same_objects_def, rule asks_adds)
  have del: "HasDeletingMachine u = HasDeletingMachine s" using ms by (simp add: HasDeletingMachine_def)
  have room: "room_for_machine env u = room_for_machine env s" using su by (intro room_shape) (simp add: logged_def)
  have first: "filter changes_machines (new_requests s u) = []" using adds_new [OF su] by (simp add: list_all_iff filter_empty_conv)
  have tail: ?thesis if "kp_requests t = kp_requests u @ rs" "length (filter changes_machines rs) \<le> (if HasDeletingMachine s then 0 else 1)"
      "list_all (\<lambda>q. creates_machine q \<longrightarrow> room_for_machine env s) rs" for rs
  proof -
    have "new_requests s t = new_requests s u @ rs" using new_requests_append [OF su that(1)] that(1) by simp
    moreover have "\<not> creates_machine q" if "q \<in> set (new_requests s u)" for q
      using that adds_new [OF su] creates_changes by (auto simp: list_all_iff)
    ultimately show ?thesis using that(2,3) first by (fastforce simp: list_all_iff)
  qed
  show ?thesis
  proof (cases "r1 = Ret ()")
    case False
    then have "t = u" using run u by (cases r1) (auto simp: reconcile_control_plane_def)
    then show ?thesis using tail [of "[]"] by simp
  next
    case ok: True
    obtain r2 v where v: "reconcilePreTerminateHook env u = (r2, v)" by (cases "reconcilePreTerminateHook env u")
    show ?thesis
    proof (cases "HasDeletingMachine s")
      case True
      then have "t = v" using run u ok v hook_quiet(2) [OF v] del by (cases r2) (auto simp: reconcile_control_plane_def mret_def)
      obtain rs where rs: "kp_requests t = kp_requests u @ rs" "list_all (\<lambda>q. \<not> changes_machines q) rs"
        using hook_quiet(1) [OF v] \<open>t = v\<close> by blast
      then have "filter changes_machines rs = []" "list_all (\<lambda>q. creates_machine q \<longrightarrow> room_for_machine env s) rs"
        using creates_changes by (auto simp: list_all_iff filter_empty_conv)
      then show ?thesis using tail [OF rs(1)] by simp
    next
      case False
      then have "(r2, v) = (Ret result_zero, u)" using v hook_without_deleting [of u env] del by simp
      obtain r3 w where w: "kcp_reconcileUnhealthyMachines env u = (r3, w)" by (cases "kcp_reconcileUnhealthyMachines env u")
      have "distinct (map m_Name (kp_Machines u))" using names ms by simp
      note U = reconcile_unhealthy_one_change [OF w this order]
      have step: "t = w \<or> (\<exists>res. r3 = Ret res \<and> result_IsZero res) \<and> roll_out env w = (r, t)"
        using run u ok v \<open>(r2, v) = _\<close> w by (cases r3) (auto simp: reconcile_control_plane_def mret_def result_IsZero_def split: if_splits)
      then show ?thesis
      proof
        assume "t = w"
        then obtain rs where rs: "kp_requests t = kp_requests u @ rs" "length (filter changes_machines rs) \<le> 1" "list_all (\<lambda>q. \<not> creates_machine q) rs"
          using U by blast
        have "list_all (\<lambda>q. creates_machine q \<longrightarrow> room_for_machine env s) rs" using rs(3) by (simp add: list_all_iff)
        then show ?thesis using tail [OF rs(1)] rs(2) False by simp
      next
        assume "(\<exists>res. r3 = Ret res \<and> result_IsZero res) \<and> roll_out env w = (r, t)"
        then have "kcp_adds (\<lambda>q. \<not> changes_machines q) u w" "one_change env w t" using U roll_out_one_change [OF _ order] by blast+
        then have "one_change env u t" by (rule one_change_after)
        then show ?thesis using tail False room by (auto simp: one_change_def few_def logged_def)
      qed
    qed
  qed
qed

theorem one_operation_at_a_time_witness:
  "\<exists>r t. reconcile_control_plane sample_kcp_env (sample_kcp_state sample_terminating) = (r, t) \<and>
     filter changes_machines (new_requests (sample_kcp_state sample_terminating) t) = []"
proof -
  let ?s = "sample_kcp_state sample_terminating"
  obtain r t where run: "reconcile_control_plane sample_kcp_env ?s = (r, t)" by fastforce
  have "distinct (map m_Name (kp_Machines ?s))" by (simp add: sample_names sample_terminating_def cp_machine_def sample_machine_def Let_def)
  moreover have "HasDeletingMachine ?s" using sample_deleting by (simp add: HasDeletingMachine_def DeletingMachines_def)
  ultimately show ?thesis using one_operation_at_a_time [OF run _ sample_order] run by auto
qed

section \<open>The Machine that is scaled down\<close>

lemma MachineInFailureDomain_in:
  assumes "MachineInFailureDomainWithMostMachines env s ms = Ret m" "distinct (map m_Name ms)"
  shows "m \<in> set ms"
  using assms Filter_subset [OF assms(2)]
  by (auto simp: MachineInFailureDomainWithMostMachines_def Let_def dest!: Oldest_least(1) split: option.splits)

lemma selected_machine:
  assumes sel: "selectMachineForScaleDown env s outdated = Ret m" and names: "distinct (map m_Name (kp_Machines s))"
    and out: "set outdated \<subseteq> set (kp_Machines s)" "distinct (map m_Name outdated)"
  shows "m \<in> set (kp_Machines s)"
    and "x \<in> set (kp_Machines s) \<Longrightarrow> HasAnnotationKey DeleteMachineAnnotation (Some x) \<Longrightarrow> HasAnnotationKey DeleteMachineAnnotation (Some m)"
    and "outdated \<noteq> [] \<Longrightarrow> HasAnnotationKey DeleteMachineAnnotation (Some m) \<or> m \<in> set outdated"
proof -
  define ms where "ms = (if length (MachineWithDeleteAnnotation outdated) > 0 then MachineWithDeleteAnnotation outdated
        else if length (MachineWithDeleteAnnotation (kp_Machines s)) > 0 then MachineWithDeleteAnnotation (kp_Machines s)
        else if length (UnhealthyMachinesWithUnhealthyControlPlaneComponents s outdated) > 0
        then UnhealthyMachinesWithUnhealthyControlPlaneComponents s outdated
        else if length outdated > 0 then outdated
        else kp_Machines s)"
  note F = machines_Filter_is_filter [OF names] machines_Filter_is_filter [OF out(2)]
  have "distinct (map m_Name ms)"
    using names out(2) unfolding ms_def MachineWithDeleteAnnotation_def UnhealthyMachinesWithUnhealthyControlPlaneComponents_def F
    by (simp add: distinct_map_filter)
  moreover have "MachineInFailureDomainWithMostMachines env s ms = Ret m" using sel by (simp add: selectMachineForScaleDown_def ms_def)
  ultimately have m: "m \<in> set ms" by (rule MachineInFailureDomain_in [rotated])
  show "m \<in> set (kp_Machines s)"
    using m out(1) unfolding ms_def MachineWithDeleteAnnotation_def UnhealthyMachinesWithUnhealthyControlPlaneComponents_def F
    by (auto split: if_splits)
  show "x \<in> set (kp_Machines s) \<Longrightarrow> HasAnnotationKey DeleteMachineAnnotation (Some x) \<Longrightarrow> HasAnnotationKey DeleteMachineAnnotation (Some m)"
    using m unfolding ms_def MachineWithDeleteAnnotation_def F by (auto simp: filter_empty_conv split: if_splits)
  show "outdated \<noteq> [] \<Longrightarrow> HasAnnotationKey DeleteMachineAnnotation (Some m) \<or> m \<in> set outdated"
    using m unfolding ms_def MachineWithDeleteAnnotation_def UnhealthyMachinesWithUnhealthyControlPlaneComponents_def F
    by (auto split: if_splits)
qed

text \<open>
  C11: Scaling down deletes at most one Machine of the control plane, and only if no Machine is being deleted and every other Machine has
  a node and all health conditions, none of them False or Unknown. Machines with the delete annotation are preferred
  over all others, and among the rest those that are outdated.
\<close>

theorem scale_down_guarded:
  assumes run: "scaleDownControlPlane env outdated s = (r, t)" and order: "\<And>ms. set (ke_Order env ms) = set ms"
    and names: "distinct (map m_Name (kp_Machines s))" and out: "set outdated \<subseteq> set (kp_Machines s)" "distinct (map m_Name outdated)"
    and deleted: "DeleteControlPlaneMachine name ok \<in> set (new_requests s t)"
  shows "length (filter changes_machines (new_requests s t)) = 1 \<and> \<not> HasDeletingMachine s \<and>
    (\<exists>m \<in> set (kp_Machines s). m_Name m = name \<and>
       (\<forall>x \<in> set (kp_Machines s). x \<noteq> m \<longrightarrow> ready_machine (IsEtcdManaged s) x) \<and>
       ((\<exists>x \<in> set (kp_Machines s). HasAnnotationKey DeleteMachineAnnotation (Some x)) \<longrightarrow> HasAnnotationKey DeleteMachineAnnotation (Some m)) \<and>
       (outdated \<noteq> [] \<longrightarrow> HasAnnotationKey DeleteMachineAnnotation (Some m) \<or> m \<in> set outdated))"
proof -
  have "\<not> kcp_adds (\<lambda>q. \<not> changes_machines q) s t" using adds_new deleted by (fastforce simp: list_all_iff)
  then obtain m u ok' es where sel: "selectMachineForScaleDown env s outdated = Ret m" and u: "kcp_adds (\<lambda>q. \<not> changes_machines q) s u"
      and t: "kp_requests t = kp_requests u @ DeleteControlPlaneMachine (m_Name m) ok' # es" and es: "list_all (\<lambda>q. \<not> changes_machines q) es"
      and guard: "kp_Machines s = [] \<or> \<not> HasDeletingMachine s \<and> (\<forall>x \<in> set (kp_Machines s). m_Name x \<noteq> m_Name m \<longrightarrow> ready_machine (IsEtcdManaged s) x)"
    using scale_down_log [OF run order] by blast
  obtain rs where rs: "new_requests s t = rs @ DeleteControlPlaneMachine (m_Name m) ok' # es" "list_all (\<lambda>q. \<not> changes_machines q) rs"
    using adds_new_then [OF u t] by blast
  have "filter changes_machines rs = []" "filter changes_machines es = []" using rs(2) es by (auto simp: list_all_iff filter_empty_conv)
  then have one: "length (filter changes_machines (new_requests s t)) = 1" using rs(1) by simp
  have name: "m_Name m = name" using deleted rs es by (auto simp: list_all_iff)
  note S = selected_machine [OF sel names out]
  have "kp_Machines s \<noteq> []" using S(1) by auto
  moreover have "x \<noteq> m \<Longrightarrow> m_Name x \<noteq> m_Name m" if "x \<in> set (kp_Machines s)" for x
    using that names S(1) by (auto simp: distinct_map inj_on_def)
  ultimately show ?thesis using one name S guard by blast
qed

definition sample_ready :: "string \<Rightarrow> int \<Rightarrow> string \<Rightarrow> machine" where
  "sample_ready name created node = cp_machine name created node (map TrueCondition (machine_health_conditions True))"

definition sample_ready_state :: "nat kcp_state" where
  "sample_ready_state = (sample_kcp_state sample_unhealthy)\<lparr>kp_Machines :=
     [sample_ready ''m1'' 1 ''n1'', sample_ready ''m2'' 2 ''n2'', sample_ready ''m3'' 3 ''n3'']\<rparr>"

lemma sample_scales_down:
  "list_ex (deletion_of ''m1'') (new_requests sample_ready_state (snd (scaleDownControlPlane sample_kcp_env [] sample_ready_state)))"
  by code_simp

theorem scale_down_guarded_witness:
  "\<exists>r t. scaleDownControlPlane sample_kcp_env [] sample_ready_state = (r, t) \<and>
     length (filter changes_machines (new_requests sample_ready_state t)) = 1 \<and>
     (\<exists>m \<in> set (kp_Machines sample_ready_state). m_Name m = ''m1'' \<and>
        (\<forall>x \<in> set (kp_Machines sample_ready_state). x \<noteq> m \<longrightarrow> ready_machine True x))"
proof -
  obtain r t where run: "scaleDownControlPlane sample_kcp_env [] sample_ready_state = (r, t)" by fastforce
  obtain ok where d: "DeleteControlPlaneMachine ''m1'' ok \<in> set (new_requests sample_ready_state t)"
    using sample_scales_down run by (auto simp: list_ex_iff deletion_of_iff)
  have "distinct (map m_Name (kp_Machines sample_ready_state))"
    by (simp add: sample_ready_state_def sample_ready_def cp_machine_def sample_machine_def Let_def)
  moreover have "IsEtcdManaged sample_ready_state"
    by (simp add: sample_ready_state_def sample_kcp_state_def sample_kcp_def IsEtcdManaged_def)
  ultimately show ?thesis using scale_down_guarded [OF run sample_order _ _ _ d] run by fastforce
qed

section \<open>Retries of a remediation\<close>

lemma delete_for_remediation_tracks:
  assumes "delete_for_remediation env m d s = (Ret x, t)"
  shows "\<exists>v. ke_Marshal env d = Inr v \<and> map_lookup (kcp_Annotations (kp_KCP t)) RemediationInProgressAnnotation = Some v"
  using assms
  by (auto simp: delete_for_remediation_def RemediationData_Marshal_def Let_def mbind_def mlift_def on_kcp_def with_kcp_annotations_def
      AddAnnotations_def map_lookup_def split: go.splits sum.splits prod.splits if_splits)

lemma new_machine_tracks:
  assumes "kcp_computeDesiredMachine env k clusterName fd n None = Ret m"
    and "map_lookup (kcp_Annotations k) RemediationInProgressAnnotation = Some v"
  shows "map_lookup (m_Annotations m) RemediationForAnnotation = Some v"
  using assms
  by (auto simp: kcp_computeDesiredMachine_def new_machine_identity_def Let_def ensureMandatoryReadinessGates_def map_lookup_def
      go_bind_def split: go.splits if_splits sum.splits option.splits)

text \<open>
  The remediations of a Machine and of those that replace it: \<open>retries env n k m d\<close> says that \<open>m\<close> is remediated with the data \<open>d\<close>
  after \<open>k\<close> replacements that each failed within the period in which a new Machine has to become healthy, as the
  annotation of the replacement tells, with \<open>n\<close> as the limit on the retries. Times are nanoseconds since 1970 as an
  \<^verbatim>\<open>int64\<close> can hold them.
\<close>

definition clock_ok :: "int \<Rightarrow> bool" where
  "clock_ok now \<longleftrightarrow> 0 \<le> now \<and> now < 2 ^ 63"

inductive retries :: "'u kcp_env \<Rightarrow> int \<Rightarrow> nat \<Rightarrow> machine \<Rightarrow> remediation_data \<Rightarrow> bool" for env n where
  first: "\<lbrakk>map_lookup (m_Annotations m) RemediationForAnnotation = None; clock_ok now;
           checkRetryLimits env m now s = (Ret (d, True), t)\<rbrakk> \<Longrightarrow> retries env n 0 m d"
| again: "\<lbrakk>retries env n k m d; delete_for_remediation env m d s = (Ret result, s');
           kcp_computeDesiredMachine env (kp_KCP s') clusterName fd i None = Ret m';
           map_lookup (m_Annotations m') RemediationForAnnotation = Some v; RemediationDataFromAnnotation env v = Ret l;
           maxRetry u = Some n; clock_ok now; lastRemediationTime now u l + minHealthyPeriod u > now;
           checkRetryLimits env m' now u = (Ret (d', True), t)\<rbrakk> \<Longrightarrow> retries env n (Suc k) m' d'"

text \<open>
  What is relied on of package json: data that has been written into an annotation is read back with the same number of
  retries and with the time in whole seconds, the form of RFC 3339 in which \<^verbatim>\<open>metav1.Time\<close> is written.
\<close>

definition json_ok :: "'u kcp_env \<Rightarrow> bool" where
  "json_ok env \<longleftrightarrow> (\<forall>d v now. rd_Timestamp d = Some now \<and> clock_ok now \<and> - (2 ^ 63) \<le> rd_RetryCount d \<and> rd_RetryCount d < 2 ^ 63 \<and> ke_Marshal env d = Inr v \<longrightarrow>
     (\<exists>l. ke_Unmarshal env v = Inr l \<and> rd_Timestamp l = Some (truncate_second now) \<and> rd_RetryCount l = rd_RetryCount d))"

lemma checkRetryLimits_stamp:
  assumes "checkRetryLimits env m now s = (Ret (d, True), t)"
  shows "rd_Timestamp d = Some now"
  using assms
  by (auto simp: checkRetryLimits_def RemediationDataFromAnnotation_def Let_def mbind_def mlift_def split: if_splits option.splits sum.splits)

lemma first_count:
  assumes "map_lookup (m_Annotations m) RemediationForAnnotation = None" "checkRetryLimits env m now s = (Ret (d, True), t)"
  shows "rd_RetryCount d = 0"
  using assms by (auto simp: checkRetryLimits_def Let_def)

lemma again_count:
  assumes "map_lookup (m_Annotations m) RemediationForAnnotation = Some v" "RemediationDataFromAnnotation env v = Ret l" "maxRetry u = Some n"
    and "lastRemediationTime now u l + minHealthyPeriod u > now" "checkRetryLimits env m now u = (Ret (d', True), t)"
  shows "rd_RetryCount l < n" "rd_RetryCount d' = i64 (rd_RetryCount l + 1)"
  using assms by (auto simp: checkRetryLimits_def Let_def mbind_def mlift_def split: if_splits)

text \<open>
  C10: If each replacement of a Machine fails before the period in which it has to become healthy is over, counted
  from the time in its annotation, then the number of retries that is kept in annotations of the control plane and of the
  Machines is the number of the retries, and it never exceeds the maximum number of retries.
  This relies on annotations being read back as they were written, up to fractions of a second of the time.
\<close>

theorem retries_limited:
  assumes "retries env n k m d" and limit: "0 \<le> n" "n < 2 ^ 31" and json: "json_ok env"
  shows "rd_RetryCount d = int k \<and> int k \<le> n"
proof -
  have "(\<exists>now. rd_Timestamp d = Some now \<and> clock_ok now) \<and> rd_RetryCount d = int k \<and> int k \<le> n"
    using assms(1)
  proof (induction rule: retries.induct)
    case (first m now s d t)
    then show ?case using first_count checkRetryLimits_stamp limit(1) by fastforce
  next
    case (again k m d s result s' clusterName fd i m' v l u now d' t)
    obtain w where w: "ke_Marshal env d = Inr w" and a: "map_lookup (kcp_Annotations (kp_KCP s')) RemediationInProgressAnnotation = Some w"
      using delete_for_remediation_tracks [OF again.hyps(2)] by blast
    have "v = w" using new_machine_tracks [OF again.hyps(3) a] again.hyps(4) by simp
    moreover have "- (2 ^ 63) \<le> rd_RetryCount d" "rd_RetryCount d < 2 ^ 63" using again.IH limit(2) by simp_all
    ultimately have same: "rd_RetryCount l = rd_RetryCount d"
      using json w again.IH again.hyps(5) unfolding json_ok_def RemediationDataFromAnnotation_def by (fastforce split: sum.splits)
    note C = again_count [OF again.hyps(4-6,8,9)]
    have "int k + 1 \<le> n" using C(1) again.IH same by simp
    moreover have "i64 (int k + 1) = int k + 1" using limit(2) calculation by (intro i64_id) simp_all
    ultimately show ?case using C(2) again.IH same again.hyps(7) checkRetryLimits_stamp [OF again.hyps(9)] by auto
  qed
  then show ?thesis by blast
qed

text \<open>Annotations with two numbers, the seconds and the number of retries, and then the name of the Machine.\<close>

definition sample_Marshal :: "remediation_data \<Rightarrow> string + string" where
  "sample_Marshal d = Inr (FormatInt (case rd_Timestamp d of None \<Rightarrow> - 1 | Some t \<Rightarrow> t div time_Second) @ '','' @ FormatInt (rd_RetryCount d) @ '','' @ rd_Machine d)"

definition sample_Unmarshal :: "string \<Rightarrow> string + remediation_data" where
  "sample_Unmarshal v =
     (case go_split (CHR '','') v of
        t # r # name \<Rightarrow>
          (case (ParseInt 64 t, ParseInt 64 r) of
             (Some secs, Some retried) \<Rightarrow>
               Inr \<lparr>rd_Machine = go_join '','' name, rd_Timestamp = (if secs < 0 then None else Some (secs * time_Second)), rd_RetryCount = retried\<rparr>
           | _ \<Rightarrow> Inl ''syntax'')
      | _ \<Rightarrow> Inl ''syntax'')"

definition sample_retry_env :: "nat kcp_env" where
  "sample_retry_env = sample_kcp_env\<lparr>ke_Marshal := sample_Marshal, ke_Unmarshal := sample_Unmarshal\<rparr>"

lemma digit_no_comma: "n < 10 \<Longrightarrow> digit_char n \<noteq> CHR '',''"
  using is_digit_digit_char [of n] by (auto simp: is_digit_def simp del: is_digit_digit_char)

lemma format_nat_no_comma: "CHR '','' \<notin> set (format_nat n)"
proof (induction n rule: format_nat.induct)
  case (1 n)
  show ?case using 1 digit_no_comma [of n] digit_no_comma [of "n mod 10"] by (subst format_nat.simps) auto
qed

lemma split_format: "go_split (CHR '','') (FormatInt x @ '','' @ rest) = FormatInt x # go_split (CHR '','') rest"
proof -
  have "CHR '','' \<notin> set (FormatInt x)" using format_nat_no_comma by (simp add: FormatInt_def)
  from go_split_no_sep [OF this] show ?thesis using go_split_append [of "CHR '',''" "FormatInt x" rest] by simp
qed

lemma sample_roundtrip:
  assumes "rd_Timestamp d = Some now" "clock_ok now" "- (2 ^ 63) \<le> rd_RetryCount d" "rd_RetryCount d < 2 ^ 63" "sample_Marshal d = Inr v"
  shows "sample_Unmarshal v = Inr (d\<lparr>rd_Timestamp := Some (truncate_second now)\<rparr>)"
proof -
  have "0 \<le> now div time_Second" "now div time_Second < 2 ^ 63" using assms(2) by (auto simp: clock_ok_def)
  then have "ParseInt 64 (FormatInt (now div time_Second)) = Some (now div time_Second)" "\<not> now div time_Second < 0"
    by (auto intro: ParseInt_FormatInt)
  moreover have "ParseInt 64 (FormatInt (rd_RetryCount d)) = Some (rd_RetryCount d)"
    using assms(3,4) by (intro ParseInt_FormatInt) simp_all
  moreover have "now div time_Second * time_Second = truncate_second now"
    by (simp add: truncate_second_def minus_mod_eq_div_mult)
  moreover have "v = FormatInt (now div time_Second) @ '','' @ FormatInt (rd_RetryCount d) @ '','' @ rd_Machine d"
    using assms(1,5) by (simp add: sample_Marshal_def)
  ultimately show ?thesis unfolding sample_Unmarshal_def by (simp add: split_format go_join_split del: append_Cons append_Nil)
qed

lemma sample_json: "json_ok sample_retry_env"
  unfolding json_ok_def using sample_roundtrip by (auto simp: sample_retry_env_def)

definition sample_now :: int where
  "sample_now = 100 * time_Second + 7"

definition sample_data :: remediation_data where
  "sample_data = \<lparr>rd_Machine = ''m3'', rd_Timestamp = Some sample_now, rd_RetryCount = 0\<rparr>"

lemma sample_deleted:
  "\<exists>s'. delete_for_remediation sample_retry_env sample_unhealthy sample_data (sample_kcp_state sample_unhealthy) = (Ret requeue_now, s') \<and>
     kcp_Spec (kp_KCP s') = kcp_Spec sample_kcp"
  by (simp add: delete_for_remediation_def delete_control_plane_machine_def RemediationData_Marshal_def sample_Marshal_def Let_def mbind_def mlift_def
      sample_retry_env_def sample_kcp_env_def on_kcp_def hold_remediation_def on_machine_def krec_def sample_kcp_state_def)

lemma sample_computed:
  assumes "kcp_Spec k = kcp_Spec sample_kcp"
  shows "\<exists>m. kcp_computeDesiredMachine sample_retry_env k ''c'' None 0 None = Ret m"
  using assms
  by (simp add: kcp_computeDesiredMachine_def new_machine_identity_def ptr_deref_def Let_def sample_retry_env_def sample_kcp_env_def sample_kcp_def)

theorem retries_limited_witness:
  "\<exists>m d. retries sample_retry_env 2 1 m d \<and> rd_RetryCount d = 1"
proof -
  let ?s = "sample_kcp_state sample_unhealthy"
  have clock: "clock_ok sample_now" "truncate_second sample_now = 100 * time_Second"
    by (simp_all add: clock_ok_def sample_now_def truncate_second_def)
  have "map_lookup (m_Annotations sample_unhealthy) RemediationForAnnotation = None"
    by (simp add: sample_unhealthy_def cp_machine_def sample_machine_def Let_def map_lookup_def)
  moreover from this have "checkRetryLimits sample_retry_env sample_unhealthy sample_now ?s = (Ret (sample_data, True), ?s)"
    by (simp add: checkRetryLimits_def Let_def sample_data_def sample_unhealthy_def cp_machine_def sample_machine_def)
  ultimately have first: "retries sample_retry_env 2 0 sample_unhealthy sample_data" using clock(1) by (intro retries.first)
  obtain s' where del: "delete_for_remediation sample_retry_env sample_unhealthy sample_data ?s = (Ret requeue_now, s')"
      and k: "kcp_Spec (kp_KCP s') = kcp_Spec sample_kcp" using sample_deleted by blast
  obtain m where m: "kcp_computeDesiredMachine sample_retry_env (kp_KCP s') ''c'' None 0 None = Ret m" using sample_computed [OF k] by blast
  obtain v where w: "ke_Marshal sample_retry_env sample_data = Inr v" and v: "map_lookup (m_Annotations m) RemediationForAnnotation = Some v"
    using delete_for_remediation_tracks [OF del] new_machine_tracks [OF m] by blast
  define l where "l = sample_data\<lparr>rd_Timestamp := Some (100 * time_Second)\<rparr>"
  have "sample_Unmarshal v = Inr l" using sample_roundtrip [of sample_data sample_now v] clock w
    by (simp add: l_def sample_data_def sample_retry_env_def)
  then have l: "RemediationDataFromAnnotation sample_retry_env v = Ret l" by (simp add: RemediationDataFromAnnotation_def sample_retry_env_def)
  have lim: "maxRetry ?s = Some 2" "minHealthyPeriod ?s = 3600 * time_Second" "retryPeriod ?s = 0"
    by (simp_all add: maxRetry_def minHealthyPeriod_def retryPeriod_def sample_kcp_state_def sample_kcp_def ptr_deref_def)
  have time: "lastRemediationTime sample_now ?s l = 100 * time_Second" "rd_RetryCount l = 0"
    by (simp_all add: lastRemediationTime_def l_def sample_data_def)
  have "\<exists>d. checkRetryLimits sample_retry_env m sample_now ?s = (Ret (d, True), ?s)"
    using v l lim time clock(2) by (simp add: checkRetryLimits_def Let_def mlift_def) (simp add: sample_now_def)
  then obtain d where d: "checkRetryLimits sample_retry_env m sample_now ?s = (Ret (d, True), ?s)" by blast
  have "lastRemediationTime sample_now ?s l + minHealthyPeriod ?s > sample_now" unfolding time(1) lim(2) by (simp add: sample_now_def)
  then have "retries sample_retry_env 2 (Suc 0) m d" by (intro retries.again [OF first del m v l lim(1) clock(1) _ d])
  then show ?thesis using retries_limited [OF _ _ _ sample_json, of 2 "Suc 0" m d] by auto
qed

section \<open>Leadership that stays\<close>

fun moves_leader :: "64 word \<Rightarrow> kcp_request \<Rightarrow> bool" where
  "moves_leader i (MoveEtcdLeader _ j _) = (j = i)"
| "moves_leader i _ = False"

definition sample_leaving :: machine where
  "sample_leaving = (let m = sample_ready ''m3'' 3 ''n3'' in m\<lparr>m_Meta := (m_Meta m)\<lparr>om_Annotations := Some [DeleteMachineAnnotation \<mapsto> []]\<rparr>\<rparr>)"

text \<open>The newest Machine is to be deleted, and its member leads etcd.\<close>

definition sample_leading_env :: "nat kcp_env" where
  "sample_leading_env = sample_kcp_env\<lparr>ke_Dial := (\<lambda>_ _. Inr 3)\<rparr>"

definition sample_leading_state :: "nat kcp_state" where
  "sample_leading_state = (sample_kcp_state sample_unhealthy)\<lparr>kp_Machines :=
     [sample_ready ''m1'' 1 ''n1'', sample_ready ''m2'' 2 ''n2'', sample_leaving]\<rparr>"

text \<open>
  Scaling down moves the leadership of etcd to the newest Machine even if that is the Machine to be deleted: here the
  member of \<open>m3\<close> leads, etcd is asked to make the same member the leader, and \<open>m3\<close> is deleted.
\<close>

lemma leadership_forwarded_to_deleted_machine:
  "list_ex (moves_leader 3) (new_requests sample_leading_state (snd (scaleDownControlPlane sample_leading_env [] sample_leading_state))) \<and>
   list_ex (deletion_of ''m3'') (new_requests sample_leading_state (snd (scaleDownControlPlane sample_leading_env [] sample_leading_state)))"
  by code_simp

end
