(* ===== verification/Spec2Isabelle.thy ===== *)
theory Spec2Isabelle
  imports Rollout_System Ms_Conditions Mhc_Properties Kcp_Scaling
begin

text \<open>
  Cluster API manages Kubernetes clusters by reconciliation: controllers read API objects, compare
  them with what is desired and write the difference back. A MachineDeployment owns MachineSets, one for each
  revision of its template, and moves machines from the old ones to the new one; a MachineSet owns Machines
  and keeps as many of them as it should have. A MachineHealthCheck watches Machines and
  their nodes and asks for the remediation of unhealthy ones. A KubeadmControlPlane owns the Machines of a control
  plane and, as a rule, the etcd cluster that runs on them. All write their progress as conditions and counters. The
  theories follow the packages of the source.

  \<^bold>\<open>Foundations.\<close>
  \<^item> Go_Prelude: results of Go functions (value, error, panic) and state passing with failures, where the
    state is kept also when a function fails; integers of fixed width with their wrap-around; the insertion
    sort that sort.Sort uses for short slices; strings. The locale
    \<^verbatim>\<open>weak_order\<close> is what a Less function has to promise; it is interpreted for the orders of the source.
  \<^item> Api_Types: the records for Machines, MachineSets and MachineDeployments, src/api/v1beta1.
  \<^item> Versions: src/util/version/version.go and the states of a control plane in
    src/internal/contract/controlplane.go. Which strings are versions, and that comparing them is a partial
    order.

  \<^bold>\<open>Conditions and collections.\<close>
  \<^item> Conditions: src/util/conditions (getter.go, setter.go, merge.go, merge_strategies.go, patch.go). Writing a
    condition refines the update of a map; patches round-trip and keep what they do not change; a merged
    condition has the highest priority of the merged ones.
  \<^item> Conditions_V1Beta2: the same for the conditions of the v1beta2 status, src/util/conditions/v1beta2, with
    summary and aggregation: which messages an aggregated condition shows, and that it accounts for every object.
  \<^item> Collections: owner references of src/util/util.go, sets of Machines in src/util/collections and the
    choice of failure domains in src/util/failuredomains. Results do not depend on the order in which a map is
    ranged over, and failure domains stay balanced.

  \<^bold>\<open>MachineDeployments\<close> (src/internal/controllers/machinedeployment).
  \<^item> Md_Util: mdutil/util.go: revisions, annotations, rollout bounds, the choice of the new MachineSet.
  \<^item> Md_Rollout: machinedeployment_rolling.go, machinedeployment_rollout_ondelete.go and
    machinedeployment_sync.go over the state \<^verbatim>\<open>md_state\<close>: a store of MachineSets by address (the Go
    pointers), the MachineDeployment, the number of requests so far, events and deletions. The record
    \<^verbatim>\<open>md_client\<close> holds the answers of the API server, which may depend on the number of the request.
  \<^item> Md_Properties: surge and availability bounds of a single call, proportional scaling, on-delete
    rollouts, creation and clean-up of MachineSets.
  \<^item> Rollout_System: a rollout as a whole. The inductive relation \<^verbatim>\<open>rollout_step\<close> interleaves the steps of
    \<^verbatim>\<open>rolloutRolling\<close>, with any answers of the API server, with the reports of the MachineSets; the bound on
    the machines is an invariant of it. Rounds of the controller and of MachineSets that reach their sizes
    complete the rollout.

  \<^bold>\<open>MachineSets\<close> (src/internal/controllers/machineset).
  \<^item> Ms_Policy: machineset_delete_policy.go, machineset_preflight.go, src/util/labels/format. Which Machines a
    scale-down selects and when preflight checks let a scale-up go on.
  \<^item> Ms_Status: machineset_controller_status.go and the readiness of nodes, src/controllers/noderefutil.
  \<^item> Ms_Controller: machineset_controller.go. A reconciliation works on \<^verbatim>\<open>ms_scope\<close>, the scope of the
    source extended by the list of requests made so far; the record \<^verbatim>\<open>ms_env\<close> holds the API server, the
    clock and name generation.
  \<^item> Ms_Properties: what one reconciliation creates and deletes at most, that it reaches the wanted size if
    the requests succeed, that a finalizer is removed only after a listing without Machines of the MachineSet, and the
    counters of the status. The requests
    that a function adds are given by grades (\<^verbatim>\<open>adds\<close>: at most so many creations and deletions,
    \<^verbatim>\<open>emits\<close>: exactly these), which compose along the phases.
  \<^item> Ms_Remediation: the limit on remediations in flight.
  \<^item> Ms_Conditions: when the conditions of the status are true.

  \<^bold>\<open>MachineHealthChecks\<close> (src/internal/controllers/machinehealthcheck).
  \<^item> Mhc_Controller: machinehealthcheck_targets.go and machinehealthcheck_controller.go, with
    src/util/annotations/helpers.go and src/util/paused/paused.go. A reconciliation works on \<^verbatim>\<open>mhc_state\<close>, the
    MachineHealthCheck and the requests so far; the record \<^verbatim>\<open>mhc_env\<close> holds the API server, the workload cluster
    and the clock.
  \<^item> Mhc_Health: when a Machine is unhealthy, and that the next check is due when it can become so.
  \<^item> Mhc_Properties: how many Machines a reconciliation asks to remediate at most, and that these are unhealthy with the
    nodes that the workload cluster has reported to it (\<^verbatim>\<open>node_observed\<close>).

  \<^bold>\<open>Kubeadm control planes\<close> (src/controlplane/kubeadm).
  \<^item> Request_Log: the locale \<^verbatim>\<open>request_log\<close> is what a state has to offer whose steps write down their requests; it
    is interpreted twice for the state of this controller, for steps that keep all objects and for steps that change only
    conditions and annotations.
  \<^item> Kcp_Etcd: internal/etcd_client_generator.go, internal/etcd, internal/workload_cluster_etcd.go: finding the
    leader, listing and removing members, moving the leadership. A reconciliation works on \<^verbatim>\<open>kcp_state\<close>, the control
    plane of internal/control_plane.go extended by the requests so far; the record \<^verbatim>\<open>kcp_env\<close> holds the API server,
    the workload cluster, etcd, the clock and the orders of maps.
  \<^item> Kcp_Controller: internal/control_plane.go and internal/controllers: remediation.go, scale.go, upgrade.go, the
    creation of Machines in helpers.go, and of controller.go the etcd members, the pre-terminate hook and the order of the operations.
  \<^item> Kcp_Safety: a remediation deletes at most one Machine and leaves etcd with a healthy majority that meets every
    majority of the members before.
  \<^item> Kcp_Members: only stale members are removed from etcd, and the hook of a Machine that terminates is removed only after its
    member has left, if there are other Machines, etcd is managed and the Machine has a node.
  \<^item> Kcp_Scaling: at most one Machine is created or deleted at a time, scaling down needs a healthy control plane,
    and remediations are retried no more often than allowed, with annotations read back as they were written up to
    fractions of a second.

  \<^bold>\<open>Across controllers.\<close> A MachineHealthCheck only marks Machines with a condition; the MachineSet controller
  deletes those that are marked. The theorem of this theory follows a Machine through both: its patches are applied
  to the listed Machines (\<^verbatim>\<open>apply_patches\<close>) and the MachineSet controller runs on what results.

  \<^bold>\<open>Bounds.\<close> All loops of the modelled code range over lists and are structural recursions; the only one
  without a bound of its own is PollUntilContextTimeout of the MachineSet controller, which is a recursion over
  \<^verbatim>\<open>en_Polls\<close>, the number of times that the condition is asked before the time is over. Counters are kept at
  the width of the source; where a theorem excludes overflow, the bound is a hypothesis. Times and
  durations are 64-bit numbers of nanoseconds; the theorem on health checks bounds them by \<^verbatim>\<open>2 ^ 61\<close>, about 73 years,
  so that the sums in the code do not wrap around. The number of retries of a control plane is bounded by a 32-bit
  limit.

  \<^bold>\<open>Not modelled.\<close> Watches and caches, the mapping of events of most controllers, logging, the set-up of managers, generated code and
  conversion; components that mostly move unstructured objects or call other programs (topology, clusterctl,
  bootstrap providers, runtime extensions). Of kubeadm control planes: certificates and kubeconfig secrets, the
  conditions of pods and etcd, which Machines need a rollout (the state says so), and the contents of the objects that an
  upgrade writes to the workload cluster. Functions of libraries (JSON, percentages of IntOrString, semver, FNV
  input, floating-point rounding) are parameters.
\<close>

section \<open>From the health check to the deletion of Machines\<close>

text \<open>The Machines as the API server has them after the patches that succeeded.\<close>

definition patched :: "mhc_request \<Rightarrow> machine list \<Rightarrow> machine list" where
  "patched q machines =
     (case q of PatchTarget m True \<Rightarrow> map (\<lambda>x. if m_Name x = m_Name m then m else x) machines | _ \<Rightarrow> machines)"

definition apply_patches :: "machine list \<Rightarrow> mhc_request list \<Rightarrow> machine list" where
  "apply_patches machines rs = fold patched rs machines"

lemma patched_cases: "m \<in> set (patched q machines) \<Longrightarrow> m \<in> set machines \<or> q = PatchTarget m True \<and> m_Name m \<in> m_Name ` set machines"
  by (auto simp: patched_def image_iff split: mhc_request.splits bool.splits if_splits) metis

lemma patched_names [simp]: "map m_Name (patched q machines) = map m_Name machines"
  by (auto simp: patched_def split: mhc_request.splits bool.splits)

lemma apply_patches_cases:
  "m \<in> set (apply_patches machines rs) \<Longrightarrow> m \<in> set machines \<or> PatchTarget m True \<in> set rs \<and> m_Name m \<in> m_Name ` set machines"
  unfolding apply_patches_def
proof (induction rs arbitrary: machines)
  case (Cons q rs)
  have names: "m_Name ` set (patched q machines) = m_Name ` set machines" by (metis list.set_map patched_names)
  show ?case using Cons.IH [of "patched q machines"] Cons.prems patched_cases [of m q machines] names by auto
qed simp

lemma marked_by_patch:
  assumes "m \<in> set (apply_patches machines rs)" "remediable m"
    and "\<forall>x \<in> set machines. conditions_Get (m_Conditions x) MachineOwnerRemediatedCondition = None"
  shows "m_Name m \<in> remediated machines rs"
proof -
  have "conditions_Get (m_Conditions m) MachineOwnerRemediatedCondition \<noteq> None"
    using assms(2) by (auto simp: remediable_def conditions_IsFalse_def split: option.splits)
  moreover from this obtain x where "PatchTarget m True \<in> set rs" "x \<in> set machines" "m_Name x = m_Name m"
    using apply_patches_cases [OF assms(1)] assms(3) by auto
  ultimately show ?thesis using assms(3) unfolding remediated_def
    by (intro CollectI disjI2 exI [of _ m] exI [of _ True] exI [of _ x]) simp
qed

lemma deleted_marked:
  assumes "set (sc_machines w) \<subseteq> set (apply_patches machines rs)" "m_Meta ` set (del @ rest) = m_Meta ` {m \<in> set (sc_machines w). remediable m}"
    and "\<forall>x \<in> set machines. conditions_Get (m_Conditions x) MachineOwnerRemediatedCondition = None"
  shows "m_Name ` set del \<subseteq> remediated machines rs"
proof
  fix n assume "n \<in> m_Name ` set del"
  then obtain a where "a \<in> set del" "n = m_Name a" by auto
  then obtain b where b: "b \<in> set (sc_machines w)" "remediable b" "m_Meta b = m_Meta a" using assms(2) by force
  then have "m_Name b \<in> remediated machines rs" using marked_by_patch [OF _ b(2) assms(3)] assms(1) by auto
  then show "n \<in> remediated machines rs" using b(3) \<open>n = m_Name a\<close> by simp
qed

lemma apply_patches_names: "map m_Name (apply_patches machines rs) = map m_Name machines"
  unfolding apply_patches_def by (induction rs arbitrary: machines) simp_all

text \<open>C5: a MachineHealthCheck and the MachineSet controller together delete a Machine for its health only if it is
  unhealthy. On Machines none of which waits for remediation already, let a reconciliation of a MachineHealthCheck
  run, and then the remediation of a MachineSet on the patched Machines. It deletes no Machine twice, and only Machines that the
  MachineHealthCheck watches, that are not paused, and that were unhealthy at a time read from the clock of the
  reconciliation, their nodes being those that the workload cluster has answered with in it; at most as many as
  \<^verbatim>\<open>maxUnhealthy\<close> or \<^verbatim>\<open>unhealthyRange\<close> allows, and no more than \<^verbatim>\<open>maxInFlight\<close> leaves. It creates none.\<close>

theorem remediation_end_to_end:
  assumes mhc: "mhc_reconcile env cluster s = (r, s')" "\<And>k p ns. he_List env k p ns = Inr machines" "listing_ok machines" "hcs_requests s = []"
    and fresh: "\<forall>m \<in> set machines. conditions_Get (m_Conditions m) MachineOwnerRemediatedCondition = None"
    and ms: "reconcileUnhealthyMachines menv w = (r', w')" "set (sc_machines w) \<subseteq> set (apply_patches machines (hcs_requests s'))"
      "sc_adopted w" "distinct (map m_Name (sc_machines w))" "\<And>xs. mset (en_Order menv xs) = mset xs"
  shows "\<exists>rs. sc_requests w' = sc_requests w @ rs \<and> creates rs = 0 \<and> distinct (deleted rs) \<and>
     length (deleted rs) \<le> (case max_in_flight menv w of Ret (Some n) \<Rightarrow> nat (n - int (in_flight (sc_machines w))) | _ \<Rightarrow> 0) \<and>
     (deleted rs = [] \<or> (\<exists>lim. unhealthy_limit (he_ext env) (hcs_mhc s) (int (length (watched machines))) = Some lim \<and> int (length (deleted rs)) \<le> lim)) \<and>
     (\<forall>n \<in> set (deleted rs). \<exists>t. m_Name (ht_Machine t) = n \<and> ht_Machine t \<in> set (watched machines) \<and>
        ht_Cluster t = cluster \<and> hc_Spec (ht_MHC t) = hc_Spec (hcs_mhc s) \<and> \<not> IsPaused cluster (m_Meta (ht_Machine t)) \<and>
        node_observed env (has_client cluster) 0 (hcs_requests s') t \<and>
        (\<exists>k \<le> length (hcs_requests s').
           unhealthy_at (ptr_deref (hs_NodeStartupTimeout (hc_Spec (hcs_mhc s))) DefaultNodeStartupTimeout) (he_Now env k) t))"
proof -
  let ?qs = "hcs_requests s'"
  have sc: "short_circuited env cluster (hcs_mhc s) machines 0 ?qs ?qs" using mhc_reconcile_outcome [OF mhc(1-3)] mhc(4) by auto
  obtain del rest where del: "remediates del w w'" "distinct (map m_Name (del @ rest))"
      "length del \<le> (case max_in_flight menv w of Ret (Some n) \<Rightarrow> nat (n - int (in_flight (sc_machines w))) | _ \<Rightarrow> 0)"
      "m_Meta ` set (del @ rest) = m_Meta ` {m \<in> set (sc_machines w). remediable m}"
    using remediation_choice [OF ms(3,4,5,1)] by blast
  obtain rs where rs: "sc_requests w' = sc_requests w @ rs" "creates rs = 0" "deleted rs = [] \<or> deleted rs = map m_Name del"
    using del(1) by (auto simp: remediates_def)
  show ?thesis
  proof (cases "deleted rs = []")
    case True
    then show ?thesis using rs by (intro exI [of _ rs]) simp
  next
    case False
    then have d: "deleted rs = map m_Name del" using rs(3) by simp
    have sub: "set (deleted rs) \<subseteq> remediated machines ?qs" using deleted_marked [OF ms(2) del(4) fresh] d by simp
    have dist: "distinct (deleted rs)" using del(2) d by simp
    have "length (deleted rs) \<le> card (remediated machines ?qs)"
      using card_mono [OF remediated_finite sub] distinct_card [OF dist] by simp
    moreover have "remediated machines ?qs \<noteq> {}" using sub False by auto
    then obtain lim where lim: "unhealthy_limit (he_ext env) (hcs_mhc s) (int (length (watched machines))) = Some lim"
        "int (card (remediated machines ?qs)) \<le> lim" using sc unfolding short_circuited_def by blast
    ultimately have "int (length (deleted rs)) \<le> lim" by linarith
    moreover have "length (deleted rs) = length del" using d by simp
    moreover have found: "\<forall>n \<in> set (deleted rs). \<exists>t. m_Name (ht_Machine t) = n \<and> found_unhealthy env cluster (hcs_mhc s) machines 0 ?qs t"
      using sc sub unfolding short_circuited_def by blast
    ultimately show ?thesis using rs(1,2) dist del(3) lim(1) False found [unfolded found_unhealthy_def]
      by (intro exI [of _ rs] conjI) (simp_all add: Bex_def)
  qed
qed

theorem remediation_end_to_end_witness:
  "\<exists>r s' r' w'. mhc_reconcile sample_henv sample_health_cluster sample_mhc_state = (r, s') \<and>
     reconcileUnhealthyMachines sample_env
       (sample_scope (sample_set OldestMachineSetDeletePolicy 2) (apply_patches sample_listing (hcs_requests s'))) = (r', w') \<and>
     creates (sc_requests w') = 0 \<and> length (deleted (sc_requests w')) \<le> 1"
proof -
  let ?s = sample_mhc_state
  obtain r s' where e: "mhc_reconcile sample_henv sample_health_cluster ?s = (r, s')" by fastforce
  let ?w = "sample_scope (sample_set OldestMachineSetDeletePolicy 2) (apply_patches sample_listing (hcs_requests s'))"
  obtain r' w' where e': "reconcileUnhealthyMachines sample_env ?w = (r', w')" by fastforce
  have s: "hcs_requests ?s = []" "hcs_mhc ?s = sample_mhc" by (simp_all add: sample_mhc_state_def)
  have w: "set (sc_machines ?w) \<subseteq> set (apply_patches sample_listing (hcs_requests s'))" "sc_adopted ?w" "sc_requests ?w = []"
      "distinct (map m_Name (sc_machines ?w))" "mset (en_Order sample_env xs) = mset xs" for xs
    using sample_listing_ok(1) by (simp_all add: sample_scope_def sample_env_def apply_patches_names listing_ok_def)
  from remediation_end_to_end [OF e sample_henv_list sample_listing_ok(1) s(1) sample_listing_ok(2) e' w(1,2,4,5)]
  have "creates (sc_requests w') = 0 \<and> length (deleted (sc_requests w')) \<le> 1" unfolding s w(3) sample_limit by auto
  then show ?thesis using e e' by blast
qed

end
